(* ===== verification/Prelude.thy ===== *)
theory Prelude
  imports
    "HOL-Library.Char_ord"
    "HOL-Library.List_Lexorder"
begin

text \<open>
  Shared vocabulary of the development: Python text as lists of characters, Python
  dictionaries as association lists that keep insertion order, the exceptions that the
  modelled code lets escape, and the result type of a call that may raise.

  A Python \<open>str\<close> is a \<^typ>\<open>string\<close> whose characters are the code points U+0000 to
  U+00FF, so that the character classes below are the ones of \<open>str.isspace\<close>,
  \<open>str.isalnum\<close>, \<open>str.lower\<close> and \<open>re\<close> on that range.
\<close>

named_theorems text_simps \<open>unfoldings of the text operations, for evaluating concrete strings\<close>
named_theorems dict_laws \<open>the laws of the dictionary operations\<close>

section \<open>Exceptions and results\<close>

text \<open>
  \<open>OutsideModel\<close> is not a Python exception: it marks an input that needs a character beyond
  U+00FF, on which the model makes no statement.
\<close>

datatype exn = JSONDecodeError | ValueError string | TypeError | OutsideModel

type_synonym 'a result = "exn + 'a"

definition raises_value_error :: "exn \<Rightarrow> bool" where
  "raises_value_error e \<longleftrightarrow> e \<noteq> OutsideModel \<and> e \<noteq> TypeError"

text \<open>Sequencing: the first error ends the computation.\<close>

definition bind :: "'x + 'a \<Rightarrow> ('a \<Rightarrow> 'x + 'b) \<Rightarrow> 'x + 'b" where
  "bind m f = (case m of Inl e \<Rightarrow> Inl e | Inr v \<Rightarrow> f v)"

lemma bind_simps [simp]: "bind (Inl e) f = Inl e" "bind (Inr v) f = f v"
  by (simp_all add: bind_def)

lemma bind_Inr_iff: "bind m f = Inr w \<longleftrightarrow> (\<exists>v. m = Inr v \<and> f v = Inr w)"
  by (cases m) simp_all

lemma bind_Inl_iff: "bind m f = Inl e \<longleftrightarrow> m = Inl e \<or> (\<exists>v. m = Inr v \<and> f v = Inl e)"
  by (cases m) simp_all

lemma bind_cong [fundef_cong]:
  "m = m' \<Longrightarrow> (\<And>v. m' = Inr v \<Longrightarrow> f v = f' v) \<Longrightarrow> bind m f = bind m' f'"
  by (cases m') simp_all

section \<open>Characters\<close>

abbreviation ord_of :: "char \<Rightarrow> nat" where
  "ord_of c \<equiv> of_char c"

definition is_space :: "char \<Rightarrow> bool" where
  "is_space c = (let n = ord_of c in
     (9 \<le> n \<and> n \<le> 13) \<or> (28 \<le> n \<and> n \<le> 32) \<or> n = 133 \<or> n = 160)"

definition is_digit :: "char \<Rightarrow> bool" where
  "is_digit c = (48 \<le> ord_of c \<and> ord_of c \<le> 57)"

definition is_alnum :: "char \<Rightarrow> bool" where
  "is_alnum c = (let n = ord_of c in
     (48 \<le> n \<and> n \<le> 57) \<or> (65 \<le> n \<and> n \<le> 90) \<or> (97 \<le> n \<and> n \<le> 122)
     \<or> n = 170 \<or> n = 178 \<or> n = 179 \<or> n = 181 \<or> n = 185 \<or> n = 186
     \<or> (188 \<le> n \<and> n \<le> 190) \<or> (192 \<le> n \<and> n \<noteq> 215 \<and> n \<noteq> 247))"

definition is_word :: "char \<Rightarrow> bool" where
  "is_word c = (is_alnum c \<or> c = CHR ''_'')"

definition lower_char :: "char \<Rightarrow> char" where
  "lower_char c = (let n = ord_of c in
     if (65 \<le> n \<and> n \<le> 90) \<or> (192 \<le> n \<and> n \<le> 222 \<and> n \<noteq> 215) then char_of (n + 32) else c)"

lemmas char_class_defs [text_simps] =
  is_space_def is_digit_def is_alnum_def is_word_def lower_char_def

section \<open>Text\<close>

definition lower :: "string \<Rightarrow> string" where
  "lower s = map lower_char s"

definition lstrip :: "string \<Rightarrow> string" where
  "lstrip s = dropWhile is_space s"

definition rstrip :: "string \<Rightarrow> string" where
  "rstrip s = rev (dropWhile is_space (rev s))"

definition strip :: "string \<Rightarrow> string" where
  "strip s = rstrip (lstrip s)"

text \<open>U+00B5 folds to U+03BC, outside the range; it stands for its own fold.\<close>

definition casefold :: "string \<Rightarrow> string" where
  "casefold s = concat (map (\<lambda>c. if ord_of c = 223 then ''ss'' else [lower_char c]) s)"

fun starts_with :: "string \<Rightarrow> string \<Rightarrow> bool" where
  "starts_with [] s = True"
| "starts_with (p # ps) [] = False"
| "starts_with (p # ps) (c # cs) = (p = c \<and> starts_with ps cs)"

definition ends_with :: "string \<Rightarrow> string \<Rightarrow> bool" where
  "ends_with p s = starts_with (rev p) (rev s)"

fun contains :: "string \<Rightarrow> string \<Rightarrow> bool" where
  "contains p [] = (p = [])"
| "contains p (c # cs) = (starts_with p (c # cs) \<or> contains p cs)"

fun split_on :: "char \<Rightarrow> string \<Rightarrow> string list" where
  "split_on d [] = [[]]"
| "split_on d (c # cs) =
     (if c = d then [] # split_on d cs
      else (case split_on d cs of [] \<Rightarrow> [[c]] | w # ws \<Rightarrow> (c # w) # ws))"

fun join :: "string \<Rightarrow> string list \<Rightarrow> string" where
  "join sep [] = []"
| "join sep [w] = w"
| "join sep (w # ws) = w @ sep @ join sep ws"

lemmas text_defs [text_simps] =
  lower_def lstrip_def rstrip_def strip_def casefold_def ends_with_def

lemma starts_with_iff: "starts_with p s \<longleftrightarrow> (\<exists>t. s = p @ t)"
  by (induction p s rule: starts_with.induct) auto

lemma starts_with_append [simp]: "starts_with p (p @ t)"
  by (auto simp: starts_with_iff)

lemma ends_with_append [simp]: "ends_with p (t @ p)"
  by (simp add: ends_with_def)

lemma contains_iff: "contains p s \<longleftrightarrow> (\<exists>u v. s = u @ p @ v)"
proof (induction s)
  case Nil
  then show ?case by auto
next
  case (Cons c cs)
  show ?case
  proof
    assume "contains p (c # cs)"
    then consider "starts_with p (c # cs)" | "contains p cs" by auto
    then show "\<exists>u v. c # cs = u @ p @ v"
    proof cases
      case 1
      then obtain t where "c # cs = p @ t" by (auto simp: starts_with_iff)
      then have "c # cs = [] @ p @ t" by simp
      then show ?thesis by blast
    next
      case 2
      then obtain u v where "cs = u @ p @ v" using Cons.IH by blast
      then have "c # cs = (c # u) @ p @ v" by simp
      then show ?thesis by blast
    qed
  next
    assume "\<exists>u v. c # cs = u @ p @ v"
    then obtain u v where e: "c # cs = u @ p @ v" by blast
    show "contains p (c # cs)"
    proof (cases u)
      case Nil
      with e have "starts_with p (c # cs)" by (auto simp: starts_with_iff)
      then show ?thesis by simp
    next
      case (Cons d u')
      with e have "cs = u' @ p @ v" by simp
      then have "contains p cs" using Cons.IH by blast
      then show ?thesis by simp
    qed
  qed
qed

section \<open>Decimal numerals\<close>

fun dec_digits :: "nat \<Rightarrow> string" where
  "dec_digits n =
     (if n < 10 then [char_of (48 + n)] else dec_digits (n div 10) @ [char_of (48 + n mod 10)])"

declare dec_digits.simps [simp del]

definition dec_value :: "string \<Rightarrow> nat" where
  "dec_value ds = foldl (\<lambda>a c. 10 * a + (ord_of c - 48)) 0 ds"

definition int_text :: "int \<Rightarrow> string" where
  "int_text i = (if i < 0 then CHR ''-'' # dec_digits (nat (- i)) else dec_digits (nat i))"

lemma ord_digit: "d < 10 \<Longrightarrow> ord_of (char_of (48 + d :: nat) :: char) = 48 + d"
  by simp

lemma is_digit_char_of [simp]: "(d :: nat) < 10 \<Longrightarrow> is_digit (char_of (48 + d))"
  by (simp add: is_digit_def)

lemma dec_digits_are_digits: "c \<in> set (dec_digits n) \<Longrightarrow> is_digit c"
proof (induction n rule: dec_digits.induct)
  case (1 n)
  then show ?case
    by (subst (asm) dec_digits.simps) (auto split: if_splits)
qed

lemma dec_digits_nonempty [simp]: "dec_digits n \<noteq> []"
  by (subst dec_digits.simps) simp

lemma dec_value_snoc [simp]: "dec_value (ds @ [c]) = 10 * dec_value ds + (ord_of c - 48)"
  by (simp add: dec_value_def)

lemma dec_value_Nil [simp]: "dec_value [] = 0"
  by (simp add: dec_value_def)

lemma dec_value_digits [simp]: "dec_value (dec_digits n) = n"
proof (induction n rule: dec_digits.induct)
  case (1 n)
  show ?case
  proof (cases "n < 10")
    case True
    then show ?thesis by (subst dec_digits.simps) (simp add: dec_value_def)
  next
    case False
    with 1 show ?thesis by (subst dec_digits.simps) simp
  qed
qed

lemma dec_digits_small: "n < 10 \<Longrightarrow> dec_digits n = [char_of (48 + n)]"
  by (subst dec_digits.simps) simp

lemma hd_dec_digits_nonzero: "0 < n \<Longrightarrow> hd (dec_digits n) \<noteq> CHR ''0''"
proof (induction n rule: dec_digits.induct)
  case (1 n)
  show ?case
  proof (cases "n < 10")
    case True
    have "(ord_of (char_of (48 + n) :: char) :: nat) \<noteq> ord_of CHR ''0''"
      using True 1(2) by simp
    then have "(char_of (48 + n) :: char) \<noteq> CHR ''0''" by metis
    with True show ?thesis by (simp add: dec_digits_small)
  next
    case False
    with 1(1) have "hd (dec_digits (n div 10)) \<noteq> CHR ''0''" by simp
    with False show ?thesis by (subst dec_digits.simps) (simp add: hd_append)
  qed
qed

lemma dec_digits_zero [simp]: "dec_digits 0 = ''0''"
  by code_simp

lemma dec_digits_inj [simp]: "dec_digits m = dec_digits n \<longleftrightarrow> m = n"
  by (metis dec_value_digits)

section \<open>Dictionaries\<close>

text \<open>
  A Python dictionary is the list of its items in insertion order, with distinct keys.
  Assigning an existing key keeps its position, as Python does; popping removes the item.
\<close>

type_synonym ('k, 'v) dict = "('k \<times> 'v) list"

definition dget :: "('k, 'v) dict \<Rightarrow> 'k \<Rightarrow> 'v option" where
  "dget d k = map_of d k"

fun dset :: "('k, 'v) dict \<Rightarrow> 'k \<Rightarrow> 'v \<Rightarrow> ('k, 'v) dict" where
  "dset [] k v = [(k, v)]"
| "dset ((k', v') # d) k v = (if k' = k then (k, v) # d else (k', v') # dset d k v)"

definition dpop :: "('k, 'v) dict \<Rightarrow> 'k \<Rightarrow> ('k, 'v) dict" where
  "dpop d k = filter (\<lambda>kv. fst kv \<noteq> k) d"

definition dkeys :: "('k, 'v) dict \<Rightarrow> 'k list" where
  "dkeys d = map fst d"

definition dhas :: "('k, 'v) dict \<Rightarrow> 'k \<Rightarrow> bool" where
  "dhas d k = (k \<in> set (dkeys d))"

definition dict_ok :: "('k, 'v) dict \<Rightarrow> bool" where
  "dict_ok d = distinct (dkeys d)"

definition dict_of :: "('k \<times> 'v) list \<Rightarrow> ('k, 'v) dict" where
  "dict_of kvs = foldl (\<lambda>d kv. dset d (fst kv) (snd kv)) [] kvs"

text \<open>
  The interface the components use a dictionary through: the provider promises what a
  lookup returns after an update, and that every operation keeps the keys distinct.
\<close>

locale dictionary =
  fixes lookup :: "'m \<Rightarrow> 'k \<Rightarrow> 'v option"
    and store :: "'m \<Rightarrow> 'k \<Rightarrow> 'v \<Rightarrow> 'm"
    and discard :: "'m \<Rightarrow> 'k \<Rightarrow> 'm"
    and keys :: "'m \<Rightarrow> 'k list"
    and ok :: "'m \<Rightarrow> bool"
    and nil :: "'m"
  assumes lookup_nil: "lookup nil k = None"
    and lookup_store: "lookup (store m k v) k' = (if k' = k then Some v else lookup m k')"
    and lookup_discard: "lookup (discard m k) k' = (if k' = k then None else lookup m k')"
    and keys_lookup: "k \<in> set (keys m) \<longleftrightarrow> lookup m k \<noteq> None"
    and ok_nil: "ok nil"
    and ok_store: "ok m \<Longrightarrow> ok (store m k v)"
    and ok_discard: "ok m \<Longrightarrow> ok (discard m k)"
    and ok_keys: "ok m \<Longrightarrow> distinct (keys m)"
begin

lemma lookup_store_same: "lookup (store m k v) k = Some v"
  by (simp add: lookup_store)

lemma lookup_discard_same: "lookup (discard m k) k = None"
  by (simp add: lookup_discard)

lemma set_keys_store: "set (keys (store m k v)) = insert k (set (keys m))"
  by (auto simp: keys_lookup lookup_store split: if_splits)

lemma set_keys_discard: "set (keys (discard m k)) = set (keys m) - {k}"
  by (auto simp: keys_lookup lookup_discard split: if_splits)

lemma keys_nil: "keys nil = []"
proof -
  have "set (keys nil) = {}" by (rule equals0I) (simp add: keys_lookup lookup_nil)
  then show ?thesis by (simp only: set_empty)
qed

lemma discard_store_lookup:
  "lookup m k = None \<Longrightarrow> lookup (discard (store m k v) k) = lookup m"
  by (auto simp: fun_eq_iff lookup_store lookup_discard)

lemma ok_foldl_store:
  "ok m \<Longrightarrow> ok (foldl (\<lambda>d kv. store d (fst kv) (snd kv)) m kvs)"
  by (induction kvs arbitrary: m) (auto intro: ok_store)

end

lemma dget_dset: "dget (dset d k v) k' = (if k' = k then Some v else dget d k')"
  by (induction d k v rule: dset.induct) (auto simp: dget_def)

lemma dkeys_dset: "dkeys (dset d k v) = (if k \<in> set (dkeys d) then dkeys d else dkeys d @ [k])"
  by (induction d k v rule: dset.induct) (auto simp: dkeys_def)

lemma dget_dpop: "dget (dpop d k) k' = (if k' = k then None else dget d k')"
  by (induction d) (auto simp: dget_def dpop_def)

lemma dkeys_dpop: "dkeys (dpop d k) = filter (\<lambda>k'. k' \<noteq> k) (dkeys d)"
  by (simp add: dkeys_def dpop_def filter_map o_def)

lemma dkeys_dget: "k \<in> set (dkeys d) \<longleftrightarrow> dget d k \<noteq> None"
  by (simp add: dkeys_def dget_def map_of_eq_None_iff)

interpretation py: dictionary dget dset dpop dkeys dict_ok "[]"
  by unfold_locales
    (auto simp: dget_dset dget_dpop dkeys_dget dict_ok_def dkeys_dset dkeys_dpop,
      simp_all add: dget_def dkeys_def)

lemmas dict_simps [dict_laws] =
  dget_dset dget_dpop py.set_keys_store py.set_keys_discard py.ok_store py.ok_discard
  py.keys_nil py.lookup_nil py.ok_nil

lemma dhas_dget: "dhas d k \<longleftrightarrow> dget d k \<noteq> None"
  by (simp add: dhas_def dkeys_dget)

lemma dict_ok_dict_of [simp]: "dict_ok (dict_of kvs)"
  unfolding dict_of_def by (rule py.ok_foldl_store) (rule py.ok_nil)

lemma dict_of_distinct_append:
  "distinct (map fst (d @ kvs)) \<Longrightarrow> foldl (\<lambda>d kv. dset d (fst kv) (snd kv)) d kvs = d @ kvs"
proof (induction kvs arbitrary: d)
  case Nil
  then show ?case by simp
next
  case (Cons kv kvs)
  have fresh: "dset d (fst kv) (snd kv) = d @ [kv]" if "fst kv \<notin> set (map fst d)" for d
    using that by (induction d "fst kv" "snd kv" rule: dset.induct) auto
  from Cons.prems have "dset d (fst kv) (snd kv) = d @ [kv]" by (intro fresh) auto
  with Cons.IH [of "d @ [kv]"] Cons.prems show ?case by simp
qed

lemma dict_of_distinct [simp]: "distinct (map fst kvs) \<Longrightarrow> dict_of kvs = kvs"
  using dict_of_distinct_append [of "[]" kvs] by (simp add: dict_of_def)

section \<open>Loops that may stop with an error\<close>

text \<open>
  A Python \<open>for\<close> loop whose body updates a state and may raise: the first error ends it.
\<close>

fun run_steps :: "('s \<Rightarrow> 'e \<Rightarrow> 'x + 's) \<Rightarrow> 's \<Rightarrow> 'e list \<Rightarrow> 'x + 's" where
  "run_steps step s [] = Inr s"
| "run_steps step s (e # es) =
     (case step s e of Inl x \<Rightarrow> Inl x | Inr s' \<Rightarrow> run_steps step s' es)"

lemma run_steps_append:
  "run_steps step s (es @ fs) =
     (case run_steps step s es of Inl x \<Rightarrow> Inl x | Inr s' \<Rightarrow> run_steps step s' fs)"
  by (induction es arbitrary: s) (auto split: sum.splits)

lemma run_steps_snoc:
  "run_steps step s (es @ [e]) =
     (case run_steps step s es of Inl x \<Rightarrow> Inl x | Inr s' \<Rightarrow> step s' e)"
  by (simp add: run_steps_append split: sum.splits)

text \<open>
  The interface of such a loop body: it keeps an invariant. The loop then keeps it, and a
  quantity that no step lets decrease does not decrease over the loop.
\<close>

locale invariant_loop =
  fixes step :: "'s \<Rightarrow> 'e \<Rightarrow> 'x + 's"
    and inv :: "'s \<Rightarrow> bool"
  assumes step_inv: "inv s \<Longrightarrow> step s e = Inr s' \<Longrightarrow> inv s'"
begin

lemma run_inv: "inv s \<Longrightarrow> run_steps step s es = Inr s' \<Longrightarrow> inv s'"
  by (induction es arbitrary: s) (auto split: sum.splits intro: step_inv)

lemma run_mono:
  fixes m :: "'s \<Rightarrow> nat"
  assumes "\<And>s e s'. inv s \<Longrightarrow> step s e = Inr s' \<Longrightarrow> m s \<le> m s'"
  shows "inv s \<Longrightarrow> run_steps step s es = Inr s' \<Longrightarrow> m s \<le> m s'"
proof (induction es arbitrary: s)
  case Nil
  then show ?case by simp
next
  case (Cons e es)
  then obtain t where t: "step s e = Inr t" "run_steps step t es = Inr s'"
    by (auto split: sum.splits)
  with Cons assms [of s e t] step_inv [of s e t] show ?case by (auto intro: order_trans)
qed

end

end
