(* ===== verification/Json.thy ===== *)
theory Json
  imports Prelude
begin

text \<open>
  JSON values as Python's \<open>json\<close> module delivers them, \<open>json.loads\<close> and \<open>json.dumps\<close>.
  The scanner follows the standard library: whitespace is blank, tab, line feed and carriage
  return; control characters are not allowed in strings; \<open>NaN\<close>, \<open>Infinity\<close> and
  \<open>-Infinity\<close> are constants; a literal with a fraction or an exponent is a float, any other
  an integer; the last binding of a repeated key wins, at the place of the first; an integer
  literal of more than 4300 digits raises \<open>ValueError\<close> (Python's conversion limit), which
  is not a \<open>JSONDecodeError\<close>. With \<open>strict\<close> set the two hooks of the projection parser
  are installed, which raise \<open>ValueError\<close> on a repeated key and on a non-finite constant.

  A finite float is kept as its decimal value, sign, mantissa and power of ten, the mantissa
  not divisible by ten. This is what \<open>repr\<close> prints for literals of at most 15 significant
  digits in the range of binary64; rounding of longer literals is not modelled.
\<close>

datatype pyfloat = FDec bool nat int | FPosInf | FNegInf | FNaN

datatype json =
    JNull
  | JBool bool
  | JInt int
  | JFloat pyfloat
  | JStr string
  | JArr "json list"
  | JObj "(string \<times> json) list"

type_synonym jobject = "(string, json) dict"

section \<open>Python's view of a decoded value\<close>

fun is_str :: "json \<Rightarrow> bool" where
  "is_str (JStr s) = True" | "is_str _ = False"

fun is_list :: "json \<Rightarrow> bool" where
  "is_list (JArr vs) = True" | "is_list _ = False"

fun is_dict :: "json \<Rightarrow> bool" where
  "is_dict (JObj d) = True" | "is_dict _ = False"

fun is_bool :: "json \<Rightarrow> bool" where
  "is_bool (JBool b) = True" | "is_bool _ = False"

fun is_int :: "json \<Rightarrow> bool" where
  "is_int (JInt i) = True" | "is_int _ = False"

fun is_float :: "json \<Rightarrow> bool" where
  "is_float (JFloat f) = True" | "is_float _ = False"

fun float_zero :: "pyfloat \<Rightarrow> bool" where
  "float_zero (FDec neg m e) = (m = 0)"
| "float_zero _ = False"

fun truthy :: "json \<Rightarrow> bool" where
  "truthy JNull = False"
| "truthy (JBool b) = b"
| "truthy (JInt i) = (i \<noteq> 0)"
| "truthy (JFloat f) = (\<not> float_zero f)"
| "truthy (JStr s) = (s \<noteq> [])"
| "truthy (JArr vs) = (vs \<noteq> [])"
| "truthy (JObj d) = (d \<noteq> [])"

definition get_or :: "jobject \<Rightarrow> string \<Rightarrow> json \<Rightarrow> json" where
  "get_or d k v = (case dget d k of None \<Rightarrow> v | Some w \<Rightarrow> w)"

text \<open>\<open>d.get(k)\<close>: a missing key reads as \<open>None\<close>.\<close>

definition get :: "jobject \<Rightarrow> string \<Rightarrow> json" where
  "get d k = get_or d k JNull"

section \<open>Scanner\<close>

definition skip_ws :: "string \<Rightarrow> string" where
  "skip_ws s = dropWhile (\<lambda>c. ord_of c \<in> {32, 9, 10, 13 :: nat}) s"

definition hex_value :: "char \<Rightarrow> nat option" where
  "hex_value c = (let n = ord_of c in
     if 48 \<le> n \<and> n \<le> 57 then Some (n - 48)
     else if 97 \<le> n \<and> n \<le> 102 then Some (n - 87)
     else if 65 \<le> n \<and> n \<le> 70 then Some (n - 55) else None)"

definition hex4 :: "char \<Rightarrow> char \<Rightarrow> char \<Rightarrow> char \<Rightarrow> nat option" where
  "hex4 a b c d =
     (case (hex_value a, hex_value b, hex_value c, hex_value d) of
       (Some w, Some x, Some y, Some z) \<Rightarrow> Some (((w * 16 + x) * 16 + y) * 16 + z)
     | _ \<Rightarrow> None)"

abbreviation quote :: char where "quote \<equiv> CHR 0x22"
abbreviation backslash :: char where "backslash \<equiv> CHR 0x5C"

definition simple_escape :: "char \<Rightarrow> char option" where
  "simple_escape e = map_of
     [(quote, quote), (backslash, backslash), (CHR ''/'', CHR ''/''), (CHR ''b'', CHR 0x08),
      (CHR ''f'', CHR 0x0C), (CHR ''n'', CHR 0x0A), (CHR ''r'', CHR 0x0D), (CHR ''t'', CHR 0x09)] e"

fun push_char :: "char \<Rightarrow> (string \<times> string) result \<Rightarrow> (string \<times> string) result" where
  "push_char c (Inl e) = Inl e"
| "push_char c (Inr (s, r)) = Inr (c # s, r)"

fun scan_string :: "string \<Rightarrow> (string \<times> string) result" where
  "scan_string [] = Inl JSONDecodeError"
| "scan_string (c # cs) =
     (if c = quote then Inr ([], cs)
      else if c = backslash then
        (case cs of [] \<Rightarrow> Inl JSONDecodeError
         | e # r \<Rightarrow>
           (if e = CHR ''u'' then
              (case r of w # x # y # z # r' \<Rightarrow>
                 (case hex4 w x y z of None \<Rightarrow> Inl JSONDecodeError
                  | Some n \<Rightarrow> (if n < 256 then push_char (char_of n) (scan_string r')
                              else Inl OutsideModel))
               | _ \<Rightarrow> Inl JSONDecodeError)
            else (case simple_escape e of None \<Rightarrow> Inl JSONDecodeError
                  | Some d \<Rightarrow> push_char d (scan_string r))))
      else if ord_of c < (32 :: nat) then Inl JSONDecodeError
      else push_char c (scan_string cs))"

fun strip_tens :: "nat \<Rightarrow> nat \<Rightarrow> int \<Rightarrow> nat \<times> int" where
  "strip_tens 0 m e = (m, e)"
| "strip_tens (Suc n) m e = (if m mod 10 = 0 then strip_tens n (m div 10) (e + 1) else (m, e))"

text \<open>The canonical decimal of \<open>m * 10 ^ e\<close>; a zero has exponent zero.\<close>

definition mk_dec :: "bool \<Rightarrow> nat \<Rightarrow> int \<Rightarrow> pyfloat" where
  "mk_dec neg m e =
     (if m = 0 then FDec neg 0 0 else (case strip_tens m m e of (m', e') \<Rightarrow> FDec neg m' e'))"

definition int_digit_limit :: nat where "int_digit_limit = 4300"

definition scan_exponent :: "string \<Rightarrow> (int \<times> string) option" where
  "scan_exponent s =
     (case s of [] \<Rightarrow> None
      | c # r \<Rightarrow>
        (if c = CHR ''e'' \<or> c = CHR ''E'' then
           (let (neg, r1) = (case r of [] \<Rightarrow> (False, r)
                   | sg # r' \<Rightarrow> if sg = CHR ''-'' then (True, r')
                              else if sg = CHR ''+'' then (False, r') else (False, r));
                ds = takeWhile is_digit r1
            in if ds = [] then None
               else Some ((if neg then - int (dec_value ds) else int (dec_value ds)),
                          dropWhile is_digit r1))
         else None))"

definition scan_fraction :: "string \<Rightarrow> string \<times> string" where
  "scan_fraction s =
     (case s of d # f # r \<Rightarrow>
        (if d = CHR ''.'' \<and> is_digit f
         then (takeWhile is_digit (f # r), dropWhile is_digit (f # r)) else ([], s))
      | _ \<Rightarrow> ([], s))"

definition scan_int_part :: "string \<Rightarrow> (string \<times> string) option" where
  "scan_int_part s =
     (case s of [] \<Rightarrow> None
      | c # r \<Rightarrow> (if c = CHR ''0'' then Some ([c], r)
                 else if is_digit c then Some (takeWhile is_digit s, dropWhile is_digit s)
                 else None))"

definition scan_sign :: "string \<Rightarrow> bool \<times> string" where
  "scan_sign s = (case s of [] \<Rightarrow> (False, s)
     | c # r \<Rightarrow> if c = CHR ''-'' then (True, r) else (False, s))"

definition scan_number :: "string \<Rightarrow> (json \<times> string) result" where
  "scan_number s =
     (let (neg, s1) = scan_sign s in
      case scan_int_part s1 of None \<Rightarrow> Inl JSONDecodeError
      | Some (ip, s2) \<Rightarrow>
        (let (fr, s3) = scan_fraction s2 in
         case scan_exponent s3 of
           Some (ex, s4) \<Rightarrow> Inr (JFloat (mk_dec neg (dec_value (ip @ fr)) (ex - int (length fr))), s4)
         | None \<Rightarrow>
           (if fr \<noteq> [] then Inr (JFloat (mk_dec neg (dec_value (ip @ fr)) (- int (length fr))), s3)
            else if int_digit_limit < length ip then Inl (ValueError ''int_digits'')
            else Inr (JInt (if neg then - int (dec_value ip) else int (dec_value ip)), s3))))"

definition scan_constant :: "bool \<Rightarrow> string \<Rightarrow> (json \<times> string) option result" where
  "scan_constant strict s =
     (if starts_with ''null'' s then Inr (Some (JNull, drop 4 s))
      else if starts_with ''true'' s then Inr (Some (JBool True, drop 4 s))
      else if starts_with ''false'' s then Inr (Some (JBool False, drop 5 s))
      else if starts_with ''NaN'' s then
        (if strict then Inl (ValueError ''nonfinite'') else Inr (Some (JFloat FNaN, drop 3 s)))
      else if starts_with ''Infinity'' s then
        (if strict then Inl (ValueError ''nonfinite'') else Inr (Some (JFloat FPosInf, drop 8 s)))
      else if starts_with ''-Infinity'' s then
        (if strict then Inl (ValueError ''nonfinite'') else Inr (Some (JFloat FNegInf, drop 9 s)))
      else Inr None)"

definition mk_object :: "bool \<Rightarrow> (string \<times> json) list \<Rightarrow> json result" where
  "mk_object strict kvs =
     (if strict then (if distinct (map fst kvs) then Inr (JObj kvs) else Inl (ValueError ''duplicate''))
      else Inr (JObj (dict_of kvs)))"

text \<open>
  The three scanners call each other; the first argument bounds the depth of calls and is
  \<open>2 * length\<close> of the text at the top (\<open>scan_fuel_enough\<close> shows that more changes nothing).
\<close>

fun scan_value :: "nat \<Rightarrow> bool \<Rightarrow> string \<Rightarrow> (json \<times> string) result"
  and scan_elements :: "nat \<Rightarrow> bool \<Rightarrow> string \<Rightarrow> (json list \<times> string) result"
  and scan_members :: "nat \<Rightarrow> bool \<Rightarrow> string \<Rightarrow> ((string \<times> json) list \<times> string) result"
where
  "scan_value 0 strict s = Inl JSONDecodeError"
| "scan_value (Suc n) strict [] = Inl JSONDecodeError"
| "scan_value (Suc n) strict (c # cs) =
     (if c = quote then
        (case scan_string cs of Inl e \<Rightarrow> Inl e | Inr (t, r) \<Rightarrow> Inr (JStr t, r))
      else if c = CHR ''{'' then
        (if starts_with ''}'' (skip_ws cs) then Inr (JObj [], drop 1 (skip_ws cs))
         else (case scan_members n strict (skip_ws cs) of Inl e \<Rightarrow> Inl e
               | Inr (kvs, r) \<Rightarrow>
                 (case mk_object strict kvs of Inl e \<Rightarrow> Inl e | Inr v \<Rightarrow> Inr (v, r))))
      else if c = CHR ''['' then
        (if starts_with '']'' (skip_ws cs) then Inr (JArr [], drop 1 (skip_ws cs))
         else (case scan_elements n strict (skip_ws cs) of Inl e \<Rightarrow> Inl e
               | Inr (vs, r) \<Rightarrow> Inr (JArr vs, r)))
      else (case scan_constant strict (c # cs) of Inl e \<Rightarrow> Inl e
            | Inr (Some vr) \<Rightarrow> Inr vr
            | Inr None \<Rightarrow> scan_number (c # cs)))"
| "scan_elements 0 strict s = Inl JSONDecodeError"
| "scan_elements (Suc n) strict s =
     (case scan_value n strict s of Inl e \<Rightarrow> Inl e
      | Inr (v, r) \<Rightarrow>
        (case skip_ws r of [] \<Rightarrow> Inl JSONDecodeError
         | d # r' \<Rightarrow>
           (if d = CHR '']'' then Inr ([v], r')
            else if d = CHR '','' then
              (case scan_elements n strict (skip_ws r') of Inl e \<Rightarrow> Inl e
               | Inr (vs, r'') \<Rightarrow> Inr (v # vs, r''))
            else Inl JSONDecodeError)))"
| "scan_members 0 strict s = Inl JSONDecodeError"
| "scan_members (Suc n) strict s =
     (case s of [] \<Rightarrow> Inl JSONDecodeError
      | q # cs \<Rightarrow>
        (if q \<noteq> quote then Inl JSONDecodeError
         else (case scan_string cs of Inl e \<Rightarrow> Inl e
               | Inr (k, r) \<Rightarrow>
                 (case skip_ws r of [] \<Rightarrow> Inl JSONDecodeError
                  | d # r1 \<Rightarrow>
                    (if d \<noteq> CHR '':'' then Inl JSONDecodeError
                     else (case scan_value n strict (skip_ws r1) of Inl e \<Rightarrow> Inl e
                           | Inr (v, r2) \<Rightarrow>
                             (case skip_ws r2 of [] \<Rightarrow> Inl JSONDecodeError
                              | d' # r3 \<Rightarrow>
                                (if d' = CHR ''}'' then Inr ([(k, v)], r3)
                                 else if d' = CHR '','' then
                                   (case scan_members n strict (skip_ws r3) of Inl e \<Rightarrow> Inl e
                                    | Inr (kvs, r4) \<Rightarrow> Inr ((k, v) # kvs, r4))
                                 else Inl JSONDecodeError))))))))"

definition loads_with :: "bool \<Rightarrow> string \<Rightarrow> json result" where
  "loads_with strict s =
     (case scan_value (2 * length s) strict (skip_ws s) of Inl e \<Rightarrow> Inl e
      | Inr (v, r) \<Rightarrow> (if skip_ws r = [] then Inr v else Inl JSONDecodeError))"

definition json_loads :: "string \<Rightarrow> json result" where
  "json_loads s = loads_with False s"

section \<open>Printer\<close>

definition hex_digit :: "nat \<Rightarrow> char" where
  "hex_digit n = (if n < 10 then char_of (48 + n) else char_of (87 + n))"

definition escape_char :: "bool \<Rightarrow> char \<Rightarrow> string" where
  "escape_char ascii c =
     (if c = quote then [backslash, quote]
      else if c = backslash then [backslash, backslash]
      else if c = CHR 0x0A then [backslash, CHR ''n'']
      else if c = CHR 0x0D then [backslash, CHR ''r'']
      else if c = CHR 0x09 then [backslash, CHR ''t'']
      else if c = CHR 0x0C then [backslash, CHR ''f'']
      else if c = CHR 0x08 then [backslash, CHR ''b'']
      else if ord_of c < (32 :: nat) \<or> (ascii \<and> (126 :: nat) < ord_of c)
        then [backslash, CHR ''u'', CHR ''0'', CHR ''0'',
              hex_digit (ord_of c div 16), hex_digit (ord_of c mod 16)]
      else [c])"

definition quote_string :: "bool \<Rightarrow> string \<Rightarrow> string" where
  "quote_string ascii s = quote # concat (map (escape_char ascii) s) @ [quote]"

definition zeros :: "nat \<Rightarrow> string" where "zeros n = replicate n (CHR ''0'')"

text \<open>\<open>repr\<close> of a finite float: fixed notation while the decimal point stands between the
  fourth place before the digits and the sixteenth after the first, scientific otherwise.\<close>

definition exponent_text :: "int \<Rightarrow> string" where
  "exponent_text x =
     (if x < 0 then CHR ''-'' else CHR ''+'')
     # (let ds = dec_digits (nat (abs x)) in if length ds < 2 then CHR ''0'' # ds else ds)"

definition decimal_text :: "nat \<Rightarrow> int \<Rightarrow> string" where
  "decimal_text m e =
     (let ds = dec_digits m; n = int (length ds); k = n + e in
      if m = 0 then ''0.0''
      else if k \<le> -4 \<or> 16 < k then
        hd ds # (if tl ds = [] then [] else CHR ''.'' # tl ds) @ CHR ''e'' # exponent_text (k - 1)
      else if k \<le> 0 then ''0.'' @ zeros (nat (- k)) @ ds
      else if n \<le> k then ds @ zeros (nat (k - n)) @ ''.0''
      else take (nat k) ds @ CHR ''.'' # drop (nat k) ds)"

fun float_text :: "pyfloat \<Rightarrow> string" where
  "float_text (FDec neg m e) = (if neg then CHR ''-'' # decimal_text m e else decimal_text m e)"
| "float_text FPosInf = ''Infinity''"
| "float_text FNegInf = ''-Infinity''"
| "float_text FNaN = ''NaN''"

fun dumps :: "bool \<Rightarrow> bool \<Rightarrow> json \<Rightarrow> string" where
  "dumps srt ascii JNull = ''null''"
| "dumps srt ascii (JBool b) = (if b then ''true'' else ''false'')"
| "dumps srt ascii (JInt i) = int_text i"
| "dumps srt ascii (JFloat f) = float_text f"
| "dumps srt ascii (JStr s) = quote_string ascii s"
| "dumps srt ascii (JArr vs) = ''['' @ join '','' (map (dumps srt ascii) vs) @ '']''"
| "dumps srt ascii (JObj kvs) =
     (let items = map (\<lambda>(k, v). (k, dumps srt ascii v)) kvs;
          items' = (if srt then sort_key fst items else items)
      in ''{'' @ join '','' (map (\<lambda>(k, t). quote_string ascii k @ '':'' @ t) items') @ ''}'')"

text \<open>\<open>json.dumps(value, separators=(",", ":"))\<close>, the form used for synthetic results.\<close>

definition json_dumps :: "json \<Rightarrow> string" where
  "json_dumps v = dumps False True v"

section \<open>\<open>str\<close> and \<open>repr\<close>\<close>

definition is_printable :: "char \<Rightarrow> bool" where
  "is_printable c = (let n = ord_of c in
     (32 \<le> n \<and> n \<le> 126) \<or> (161 \<le> n \<and> n \<noteq> 173))"

definition repr_char :: "char \<Rightarrow> char \<Rightarrow> string" where
  "repr_char q c =
     (if c = q \<or> c = backslash then [backslash, c]
      else if c = CHR 0x0A then [backslash, CHR ''n'']
      else if c = CHR 0x0D then [backslash, CHR ''r'']
      else if c = CHR 0x09 then [backslash, CHR ''t'']
      else if is_printable c then [c]
      else [backslash, CHR ''x'', hex_digit (ord_of c div 16), hex_digit (ord_of c mod 16)])"

definition repr_string :: "string \<Rightarrow> string" where
  "repr_string s =
     (let q = (if CHR 0x27 \<in> set s \<and> quote \<notin> set s then quote else CHR 0x27)
      in q # concat (map (repr_char q) s) @ [q])"

fun py_repr :: "json \<Rightarrow> string" where
  "py_repr JNull = ''None''"
| "py_repr (JBool b) = (if b then ''True'' else ''False'')"
| "py_repr (JInt i) = int_text i"
| "py_repr (JFloat FPosInf) = ''inf''"
| "py_repr (JFloat FNegInf) = ''-inf''"
| "py_repr (JFloat FNaN) = ''nan''"
| "py_repr (JFloat f) = float_text f"
| "py_repr (JStr s) = repr_string s"
| "py_repr (JArr vs) = ''['' @ join '', '' (map py_repr vs) @ '']''"
| "py_repr (JObj kvs) =
     ''{'' @ join '', '' (map (\<lambda>(k, v). repr_string k @ '': '' @ py_repr v) kvs) @ ''}''"

definition py_str :: "json \<Rightarrow> string" where
  "py_str v = (case v of JStr s \<Rightarrow> s | _ \<Rightarrow> py_repr v)"

end
