(* ===== verification/Json_Laws.thy ===== *)
theory Json_Laws
  imports Json
begin

text \<open>
  Laws of the JSON scanner and printer: the fuel of \<open>loads_with\<close> is enough
  (\<open>scan_fuel_enough\<close>), the scanner delivers only well-formed values (\<open>loads_ok\<close>), what
  the printer writes is read back (\<open>loads_dumps\<close>), and printing with sorted keys is printing
  the canonical value (\<open>dumps_sorted\<close>). The codec locales state what the components use of
  an encoding; the scanner and printer interpret them.
\<close>

section \<open>Quoted strings and numbers\<close>

lemma hex_value_digit: "n < 16 \<Longrightarrow> hex_value (hex_digit n) = Some n"
  by (auto simp: hex_value_def hex_digit_def Let_def)

lemma hex4_escape:
  "hex4 (CHR ''0'') (CHR ''0'') (hex_digit (ord_of c div 16)) (hex_digit (ord_of c mod 16))
     = Some (ord_of c)"
proof -
  have lt: "ord_of c < (256 :: nat)" by (simp add: of_char_def) 
  have z: "hex_value (CHR ''0'') = Some 0" by code_simp
  from lt have "ord_of c div 16 < (16 :: nat)" by arith
  with z show ?thesis by (simp add: hex4_def hex_value_digit)
qed

lemma scan_escape_char:
  "scan_string (escape_char a c @ t) = push_char c (scan_string t)"
proof -
  have lt: "ord_of c < (256 :: nat)" by (simp add: of_char_def)
  show ?thesis
  proof (cases "c \<in> {quote, backslash, CHR 0x0A, CHR 0x0D, CHR 0x09, CHR 0x0C, CHR 0x08}")
    case True
    then show ?thesis by (elim insertE) (simp_all add: escape_char_def simple_escape_def)
  next
    case False
    then show ?thesis using lt
      by (auto simp: escape_char_def hex4_escape)
  qed
qed

lemma scan_string_quoted:
  "scan_string (concat (map (escape_char a) s) @ quote # t) = Inr (s, t)"
  by (induction s) (simp_all add: scan_escape_char)


section \<open>Round trip\<close>

definition delim :: "string \<Rightarrow> bool" where
  "delim t = (case t of [] \<Rightarrow> True | c # _ \<Rightarrow> c \<in> {CHR '','', CHR '']'', CHR ''}'', CHR 0x0A})"

lemma digit_run:
  assumes "\<And>c. c \<in> set ds \<Longrightarrow> is_digit c" and "\<not> (case t of [] \<Rightarrow> False | c # _ \<Rightarrow> is_digit c)"
  shows "takeWhile is_digit (ds @ t) = ds" and "dropWhile is_digit (ds @ t) = t"
proof -
  have "takeWhile is_digit t = []" and "dropWhile is_digit t = t"
    using assms(2) by (cases t; simp)+
  with assms(1) show "takeWhile is_digit (ds @ t) = ds" and "dropWhile is_digit (ds @ t) = t"
    by simp_all
qed

lemma scan_int_part_digits:
  assumes "ds \<noteq> []" and "\<And>c. c \<in> set ds \<Longrightarrow> is_digit c"
    and "hd ds = CHR ''0'' \<Longrightarrow> ds = ''0''"
    and "\<not> (case t of [] \<Rightarrow> False | c # _ \<Rightarrow> is_digit c)"
  shows "scan_int_part (ds @ t) = Some (ds, t)"
proof (cases ds)
  case Nil
  with assms(1) show ?thesis by simp
next
  case (Cons d ds')
  show ?thesis
  proof (cases "d = CHR ''0''")
    case True
    with Cons assms(3) show ?thesis by (simp add: scan_int_part_def)
  next
    case False
    from Cons assms(2) have "is_digit d" by simp
    with False Cons digit_run [OF assms(2,4)] show ?thesis by (simp add: scan_int_part_def)
  qed
qed

lemma dec_digits_scan: "\<not> (case t of [] \<Rightarrow> False | c # _ \<Rightarrow> is_digit c) \<Longrightarrow>
  scan_int_part (dec_digits n @ t) = Some (dec_digits n, t)"
proof (rule scan_int_part_digits)
  assume "hd (dec_digits n) = CHR ''0''"
  then have "n = 0" using hd_dec_digits_nonzero [of n] by (cases "n = 0") auto
  then show "dec_digits n = ''0''" by simp
qed (auto intro: dec_digits_are_digits)

lemma delim_no_digit: "delim t \<Longrightarrow> \<not> (case t of [] \<Rightarrow> False | c # _ \<Rightarrow> is_digit c)"
  by (cases t) (auto simp: delim_def is_digit_def)

lemma delim_no_fraction: "delim t \<Longrightarrow> scan_fraction t = ([], t)"
  by (cases t; cases "tl t") (auto simp: delim_def scan_fraction_def)

lemma delim_no_exponent: "delim t \<Longrightarrow> scan_exponent t = None"
  by (cases t) (auto simp: delim_def scan_exponent_def)

lemma digit_head_no_sign: "ds \<noteq> [] \<Longrightarrow> is_digit (hd ds) \<Longrightarrow> scan_sign (ds @ t) = (False, ds @ t)"
  by (cases ds) (auto simp: scan_sign_def is_digit_def)

lemma dec_digits_hd_digit: "is_digit (hd (dec_digits n))"
  by (rule dec_digits_are_digits [OF hd_in_set]) simp

lemma scan_number_int:
  assumes "length (dec_digits (nat (abs i))) \<le> int_digit_limit" and "delim t"
  shows "scan_number (int_text i @ t) = Inr (JInt i, t)"
proof (cases "i < 0")
  case True
  then have "scan_sign (int_text i @ t) = (True, dec_digits (nat (- i)) @ t)"
    by (simp add: scan_sign_def int_text_def)
  with True assms show ?thesis
    by (simp add: scan_number_def dec_digits_scan delim_no_digit delim_no_fraction delim_no_exponent)
next
  case False
  then have "scan_sign (int_text i @ t) = (False, dec_digits (nat i) @ t)"
    by (simp add: int_text_def digit_head_no_sign dec_digits_hd_digit)
  with False assms show ?thesis
    by (simp add: scan_number_def dec_digits_scan delim_no_digit delim_no_fraction delim_no_exponent)
qed


subsection \<open>Floats\<close>

lemma dec_value_foldl: "foldl (\<lambda>a c. 10 * a + (ord_of c - 48)) n ds = n * 10 ^ length ds + dec_value ds"
proof (induction ds rule: rev_induct)
  case Nil
  then show ?case by simp
next
  case (snoc d ds)
  then show ?case by (simp add: algebra_simps)
qed

lemma dec_value_append: "dec_value (a @ b) = dec_value a * 10 ^ length b + dec_value b"
  by (simp add: dec_value_def foldl_append) (simp add: dec_value_foldl dec_value_def [symmetric])

lemma dec_value_zeros [simp]: "dec_value (zeros n) = 0"
  by (induction n) (simp_all add: zeros_def dec_value_append [of "[_]", simplified] dec_value_def)

lemma length_zeros [simp]: "length (zeros n) = n"
  by (simp add: zeros_def)

lemma zeros_digits: "c \<in> set (zeros n) \<Longrightarrow> is_digit c"
  by (simp add: zeros_def is_digit_def)

lemma strip_tens_power:
  "m mod 10 \<noteq> 0 \<Longrightarrow> j \<le> n \<Longrightarrow> strip_tens n (m * 10 ^ j) (e - int j) = (m, e)"
proof (induction j arbitrary: n e)
  case 0
  then show ?case by (cases n) auto
next
  case (Suc j)
  then obtain n' where n: "n = Suc n'" by (cases n) auto
  have "m * 10 ^ Suc j mod 10 = 0" and "m * 10 ^ Suc j div 10 = m * 10 ^ j" by simp_all
  moreover have "e - int (Suc j) + 1 = e - int j" by simp
  ultimately show ?case using Suc n by (simp del: power_Suc)
qed

lemma mk_dec_power:
  assumes "m mod 10 \<noteq> 0"
  shows "mk_dec neg (m * 10 ^ j) (e - int j) = FDec neg m e"
proof -
  from assms have "0 < m" by (cases m) auto
  moreover have "j < 10 ^ j" using power_gt_expt [of 10 j] by simp
  ultimately have "j \<le> m * 10 ^ j" and "m * 10 ^ j \<noteq> 0"
    by (auto intro: order_trans [OF less_imp_le])
  with assms show ?thesis by (simp add: mk_dec_def strip_tens_power)
qed

lemma mk_dec_plain: "m mod 10 \<noteq> 0 \<Longrightarrow> mk_dec neg m e = FDec neg m e"
  using mk_dec_power [of m neg 0 e] by simp

lemma scan_exponent_text: "delim t \<Longrightarrow> scan_exponent (CHR ''e'' # exponent_text x @ t) = Some (x, t)"
proof -
  assume t: "delim t"
  let ?ds = "let ds = dec_digits (nat (abs x)) in if length ds < 2 then CHR ''0'' # ds else ds"
  have dig: "\<And>c. c \<in> set ?ds \<Longrightarrow> is_digit c"
    by (auto simp: Let_def is_digit_def [of "CHR ''0''"] intro: dec_digits_are_digits split: if_splits)
  have val: "dec_value ?ds = nat (abs x)"
    using dec_value_append [of "''0''" "dec_digits (nat (abs x))"]
    by (simp add: Let_def dec_value_def [of "''0''"])
  have ne: "?ds \<noteq> []" by (simp add: Let_def)
  note run = digit_run [OF dig delim_no_digit [OF t]]
  show ?thesis
    unfolding scan_exponent_def exponent_text_def
    using run val ne by (auto simp: Let_def)
qed

definition frac_text :: "string \<Rightarrow> string" where
  "frac_text fr = (if fr = [] then [] else CHR ''.'' # fr)"

definition exp_text :: "int option \<Rightarrow> string" where
  "exp_text x = (case x of None \<Rightarrow> [] | Some i \<Rightarrow> CHR ''e'' # exponent_text i)"

lemma scan_number_float:
  assumes ip: "ip \<noteq> []" "\<And>c. c \<in> set ip \<Longrightarrow> is_digit c" "hd ip = CHR ''0'' \<Longrightarrow> ip = ''0''"
    and fr: "\<And>c. c \<in> set fr \<Longrightarrow> is_digit c"
    and float: "fr \<noteq> [] \<or> x \<noteq> None"
    and t: "delim t"
  shows "scan_number ((if neg then [CHR ''-''] else []) @ ip @ frac_text fr @ exp_text x @ t)
    = Inr (JFloat (mk_dec neg (dec_value (ip @ fr))
        ((case x of None \<Rightarrow> 0 | Some i \<Rightarrow> i) - int (length fr))), t)"
proof -
  let ?e = "exp_text x @ t"
  have e_nodigit: "\<not> (case ?e of [] \<Rightarrow> False | c # _ \<Rightarrow> is_digit c)"
    using delim_no_digit [OF t] by (cases x) (auto simp: exp_text_def is_digit_def)
  have f_nodigit: "\<not> (case frac_text fr @ ?e of [] \<Rightarrow> False | c # _ \<Rightarrow> is_digit c)"
    using e_nodigit by (auto simp: frac_text_def is_digit_def)
  have sgn: "scan_sign ((if neg then [CHR ''-''] else []) @ ip @ frac_text fr @ ?e)
      = (neg, ip @ frac_text fr @ ?e)"
  proof (cases neg)
    case True
    then show ?thesis by (simp add: scan_sign_def)
  next
    case False
    then show ?thesis using ip(1,2) by (simp add: digit_head_no_sign)
  qed
  have int: "scan_int_part (ip @ frac_text fr @ ?e) = Some (ip, frac_text fr @ ?e)"
    by (rule scan_int_part_digits [OF ip f_nodigit])
  have frac: "scan_fraction (frac_text fr @ ?e) = (fr, ?e)"
  proof (cases fr)
    case Nil
    then show ?thesis
      using delim_no_fraction [OF t]
      by (cases x) (auto simp: frac_text_def exp_text_def scan_fraction_def exponent_text_def)
  next
    case (Cons d ds)
    then have "is_digit d" using fr by simp
    with Cons digit_run [OF fr e_nodigit] show ?thesis
      by (simp add: frac_text_def scan_fraction_def)
  qed
  have ex: "scan_exponent ?e = map_option (\<lambda>i. (i, t)) x"
    using delim_no_exponent [OF t] scan_exponent_text [OF t] by (cases x) (auto simp: exp_text_def)
  show ?thesis
    unfolding scan_number_def sgn Let_def prod.case int option.case frac ex
    using float by (cases x) (auto simp: exp_text_def)
qed

fun float_ok :: "pyfloat \<Rightarrow> bool" where
  "float_ok (FDec neg m e) = (if m = 0 then e = 0 else m mod 10 \<noteq> 0)"
| "float_ok _ = True"

lemma decimal_text_scan:
  assumes "float_ok (FDec neg m e)" and t: "delim t"
  shows "scan_number ((if neg then [CHR ''-''] else []) @ decimal_text m e @ t)
    = Inr (JFloat (FDec neg m e), t)"
proof (cases "m = 0")
  case True
  with assms(1) have "e = 0" by simp
  with True show ?thesis
    using scan_number_float [of "''0''" "''0''" None t neg] t
    by (simp add: decimal_text_def frac_text_def exp_text_def is_digit_def dec_value_def mk_dec_def)
next
  case False
  then have m: "m mod 10 \<noteq> 0" "0 < m" using assms(1) by auto
  define ds n k where defs: "ds = dec_digits m" "n = int (length ds)" "k = n + e"
  have ds: "ds \<noteq> []" "\<And>c. c \<in> set ds \<Longrightarrow> is_digit c" "hd ds \<noteq> CHR ''0''" "dec_value ds = m"
    using m(2) by (auto simp: defs hd_dec_digits_nonzero intro: dec_digits_are_digits)
  have n1: "1 \<le> n" using ds(1) by (cases ds) (auto simp: defs(2))
  note shape = scan_number_float [OF _ _ _ _ _ t, where neg = neg]
  consider (sci) "k \<le> -4 \<or> 16 < k" | (low) "-4 < k" "k \<le> 0"
    | (high) "0 < k" "k \<le> 16" "n \<le> k" | (mid) "0 < k" "k \<le> 16" "k < n" by linarith
  then show ?thesis
  proof cases
    case sci
    have "decimal_text m e = [hd ds] @ frac_text (tl ds) @ exp_text (Some (k - 1))"
      using False sci by (simp add: decimal_text_def defs frac_text_def exp_text_def Let_def)
    moreover have "[hd ds] @ tl ds = ds" using ds(1) by simp
    moreover have "int (length (tl ds)) = n - 1" using ds(1) by (cases ds) (auto simp: defs(2))
    moreover have "\<And>c. c \<in> set (tl ds) \<Longrightarrow> is_digit c" using ds(1,2) by (meson list.set_sel(2))
    moreover have "k - 1 - (n - 1) = e" by (simp add: defs(3))
    ultimately show ?thesis
      using shape [of "[hd ds]" "tl ds" "Some (k - 1)"] ds m
      by (simp add: mk_dec_plain)
  next
    case low
    have "decimal_text m e = ''0'' @ frac_text (zeros (nat (- k)) @ ds) @ exp_text None"
      using False low ds(1) by (simp add: decimal_text_def defs frac_text_def exp_text_def Let_def)
    moreover have "dec_value (''0'' @ zeros (nat (- k)) @ ds) = m"
      using dec_value_append [of "''0''" "zeros (nat (- k)) @ ds"]
      by (simp add: dec_value_append [of "zeros _"] ds(4) dec_value_def [of "''0''"])
    moreover have "\<And>c. c \<in> set (zeros (nat (- k)) @ ds) \<Longrightarrow> is_digit c"
      using ds(2) zeros_digits by auto
    moreover have "- int (length (zeros (nat (- k)) @ ds)) = e" using low by (simp add: defs(2,3))
    ultimately show ?thesis
      using shape [of "''0''" "zeros (nat (- k)) @ ds" None] ds(1) m
      by (simp add: mk_dec_plain is_digit_def [of "CHR ''0''"])
  next
    case high
    have "decimal_text m e = (ds @ zeros (nat (k - n))) @ frac_text ''0'' @ exp_text None"
      using False high ds(1) by (simp add: decimal_text_def defs frac_text_def exp_text_def Let_def)
    moreover have "dec_value ((ds @ zeros (nat (k - n))) @ ''0'') = m * 10 ^ (nat (k - n) + 1)"
      by (simp add: dec_value_append ds(4) dec_value_def [of "''0''"])
    moreover have "(-1 :: int) = e - int (nat (k - n) + 1)" using high by (simp add: defs(3))
    moreover have "\<And>c. c \<in> set (ds @ zeros (nat (k - n))) \<Longrightarrow> is_digit c"
      using ds(2) zeros_digits by auto
    moreover have "hd (ds @ zeros (nat (k - n))) \<noteq> CHR ''0''" using ds(1,3) by simp
    ultimately show ?thesis
      using shape [of "ds @ zeros (nat (k - n))" "''0''" None] ds(1)
        mk_dec_power [OF m(1), of neg "nat (k - n) + 1" e]
      by (simp add: is_digit_def [of "CHR ''0''"])
  next
    case mid
    have "decimal_text m e = take (nat k) ds @ frac_text (drop (nat k) ds) @ exp_text None"
      using False mid ds(1) by (simp add: decimal_text_def defs frac_text_def exp_text_def Let_def)
    moreover have "int (length (drop (nat k) ds)) = n - k" using mid by (simp add: defs(2))
    moreover have "take (nat k) ds \<noteq> []" "hd (take (nat k) ds) = hd ds"
      using mid ds(1) by (cases ds; cases "nat k"; simp)+
    moreover have "drop (nat k) ds \<noteq> []" using mid by (simp add: defs(2))
    moreover have "\<And>c. c \<in> set (take (nat k) ds) \<Longrightarrow> is_digit c"
      and "\<And>c. c \<in> set (drop (nat k) ds) \<Longrightarrow> is_digit c"
      using ds(2) by (meson in_set_takeD in_set_dropD)+
    moreover have "k - n = e" by (simp add: defs(3))
    ultimately show ?thesis
      using shape [of "take (nat k) ds" "drop (nat k) ds" None] ds(3,4) m
      by (simp add: mk_dec_plain)
  qed
qed

subsection \<open>Values\<close>

fun json_ok :: "bool \<Rightarrow> json \<Rightarrow> bool" where
  "json_ok strict (JInt i) = (length (dec_digits (nat (abs i))) \<le> int_digit_limit)"
| "json_ok strict (JFloat f) = (float_ok f \<and> (strict \<longrightarrow> (\<exists>neg m e. f = FDec neg m e)))"
| "json_ok strict (JArr vs) = (\<forall>v \<in> set vs. json_ok strict v)"
| "json_ok strict (JObj kvs) = (distinct (map fst kvs) \<and> (\<forall>kv \<in> set kvs. json_ok strict (snd kv)))"
| "json_ok strict _ = True"

definition head_ok :: "string \<Rightarrow> bool" where
  "head_ok s = (case s of [] \<Rightarrow> False
     | c # _ \<Rightarrow> c \<notin> {CHR '' '', CHR 0x09, CHR 0x0A, CHR 0x0D, CHR '']'', CHR ''}''})"

lemma head_ok_simps [simp]:
  "head_ok [] = False"
  "head_ok (c # s) = (c \<notin> {CHR '' '', CHR 0x09, CHR 0x0A, CHR 0x0D, CHR '']'', CHR ''}''})"
  by (simp_all add: head_ok_def)

lemma head_ok_append [simp]: "head_ok s \<Longrightarrow> head_ok (s @ t)"
  by (cases s) auto

lemma head_ok_skip_ws: "head_ok s \<Longrightarrow> skip_ws s = s"
proof (cases s)
  case (Cons c cs)
  assume "head_ok s"
  with Cons have "c \<notin> {CHR '' '', CHR 0x09, CHR 0x0A, CHR 0x0D}" by simp
  then have "ord_of c \<notin> {32, 9, 10, 13 :: nat}"
    using of_char_eq_iff [where 'a = nat, of c "CHR '' ''"] of_char_eq_iff [where 'a = nat, of c "CHR 0x09"]
      of_char_eq_iff [where 'a = nat, of c "CHR 0x0A"] of_char_eq_iff [where 'a = nat, of c "CHR 0x0D"]
    by auto
  with Cons show ?thesis by (simp add: skip_ws_def)
qed simp

lemma head_ok_no_close: "head_ok s \<Longrightarrow> \<not> starts_with '']'' s \<and> \<not> starts_with ''}'' s"
  by (cases s) auto

lemma digit_head_ok: "s \<noteq> [] \<Longrightarrow> is_digit (hd s) \<Longrightarrow> head_ok s"
  by (cases s) (auto simp: is_digit_def)

lemma decimal_text_head: "decimal_text m e \<noteq> [] \<and> is_digit (hd (decimal_text m e))"
proof -
  have "is_digit (CHR ''0'')" by (simp add: is_digit_def)
  moreover have "is_digit (hd (dec_digits m))" by (rule dec_digits_hd_digit)
  moreover have "take n (dec_digits m) \<noteq> [] \<and> hd (take n (dec_digits m)) = hd (dec_digits m)"
    if "0 < n" for n using that by (cases n; cases "dec_digits m") auto
  ultimately show ?thesis by (simp add: decimal_text_def Let_def)
qed

lemma int_text_head: "head_ok (int_text i)"
  by (auto simp: int_text_def intro!: digit_head_ok dec_digits_hd_digit)

lemma float_text_head: "head_ok (float_text f)"
proof (cases f)
  case (FDec neg m e)
  then show ?thesis using decimal_text_head [of m e]
    by (cases neg) (auto intro: digit_head_ok)
qed simp_all

lemma dumps_head: "head_ok (dumps srt a v)"
  by (cases v) (auto simp: int_text_head float_text_head quote_string_def Let_def)

lemma number_no_constant:
  assumes "is_digit (hd s)" "s \<noteq> []"
  shows "scan_constant strict (s @ t) = Inr None" "scan_constant strict (CHR ''-'' # s @ t) = Inr None"
proof -
  obtain c cs where s: "s = c # cs" using assms(2) by (cases s) auto
  with assms(1) have "is_digit c" by simp
  then have "c \<noteq> CHR ''n''" "c \<noteq> CHR ''t''" "c \<noteq> CHR ''f''" "c \<noteq> CHR ''N''" "c \<noteq> CHR ''I''" "c \<noteq> CHR ''-''"
    by (auto simp: is_digit_def)
  with s show "scan_constant strict (s @ t) = Inr None" "scan_constant strict (CHR ''-'' # s @ t) = Inr None"
    by (simp_all add: scan_constant_def eq_commute [of _ c])
qed

lemma scan_value_number:
  assumes "is_digit (hd s)" "s \<noteq> []"
  shows "scan_value (Suc n) strict (s @ t) = scan_number (s @ t)"
    and "scan_value (Suc n) strict (CHR ''-'' # s @ t) = scan_number (CHR ''-'' # s @ t)"
proof -
  obtain c cs where s: "s = c # cs" using assms(2) by (cases s) auto
  with assms(1) have "c \<noteq> quote" "c \<noteq> CHR ''{''" "c \<noteq> CHR ''[''" by (auto simp: is_digit_def)
  then show "scan_value (Suc n) strict (s @ t) = scan_number (s @ t)"
    using number_no_constant(1) [OF assms, of strict t] s by simp
  show "scan_value (Suc n) strict (CHR ''-'' # s @ t) = scan_number (CHR ''-'' # s @ t)"
    using number_no_constant(2) [OF assms, of strict t] by simp
qed

lemma scan_int_value:
  assumes "length (dec_digits (nat (abs i))) \<le> int_digit_limit" "delim t"
  shows "scan_value (Suc n) strict (int_text i @ t) = Inr (JInt i, t)"
proof -
  note num = scan_value_number [OF dec_digits_hd_digit dec_digits_nonempty, of n strict _ t]
  have "scan_value (Suc n) strict (int_text i @ t) = scan_number (int_text i @ t)"
    using num(1) [of "nat i"] num(2) [of "nat (- i)"] by (simp add: int_text_def del: scan_value.simps)
  then show ?thesis using scan_number_int [OF assms] by simp
qed

lemma scan_float_value:
  assumes "json_ok strict (JFloat f)" "delim t"
  shows "scan_value (Suc n) strict (float_text f @ t) = Inr (JFloat f, t)"
proof (cases f)
  case (FDec neg m e)
  with assms(1) have ok: "float_ok (FDec neg m e)" by simp
  show ?thesis
    using decimal_text_scan [OF ok assms(2)] decimal_text_head [of m e]
      scan_value_number [of "decimal_text m e" n strict t] FDec by (cases neg) auto
qed (use assms in \<open>simp_all add: scan_constant_def\<close>)

definition reads_back :: "bool \<Rightarrow> bool \<Rightarrow> json \<Rightarrow> bool" where
  "reads_back strict a v \<longleftrightarrow> (\<forall>n t. delim t \<longrightarrow> 2 * length (dumps False a v) \<le> n
     \<longrightarrow> scan_value n strict (dumps False a v @ t) = Inr (v, t))"

lemma reads_backD:
  "reads_back strict a v \<Longrightarrow> delim t \<Longrightarrow> 2 * length (dumps False a v) \<le> n
     \<Longrightarrow> scan_value n strict (dumps False a v @ t) = Inr (v, t)"
  by (simp add: reads_back_def)

lemma reads_back_scalar:
  assumes "\<And>n t. delim t \<Longrightarrow> scan_value (Suc n) strict (dumps False a v @ t) = Inr (v, t)"
  shows "reads_back strict a v"
  unfolding reads_back_def
proof (intro allI impI)
  fix n t assume t: "delim t" and "2 * length (dumps False a v) \<le> n"
  then obtain n' where "n = Suc n'" using dumps_head [of False a v] by (cases n) auto
  with assms [OF t] show "scan_value n strict (dumps False a v @ t) = Inr (v, t)" by simp
qed

lemma skip_ws_close [simp]:
  "skip_ws (CHR '']'' # t) = CHR '']'' # t" "skip_ws (CHR ''}'' # t) = CHR ''}'' # t"
  "skip_ws (CHR '','' # t) = CHR '','' # t" "skip_ws (CHR '':'' # t) = CHR '':'' # t"
  by (simp_all add: skip_ws_def)

lemma join_Cons: "ws \<noteq> [] \<Longrightarrow> join sep (w # ws) = w @ sep @ join sep ws"
  by (cases ws) auto

lemma scan_elements_dumps:
  assumes "\<And>v. v \<in> set vs \<Longrightarrow> reads_back strict a v" "vs \<noteq> []"
    and "2 * length (join '','' (map (dumps False a) vs)) + 1 \<le> n"
  shows "scan_elements n strict (join '','' (map (dumps False a) vs) @ CHR '']'' # t) = Inr (vs, t)"
  using assms
proof (induction vs arbitrary: n)
  case Nil
  then show ?case by simp
next
  case (Cons v vs)
  then obtain n' where n: "n = Suc n'" by (cases n) auto
  show ?case
  proof (cases "vs = []")
    case True
    with Cons.prems n reads_backD [of strict a v "CHR '']'' # t" n'] show ?thesis
      by (simp add: delim_def)
  next
    case False
    let ?j = "join '','' (map (dumps False a) vs)"
    have j: "join '','' (map (dumps False a) (v # vs)) = dumps False a v @ CHR '','' # ?j"
      using False by (simp add: join_Cons)
    have "scan_value n' strict (dumps False a v @ CHR '','' # ?j @ CHR '']'' # t)
        = Inr (v, CHR '','' # ?j @ CHR '']'' # t)"
      using Cons.prems n j by (intro reads_backD) (auto simp: delim_def)
    moreover have "scan_elements n' strict (?j @ CHR '']'' # t) = Inr (vs, t)"
      using Cons.prems n j False by (intro Cons.IH) auto
    moreover have "head_ok ?j"
      using False dumps_head by (cases vs; cases "tl vs") auto
    ultimately show ?thesis unfolding j n by (simp add: head_ok_skip_ws)
  qed
qed

definition member_text :: "bool \<Rightarrow> string \<times> json \<Rightarrow> string" where
  "member_text a kv = quote_string a (fst kv) @ CHR '':'' # dumps False a (snd kv)"

lemma scan_members_dumps:
  assumes "\<And>kv. kv \<in> set kvs \<Longrightarrow> reads_back strict a (snd kv)" "kvs \<noteq> []"
    and "2 * length (join '','' (map (member_text a) kvs)) + 1 \<le> n"
  shows "scan_members n strict (join '','' (map (member_text a) kvs) @ CHR ''}'' # t) = Inr (kvs, t)"
  using assms
proof (induction kvs arbitrary: n)
  case Nil
  then show ?case by simp
next
  case (Cons kv kvs)
  obtain k v where kv: "kv = (k, v)" by (cases kv)
  from Cons.prems obtain n' where n: "n = Suc n'" by (cases n) auto
  have mem: "scan_members n strict (member_text a kv @ u) =
      (case scan_value n' strict (dumps False a v @ u) of Inl e \<Rightarrow> Inl e
       | Inr (v, r2) \<Rightarrow>
         (case skip_ws r2 of [] \<Rightarrow> Inl JSONDecodeError
          | d' # r3 \<Rightarrow>
            (if d' = CHR ''}'' then Inr ([(k, v)], r3)
             else if d' = CHR '','' then
               (case scan_members n' strict (skip_ws r3) of Inl e \<Rightarrow> Inl e
                | Inr (kvs, r4) \<Rightarrow> Inr ((k, v) # kvs, r4))
             else Inl JSONDecodeError)))" for u
    using head_ok_skip_ws [OF head_ok_append [OF dumps_head], of False a v u]
    by (simp add: n kv member_text_def quote_string_def scan_string_quoted)
  show ?case
  proof (cases "kvs = []")
    case True
    have "2 * length (dumps False a v) \<le> n'"
      using Cons.prems(3) n kv True by (simp add: member_text_def)
    then have "scan_value n' strict (dumps False a v @ CHR ''}'' # t) = Inr (v, CHR ''}'' # t)"
      using Cons.prems(1) [of kv] kv by (intro reads_backD) (simp_all add: delim_def)
    with True show ?thesis by (simp add: mem [unfolded kv] kv)
  next
    case False
    let ?j = "join '','' (map (member_text a) kvs)"
    have j: "join '','' (map (member_text a) (kv # kvs)) = member_text a kv @ CHR '','' # ?j"
      using False by (simp add: join_Cons)
    have len: "2 * length (member_text a kv) + 2 * length ?j + 2 \<le> n'"
      using Cons.prems(3) unfolding j n by simp
    have "scan_value n' strict (dumps False a v @ CHR '','' # ?j @ CHR ''}'' # t)
        = Inr (v, CHR '','' # ?j @ CHR ''}'' # t)"
      using Cons.prems(1) [of kv] len kv by (intro reads_backD) (simp_all add: delim_def member_text_def)
    moreover have "scan_members n' strict (?j @ CHR ''}'' # t) = Inr (kvs, t)"
      using Cons.prems(1) len False by (intro Cons.IH) auto
    moreover have "head_ok ?j"
      using False by (cases kvs; cases "tl kvs") (auto simp: member_text_def quote_string_def)
    ultimately show ?thesis unfolding j by (simp add: mem [unfolded kv] kv head_ok_skip_ws)
  qed
qed

lemma dumps_JObj: "dumps False a (JObj kvs) = CHR ''{'' # join '','' (map (member_text a) kvs) @ ''}''"
  by (simp add: Let_def member_text_def [abs_def] o_def case_prod_unfold)

lemma dumps_reads_back: "json_ok strict v \<Longrightarrow> reads_back strict a v"
proof (induction v)
  case (JArr vs)
  show ?case unfolding reads_back_def
  proof (intro allI impI)
    fix n t assume "delim t" and n: "2 * length (dumps False a (JArr vs)) \<le> n"
    then obtain n' where n': "n = Suc n'" by (cases n) auto
    let ?j = "join '','' (map (dumps False a) vs)"
    show "scan_value n strict (dumps False a (JArr vs) @ t) = Inr (JArr vs, t)"
    proof (cases "vs = []")
      case False
      then have "head_ok ?j" using dumps_head by (cases vs; cases "tl vs") auto
      with False n n' JArr scan_elements_dumps [of vs strict a n' t] head_ok_no_close
      show ?thesis by (simp add: head_ok_skip_ws)
    qed (simp add: n')
  qed
next
  case (JObj kvs)
  then have ok: "reads_back strict a (snd kv)" if "kv \<in> set kvs" for kv
    using that by (cases kv) auto
  show ?case unfolding reads_back_def
  proof (intro allI impI)
    fix n t assume "delim t" and n: "2 * length (dumps False a (JObj kvs)) \<le> n"
    then obtain n' where n': "n = Suc n'" by (cases n) (auto simp: dumps_JObj)
    let ?j = "join '','' (map (member_text a) kvs)"
    show "scan_value n strict (dumps False a (JObj kvs) @ t) = Inr (JObj kvs, t)"
    proof (cases "kvs = []")
      case False
      then have "head_ok ?j"
        by (cases kvs; cases "tl kvs") (auto simp: member_text_def quote_string_def)
      with False n n' ok JObj.prems scan_members_dumps [of kvs strict a n' t] head_ok_no_close
      show ?thesis by (simp add: head_ok_skip_ws dumps_JObj mk_object_def del: dumps.simps)
    qed (simp add: n')
  qed
next
  case (JInt i)
  then show ?case by (intro reads_back_scalar) (simp only: dumps.simps json_ok.simps scan_int_value)
next
  case (JFloat f)
  show ?case by (intro reads_back_scalar) (simp only: dumps.simps scan_float_value [OF JFloat.prems])
next
  case (JStr s)
  show ?case by (intro reads_back_scalar) (simp add: quote_string_def scan_string_quoted)
next
  case JNull
  show ?case by (intro reads_back_scalar) (simp add: scan_constant_def)
next
  case (JBool b)
  show ?case by (intro reads_back_scalar) (cases b; simp add: scan_constant_def)
qed

subsection \<open>The fuel suffices\<close>

lemma length_skip_ws: "length (skip_ws s) \<le> length s"
  by (simp add: skip_ws_def length_dropWhile_le)

lemma push_char_Inr: "push_char c x = Inr (s, r) \<longleftrightarrow> (\<exists>s'. x = Inr (s', r) \<and> s = c # s')"
  by (cases x) auto

lemma scan_string_shorter: "scan_string s = Inr (t, r) \<Longrightarrow> length r < length s"
proof (induction s arbitrary: t r rule: scan_string.induct)
  case (2 c cs)
  then show ?case
    by (fastforce simp: push_char_Inr split: if_splits list.splits option.splits dest: less_SucI)
qed simp

lemma scan_exponent_le: "scan_exponent s = Some (x, r) \<Longrightarrow> length r \<le> length s"
  by (auto simp: scan_exponent_def Let_def split: list.splits if_splits
      intro!: le_SucI order_trans [OF length_dropWhile_le])

lemma scan_fraction_le: "scan_fraction s = (f, r) \<Longrightarrow> length r \<le> length s"
  using length_dropWhile_le [of is_digit "drop 1 s"]
  by (auto simp: scan_fraction_def split: list.splits if_splits)

lemma scan_int_part_shorter: "scan_int_part s = Some (ip, r) \<Longrightarrow> length r < length s"
  by (auto simp: scan_int_part_def less_Suc_eq_le length_dropWhile_le split: list.splits if_splits)

lemma scan_sign_le: "scan_sign s = (b, r) \<Longrightarrow> length r \<le> length s"
  by (auto simp: scan_sign_def split: list.splits if_splits)

lemma scan_number_shorter: "scan_number s = Inr (v, r) \<Longrightarrow> length r < length s"
proof -
  assume a: "scan_number s = Inr (v, r)"
  obtain neg s1 where s1: "scan_sign s = (neg, s1)" by (cases "scan_sign s")
  from a s1 obtain ip s2 where s2: "scan_int_part s1 = Some (ip, s2)"
    by (auto simp: scan_number_def split: option.splits)
  obtain fr s3 where s3: "scan_fraction s2 = (fr, s3)" by (cases "scan_fraction s2")
  have "length r \<le> length s3"
    using a s1 s2 s3 by (auto simp: scan_number_def split: option.splits if_splits dest: scan_exponent_le)
  with scan_sign_le [OF s1] scan_int_part_shorter [OF s2] scan_fraction_le [OF s3]
  show ?thesis by linarith
qed

lemma starts_with_length: "starts_with p s \<Longrightarrow> length p \<le> length s"
  by (auto simp: starts_with_iff)

lemma scan_constant_shorter: "scan_constant strict s = Inr (Some (v, r)) \<Longrightarrow> length r < length s"
  by (auto simp: scan_constant_def split: if_splits dest!: starts_with_length)

lemma scan_shorter:
  "scan_value n strict s = Inr (v, r) \<Longrightarrow> length r < length s"
  "scan_elements n strict s = Inr (vs, r) \<Longrightarrow> length r < length s"
  "scan_members n strict s = Inr (kvs, r) \<Longrightarrow> length r < length s"
proof (induction n strict s and n strict s and n strict s
    arbitrary: v r and vs r and kvs r rule: scan_value_scan_elements_scan_members.induct)
  case (3 n strict c cs)
  have ws: "length (skip_ws cs) \<le> length cs" by (rule length_skip_ws)
  from 3 show ?case using ws
    by (auto split: if_splits sum.splits option.splits prod.splits
        dest: scan_string_shorter scan_number_shorter scan_constant_shorter dest!: "3.IH" 
        simp del: )
next
  case (5 n strict s)
  from "5.prems" obtain v r1 where v: "scan_value n strict s = Inr (v, r1)"
    by (auto split: sum.splits)
  from "5.IH"(1) [OF v] have r1: "length r1 < length s" .
  from "5.prems" v obtain d r2 where r2: "skip_ws r1 = d # r2" by (auto split: list.splits)
  have "length r \<le> length r2"
    using "5.prems" v r2 "5.IH"(2) [of "(v, r1)" v r1 d r2] length_skip_ws [of r2]
    by (auto split: if_splits sum.splits prod.splits)
  with r1 r2 length_skip_ws [of r1] show ?case by simp
next
  case (7 n strict s)
  from "7.prems" obtain cs where s: "s = quote # cs" by (auto split: list.splits if_splits)
  with "7.prems" obtain k r1 where k: "scan_string cs = Inr (k, r1)" by (auto split: sum.splits)
  with s "7.prems" obtain r2 where r2: "skip_ws r1 = CHR '':'' # r2"
    by (auto split: list.splits if_splits)
  with s k "7.prems" obtain v r3 where v: "scan_value n strict (skip_ws r2) = Inr (v, r3)"
    by (auto split: sum.splits)
  with s k r2 "7.prems" obtain d r4 where r4: "skip_ws r3 = d # r4" by (auto split: list.splits)
  have "length r3 < length (skip_ws r2)"
    using "7.IH"(1) [OF s _ k _ r2 _ v] by simp
  moreover have "length r \<le> length r4"
  proof (cases "d = CHR ''}''")
    case True
    with "7.prems" s k r2 v r4 show ?thesis by simp
  next
    case False
    with "7.prems" s k r2 v r4 obtain kvs' where
      "d = CHR '',''" and m: "scan_members n strict (skip_ws r4) = Inr (kvs', r)"
      by (auto split: if_splits sum.splits)
    with "7.IH"(2) [OF s _ k refl r2 _ v refl r4 _ _ m] length_skip_ws [of r4]
    show ?thesis by simp
  qed
  ultimately show ?case
    using s r2 r4 scan_string_shorter [OF k] length_skip_ws [of r1] length_skip_ws [of r2]
      length_skip_ws [of r3] by simp
qed simp_all

lemma scan_fuel_enough:
  "2 * length s \<le> n \<Longrightarrow> scan_value (Suc n) strict s = scan_value n strict s"
  "2 * length s + 1 \<le> n \<Longrightarrow> scan_elements (Suc n) strict s = scan_elements n strict s"
  "2 * length s + 1 \<le> n \<Longrightarrow> scan_members (Suc n) strict s = scan_members n strict s"
proof (induction n arbitrary: s)
  case 0
  {
    case 1
    then show ?case by simp
  next
    case 2
    then show ?case by simp
  next
    case 3
    then show ?case by simp
  }
next
  case (Suc n)
  {
    case 1
    show ?case
    proof (cases s)
      case (Cons c cs)
      with 1 length_skip_ws [of cs] have "2 * length (skip_ws cs) + 1 \<le> n" by simp
      from Suc.IH(2,3) [OF this] show ?thesis unfolding Cons scan_value.simps by simp
    qed simp
  next
    case 2
    have "scan_value (Suc n) strict s = scan_value n strict s" using 2 by (intro Suc.IH) simp
    moreover have "scan_elements (Suc n) strict (skip_ws r2) = scan_elements n strict (skip_ws r2)"
      if "scan_value n strict s = Inr (v, r1)" "skip_ws r1 = d # r2" for v r1 d r2
      using 2 scan_shorter(1) [OF that(1)] that(2) length_skip_ws [of r1] length_skip_ws [of r2]
      by (intro Suc.IH) simp
    ultimately show ?case
      unfolding scan_elements.simps(2) [of "Suc n" strict s] scan_elements.simps(2) [of n strict s]
      by (auto simp del: scan_elements.simps scan_value.simps
          split: sum.splits list.splits prod.splits)
  next
    case 3
    have v: "scan_value (Suc n) strict (skip_ws r2) = scan_value n strict (skip_ws r2)"
      if "s = q # cs" "scan_string cs = Inr (k, r1)" "skip_ws r1 = d # r2" for q cs k r1 d r2
      using 3 that(1,3) scan_string_shorter [OF that(2)] length_skip_ws [of r1] length_skip_ws [of r2]
      by (intro Suc.IH) simp
    have m: "scan_members (Suc n) strict (skip_ws r4) = scan_members n strict (skip_ws r4)"
      if "s = q # cs" "scan_string cs = Inr (k, r1)" "skip_ws r1 = d # r2"
        "scan_value n strict (skip_ws r2) = Inr (v, r3)" "skip_ws r3 = e # r4"
      for q cs k r1 d r2 v r3 e r4
      using 3 that(1,3,5) scan_string_shorter [OF that(2)] scan_shorter(1) [OF that(4)]
        length_skip_ws [of r1] length_skip_ws [of r2] length_skip_ws [of r3] length_skip_ws [of r4]
      by (intro Suc.IH) simp
    note eqs = scan_members.simps(2) [of "Suc n" strict s] scan_members.simps(2) [of n strict s]
    show ?case
    proof (cases s)
      case Nil
      then show ?thesis by simp
    next
      case s: (Cons q cs)
      show ?thesis
      proof (cases "scan_string cs")
        case (Inl e)
        then show ?thesis unfolding eqs unfolding s by simp
      next
        case (Inr p)
        then obtain k r1 where k: "scan_string cs = Inr (k, r1)" by (cases p) auto
        show ?thesis
        proof (cases "skip_ws r1")
          case Nil
          with k show ?thesis unfolding eqs unfolding s by simp
        next
          case r2: (Cons d r2)
          note v' = v [OF s k r2]
          show ?thesis
          proof (cases "scan_value n strict (skip_ws r2)")
            case (Inl e)
            with k r2 v' show ?thesis unfolding eqs unfolding s by (simp del: scan_value.simps)
          next
            case (Inr p)
            then obtain x r3 where x: "scan_value n strict (skip_ws r2) = Inr (x, r3)"
              by (cases p) auto
            then show ?thesis
              using k r2 v' m [OF s k r2 x] unfolding eqs unfolding s
              by (cases "skip_ws r3") (simp_all del: scan_value.simps scan_members.simps)
          qed
        qed
      qed
    qed
  }
qed

subsection \<open>What the scanner delivers\<close>

lemma strip_tens_ok: "0 < m \<Longrightarrow> m \<le> n \<Longrightarrow> strip_tens n m e = (m', e') \<Longrightarrow> m' mod 10 \<noteq> 0 \<and> 0 < m'"
proof (induction n m e rule: strip_tens.induct)
  case (2 n m e)
  show ?case
  proof (cases "m mod 10 = 0")
    case True
    with "2.prems"(1) have "0 < m div 10" "m div 10 < m" by (auto simp: div_greater_zero_iff)
    with 2 True show ?thesis by simp
  qed (use 2 in auto)
qed simp

lemma mk_dec_ok: "float_ok (mk_dec neg m e)" "\<exists>neg' m' e'. mk_dec neg m e = FDec neg' m' e'"
proof -
  show "float_ok (mk_dec neg m e)"
  proof (cases "m = 0")
    case False
    obtain m' e' where st: "strip_tens m m e = (m', e')" by (cases "strip_tens m m e")
    from strip_tens_ok [OF _ order_refl st] False have "m' mod 10 \<noteq> 0" "0 < m'" by auto
    with False st show ?thesis by (simp add: mk_dec_def)
  qed (simp add: mk_dec_def)
  show "\<exists>neg' m' e'. mk_dec neg m e = FDec neg' m' e'"
    by (auto simp: mk_dec_def split: prod.splits)
qed

lemma length_dec_digits: "n < 10 ^ k \<Longrightarrow> 0 < k \<Longrightarrow> length (dec_digits n) \<le> k"
proof (induction n arbitrary: k rule: dec_digits.induct)
  case (1 n)
  show ?case
  proof (cases "n < 10")
    case False
    from "1.prems"(2) obtain k' where k: "k = Suc k'" by (cases k) auto
    with "1.prems"(1) False have "0 < k'" by (cases k') auto
    note k = k this
    with "1.prems"(1) have "n div 10 < 10 ^ k'" by (simp add: less_mult_imp_div_less mult.commute)
    with "1.IH" False k have "length (dec_digits (n div 10)) \<le> k'" by simp
    with False k show ?thesis by (subst dec_digits.simps) simp
  qed (use 1 in \<open>simp add: dec_digits_small\<close>)
qed

lemma dec_value_bound: "(\<And>c. c \<in> set ds \<Longrightarrow> is_digit c) \<Longrightarrow> dec_value ds < 10 ^ length ds"
proof (induction ds rule: rev_induct)
  case (snoc d ds)
  then have "dec_value ds < 10 ^ length ds" by simp
  moreover have "is_digit d" using snoc.prems by simp
  then have "ord_of d - 48 \<le> 9" unfolding is_digit_def by linarith
  ultimately show ?case by simp
qed simp

lemma scan_int_part_digits':
  "scan_int_part s = Some (ip, r) \<Longrightarrow> (\<forall>c \<in> set ip. is_digit c) \<and> ip \<noteq> []"
  by (auto simp: scan_int_part_def is_digit_def [of "CHR ''0''"] dest: set_takeWhileD
      split: list.splits if_splits)

lemma scan_number_ok: "scan_number s = Inr (v, r) \<Longrightarrow> json_ok strict v"
proof -
  assume a: "scan_number s = Inr (v, r)"
  obtain neg s1 where s1: "scan_sign s = (neg, s1)" by (cases "scan_sign s")
  from a s1 obtain ip s2 where s2: "scan_int_part s1 = Some (ip, s2)"
    by (auto simp: scan_number_def split: option.splits)
  obtain fr s3 where s3: "scan_fraction s2 = (fr, s3)" by (cases "scan_fraction s2")
  have len: "length (dec_digits (dec_value ip)) \<le> length ip"
    using scan_int_part_digits' [OF s2] by (intro length_dec_digits dec_value_bound) auto
  show ?thesis
    using a s1 s2 s3 len mk_dec_ok
    by (auto simp: scan_number_def split: option.splits if_splits)
qed

lemma scan_constant_ok: "scan_constant strict s = Inr (Some (v, r)) \<Longrightarrow> json_ok strict v"
  by (auto simp: scan_constant_def split: if_splits)

lemma dset_values: "kv \<in> set (dset d k v) \<Longrightarrow> kv \<in> set d \<or> snd kv = v"
  by (induction d k v rule: dset.induct) (auto split: if_splits)

lemma dict_of_values: "kv \<in> set (dict_of kvs) \<Longrightarrow> snd kv \<in> snd ` set kvs"
proof -
  have "kv \<in> set (foldl (\<lambda>d kv. dset d (fst kv) (snd kv)) d kvs)
      \<Longrightarrow> snd kv \<in> snd ` (set d \<union> set kvs)" for d
  proof (induction kvs arbitrary: d)
    case (Cons kv' kvs)
    from Cons.IH [of "dset d (fst kv') (snd kv')"] Cons.prems
    show ?case by (auto dest!: dset_values)
  qed auto
  from this [of "[]"] show "kv \<in> set (dict_of kvs) \<Longrightarrow> snd kv \<in> snd ` set kvs"
    by (simp add: dict_of_def)
qed

lemma mk_object_ok:
  "mk_object strict kvs = Inr v \<Longrightarrow> \<forall>kv \<in> set kvs. json_ok strict (snd kv) \<Longrightarrow> json_ok strict v"
  using dict_ok_dict_of [of kvs] dict_of_values [of _ kvs]
  by (fastforce simp: mk_object_def dict_ok_def dkeys_def split: if_splits)

lemma scan_ok:
  "scan_value n strict s = Inr (v, r) \<Longrightarrow> json_ok strict v"
  "scan_elements n strict s = Inr (vs, r) \<Longrightarrow> \<forall>v \<in> set vs. json_ok strict v"
  "scan_members n strict s = Inr (kvs, r) \<Longrightarrow> \<forall>kv \<in> set kvs. json_ok strict (snd kv)"
proof (induction n strict s and n strict s and n strict s
    arbitrary: v r and vs r and kvs r rule: scan_value_scan_elements_scan_members.induct)
  case (3 n strict c cs)
  then show ?case
    by (auto split: if_splits sum.splits option.splits prod.splits
        dest: scan_number_ok scan_constant_ok mk_object_ok)
next
  case (5 n strict s)
  then show ?case
    by (auto simp del: scan_elements.simps(1) split: if_splits sum.splits list.splits prod.splits)
next
  case (7 n strict s)
  from "7.prems" obtain cs k r1 r2 v r3 d r4 where
    s: "s = quote # cs" "scan_string cs = Inr (k, r1)" "skip_ws r1 = CHR '':'' # r2"
      "scan_value n strict (skip_ws r2) = Inr (v, r3)" "skip_ws r3 = d # r4"
    by (auto split: list.splits if_splits sum.splits)
  note v = "7.IH"(1) [OF s(1) _ s(2) refl s(3) _ s(4)]
  show ?case
  proof (cases "d = CHR ''}''")
    case True
    with "7.prems" s v show ?thesis by auto
  next
    case False
    with "7.prems" s obtain kvs' where
      kvs: "d = CHR '',''" "scan_members n strict (skip_ws r4) = Inr (kvs', r)" "kvs = (k, v) # kvs'"
      by (auto split: if_splits sum.splits)
    with v "7.IH"(2) [OF s(1) _ s(2) refl s(3) _ s(4) refl s(5) False kvs(1,2)] show ?thesis by simp
  qed
qed simp_all

section \<open>Text codecs\<close>

text \<open>
  What a client of an encoding relies on: decoding an encoded value gives it back. It
  follows that the encoding is injective on the values it is good for.
\<close>

locale codec =
  fixes enc :: "'a \<Rightarrow> 'b" and dec :: "'b \<Rightarrow> 'e + 'a" and good :: "'a \<Rightarrow> bool"
  assumes dec_enc: "good v \<Longrightarrow> dec (enc v) = Inr v"
begin

lemma enc_inject: "good v \<Longrightarrow> good w \<Longrightarrow> enc v = enc w \<longleftrightarrow> v = w"
  by (metis dec_enc sum.inject(2))

lemma dec_enc_iff: "good v \<Longrightarrow> dec (enc v) = Inr w \<longleftrightarrow> w = v"
  by (auto simp: dec_enc)

end

text \<open>A codec whose decoder delivers only values the encoder is good for.\<close>

locale closed_codec = codec +
  assumes dec_good: "dec t = Inr v \<Longrightarrow> good v"
begin

lemma normal_form: "dec t = Inr v \<Longrightarrow> dec (enc v) = Inr v"
  by (rule dec_enc) (rule dec_good)

end

lemma loads_dumps: "json_ok strict v \<Longrightarrow> loads_with strict (dumps False a v) = Inr v"
  using dumps_reads_back [of strict v a] reads_backD [of strict a v "[]" "2 * length (dumps False a v)"]
    head_ok_skip_ws [OF dumps_head, of False a v]
  by (simp add: loads_with_def delim_def skip_ws_def)

lemma loads_ok: "loads_with strict s = Inr v \<Longrightarrow> json_ok strict v"
  by (auto simp: loads_with_def scan_ok split: sum.splits if_splits)

interpretation json_text: closed_codec "dumps False a" "loads_with strict" "json_ok strict"
  for a strict
  by unfold_locales (auto simp: loads_dumps loads_ok)

lemma int_digit_limit_pos: "0 < int_digit_limit"
  by (simp add: int_digit_limit_def)

lemma length_dec_digits_bound: "n < 10 ^ int_digit_limit \<Longrightarrow> length (dec_digits n) \<le> int_digit_limit"
  by (rule length_dec_digits [OF _ int_digit_limit_pos])

section \<open>Canonical encoding\<close>

text \<open>\<open>sort_keys=True\<close> prints the value with every dictionary sorted by key.\<close>

fun canon :: "json \<Rightarrow> json" where
  "canon (JArr vs) = JArr (map canon vs)"
| "canon (JObj kvs) = JObj (sort_key fst (map (\<lambda>(k, v). (k, canon v)) kvs))"
| "canon v = v"

lemma insort_key_map:
  "insort_key fst (fst kv, f (snd kv)) (map (\<lambda>kv. (fst kv, f (snd kv))) kvs)
     = map (\<lambda>kv. (fst kv, f (snd kv))) (insort_key fst kv kvs)"
  by (induction kvs) auto

lemma sort_key_map:
  "sort_key fst (map (\<lambda>kv. (fst kv, f (snd kv))) kvs) = map (\<lambda>kv. (fst kv, f (snd kv))) (sort_key fst kvs)"
  by (induction kvs) (simp_all add: insort_key_map)

lemma dumps_sorted: "dumps True a v = dumps False a (canon v)"
proof (induction v)
  case (JArr vs)
  then have "map (dumps True a) vs = map (dumps False a) (map canon vs)" by simp
  then show ?case by (simp del: map_map)
next
  case (JObj kvs)
  then have "map (\<lambda>kv. (fst kv, dumps True a (snd kv))) kvs
      = map (\<lambda>kv. (fst kv, dumps False a (snd kv))) (map (\<lambda>kv. (fst kv, canon (snd kv))) kvs)"
    by (auto simp: prod_set_simps intro!: snds.intros)
  then have "sort_key fst (map (\<lambda>kv. (fst kv, dumps True a (snd kv))) kvs)
      = map (\<lambda>kv. (fst kv, dumps False a (snd kv))) (sort_key fst (map (\<lambda>kv. (fst kv, canon (snd kv))) kvs))"
    by (simp only: sort_key_map)
  then show ?case by (simp add: case_prod_unfold Let_def)
qed simp_all

lemma set_keys_insort: "set (map fst (insort_key fst kv kvs)) = insert (fst kv) (set (map fst kvs))"
  by (induction kvs) auto

lemma distinct_keys_insort:
  "distinct (map fst (insort_key fst kv kvs)) \<longleftrightarrow> fst kv \<notin> fst ` set kvs \<and> distinct (map fst kvs)"
  using set_keys_insort [of kv] by (induction kvs) (auto simp: set_insort_key)

lemma distinct_keys_sort: "distinct (map fst (sort_key fst kvs)) \<longleftrightarrow> distinct (map fst kvs)"
  by (induction kvs) (simp_all add: distinct_keys_insort)

lemma canon_ok: "json_ok strict v \<Longrightarrow> json_ok strict (canon v)"
proof (induction v)
  case (JObj kvs)
  let ?kvs = "map (\<lambda>kv. (fst kv, canon (snd kv))) kvs"
  have "distinct (map fst (sort_key fst ?kvs))"
    using JObj.prems by (simp add: distinct_keys_sort o_def del: distinct_map)
  moreover have "\<forall>kv \<in> set ?kvs. json_ok strict (snd kv)" using JObj by (auto simp: prod_set_simps)
  ultimately show ?case by (simp add: case_prod_unfold)
qed auto

section \<open>Printed text\<close>

text \<open>No text the printer writes holds a control character, so a line cannot end early.\<close>

definition printed :: "string \<Rightarrow> bool" where
  "printed s \<longleftrightarrow> (\<forall>c\<in>set s. 32 \<le> ord_of c)"

lemma printed_simps [simp]:
  "printed []" "printed (c # s) \<longleftrightarrow> 32 \<le> ord_of c \<and> printed s" "printed (s @ t) \<longleftrightarrow> printed s \<and> printed t"
  by (auto simp: printed_def)

lemma printed_subset: "printed s \<Longrightarrow> set t \<subseteq> set s \<Longrightarrow> printed t"
  by (auto simp: printed_def)

lemma printed_digits: "printed (dec_digits n)"
  using dec_digits_are_digits by (fastforce simp: printed_def is_digit_def)

lemma printed_hex_digit: "n < 16 \<Longrightarrow> 32 \<le> ord_of (hex_digit n)"
  by (simp add: hex_digit_def)

lemma printed_quote: "printed (quote_string a s)"
proof -
  have "printed (escape_char a c)" for c
  proof -
    have "ord_of c div 16 < 16" using nat_of_char_less_256 [of c] by linarith
    then show ?thesis
      using printed_hex_digit [of "ord_of c div 16"] printed_hex_digit [of "ord_of c mod 16"]
      by (simp add: escape_char_def)
  qed
  then have "printed (concat (map (escape_char a) s))" by (auto simp: printed_def)
  then show ?thesis by (simp add: quote_string_def)
qed

lemma set_join: "set (join sep xs) \<subseteq> set sep \<union> \<Union> (set (map set xs))"
  by (induction sep xs rule: join.induct) auto

lemma printed_join: "printed sep \<Longrightarrow> \<forall>x\<in>set xs. printed x \<Longrightarrow> printed (join sep xs)"
  using set_join [of sep xs] by (fastforce simp: printed_def)

lemma printed_decimal: "printed (decimal_text m e)"
proof -
  have "set [hd (dec_digits m)] \<subseteq> set (dec_digits m)" "set (tl (dec_digits m)) \<subseteq> set (dec_digits m)"
    by (auto intro: list.set_sel(2))
  moreover have "set (take n (dec_digits m)) \<subseteq> set (dec_digits m)" "set (drop n (dec_digits m)) \<subseteq> set (dec_digits m)" for n
    by (auto dest: in_set_takeD in_set_dropD)
  ultimately have d: "printed [hd (dec_digits m)]" "printed (tl (dec_digits m))"
    "printed (take n (dec_digits m))" "printed (drop n (dec_digits m))" for n
    using printed_subset [OF printed_digits [of m]] by blast+
  have "printed (zeros n)" "printed (exponent_text i)" for n i
    using printed_digits by (simp_all add: zeros_def exponent_text_def Let_def printed_def [of "replicate _ _"])
  with d printed_digits [of m] show ?thesis by (simp add: decimal_text_def Let_def)
qed

lemma printed_dumps: "printed (dumps False a v)"
proof (induction v)
  case (JInt i)
  then show ?case using printed_digits by (simp add: int_text_def)
next
  case (JFloat f)
  then show ?case using printed_decimal by (cases f) simp_all
next
  case (JStr s)
  then show ?case using printed_quote by simp
next
  case (JArr vs)
  then have "printed (join '','' (map (dumps False a) vs))" by (intro printed_join) auto
  then show ?case by simp
next
  case (JObj kvs)
  have "printed (join '','' (map (\<lambda>(k, t). quote_string a k @ '':'' @ t) (map (\<lambda>(k, v). (k, dumps False a v)) kvs)))"
    using JObj printed_quote by (intro printed_join) (auto simp: prod_set_simps)
  then show ?case by simp
qed simp_all

declare scan_value.simps [simp del] scan_elements.simps [simp del] scan_members.simps [simp del]

end
