(* ===== verification/Sha256.thy ===== *)
theory Sha256
  imports Prelude "HOL-Library.Word"
begin

text \<open>
  SHA-256 and HMAC-SHA-256 as Python's \<open>hashlib\<close> and \<open>hmac\<close> compute them, over lists of
  bytes, with \<open>hexdigest\<close> and the UTF-8 encoding of text. The tool-call signature, the
  budget key of a principal and the hashed identifiers of the evidence ledgers rest on them.
\<close>

unbundle bit_operations_syntax

type_synonym w32 = "32 word"

definition K256 :: "w32 list" where
  "K256 =
    [1116352408, 1899447441, 3049323471, 3921009573, 961987163, 1508970993, 2453635748, 2870763221,
     3624381080, 310598401, 607225278, 1426881987, 1925078388, 2162078206, 2614888103, 3248222580,
     3835390401, 4022224774, 264347078, 604807628, 770255983, 1249150122, 1555081692, 1996064986,
     2554220882, 2821834349, 2952996808, 3210313671, 3336571891, 3584528711, 113926993, 338241895,
     666307205, 773529912, 1294757372, 1396182291, 1695183700, 1986661051, 2177026350, 2456956037,
     2730485921, 2820302411, 3259730800, 3345764771, 3516065817, 3600352804, 4094571909, 275423344,
     430227734, 506948616, 659060556, 883997877, 958139571, 1322822218, 1537002063, 1747873779,
     1955562222, 2024104815, 2227730452, 2361852424, 2428436474, 2756734187, 3204031479, 3329325298]"

record sha_state =
  ha :: w32  hb :: w32  hc :: w32  hd' :: w32
  he :: w32  hf :: w32  hg :: w32  hh :: w32

definition sha_init :: sha_state where
  "sha_init = \<lparr>ha = 1779033703, hb = 3144134277, hc = 1013904242, hd' = 2773480762,
     he = 1359893119, hf = 2600822924, hg = 528734635, hh = 1541459225\<rparr>"

definition rotr :: "nat \<Rightarrow> w32 \<Rightarrow> w32" where
  "rotr n w = (drop_bit n w) OR (push_bit (32 - n) w)"

definition sigma0 :: "w32 \<Rightarrow> w32" where
  "sigma0 x = rotr 7 x XOR rotr 18 x XOR drop_bit 3 x"

definition sigma1 :: "w32 \<Rightarrow> w32" where
  "sigma1 x = rotr 17 x XOR rotr 19 x XOR drop_bit 10 x"

definition Sigma0 :: "w32 \<Rightarrow> w32" where
  "Sigma0 x = rotr 2 x XOR rotr 13 x XOR rotr 22 x"

definition Sigma1 :: "w32 \<Rightarrow> w32" where
  "Sigma1 x = rotr 6 x XOR rotr 11 x XOR rotr 25 x"

definition sha_round :: "w32 \<times> w32 \<Rightarrow> sha_state \<Rightarrow> sha_state" where
  "sha_round kw s =
     (let t1 = hh s + Sigma1 (he s) + ((he s AND hf s) XOR ((NOT (he s)) AND hg s)) + fst kw + snd kw;
          t2 = Sigma0 (ha s) + ((ha s AND hb s) XOR (ha s AND hc s) XOR (hb s AND hc s))
      in \<lparr>ha = t1 + t2, hb = ha s, hc = hb s, hd' = hc s,
          he = hd' s + t1, hf = he s, hg = hf s, hh = hg s\<rparr>)"

text \<open>The message schedule, extended one word at a time; the newest word stands first.\<close>

fun extend :: "nat \<Rightarrow> w32 list \<Rightarrow> w32 list" where
  "extend 0 ws = ws"
| "extend (Suc n) ws =
     extend n ((sigma1 (ws ! 1) + ws ! 6 + sigma0 (ws ! 14) + ws ! 15) # ws)"

definition schedule :: "w32 list \<Rightarrow> w32 list" where
  "schedule block = rev (extend 48 (rev block))"

definition sha_block :: "w32 list \<Rightarrow> sha_state \<Rightarrow> sha_state" where
  "sha_block block s =
     (let r = fold sha_round (zip K256 (schedule block)) s
      in \<lparr>ha = ha s + ha r, hb = hb s + hb r, hc = hc s + hc r, hd' = hd' s + hd' r,
          he = he s + he r, hf = hf s + hf r, hg = hg s + hg r, hh = hh s + hh r\<rparr>)"

text \<open>Bytes are integers from 0 to 255; padding appends 0x80, zeros and the length in bits.\<close>

fun be_bytes :: "nat \<Rightarrow> int \<Rightarrow> int list" where
  "be_bytes 0 n = []"
| "be_bytes (Suc k) n = be_bytes k (n div 256) @ [n mod 256]"

definition pad :: "int list \<Rightarrow> int list" where
  "pad bs = bs @ 128 # replicate ((119 - length bs mod 64) mod 64) 0 @ be_bytes 8 (8 * int (length bs))"

fun words :: "int list \<Rightarrow> w32 list" where
  "words (a # b # c # d # bs) =
     word_of_int (((a * 256 + b) * 256 + c) * 256 + d) # words bs"
| "words bs = []"

fun blocks :: "nat \<Rightarrow> w32 list \<Rightarrow> w32 list list" where
  "blocks 0 ws = []"
| "blocks (Suc n) ws = (if ws = [] then [] else take 16 ws # blocks n (drop 16 ws))"

definition sha256 :: "int list \<Rightarrow> int list" where
  "sha256 bs =
     (let ws = words (pad bs); r = fold sha_block (blocks (length ws) ws) sha_init
      in concat (map (\<lambda>w. be_bytes 4 (uint w)) [ha r, hb r, hc r, hd' r, he r, hf r, hg r, hh r]))"

definition hex_char :: "int \<Rightarrow> char" where
  "hex_char n = (if n < 10 then char_of (48 + n) else char_of (87 + n))"

definition hexdigest :: "int list \<Rightarrow> string" where
  "hexdigest bs = concat (map (\<lambda>b. [hex_char (b div 16), hex_char (b mod 16)]) bs)"

definition utf8_char :: "char \<Rightarrow> int list" where
  "utf8_char c = (let n = of_char c in if n < 128 then [n] else [192 + n div 64, 128 + n mod 64])"

definition utf8 :: "string \<Rightarrow> int list" where
  "utf8 s = concat (map utf8_char s)"

definition sha256_hex :: "string \<Rightarrow> string" where
  "sha256_hex s = hexdigest (sha256 (utf8 s))"

definition hmac_key :: "int list \<Rightarrow> int list" where
  "hmac_key key = (let k = (if 64 < length key then sha256 key else key)
     in k @ replicate (64 - length k) 0)"

definition xor_bytes :: "int \<Rightarrow> int list \<Rightarrow> int list" where
  "xor_bytes m bs = map (\<lambda>b. b XOR m) bs"

definition hmac_sha256 :: "int list \<Rightarrow> int list \<Rightarrow> int list" where
  "hmac_sha256 key msg =
     (let k = hmac_key key in sha256 (xor_bytes 92 k @ sha256 (xor_bytes 54 k @ msg)))"

lemma length_be_bytes [simp]: "length (be_bytes k n) = k"
  by (induction k arbitrary: n) auto

lemma length_sha256 [simp]: "length (sha256 bs) = 32"
  by (simp add: sha256_def Let_def)

lemma length_hexdigest [simp]: "length (hexdigest bs) = 2 * length bs"
  by (induction bs) (simp_all add: hexdigest_def)

lemma length_hmac_sha256 [simp]: "length (hmac_sha256 key msg) = 32"
  by (simp add: hmac_sha256_def Let_def)

text \<open>The padding fills whole blocks of 64 bytes, so the schedule always reads 16 words.\<close>

lemma length_pad: "length (pad bs) mod 64 = 0"
proof -
  define m where "m = length bs mod 64"
  have m: "m < 64" by (simp add: m_def)
  have "length (pad bs) mod 64 = (length bs + (119 - m) mod 64 + 9) mod 64"
    by (simp add: pad_def m_def ac_simps)
  also have "\<dots> = (m + (119 - m) mod 64 + 9) mod 64"
    by (simp add: m_def mod_simps add.assoc)
  also have "\<dots> = 0" using m by (cases "m < 56") (auto simp: not_less mod_if)
  finally show ?thesis .
qed

end
