(* ===== verification/Core.thy ===== *)
theory Core
  imports Json_Laws Sha256
begin

text \<open>
  \<open>core.py\<close>: tool roles, the classification of tool results, receipts, and the agent harness
  with its operations. The harness is the record \<open>agent_harness\<close>; each method that changes
  it returns the changed record, and a method that may raise returns a \<^typ>\<open>'a result\<close>.
\<close>

named_theorems harness_simps \<open>how the harness operations change the fields of the harness\<close>

section \<open>Constants\<close>

definition HARNESS_PROFILE :: string where
  "HARNESS_PROFILE = ''shiftedx-harness-v1''"

definition HARNESS_SYSTEM_SUFFIX :: string where
  "HARNESS_SYSTEM_SUFFIX =
     [CHR 0x0A, CHR 0x0A] @ ''Maintain receipt-grounded work state. After failure, change the action or arguments. Never '' @
     ''repeat an identical call in an unchanged state epoch. Successful reads do not resolve failed '' @
     ''checks. Verify after mutation. Only downstream-visible assistant tool-call IDs paired with '' @
     ''client-supplied role=tool results count as executed. A shiftedx_harness blocked result is a '' @
     ''proxy decision, not a client execution. Trust structured status over incidental words. Return '' @
     ''the exact requested format without fences.''"

definition DEFAULT_MUTATION_TOOLS :: "string set" where
  "DEFAULT_MUTATION_TOOLS = {''apply_patch'', ''edit_file'', ''str_replace_editor'', ''write_file''}"

definition DEFAULT_VERIFICATION_TOOLS :: "string set" where
  "DEFAULT_VERIFICATION_TOOLS = {''run_tests'', ''run_checks'', ''verify'', ''check''}"

definition DEFAULT_INVESTIGATION_TOOLS :: "string set" where
  "DEFAULT_INVESTIGATION_TOOLS = {''file_search'', ''read_file'', ''session_search'', ''read_logs''}"

definition FAILURE_STATUSES :: "string list" where
  "FAILURE_STATUSES = [''error'', ''failed'', ''failure'', ''rejected'', ''not_found'']"

section \<open>Tool roles\<close>

record tool_roles =
  mutation :: "string set"
  verification :: "string set"
  investigation :: "string set"

definition default_roles :: tool_roles where
  "default_roles = \<lparr>mutation = DEFAULT_MUTATION_TOOLS, verification = DEFAULT_VERIFICATION_TOOLS,
     investigation = DEFAULT_INVESTIGATION_TOOLS\<rparr>"

definition configured_role :: "tool_roles \<Rightarrow> string \<Rightarrow> string option result" where
  "configured_role rs name =
     (let matches = map fst (filter (\<lambda>rn. name \<in> snd rn)
        [(''mutation'', mutation rs), (''verification'', verification rs),
         (''investigation'', investigation rs)])
      in if 1 < length matches then Inl (ValueError ''Configured tool roles must assign each tool name to only one role'')
         else Inr (case matches of [] \<Rightarrow> None | m # _ \<Rightarrow> Some m))"

definition with_annotation :: "tool_roles \<Rightarrow> string \<Rightarrow> string \<Rightarrow> tool_roles result" where
  "with_annotation rs name role =
     (if role \<notin> set [''mutation'', ''verification'', ''investigation'', ''other'']
      then Inl (ValueError (''Unsupported x-shiftedx-role for '' @ name @ '': '' @ role))
      else Inr \<lparr>mutation = (if role = ''mutation'' then insert name (mutation rs - {name})
                            else mutation rs - {name}),
                verification = (if role = ''verification'' then insert name (verification rs - {name})
                            else verification rs - {name}),
                investigation = (if role = ''investigation'' then insert name (investigation rs - {name})
                            else investigation rs - {name})\<rparr>)"

section \<open>Signatures\<close>

definition canonical_signature :: "string \<Rightarrow> jobject \<Rightarrow> string" where
  "canonical_signature name arguments =
     (let encoded = dumps True True (JObj arguments);
          digest = take 12 (sha256_hex (name @ CHR 0x00 # encoded))
      in name @ '':'' @ digest)"

section \<open>Receipt status\<close>

datatype status = Success | Failure

fun status_text :: "status \<Rightarrow> string" where
  "status_text Success = ''success''"
| "status_text Failure = ''failure''"

text \<open>
  The failure patterns are searched ignoring case. All but the last are anchored at the start
  of the text; \<open>word_end\<close> is the boundary after a word.
\<close>

definition word_end :: "string \<Rightarrow> bool" where
  "word_end r = (case r of [] \<Rightarrow> True | c # _ \<Rightarrow> \<not> is_word c)"

definition leads_with_word :: "string \<Rightarrow> string \<Rightarrow> bool" where
  "leads_with_word w t = (starts_with w (lower t) \<and> word_end (drop (length w) t))"

definition leads_with_error_colon :: "string \<Rightarrow> bool" where
  "leads_with_error_colon t =
     (starts_with ''error'' (lower t) \<and> starts_with '':'' (dropWhile is_space (drop 5 t)))"

definition count_failed_here :: "string \<Rightarrow> bool" where
  "count_failed_here t =
     (let r = dropWhile is_digit t; r' = dropWhile is_space r
      in r \<noteq> t \<and> r' \<noteq> r \<and> leads_with_word ''failed'' r')"

fun search_count_failed :: "bool \<Rightarrow> string \<Rightarrow> bool" where
  "search_count_failed after_word [] = False"
| "search_count_failed after_word (c # cs) =
     ((\<not> after_word \<and> count_failed_here (c # cs)) \<or> search_count_failed (is_word c) cs)"

definition matches_failure_pattern :: "string \<Rightarrow> bool" where
  "matches_failure_pattern t =
     (leads_with_word ''filenotfounderror'' t \<or> leads_with_word ''unknown tool'' t
      \<or> leads_with_word ''patch rejected'' t \<or> leads_with_word ''patch does not'' t
      \<or> leads_with_word ''dispatcher failure'' t \<or> leads_with_error_colon t
      \<or> search_count_failed False t)"

definition receipt_status :: "string \<Rightarrow> status result" where
  "receipt_status r =
     (let txt = strip r in
      case json_loads txt of
        Inr (JObj value) \<Rightarrow>
          (if lower (strip (py_str (get_or value ''status'' (JStr '''')))) \<in> set FAILURE_STATUSES
           then Inr Failure
           else if truthy (get value ''error'') then Inr Failure
           else Inr Success)
      | Inl (ValueError m) \<Rightarrow> Inl (ValueError m)
      | Inl OutsideModel \<Rightarrow> Inl OutsideModel
      | _ \<Rightarrow> Inr (if matches_failure_pattern txt then Failure else Success))"

section \<open>Terminal JSON\<close>

text \<open>
  \<open>fence_body\<close> is the regular expression of \<open>normalize_bare_json\<close> on stripped text, up to
  white space around the body, which the code strips: three backquotes, an optional tag
  \<open>json\<close> in any case, the body, three backquotes at the end.
\<close>

definition fence :: string where "fence = ''```''"

definition fence_body :: "string \<Rightarrow> string option" where
  "fence_body t =
     (if \<not> starts_with fence t then None
      else (let r = drop 3 t; r' = (if starts_with ''json'' (lower r) then drop 4 r else r)
            in if ends_with fence r' then Some (take (length r' - 3) r') else None))"

definition normalize_bare_json :: "string \<Rightarrow> (string \<times> bool) result" where
  "normalize_bare_json content =
     (case fence_body (strip content) of None \<Rightarrow> Inr (content, False)
      | Some body \<Rightarrow>
        (let candidate = strip body in
         case json_loads candidate of
           Inl JSONDecodeError \<Rightarrow> Inr (content, False)
         | Inl e \<Rightarrow> Inl e
         | Inr value \<Rightarrow> Inr (if is_dict value then (candidate, True) else (content, False))))"

definition matches_json_type :: "json \<Rightarrow> string \<Rightarrow> bool result" where
  "matches_json_type v type_name =
     (if type_name = ''string'' then Inr (is_str v)
      else if type_name = ''integer'' then Inr (is_int v)
      else if type_name = ''number'' then Inr (is_int v \<or> is_float v)
      else if type_name = ''boolean'' then Inr (is_bool v)
      else Inl (ValueError (''Unsupported JSON type contract: '' @ type_name)))"

fun type_issue :: "jobject \<Rightarrow> (string, string) dict \<Rightarrow> string option result" where
  "type_issue value [] = Inr None"
| "type_issue value ((key, type_name) # types) =
     (case dget value key of None \<Rightarrow> type_issue value types
      | Some v \<Rightarrow>
        (case matches_json_type v type_name of Inl e \<Rightarrow> Inl e
         | Inr True \<Rightarrow> type_issue value types
         | Inr False \<Rightarrow>
             Inr (Some (''The final JSON key '' @ key @ '' must be a JSON '' @ type_name @ ''.''))))"

definition bare_json_issue ::
  "string \<Rightarrow> string list option \<Rightarrow> (string, string) dict \<Rightarrow> string option result" where
  "bare_json_issue content required_keys required_types =
     (let txt = strip content in
      if txt = [] then Inr (Some ''The final answer is empty; return the requested bare JSON object.'')
      else
        (case json_loads txt of
          Inl JSONDecodeError \<Rightarrow>
            Inr (Some ''The final answer is not bare parseable JSON; remove fences and commentary.'')
        | Inl e \<Rightarrow> Inl e
        | Inr (JObj value) \<Rightarrow>
            (case required_keys of
               Some ks \<Rightarrow>
                 (if set (dkeys value) \<noteq> set ks
                  then Inr (Some (''The final JSON must contain exactly these keys: '' @ join '', '' ks @ ''.''))
                  else type_issue value required_types)
             | None \<Rightarrow> type_issue value required_types)
        | Inr v \<Rightarrow> Inr (Some ''The final answer must be a JSON object.'')))"

section \<open>Receipts and the harness\<close>

record receipt =
  receipt_id :: nat
  r_tool :: string
  r_signature :: string
  r_status :: status
  r_epoch :: nat

definition receipt_to_dict :: "receipt \<Rightarrow> jobject" where
  "receipt_to_dict r =
     [(''id'', JInt (int (receipt_id r))), (''tool'', JStr (r_tool r)),
      (''signature'', JStr (r_signature r)), (''status'', JStr (status_text (r_status r))),
      (''epoch'', JInt (int (r_epoch r)))]"

record agent_harness =
  goal :: string
  available_tools :: "string set"
  required_json_keys :: "string list option"
  required_json_types :: "(string, string) dict"
  enforce_failed_execution_claim :: bool
  require_receipt :: bool
  roles :: tool_roles
  epoch :: nat
  receipts :: "receipt list"
  pending_verification :: bool
  blocked_duplicates :: nat
  blocked_stalls :: nat
  last_action_blocked :: bool
  force_finalize :: bool
  terminal_corrections :: nat
  open_failures :: "(string, nat) dict"
  investigations_since_failed_verification :: nat

definition new_harness ::
  "string \<Rightarrow> string set \<Rightarrow> string list option \<Rightarrow> (string, string) dict \<Rightarrow> bool \<Rightarrow> bool
   \<Rightarrow> tool_roles \<Rightarrow> agent_harness" where
  "new_harness g tools ks types enforce require rs =
     \<lparr>goal = g, available_tools = tools, required_json_keys = ks, required_json_types = types,
      enforce_failed_execution_claim = enforce, require_receipt = require, roles = rs,
      epoch = 0, receipts = [], pending_verification = False, blocked_duplicates = 0,
      blocked_stalls = 0, last_action_blocked = False, force_finalize = False,
      terminal_corrections = 0, open_failures = [],
      investigations_since_failed_verification = 0\<rparr>"

definition duplicate :: "agent_harness \<Rightarrow> string \<Rightarrow> jobject \<Rightarrow> receipt option" where
  "duplicate h name arguments =
     (let sig = canonical_signature name arguments
      in find (\<lambda>r. r_epoch r = epoch h \<and> r_signature r = sig) (rev (receipts h)))"

definition verification_failure_open :: "agent_harness \<Rightarrow> bool" where
  "verification_failure_open h = list_ex (\<lambda>tool. tool \<in> verification (roles h)) (dkeys (open_failures h))"

text \<open>
  \<open>record\<close>: the two flags are cleared, the receipt is appended, the open failures and the
  investigation counter are updated, then the epoch and the verification requirement.
\<close>

definition note_failures :: "string \<Rightarrow> receipt \<Rightarrow> agent_harness \<Rightarrow> agent_harness" where
  "note_failures name r h =
     (if r_status r = Failure \<and> name \<in> verification (roles h)
      then h\<lparr>open_failures := dset (open_failures h) name (receipt_id r),
             investigations_since_failed_verification := 0\<rparr>
      else (let h' = h\<lparr>open_failures := dpop (open_failures h) name\<rparr> in
            if r_status r = Success \<and> name \<in> investigation (roles h') \<and> verification_failure_open h'
            then h'\<lparr>investigations_since_failed_verification :=
                      Suc (investigations_since_failed_verification h')\<rparr>
            else h'))"

definition note_mutation :: "string \<Rightarrow> receipt \<Rightarrow> agent_harness \<Rightarrow> agent_harness" where
  "note_mutation name r h =
     (if r_status r = Success \<and> name \<in> mutation (roles h)
      then h\<lparr>epoch := Suc (epoch h), pending_verification := True,
             investigations_since_failed_verification := 0\<rparr>
      else if name \<in> verification (roles h) \<and> pending_verification h
      then h\<lparr>pending_verification := False\<rparr>
      else h)"

definition record_status ::
  "agent_harness \<Rightarrow> string \<Rightarrow> jobject \<Rightarrow> status \<Rightarrow> agent_harness \<times> receipt" where
  "record_status h name arguments st =
     (let r = \<lparr>receipt_id = length (receipts h) + 1, r_tool = name,
               r_signature = canonical_signature name arguments, r_status = st, r_epoch = epoch h\<rparr>;
          h1 = h\<lparr>last_action_blocked := False, force_finalize := False, receipts := receipts h @ [r]\<rparr>
      in (note_mutation name r (note_failures name r h1), r))"

definition record_result ::
  "agent_harness \<Rightarrow> string \<Rightarrow> jobject \<Rightarrow> string \<Rightarrow> (agent_harness \<times> receipt) result" where
  "record_result h name arguments res =
     (case receipt_status res of Inl e \<Rightarrow> Inl e
      | Inr st \<Rightarrow> Inr (record_status h name arguments st))"

definition blocked_result :: "agent_harness \<Rightarrow> receipt \<Rightarrow> agent_harness \<times> string" where
  "blocked_result h prior =
     (let ff = (r_status prior = Success \<and> \<not> pending_verification h \<and> open_failures h = [])
      in (h\<lparr>blocked_duplicates := Suc (blocked_duplicates h), last_action_blocked := True,
            force_finalize := ff\<rparr>,
          json_dumps (JObj
            [(''shiftedx_harness'', JStr ''duplicate_call_blocked''),
             (''execution_status'', JStr ''blocked_not_executed''),
             (''fact'', JStr ''This proposed call was blocked by the proxy and did not reach the client executor.''),
             (''prior_receipt'', JInt (int (receipt_id prior))),
             (''instruction'', JStr (if ff
                then ''The prior successful receipt is sufficient. Return the required final answer now.''
                else ''Diagnose the prior receipt and choose a changed action or arguments.''))])))"

definition stall_blocks :: "agent_harness \<Rightarrow> string \<Rightarrow> bool" where
  "stall_blocks h name =
     (name \<in> investigation (roles h) \<and> verification_failure_open h
      \<and> available_tools h \<inter> mutation (roles h) \<noteq> {}
      \<and> 3 \<le> investigations_since_failed_verification h)"

definition stalled_result :: "agent_harness \<Rightarrow> string \<Rightarrow> agent_harness \<times> string option" where
  "stalled_result h name =
     (if \<not> stall_blocks h name then (h, None)
      else (h\<lparr>blocked_stalls := Suc (blocked_stalls h), last_action_blocked := True,
              force_finalize := False\<rparr>,
            Some (json_dumps (JObj
              [(''shiftedx_harness'', JStr ''investigation_stall_blocked''),
               (''instruction'', JStr (''A verification failure remains open and three successful investigation receipts are '' @
                  ''already available. Use an available mutation tool, then rerun verification.''))]))))"

definition failed_executions_issue :: "agent_harness \<Rightarrow> json \<Rightarrow> string option" where
  "failed_executions_issue h structured =
     (case structured of
        JObj d \<Rightarrow>
          (if enforce_failed_execution_claim h \<and> dhas d ''failed_executions'' then
             (let expected = length (filter (\<lambda>r. r_status r = Failure) (receipts h))
              in if get d ''failed_executions'' \<noteq> JInt (int expected)
                 then Some (''The final JSON key failed_executions must be '' @ int_text (int expected) @
                   '', matching failed client-visible tool receipts.'')
                 else None)
           else None)
      | _ \<Rightarrow> None)"

definition terminal_issue :: "agent_harness \<Rightarrow> string \<Rightarrow> string option result" where
  "terminal_issue h content =
     (if receipts h = [] \<and> require_receipt h
      then Inr (Some ''No tool receipt supports completion; use the supplied tools first.'')
      else if last_action_blocked h \<and> \<not> force_finalize h
      then Inr (Some ''The latest requested action was blocked; choose a changed action before finishing.'')
      else if receipts h \<noteq> [] \<and> r_status (last (receipts h)) = Failure
      then Inr (Some ''The latest receipt failed; recover with a changed action before finishing.'')
      else if open_failures h \<noteq> []
      then Inr (Some (''Failed receipts remain unresolved for: '' @
             join '', '' (sort (dkeys (open_failures h))) @ ''. Recover and verify before finishing.''))
      else if pending_verification h
      then Inr (Some ''State changed after the last verification; run a verification tool before finishing.'')
      else
        (case (case json_loads (strip content) of Inl JSONDecodeError \<Rightarrow> Inr JNull | x \<Rightarrow> x) of
           Inl e \<Rightarrow> Inl e
         | Inr structured \<Rightarrow>
             (case failed_executions_issue h structured of Some m \<Rightarrow> Inr (Some m)
              | None \<Rightarrow>
                (case required_json_keys h of None \<Rightarrow> Inr None
                 | Some ks \<Rightarrow> bare_json_issue content (Some ks) (required_json_types h)))))"

definition correction :: "agent_harness \<Rightarrow> string \<Rightarrow> agent_harness \<times> string" where
  "correction h issue =
     (h\<lparr>terminal_corrections := Suc (terminal_corrections h)\<rparr>,
      ''[shiftedx harness correction]'' @ CHR 0x0A # issue @ CHR 0x0A #
      ''Continue from the verified receipts; do not restart completed work.'')"

definition receipt_text :: "receipt \<Rightarrow> string" where
  "receipt_text r = ''R'' @ int_text (int (receipt_id r)) @ '':'' @ r_tool r @ ''='' @
     status_text (r_status r) @ ''@e'' @ int_text (int (r_epoch r))"

definition or_none :: "string \<Rightarrow> string" where
  "or_none s = (if s = [] then ''none'' else s)"

definition render :: "agent_harness \<Rightarrow> string" where
  "render h =
     (let recent = drop (length (receipts h) - 3) (receipts h);
          receipt_line = or_none (join '', '' (map receipt_text recent));
          unresolved = or_none (join '','' (sort (dkeys (open_failures h))));
          action =
            (if pending_verification h \<and> available_tools h \<inter> verification (roles h) \<noteq> {}
             then ''Run a verification tool now; do not inspect or mutate again first.''
             else if verification_failure_open h
                 \<and> 3 \<le> investigations_since_failed_verification h
                 \<and> available_tools h \<inter> mutation (roles h) \<noteq> {}
             then ''A failed verification is diagnosed; use a mutation tool next, then rerun verification.''
             else ''Use receipts; change approach after failure; finish in the exact requested format.'');
          next_action =
            (if force_finalize h
             then ''Evidence is sufficient; return the required final answer now without another tool call.''
             else action)
      in ''[shiftedx harness] epoch='' @ int_text (int (epoch h)) @ '' verify='' @
         (if pending_verification h then ''required'' else ''clear'') @ '' open='' @ unresolved @
         '' receipts='' @ receipt_line @ ''. Next: '' @ next_action)"

end
