(* ===== verification/Core_Laws.thy ===== *)
theory Core_Laws
  imports Core
begin

text \<open>
  What the harness of \<open>Core\<close> guarantees. The abstract view of a harness is its ledger of
  receipts: the epoch, the open failures, the verification requirement and the duplicate
  check are functions of the ledger (\<open>ledger_ok\<close>), and every recorded result keeps that
  correspondence. The remaining sections treat signatures, roles, the terminal gate and the
  normalisation of fenced JSON.
\<close>

section \<open>Roles\<close>

definition roles_disjoint :: "tool_roles \<Rightarrow> bool" where
  "roles_disjoint rs \<longleftrightarrow> mutation rs \<inter> verification rs = {} \<and> mutation rs \<inter> investigation rs = {}
     \<and> verification rs \<inter> investigation rs = {}"

lemma default_roles_disjoint: "roles_disjoint default_roles"
  by (simp add: roles_disjoint_def default_roles_def DEFAULT_MUTATION_TOOLS_def
      DEFAULT_VERIFICATION_TOOLS_def DEFAULT_INVESTIGATION_TOOLS_def)

lemma configured_role_disjoint:
  "roles_disjoint rs \<Longrightarrow> configured_role rs name = Inr
     (if name \<in> mutation rs then Some ''mutation''
      else if name \<in> verification rs then Some ''verification''
      else if name \<in> investigation rs then Some ''investigation'' else None)"
  by (auto simp: configured_role_def roles_disjoint_def Let_def)

lemma with_annotation_disjoint:
  "roles_disjoint rs \<Longrightarrow> with_annotation rs name role = Inr rs' \<Longrightarrow> roles_disjoint rs'"
  by (auto simp: with_annotation_def roles_disjoint_def split: if_splits)

lemma with_annotation_other_names:
  "with_annotation rs name role = Inr rs' \<Longrightarrow> n \<noteq> name \<Longrightarrow>
     (n \<in> mutation rs' \<longleftrightarrow> n \<in> mutation rs) \<and> (n \<in> verification rs' \<longleftrightarrow> n \<in> verification rs)
     \<and> (n \<in> investigation rs' \<longleftrightarrow> n \<in> investigation rs)"
  by (auto simp: with_annotation_def split: if_splits)

section \<open>Signatures\<close>

lemma length_sha256_hex [simp]: "length (sha256_hex s) = 64"
  by (simp add: sha256_hex_def)

lemma canonical_signature_name:
  "canonical_signature n a = canonical_signature m b \<Longrightarrow> n = m"
proof -
  have same: "u @ x = v @ y \<Longrightarrow> length x = length y \<Longrightarrow> u = v" for u v x y :: string by simp
  show "canonical_signature n a = canonical_signature m b \<Longrightarrow> n = m"
    unfolding canonical_signature_def Let_def by (rule same, assumption) simp
qed

text \<open>Two dictionaries with the same bindings, in whatever order, sort to the same list.\<close>

lemma sort_key_same_bindings:
  fixes kvs kvs' :: "(string \<times> 'v) list"
  assumes "distinct (map fst kvs)" "distinct (map fst kvs')" "map_of kvs = map_of kvs'"
  shows "sort_key fst kvs = sort_key fst kvs'"
proof -
  have set_eq: "set kvs = set kvs'"
    using assms by (metis map_of_eqI set_map_of_compr)
  have ord: "sorted (map fst (sort_key fst l)) \<and> distinct (map fst (sort_key fst l)) \<and> set (sort_key fst l) = set l"
    if "distinct (map fst l)" for l :: "(string \<times> 'v) list"
    using that by (simp add: distinct_keys_sort del: distinct_map)
  have uniq: "l = l'" if "sorted (map fst l)" "distinct (map fst l)" "sorted (map fst l')"
      "distinct (map fst l')" "set l = set l'" for l l' :: "(string \<times> 'v) list"
    using that map_sorted_distinct_set_unique [of fst l l'] by (auto simp: distinct_map)
  show ?thesis using ord [OF assms(1)] ord [OF assms(2)] set_eq by (intro uniq) auto
qed

lemma canonical_signature_order:
  assumes "dict_ok a" "dict_ok b" "\<And>k. dget a k = dget b k"
  shows "canonical_signature n a = canonical_signature n b"
proof -
  have "map_of a = map_of b" using assms(3) by (simp add: dget_def fun_eq_iff)
  moreover have "map_of (map (\<lambda>kv. (fst kv, canon (snd kv))) d) = map_option canon \<circ> map_of d" for d :: jobject
    by (induction d) (auto simp: fun_eq_iff)
  ultimately have "canon (JObj a) = canon (JObj b)"
    using assms(1,2) unfolding canon.simps json.inject dict_ok_def dkeys_def case_prod_unfold
    by (intro sort_key_same_bindings) (simp_all add: o_def)
  then show ?thesis by (simp only: canonical_signature_def dumps_sorted)
qed

section \<open>Recording a result\<close>

abbreviation mutated :: "tool_roles \<Rightarrow> receipt \<Rightarrow> bool" where
  "mutated rs r \<equiv> r_status r = Success \<and> r_tool r \<in> mutation rs"

abbreviation failed_check :: "tool_roles \<Rightarrow> receipt \<Rightarrow> bool" where
  "failed_check rs r \<equiv> r_status r = Failure \<and> r_tool r \<in> verification rs"

abbreviation found_out :: "tool_roles \<Rightarrow> receipt \<Rightarrow> bool" where
  "found_out rs r \<equiv> r_status r = Success \<and> r_tool r \<in> investigation rs"

lemma roles_note [harness_simps]:
  "roles (note_failures n r h) = roles h" "roles (note_mutation n r h) = roles h"
  "receipts (note_failures n r h) = receipts h" "receipts (note_mutation n r h) = receipts h"
  "epoch (note_failures n r h) = epoch h"
  "pending_verification (note_failures n r h) = pending_verification h"
  "open_failures (note_mutation n r h) = open_failures h"
  by (simp_all add: note_failures_def note_mutation_def Let_def)

lemma flags_note [harness_simps]:
  "last_action_blocked (note_failures n r h) = last_action_blocked h"
  "last_action_blocked (note_mutation n r h) = last_action_blocked h"
  "force_finalize (note_failures n r h) = force_finalize h"
  "force_finalize (note_mutation n r h) = force_finalize h"
  by (simp_all add: note_failures_def note_mutation_def Let_def)

lemma epoch_note_mutation [harness_simps]:
  "epoch (note_mutation (r_tool r) r h) = (if mutated (roles h) r then Suc (epoch h) else epoch h)"
  by (auto simp: note_mutation_def)

lemma pending_note_mutation [harness_simps]:
  "pending_verification (note_mutation (r_tool r) r h) =
     (mutated (roles h) r \<or> (pending_verification h \<and> r_tool r \<notin> verification (roles h)))"
  by (auto simp: note_mutation_def)

lemma open_note_failures [harness_simps]:
  "open_failures (note_failures (r_tool r) r h) =
     (if failed_check (roles h) r then dset (open_failures h) (r_tool r) (receipt_id r)
      else dpop (open_failures h) (r_tool r))"
  by (simp add: note_failures_def Let_def)

lemma investigations_note:
  "investigations_since_failed_verification (note_mutation (r_tool r) r (note_failures (r_tool r) r h)) \<le>
     (if failed_check (roles h) r \<or> mutated (roles h) r then 0
      else investigations_since_failed_verification h + (if found_out (roles h) r then 1 else 0))"
  by (auto simp: note_mutation_def note_failures_def Let_def)

section \<open>The ledger view\<close>

definition open_in_ledger :: "tool_roles \<Rightarrow> receipt list \<Rightarrow> string \<Rightarrow> nat option" where
  "open_in_ledger rs ledger t =
     (case find (\<lambda>r. r_tool r = t) (rev ledger) of None \<Rightarrow> None
      | Some r \<Rightarrow> if failed_check rs r then Some (receipt_id r) else None)"

definition pending_in_ledger :: "tool_roles \<Rightarrow> receipt list \<Rightarrow> bool" where
  "pending_in_ledger rs ledger =
     (case find (\<lambda>r. mutated rs r \<or> r_tool r \<in> verification rs) (rev ledger) of None \<Rightarrow> False
      | Some r \<Rightarrow> mutated rs r)"

definition epoch_in_ledger :: "tool_roles \<Rightarrow> receipt list \<Rightarrow> nat" where
  "epoch_in_ledger rs ledger = length (filter (mutated rs) ledger)"

definition found_since_reset :: "tool_roles \<Rightarrow> receipt list \<Rightarrow> nat" where
  "found_since_reset rs ledger =
     length (filter (found_out rs) (takeWhile (\<lambda>r. \<not> failed_check rs r \<and> \<not> mutated rs r) (rev ledger)))"

definition ledger_ok :: "agent_harness \<Rightarrow> bool" where
  "ledger_ok h \<longleftrightarrow>
     dict_ok (open_failures h)
     \<and> (\<forall>t. dget (open_failures h) t = open_in_ledger (roles h) (receipts h) t)
     \<and> pending_verification h = pending_in_ledger (roles h) (receipts h)
     \<and> epoch h = epoch_in_ledger (roles h) (receipts h)
     \<and> investigations_since_failed_verification h \<le> found_since_reset (roles h) (receipts h)
     \<and> (\<forall>pre r post. receipts h = pre @ r # post
           \<longrightarrow> receipt_id r = length pre + 1 \<and> r_epoch r = epoch_in_ledger (roles h) pre)"

lemma ledger_ok_new: "ledger_ok (new_harness g tools ks types enforce require rs)"
  by (simp add: ledger_ok_def new_harness_def open_in_ledger_def pending_in_ledger_def
      epoch_in_ledger_def dget_def dict_ok_def dkeys_def)

lemma open_in_ledger_snoc:
  "open_in_ledger rs (ledger @ [r]) t =
     (if r_tool r = t then (if failed_check rs r then Some (receipt_id r) else None)
      else open_in_ledger rs ledger t)"
  by (simp add: open_in_ledger_def)

lemma pending_in_ledger_snoc:
  "pending_in_ledger rs (ledger @ [r]) =
     (mutated rs r \<or> (pending_in_ledger rs ledger \<and> r_tool r \<notin> verification rs))"
  by (auto simp: pending_in_ledger_def)

lemma epoch_in_ledger_snoc:
  "epoch_in_ledger rs (ledger @ [r]) = (if mutated rs r then Suc (epoch_in_ledger rs ledger) else epoch_in_ledger rs ledger)"
  by (simp add: epoch_in_ledger_def)

lemma found_since_reset_snoc:
  "found_since_reset rs (ledger @ [r]) =
     (if failed_check rs r \<or> mutated rs r then 0
      else found_since_reset rs ledger + (if found_out rs r then 1 else 0))"
  by (auto simp: found_since_reset_def)

lemmas ledger_snoc =
  open_in_ledger_snoc pending_in_ledger_snoc epoch_in_ledger_snoc found_since_reset_snoc

lemma record_status_fields:
  assumes "record_status h n a st = (h', r)"
  shows "receipts h' = receipts h @ [r]" "roles h' = roles h"
    "r_tool r = n" "r_status r = st" "r_signature r = canonical_signature n a" "r_epoch r = epoch h"
    "receipt_id r = length (receipts h) + 1"
    "epoch h' = (if mutated (roles h) r then Suc (epoch h) else epoch h)"
    "pending_verification h' = (mutated (roles h) r \<or> (pending_verification h \<and> n \<notin> verification (roles h)))"
    "open_failures h' = (if failed_check (roles h) r then dset (open_failures h) n (receipt_id r)
        else dpop (open_failures h) n)"
    "\<not> last_action_blocked h'" "\<not> force_finalize h'"
    "available_tools h' = available_tools h" "required_json_keys h' = required_json_keys h"
    "required_json_types h' = required_json_types h" "require_receipt h' = require_receipt h"
proof -
  define r' where "r' = \<lparr>receipt_id = length (receipts h) + 1, r_tool = n,
     r_signature = canonical_signature n a, r_status = st, r_epoch = epoch h\<rparr>"
  define h1 where "h1 = h\<lparr>last_action_blocked := False, force_finalize := False,
     receipts := receipts h @ [r']\<rparr>"
  have r: "r = r'" and h': "h' = note_mutation (r_tool r') r' (note_failures (r_tool r') r' h1)"
    using assms by (auto simp: record_status_def Let_def r'_def h1_def)
  have n: "r_tool r' = n" by (simp add: r'_def)
  show "receipts h' = receipts h @ [r]" "roles h' = roles h"
    "r_tool r = n" "r_status r = st" "r_signature r = canonical_signature n a" "r_epoch r = epoch h"
    "receipt_id r = length (receipts h) + 1"
    "epoch h' = (if mutated (roles h) r then Suc (epoch h) else epoch h)"
    "pending_verification h' = (mutated (roles h) r \<or> (pending_verification h \<and> n \<notin> verification (roles h)))"
    "open_failures h' = (if failed_check (roles h) r then dset (open_failures h) n (receipt_id r)
        else dpop (open_failures h) n)"
    "\<not> last_action_blocked h'" "\<not> force_finalize h'"
    unfolding h' r by (simp_all only: harness_simps) (simp_all add: h1_def n, simp_all add: r'_def)
  show "available_tools h' = available_tools h" "required_json_keys h' = required_json_keys h"
    "required_json_types h' = required_json_types h" "require_receipt h' = require_receipt h"
    unfolding h' by (simp_all add: note_mutation_def note_failures_def Let_def h1_def)
qed

lemma ledger_ok_record_status:
  assumes "ledger_ok h" "record_status h n a st = (h', r)"
  shows "ledger_ok h'"
proof -
  note f = record_status_fields [OF assms(2)]
  from assms(1) have ok: "dict_ok (open_failures h)"
    "\<And>t. dget (open_failures h) t = open_in_ledger (roles h) (receipts h) t"
    "pending_verification h = pending_in_ledger (roles h) (receipts h)"
    "epoch h = epoch_in_ledger (roles h) (receipts h)"
    "investigations_since_failed_verification h \<le> found_since_reset (roles h) (receipts h)"
    "\<And>pre r post. receipts h = pre @ r # post
       \<Longrightarrow> receipt_id r = length pre + 1 \<and> r_epoch r = epoch_in_ledger (roles h) pre"
    by (auto simp: ledger_ok_def)
  have "dict_ok (open_failures h')" using f(10) ok(1) by (simp add: py.ok_store py.ok_discard)
  moreover have "dget (open_failures h') t = open_in_ledger (roles h') (receipts h') t" for t
    using ok(2) f(3) unfolding f(1,2) ledger_snoc f(10) by (auto simp: dget_dset dget_dpop)
  moreover have "pending_verification h' = pending_in_ledger (roles h') (receipts h')"
    using ok(3) f(3) unfolding f(1,2) ledger_snoc f(9) by auto
  moreover have "epoch h' = epoch_in_ledger (roles h') (receipts h')"
    using ok(4) unfolding f(1,2) ledger_snoc f(8) by auto
  moreover have "investigations_since_failed_verification h' \<le> found_since_reset (roles h') (receipts h')"
  proof -
    define h1 where "h1 = h\<lparr>last_action_blocked := False, force_finalize := False, receipts := receipts h @ [r]\<rparr>"
    have h': "h' = note_mutation (r_tool r) r (note_failures (r_tool r) r h1)"
      using assms(2) by (auto simp: record_status_def Let_def h1_def)
    have "roles h1 = roles h" "investigations_since_failed_verification h1 = investigations_since_failed_verification h"
      by (simp_all add: h1_def)
    with investigations_note [of r h1] ok(5)
    have "investigations_since_failed_verification h'
        \<le> (if failed_check (roles h) r \<or> mutated (roles h) r then 0
          else found_since_reset (roles h) (receipts h) + (if found_out (roles h) r then 1 else 0))"
      unfolding h' [symmetric] by (auto split: if_splits)
    then show ?thesis by (simp only: f(1,2) ledger_snoc)
  qed
  moreover have "receipt_id q = length pre + 1 \<and> r_epoch q = epoch_in_ledger (roles h') pre"
    if "receipts h' = pre @ q # post" for pre q post
  proof (cases post rule: rev_cases)
    case Nil
    with that f(1) have "pre = receipts h" "q = r" by auto
    with f(2,6,7) ok(4) show ?thesis by simp
  next
    case (snoc post' z)
    with that f(1) have "receipts h = pre @ q # post'" by (metis append.assoc append_Cons butlast_snoc)
    with ok(6) f(2) show ?thesis by simp
  qed
  ultimately show ?thesis by (simp add: ledger_ok_def)
qed

lemma record_result_Inr:
  "record_result h n a t = Inr (h', r) \<longleftrightarrow>
     (\<exists>st. receipt_status t = Inr st \<and> record_status h n a st = (h', r))"
  by (auto simp: record_result_def split: sum.splits)

text \<open>The sequence of client-visible executions a transcript stands for.\<close>

definition record_step :: "agent_harness \<Rightarrow> string \<times> jobject \<times> string \<Rightarrow> agent_harness result" where
  "record_step h e = (case e of (n, a, t) \<Rightarrow>
     (case record_result h n a t of Inl x \<Rightarrow> Inl x | Inr (h', r) \<Rightarrow> Inr h'))"

interpretation ledger: invariant_loop record_step ledger_ok
  by unfold_locales
    (auto simp: record_step_def record_result_Inr intro: ledger_ok_record_status
      split: prod.splits sum.splits)

lemma record_step_receipts:
  "record_step h e = Inr h' \<Longrightarrow> length (receipts h') = Suc (length (receipts h)) \<and> epoch h \<le> epoch h'"
  using record_status_fields(1,8)
  by (fastforce simp: record_step_def record_result_Inr split: prod.splits sum.splits if_splits)

section \<open>Duplicates\<close>

lemma epoch_in_ledger_append:
  "epoch_in_ledger rs (xs @ ys) = epoch_in_ledger rs xs + epoch_in_ledger rs ys"
  by (simp add: epoch_in_ledger_def)

lemma epoch_in_ledger_zero: "epoch_in_ledger rs xs = 0 \<longleftrightarrow> (\<forall>q \<in> set xs. \<not> mutated rs q)"
  by (auto simp: epoch_in_ledger_def filter_empty_conv)

lemma find_split:
  "find P xs = Some x \<longleftrightarrow> (\<exists>pre post. xs = pre @ x # post \<and> P x \<and> (\<forall>y \<in> set pre. \<not> P y))"
proof (induction xs)
  case (Cons y xs)
  show ?case
  proof (cases "P y")
    case True
    then show ?thesis by (auto simp: Cons_eq_append_conv)
  next
    case False
    have "(\<exists>pre post. y # xs = pre @ x # post \<and> P x \<and> (\<forall>z \<in> set pre. \<not> P z))
       \<longleftrightarrow> (\<exists>pre post. xs = pre @ x # post \<and> P x \<and> (\<forall>z \<in> set pre. \<not> P z))" (is "?L \<longleftrightarrow> ?R")
    proof
      assume ?L
      then obtain pre post where s: "y # xs = pre @ x # post" "P x" "\<forall>z \<in> set pre. \<not> P z" by blast
      with False obtain pre' where "pre = y # pre'" by (cases pre) auto
      with s show ?R by auto
    next
      assume ?R
      then obtain pre post where "xs = pre @ x # post" "P x" "\<forall>z \<in> set pre. \<not> P z" by blast
      with False show ?L by (intro exI [of _ "y # pre"] exI [of _ post]) simp
    qed
    with Cons False show ?thesis by simp
  qed
qed simp

lemma find_rev_split:
  "find P (rev xs) = Some x \<longleftrightarrow> (\<exists>pre post. xs = pre @ x # post \<and> P x \<and> (\<forall>y \<in> set post. \<not> P y))"
proof -
  have "(rev xs = us @ x # vs) = (xs = rev vs @ x # rev us)" for us vs
    using rev_swap [of xs "us @ x # vs"] by auto
  then show ?thesis
    unfolding find_split by (metis rev_rev_ident set_rev)
qed

text \<open>
  A receipt stands in the current epoch iff neither it nor a later receipt is a successful
  mutation.
\<close>

lemma current_epoch:
  assumes "ledger_ok h" "receipts h = pre @ r # post"
  shows "r_epoch r = epoch h \<longleftrightarrow> (\<forall>q \<in> set (r # post). \<not> mutated (roles h) q)"
proof -
  from assms have "r_epoch r = epoch_in_ledger (roles h) pre" and "epoch h = epoch_in_ledger (roles h) (pre @ r # post)"
    by (simp_all add: ledger_ok_def)
  then show ?thesis
    by (simp only: epoch_in_ledger_append) (simp add: epoch_in_ledger_zero del: set_simps)
qed

lemma duplicate_iff:
  assumes "ledger_ok h"
  shows "duplicate h n a \<noteq> None \<longleftrightarrow>
     (\<exists>pre r post. receipts h = pre @ r # post \<and> r_signature r = canonical_signature n a
        \<and> (\<forall>q \<in> set (r # post). \<not> mutated (roles h) q))"
proof -
  have "duplicate h n a \<noteq> None \<longleftrightarrow>
      (\<exists>r \<in> set (receipts h). r_epoch r = epoch h \<and> r_signature r = canonical_signature n a)"
    by (auto simp: duplicate_def find_None_iff)
  also have "\<dots> \<longleftrightarrow> (\<exists>pre r post. receipts h = pre @ r # post \<and> r_epoch r = epoch h
      \<and> r_signature r = canonical_signature n a)"
    by (metis in_set_conv_decomp)
  finally show ?thesis using current_epoch [OF assms] by blast
qed

lemma duplicate_Some:
  "duplicate h n a = Some r \<Longrightarrow>
     r \<in> set (receipts h) \<and> r_epoch r = epoch h \<and> r_signature r = canonical_signature n a"
  by (auto simp: duplicate_def find_rev_split)

section \<open>The terminal gate\<close>

definition ready_to_finish :: "agent_harness \<Rightarrow> bool" where
  "ready_to_finish h \<longleftrightarrow>
     (receipts h \<noteq> [] \<or> \<not> require_receipt h)
     \<and> (last_action_blocked h \<longrightarrow> force_finalize h)
     \<and> (receipts h \<noteq> [] \<longrightarrow> r_status (last (receipts h)) = Success)
     \<and> open_failures h = [] \<and> \<not> pending_verification h"

definition satisfies_contract :: "string \<Rightarrow> string list \<Rightarrow> (string, string) dict \<Rightarrow> bool" where
  "satisfies_contract content ks types \<longleftrightarrow>
     (\<exists>d. json_loads (strip content) = Inr (JObj d) \<and> set (dkeys d) = set ks
        \<and> (\<forall>(k, t) \<in> set types. \<forall>v. dget d k = Some v \<longrightarrow> matches_json_type v t = Inr True))"

lemma not_Failure [simp]: "st \<noteq> Failure \<longleftrightarrow> st = Success"
  by (cases st) auto

lemma type_issue_None:
  "type_issue d types = Inr None \<longleftrightarrow>
     (\<forall>(k, t) \<in> set types. \<forall>v. dget d k = Some v \<longrightarrow> matches_json_type v t = Inr True)"
  by (induction d types rule: type_issue.induct) (auto split: option.splits sum.splits bool.splits)

lemma json_loads_Nil: "json_loads [] = Inl JSONDecodeError"
  by (simp add: json_loads_def loads_with_def skip_ws_def scan_value.simps)

lemma bare_json_issue_None:
  "bare_json_issue content (Some ks) types = Inr None \<longleftrightarrow> satisfies_contract content ks types"
  by (auto simp: bare_json_issue_def Let_def satisfies_contract_def type_issue_None json_loads_Nil
      split: sum.splits exn.splits json.splits)

lemma terminal_issue_None:
  "terminal_issue h content = Inr None \<longleftrightarrow>
     ready_to_finish h
     \<and> (case json_loads (strip content) of
          Inr v \<Rightarrow> failed_executions_issue h v = None | Inl e \<Rightarrow> e = JSONDecodeError)
     \<and> (\<forall>ks. required_json_keys h = Some ks \<longrightarrow> satisfies_contract content ks (required_json_types h))"
  by (auto simp: terminal_issue_def ready_to_finish_def bare_json_issue_None failed_executions_issue_def
      split: sum.splits exn.splits option.splits)

section \<open>Results the proxy makes up\<close>

lemma json_dumps_loads: "json_ok False v \<Longrightarrow> json_loads (json_dumps v) = Inr v"
  by (simp add: json_loads_def json_dumps_def json_text.dec_enc)

lemma blocked_result_reads:
  assumes "receipt_id prior < 10 ^ int_digit_limit" "blocked_result h prior = (h', t)"
  shows "\<exists>d. json_loads t = Inr (JObj d) \<and> get d ''shiftedx_harness'' = JStr ''duplicate_call_blocked''
     \<and> get d ''execution_status'' = JStr ''blocked_not_executed''
     \<and> get d ''prior_receipt'' = JInt (int (receipt_id prior))"
proof -
  have "t = json_dumps (JObj
            [(''shiftedx_harness'', JStr ''duplicate_call_blocked''),
             (''execution_status'', JStr ''blocked_not_executed''),
             (''fact'', JStr ''This proposed call was blocked by the proxy and did not reach the client executor.''),
             (''prior_receipt'', JInt (int (receipt_id prior))),
             (''instruction'', JStr (if r_status prior = Success \<and> \<not> pending_verification h \<and> open_failures h = []
                then ''The prior successful receipt is sufficient. Return the required final answer now.''
                else ''Diagnose the prior receipt and choose a changed action or arguments.''))])"
    (is "_ = json_dumps (JObj ?d)") using assms(2) by (simp add: blocked_result_def Let_def)
  moreover have "json_ok False (JObj ?d)"
    using length_dec_digits_bound [OF assms(1)] by simp
  ultimately have "json_loads t = Inr (JObj ?d)" by (simp only: json_dumps_loads)
  then show ?thesis by (intro exI conjI) (auto simp: get_def get_or_def dget_def)
qed

lemma stalled_result_reads:
  assumes "stalled_result h name = (h', Some t)"
  shows "stall_blocks h name" "blocked_stalls h' = Suc (blocked_stalls h)" "last_action_blocked h'" "\<not> force_finalize h'"
    "\<exists>d. json_loads t = Inr (JObj d) \<and> get d ''shiftedx_harness'' = JStr ''investigation_stall_blocked''"
proof -
  have "t = json_dumps (JObj
              [(''shiftedx_harness'', JStr ''investigation_stall_blocked''),
               (''instruction'', JStr (''A verification failure remains open and three successful investigation receipts are '' @
                  ''already available. Use an available mutation tool, then rerun verification.''))])"
    (is "_ = json_dumps (JObj ?d)") using assms by (simp add: stalled_result_def split: if_splits)
  moreover have "json_ok False (JObj ?d)" by simp
  ultimately have "json_loads t = Inr (JObj ?d)" by (simp only: json_dumps_loads)
  then show "\<exists>d. json_loads t = Inr (JObj d) \<and> get d ''shiftedx_harness'' = JStr ''investigation_stall_blocked''"
    by (intro exI conjI) (auto simp: get_def get_or_def dget_def)
qed (use assms in \<open>auto simp: stalled_result_def split: if_splits\<close>)

section \<open>Fenced JSON\<close>

lemma strip_idem: "strip (strip s) = strip s"
proof -
  have dw: "dropWhile P (dropWhile P xs) = dropWhile P xs" for P and xs :: string
    by (induction xs) auto
  have keep: "dropWhile P (rev (dropWhile P (rev xs))) = rev (dropWhile P (rev xs))"
    if "dropWhile P xs = xs" for P and xs :: string
  proof (cases "rev (dropWhile P (rev xs))")
    case (Cons c cs)
    obtain ys where "xs = rev (dropWhile P (rev xs)) @ ys"
      by (metis rev_append rev_rev_ident takeWhile_dropWhile_id)
    with Cons have "xs = c # cs @ ys" by simp
    have "\<not> P c"
    proof
      assume "P c"
      with that \<open>xs = c # cs @ ys\<close> have "dropWhile P (cs @ ys) = c # cs @ ys" by simp
      with length_dropWhile_le [of P "cs @ ys"] show False by simp
    qed
    with Cons show ?thesis by simp
  next
    case Nil
    then show ?thesis by (simp only: dropWhile.simps)
  qed
  have "lstrip (rstrip (lstrip s)) = rstrip (lstrip s)"
    unfolding lstrip_def rstrip_def by (rule keep) (rule dw)
  then show ?thesis by (simp add: strip_def rstrip_def dw)
qed

lemma strip_fixed_lstrip: "strip s = s \<Longrightarrow> lstrip s = s"
proof -
  assume "strip s = s"
  then have "length s = length (rev (dropWhile is_space (rev (lstrip s))))"
    by (simp only: strip_def rstrip_def)
  then have "length s \<le> length (lstrip s)"
    using length_dropWhile_le [of is_space "rev (lstrip s)"] by simp
  moreover have "takeWhile is_space s @ lstrip s = s" by (simp add: lstrip_def)
  then have "length (takeWhile is_space s) + length (lstrip s) = length s" by (metis length_append)
  ultimately have "length (takeWhile is_space s) = 0" by linarith
  then have "takeWhile is_space s = []" by (simp only: length_0_conv)
  with \<open>takeWhile is_space s @ lstrip s = s\<close> show ?thesis by simp
qed

lemma scan_number_not_object: "scan_number s \<noteq> Inr (JObj d, r)"
  by (auto simp: scan_number_def split: prod.splits option.splits)

lemma scan_constant_not_object: "scan_constant strict s \<noteq> Inr (Some (JObj d, r))"
  by (simp add: scan_constant_def)

lemma scan_object_head: "scan_value (Suc n) strict (c # cs) = Inr (JObj d, r) \<Longrightarrow> c = CHR ''{''"
proof (rule ccontr)
  assume a: "scan_value (Suc n) strict (c # cs) = Inr (JObj d, r)" "c \<noteq> CHR ''{''"
  show False
  proof (cases "c = quote \<or> c = CHR ''[''")
    case True
    with a show ?thesis by (auto simp: scan_value.simps split: sum.splits if_splits)
  next
    case False
    with a have "(case scan_constant strict (c # cs) of Inl e \<Rightarrow> Inl e
            | Inr (Some vr) \<Rightarrow> Inr vr | Inr None \<Rightarrow> scan_number (c # cs)) = Inr (JObj d, r)"
      by (simp add: scan_value.simps)
    then show ?thesis
      using scan_number_not_object scan_constant_not_object
      by (auto split: sum.splits option.splits)
  qed
qed

lemma json_object_head:
  assumes "json_loads s = Inr (JObj d)" "strip s = s"
  shows "\<exists>cs. s = CHR ''{'' # cs"
proof (cases s)
  case Nil
  with assms show ?thesis by (simp add: json_loads_Nil)
next
  case (Cons c cs)
  have "lstrip s = s" by (rule strip_fixed_lstrip [OF assms(2)])
  then have "\<not> is_space c"
    using Cons length_dropWhile_le [of is_space cs] by (auto simp: lstrip_def split: if_splits)
  then have "ord_of c \<notin> {32, 9, 10, 13 :: nat}" by (auto simp: is_space_def)
  with Cons have ws: "skip_ws s = c # cs" by (simp add: skip_ws_def)
  obtain n where n: "2 * length s = Suc n" using Cons by simp
  from assms(1) ws n obtain r where "scan_value (Suc n) False (c # cs) = Inr (JObj d, r)"
    by (auto simp: json_loads_def loads_with_def split: sum.splits if_splits)
  then have "c = CHR ''{''" by (rule scan_object_head)
  with Cons show ?thesis by simp
qed

lemma normalize_bare_json_changed:
  assumes "normalize_bare_json content = Inr (t, True)"
  shows "(\<exists>d. json_loads t = Inr (JObj d)) \<and> strip t = t \<and> normalize_bare_json t = Inr (t, False)"
proof -
  from assms obtain body d where b: "t = strip body" "json_loads t = Inr (JObj d)"
    by (auto simp: normalize_bare_json_def Let_def split: option.splits sum.splits exn.splits if_splits
        elim: is_dict.elims)
  have s: "strip t = t" using b(1) by (simp add: strip_idem)
  from json_object_head [OF b(2) s] obtain cs where "t = CHR ''{'' # cs" by blast
  then have "normalize_bare_json t = Inr (t, False)"
    using s by (simp add: normalize_bare_json_def fence_body_def fence_def)
  with b(2) s show ?thesis by blast
qed

lemma normalize_bare_json_unchanged:
  "normalize_bare_json content = Inr (t, False) \<Longrightarrow> t = content"
  by (auto simp: normalize_bare_json_def Let_def split: option.splits sum.splits exn.splits if_splits)

section \<open>Properties of the harness\<close>

text \<open>
  C1: The state of a harness is the ledger of its receipts. However tool results are recorded
  on a new harness, the epoch counts the successful mutations, verification is pending exactly
  when the latest receipt that is a mutation or a verification is a successful mutation, a
  failure of a tool is open exactly when the latest receipt of that tool is a failed
  verification (and it is that receipt which is remembered), the receipts are numbered in order
  from one, and each carries the epoch it was recorded in.
\<close>

theorem harness_is_ledger:
  assumes "run_steps record_step (new_harness g tools ks types enforce require rs) es = Inr h"
  shows "epoch h = epoch_in_ledger (roles h) (receipts h)
    \<and> pending_verification h = pending_in_ledger (roles h) (receipts h)
    \<and> dget (open_failures h) t = open_in_ledger (roles h) (receipts h) t
    \<and> (receipts h = pre @ r # post
        \<longrightarrow> receipt_id r = length pre + 1 \<and> r_epoch r = epoch_in_ledger (roles h) pre)"
  using ledger.run_inv [OF ledger_ok_new assms] by (auto simp: ledger_ok_def)

lemma sample_statuses:
  "receipt_status ''ok'' = Inr Success" "receipt_status ''2 failed'' = Inr Failure"
  "receipt_status ''{}'' = Inr Success"
  by code_simp+

lemma sample_run:
  "\<exists>h r. record_step (new_harness g tools ks types enforce require default_roles) (''write_file'', a, ''ok'') = Inr h
     \<and> receipts h = [r] \<and> roles h = default_roles \<and> mutated default_roles r
     \<and> r_signature r = canonical_signature ''write_file'' a
     \<and> available_tools h = tools \<and> required_json_keys h = ks"
proof -
  let ?h = "new_harness g tools ks types enforce require default_roles"
  obtain h r where h: "record_status ?h ''write_file'' a Success = (h, r)" by fastforce
  from record_status_fields [OF h] show ?thesis
    by (intro exI [of _ h] exI [of _ r])
      (simp add: record_step_def record_result_def sample_statuses h,
        simp add: new_harness_def default_roles_def DEFAULT_MUTATION_TOOLS_def)
qed

theorem harness_is_ledger_witness:
  "\<exists>h. run_steps record_step (new_harness [] {} None [] False True default_roles)
         [(''write_file'', [], ''ok'')] = Inr h
     \<and> epoch h = 1 \<and> pending_verification h"
proof -
  obtain h r where h: "record_step (new_harness [] {} None [] False True default_roles) (''write_file'', [], ''ok'') = Inr h"
    "receipts h = [r]" "roles h = default_roles" "mutated default_roles r"
    using sample_run [of "[]" "{}" None "[]" False True "[]"] by auto
  then have run: "run_steps record_step (new_harness [] {} None [] False True default_roles)
      [(''write_file'', [], ''ok'')] = Inr h" by simp
  from harness_is_ledger [OF run] h show ?thesis
    by (intro exI [of _ h]) (auto simp: run epoch_in_ledger_def pending_in_ledger_def)
qed

text \<open>
  C3: A proposed call is treated as a duplicate exactly when a call with the same signature was
  recorded and neither that receipt nor any later one is a successful mutation: identical calls
  are blocked within an unchanged epoch and only there.
\<close>

theorem duplicate_within_epoch:
  assumes "run_steps record_step (new_harness g tools ks types enforce require rs) es = Inr h"
  shows "duplicate h n a \<noteq> None \<longleftrightarrow>
     (\<exists>pre r post. receipts h = pre @ r # post \<and> r_signature r = canonical_signature n a
        \<and> (\<forall>q \<in> set (r # post). \<not> (r_status q = Success \<and> r_tool q \<in> mutation (roles h))))"
  by (rule duplicate_iff) (rule ledger.run_inv [OF ledger_ok_new assms])

theorem duplicate_within_epoch_witness:
  "\<exists>h. run_steps record_step (new_harness [] {} None [] False True default_roles)
         [(''write_file'', [], ''ok'')] = Inr h
     \<and> duplicate h ''write_file'' [] = None"
proof -
  obtain h r where h: "record_step (new_harness [] {} None [] False True default_roles) (''write_file'', [], ''ok'') = Inr h"
    "receipts h = [r]" "roles h = default_roles" "mutated default_roles r"
    using sample_run [of "[]" "{}" None "[]" False True "[]"] by auto
  then have run: "run_steps record_step (new_harness [] {} None [] False True default_roles)
      [(''write_file'', [], ''ok'')] = Inr h" by simp
  have "\<not> (\<exists>pre r' post. receipts h = pre @ r' # post \<and> r_signature r' = canonical_signature ''write_file'' []
      \<and> (\<forall>q \<in> set (r' # post). \<not> (r_status q = Success \<and> r_tool q \<in> mutation (roles h))))"
    using h(2-4) by (auto simp: Cons_eq_append_conv)
  with duplicate_within_epoch [OF run, of "''write_file''" "[]"]
  have "duplicate h ''write_file'' [] = None" by blast
  with run show ?thesis by blast
qed

text \<open>
  C4: An investigation is blocked as stalled only after at least three successful investigations
  following the latest failed verification or successful mutation, while some tool's latest
  receipt is a failed verification and a mutation tool is offered; the harness then counts the
  block, and its synthetic result reads back as a JSON object that names the block.
\<close>

theorem stall_after_three_investigations:
  assumes "run_steps record_step (new_harness g tools ks types enforce require rs) es = Inr h"
    and "stalled_result h name = (h', Some t)"
  shows "3 \<le> found_since_reset (roles h) (receipts h)
    \<and> (\<exists>tool. open_in_ledger (roles h) (receipts h) tool \<noteq> None)
    \<and> name \<in> investigation (roles h) \<and> available_tools h \<inter> mutation (roles h) \<noteq> {}
    \<and> blocked_stalls h' = Suc (blocked_stalls h) \<and> last_action_blocked h' \<and> \<not> force_finalize h'
    \<and> (\<exists>d. json_loads t = Inr (JObj d) \<and> get d ''shiftedx_harness'' = JStr ''investigation_stall_blocked'')"
proof -
  have ok: "ledger_ok h" by (rule ledger.run_inv [OF ledger_ok_new assms(1)])
  note s = stalled_result_reads [OF assms(2)]
  from s(1) obtain tool where "tool \<in> set (dkeys (open_failures h))"
    by (auto simp: stall_blocks_def verification_failure_open_def list_ex_iff)
  then have "open_in_ledger (roles h) (receipts h) tool \<noteq> None"
    using ok by (simp add: ledger_ok_def dkeys_dget)
  moreover have "3 \<le> found_since_reset (roles h) (receipts h)"
    using s(1) ok by (auto simp: stall_blocks_def ledger_ok_def)
  ultimately show ?thesis using s by (auto simp: stall_blocks_def)
qed

text \<open>A transcript that ends stalled: a failed check, then three successful reads.\<close>

lemma record_status_step:
  "receipt_status t = Inr st \<Longrightarrow> record_step h (n, a, t) = Inr (fst (record_status h n a st))"
  by (simp add: record_step_def record_result_def split: prod.splits)

lemma sample_stall:
  "\<exists>h. run_steps record_step (new_harness [] {''edit_file''} None [] False True default_roles)
     [(''run_tests'', [], ''2 failed''), (''read_file'', [], ''ok''), (''read_file'', [], ''ok''),
      (''read_file'', [], ''ok'')] = Inr h \<and> stall_blocks h ''read_file''"
  by (simp add: record_status_step sample_statuses)
    (simp add: record_status_def Let_def note_failures_def note_mutation_def new_harness_def
      verification_failure_open_def stall_blocks_def default_roles_def DEFAULT_MUTATION_TOOLS_def
      DEFAULT_VERIFICATION_TOOLS_def DEFAULT_INVESTIGATION_TOOLS_def dpop_def dkeys_def)

theorem stall_after_three_investigations_witness:
  "\<exists>h h' t. run_steps record_step (new_harness [] {''edit_file''} None [] False True default_roles)
     [(''run_tests'', [], ''2 failed''), (''read_file'', [], ''ok''), (''read_file'', [], ''ok''),
      (''read_file'', [], ''ok'')] = Inr h
     \<and> stalled_result h ''read_file'' = (h', Some t) \<and> 3 \<le> found_since_reset (roles h) (receipts h)"
proof -
  obtain h where h: "run_steps record_step (new_harness [] {''edit_file''} None [] False True default_roles)
     [(''run_tests'', [], ''2 failed''), (''read_file'', [], ''ok''), (''read_file'', [], ''ok''),
      (''read_file'', [], ''ok'')] = Inr h" "stall_blocks h ''read_file''"
    using sample_stall by blast
  from h(2) obtain h' t where t: "stalled_result h ''read_file'' = (h', Some t)"
    by (simp add: stalled_result_def)
  from stall_after_three_investigations [OF h(1) t] h(1) t show ?thesis by blast
qed



text \<open>
  A structured tool result is classified by its fields alone: an object whose \<open>status\<close> is
  none of the failure words and whose \<open>error\<close> is empty counts as a success whatever failure
  words the text contains, and one with a failure status counts as a failure.
\<close>

lemma structured_status_has_priority:
  assumes "json_loads (strip t) = Inr (JObj d)"
  shows "receipt_status t = Inr (if lower (strip (py_str (get_or d ''status'' (JStr [])))) \<in> set FAILURE_STATUSES
      \<or> truthy (get d ''error'') then Failure else Success)"
  using assms by (simp add: receipt_status_def)

end
