(* ===== verification/Harness_History.thy ===== *)
theory Harness_History
  imports Core_Laws
begin

text \<open>
  The harness over whole histories: the calls the client executed, the repeated calls and the stalled
  investigations the proxy answered itself. The terminal gate is characterised by such a history, with
  no reference to the state the harness keeps.
\<close>

section \<open>Histories\<close>

datatype happening = Executed string jobject string | Repeated string jobject | Stalled string

text \<open>A repeat or a stall only happens where the harness blocks the call.\<close>

definition happens :: "agent_harness \<Rightarrow> happening \<Rightarrow> agent_harness result" where
  "happens h e =
     (case e of
        Executed n a t \<Rightarrow> record_step h (n, a, t)
      | Repeated n a \<Rightarrow> (case duplicate h n a of Some r \<Rightarrow> Inr (fst (blocked_result h r)) | None \<Rightarrow> Inl OutsideModel)
      | Stalled n \<Rightarrow> (case stalled_result h n of (h', Some t) \<Rightarrow> Inr h' | (h', None) \<Rightarrow> Inl OutsideModel))"

text \<open>The executions of a history, with the status each result shows.\<close>

type_synonym execution = "string \<times> jobject \<times> status"

fun executions :: "happening list \<Rightarrow> execution list" where
  "executions [] = []"
| "executions (Executed n a t # es) =
     (case receipt_status t of Inr st \<Rightarrow> (n, a, st) # executions es | Inl e \<Rightarrow> executions es)"
| "executions (_ # es) = executions es"

lemma executions_append: "executions (es @ fs) = executions es @ executions fs"
  by (induction es rule: executions.induct) (auto split: sum.splits)

definition receipt_of :: "receipt \<Rightarrow> string \<times> string \<times> status" where
  "receipt_of r = (r_tool r, r_signature r, r_status r)"

definition signed :: "execution \<Rightarrow> string \<times> string \<times> status" where
  "signed x = (fst x, canonical_signature (fst x) (fst (snd x)), snd (snd x))"

text \<open>The settings of a harness, which no event changes.\<close>

definition fixed_part :: "agent_harness \<Rightarrow> string list option \<times> (string, string) dict \<times> bool \<times> bool \<times> tool_roles" where
  "fixed_part h = (required_json_keys h, required_json_types h, enforce_failed_execution_claim h, require_receipt h, roles h)"

lemma fixed_part_note: "fixed_part (note_failures n r h) = fixed_part h" "fixed_part (note_mutation n r h) = fixed_part h"
  by (simp_all add: note_failures_def note_mutation_def fixed_part_def Let_def)

lemma fixed_part_record: "record_status h n a st = (h', r) \<Longrightarrow> fixed_part h' = fixed_part h"
  unfolding record_status_def Let_def by (clarsimp simp: fixed_part_note) (simp add: fixed_part_def)

lemma stalled_result_Some:
  assumes "stalled_result h n = (h', Some t)"
  shows "h' = h\<lparr>blocked_stalls := Suc (blocked_stalls h), last_action_blocked := True, force_finalize := False\<rparr>"
  using assms by (auto simp: stalled_result_def split: if_splits)

lemma happens_cases:
  assumes "happens h e = Inr h'"
  obtains (executed) n a t st r where "e = Executed n a t" "receipt_status t = Inr st" "record_status h n a st = (h', r)"
  | (repeated) n a r where "e = Repeated n a" "duplicate h n a = Some r" "h' = fst (blocked_result h r)"
  | (stalled) n t where "e = Stalled n" "stalled_result h n = (h', Some t)"
  using assms by (cases e) (auto simp: happens_def record_step_def record_result_Inr split: sum.splits option.splits prod.splits)

text \<open>A block leaves everything but the flags and the counters.\<close>

lemma blocked_result_same:
  "receipts (fst (blocked_result h r)) = receipts h" "fixed_part (fst (blocked_result h r)) = fixed_part h"
  "open_failures (fst (blocked_result h r)) = open_failures h"
  "pending_verification (fst (blocked_result h r)) = pending_verification h"
  "ledger_ok (fst (blocked_result h r)) = ledger_ok h"
  by (simp_all add: blocked_result_def fixed_part_def ledger_ok_def Let_def)

lemma happens_ledger_ok: "ledger_ok h \<Longrightarrow> happens h e = Inr h' \<Longrightarrow> ledger_ok h'"
  by (erule happens_cases) (auto simp: blocked_result_same ledger_ok_record_status dest!: stalled_result_Some,
      simp add: ledger_ok_def)

lemma happens_fixed: "happens h e = Inr h' \<Longrightarrow> fixed_part h' = fixed_part h"
  by (erule happens_cases) (auto simp: blocked_result_same fixed_part_record dest!: stalled_result_Some, simp add: fixed_part_def)

lemma happens_receipts:
  "happens h e = Inr h' \<Longrightarrow> map receipt_of (receipts h') = map receipt_of (receipts h) @ map signed (executions [e])"
  by (erule happens_cases)
    (auto simp: blocked_result_same record_status_fields receipt_of_def signed_def dest!: stalled_result_Some)

interpretation events: invariant_loop happens ledger_ok
  by unfold_locales (rule happens_ledger_ok)

lemma history_state:
  assumes "run_steps happens h es = Inr h'"
  shows "fixed_part h' = fixed_part h \<and> map receipt_of (receipts h') = map receipt_of (receipts h) @ map signed (executions es)"
  using assms
proof (induction es arbitrary: h)
  case (Cons e es)
  then obtain h1 where h1: "happens h e = Inr h1" "run_steps happens h1 es = Inr h'" by (auto split: sum.splits)
  from Cons.IH [OF h1(2)] happens_fixed [OF h1(1)] happens_receipts [OF h1(1)] executions_append [of "[e]" es]
  show ?case by simp
qed simp

text \<open>What the latest event means for finishing.\<close>

definition outcome_of_call :: "execution list \<Rightarrow> string \<Rightarrow> jobject \<Rightarrow> status option" where
  "outcome_of_call xs n a =
     map_option (snd \<circ> snd) (find (\<lambda>x. fst (snd (signed x)) = canonical_signature n a) (rev xs))"

definition last_block_allows :: "happening list \<Rightarrow> bool" where
  "last_block_allows es =
     (case rev es of
        Stalled n # past \<Rightarrow> False
      | Repeated n a # past \<Rightarrow> outcome_of_call (executions es) n a = Some Success
      | _ \<Rightarrow> True)"

lemma find_map: "find P (map f xs) = map_option f (find (P \<circ> f) xs)"
  by (induction xs) auto

text \<open>A duplicate is the latest execution of the same call.\<close>

lemma duplicate_latest:
  assumes "ledger_ok h" "duplicate h n a = Some r" "map receipt_of (receipts h) = map signed xs"
  shows "outcome_of_call xs n a = Some (r_status r)"
proof -
  let ?s = "canonical_signature n a"
  from assms(2) obtain pre post where s: "receipts h = pre @ r # post" "r_epoch r = epoch h" "r_signature r = ?s"
    "\<forall>y\<in>set post. \<not> (r_epoch y = epoch h \<and> r_signature y = ?s)"
    by (auto simp: duplicate_def find_rev_split)
  have "r_signature y \<noteq> ?s" if y: "y \<in> set post" for y
  proof -
    from y obtain p q where "post = p @ y # q" by (meson split_list)
    then have y': "receipts h = (pre @ r # p) @ y # q" using s(1) by simp
    have "\<forall>q \<in> set (r # post). \<not> mutated (roles h) q" using current_epoch [OF assms(1) s(1)] s(2) by simp
    then have "r_epoch y = epoch h" using current_epoch [OF assms(1) y'] \<open>post = p @ y # q\<close> by simp
    with s(4) y show ?thesis by blast
  qed
  with s(1,3) have "find (\<lambda>q. r_signature q = ?s) (rev (receipts h)) = Some r"
    unfolding find_rev_split by blast
  moreover have "find (\<lambda>p. fst (snd p) = ?s) (rev (map receipt_of (receipts h)))
      = map_option receipt_of (find (\<lambda>q. r_signature q = ?s) (rev (receipts h)))"
    by (simp add: rev_map find_map o_def receipt_of_def)
  moreover have "find (\<lambda>p. fst (snd p) = ?s) (rev (map signed xs))
      = map_option signed (find (\<lambda>x. fst (snd (signed x)) = ?s) (rev xs))"
    by (simp add: rev_map find_map o_def)
  ultimately show ?thesis
    unfolding assms(3) by (auto simp: outcome_of_call_def signed_def receipt_of_def split: prod.splits)
qed

text \<open>The flags are those of the latest event.\<close>

lemma history_flags:
  assumes "run_steps happens (new_harness g tools ks types enforce require rs) es = Inr h"
    and "open_failures h = []" "\<not> pending_verification h"
  shows "(last_action_blocked h \<longrightarrow> force_finalize h) \<longleftrightarrow> last_block_allows es"
proof (cases es rule: rev_cases)
  case Nil
  with assms(1) show ?thesis by (auto simp: new_harness_def last_block_allows_def)
next
  case (snoc pre e)
  let ?new = "new_harness g tools ks types enforce require rs"
  from assms(1) snoc obtain h0 where h0: "run_steps happens ?new pre = Inr h0" "happens h0 e = Inr h"
    by (auto simp: run_steps_append split: sum.splits)
  have ok: "ledger_ok h0" by (rule events.run_inv [OF ledger_ok_new h0(1)])
  have r0: "map receipt_of (receipts h0) = map signed (executions pre)"
    using history_state [OF h0(1)] by (simp add: new_harness_def)
  from h0(2) show ?thesis
  proof (cases rule: happens_cases)
    case (executed n a t st r)
    with record_status_fields(11) [OF executed(3)] snoc show ?thesis by (simp add: last_block_allows_def)
  next
    case (repeated n a r)
    have "executions es = executions pre" using repeated(1) snoc by (simp add: executions_append)
    with duplicate_latest [OF ok repeated(2) r0] repeated snoc assms(2,3) show ?thesis
      by (auto simp: last_block_allows_def blocked_result_def Let_def)
  next
    case (stalled n t)
    with stalled_result_Some [OF stalled(2)] snoc show ?thesis by (simp add: last_block_allows_def)
  qed
qed

section \<open>The gate on a history\<close>

text \<open>Every failed verification is followed by another execution of its tool.\<close>

definition checks_recovered :: "tool_roles \<Rightarrow> execution list \<Rightarrow> bool" where
  "checks_recovered rs xs \<longleftrightarrow>
     (\<forall>i<length xs. fst (xs ! i) \<in> verification rs \<and> snd (snd (xs ! i)) = Failure \<longrightarrow>
        (\<exists>j<length xs. i < j \<and> fst (xs ! j) = fst (xs ! i)))"

text \<open>Every successful mutation is followed by a verification that is no mutation itself.\<close>

definition changes :: "tool_roles \<Rightarrow> execution \<Rightarrow> bool" where
  "changes rs x \<longleftrightarrow> fst x \<in> mutation rs \<and> snd (snd x) = Success"

definition changes_verified :: "tool_roles \<Rightarrow> execution list \<Rightarrow> bool" where
  "changes_verified rs xs \<longleftrightarrow>
     (\<forall>i<length xs. changes rs (xs ! i) \<longrightarrow>
        (\<exists>j<length xs. i < j \<and> fst (xs ! j) \<in> verification rs \<and> \<not> changes rs (xs ! j)))"

lemma find_last_index:
  "find P (rev xs) = Some x \<longleftrightarrow> (\<exists>i<length xs. xs ! i = x \<and> P x \<and> (\<forall>j<length xs. i < j \<longrightarrow> \<not> P (xs ! j)))"
  (is "?L \<longleftrightarrow> ?R")
proof
  assume ?L
  then obtain pre post where s: "xs = pre @ x # post" "P x" "\<forall>y\<in>set post. \<not> P y" by (auto simp: find_rev_split)
  have "\<not> P (xs ! j)" if "j < length xs" "length pre < j" for j
  proof -
    from that s(1) have "xs ! j = post ! (j - Suc (length pre))" "j - Suc (length pre) < length post"
      by (auto simp: nth_append nth_Cons')
    with s(3) show ?thesis by simp
  qed
  with s show ?R by (intro exI [of _ "length pre"]) simp
next
  assume ?R
  then obtain i where i: "i < length xs" "xs ! i = x" "P x" "\<forall>j<length xs. i < j \<longrightarrow> \<not> P (xs ! j)" by blast
  have "xs = take i xs @ x # drop (Suc i) xs" using i(1,2) by (metis id_take_nth_drop)
  moreover have "\<not> P y" if "y \<in> set (drop (Suc i) xs)" for y
  proof -
    from that obtain k where "k < length (drop (Suc i) xs)" "y = drop (Suc i) xs ! k" by (metis in_set_conv_nth)
    with i(4) show ?thesis by simp
  qed
  ultimately show ?L using i(3) unfolding find_rev_split by blast
qed

lemma receipts_nth:
  assumes "map receipt_of L = map signed xs"
  shows "length xs = length L" "i < length L \<Longrightarrow> r_tool (L ! i) = fst (xs ! i)"
    "i < length L \<Longrightarrow> r_status (L ! i) = snd (snd (xs ! i))"
proof -
  show l: "length xs = length L" using arg_cong [OF assms, of length] by simp
  have "receipt_of (L ! i) = signed (xs ! i)" if "i < length L"
    using arg_cong [OF assms, of "\<lambda>ys. ys ! i"] that l by simp
  then show "i < length L \<Longrightarrow> r_tool (L ! i) = fst (xs ! i)" "i < length L \<Longrightarrow> r_status (L ! i) = snd (snd (xs ! i))"
    by (simp_all add: receipt_of_def signed_def split: prod.splits)
qed

lemma no_open_failure:
  assumes "map receipt_of L = map signed xs"
  shows "(\<forall>t. open_in_ledger rs L t = None) \<longleftrightarrow> checks_recovered rs xs"
proof -
  note n = receipts_nth [OF assms]
  have "open_in_ledger rs L t \<noteq> None \<longleftrightarrow> (\<exists>i<length L. r_tool (L ! i) = t \<and> failed_check rs (L ! i)
      \<and> (\<forall>j<length L. i < j \<longrightarrow> r_tool (L ! j) \<noteq> t))" for t
  proof -
    have "open_in_ledger rs L t \<noteq> None \<longleftrightarrow> (\<exists>r. find (\<lambda>r. r_tool r = t) (rev L) = Some r \<and> failed_check rs r)"
      by (simp add: open_in_ledger_def split: option.splits)
    then show ?thesis unfolding find_last_index by blast
  qed
  then have "(\<forall>t. open_in_ledger rs L t = None) \<longleftrightarrow> (\<forall>i<length L. failed_check rs (L ! i) \<longrightarrow>
      (\<exists>j<length L. i < j \<and> r_tool (L ! j) = r_tool (L ! i)))"
    by (metis option.distinct(1))
  then show ?thesis unfolding checks_recovered_def n(1) by (auto simp: n(2,3) cong: conj_cong)
qed

lemma nothing_pending:
  assumes "map receipt_of L = map signed xs"
  shows "\<not> pending_in_ledger rs L \<longleftrightarrow> changes_verified rs xs"
proof -
  note n = receipts_nth [OF assms]
  let ?P = "\<lambda>r. mutated rs r \<or> r_tool r \<in> verification rs"
  have "pending_in_ledger rs L \<longleftrightarrow> (\<exists>r. find ?P (rev L) = Some r \<and> mutated rs r)"
    by (simp add: pending_in_ledger_def split: option.splits)
  then have p: "pending_in_ledger rs L \<longleftrightarrow> (\<exists>i<length L. mutated rs (L ! i) \<and> (\<forall>j<length L. i < j \<longrightarrow> \<not> ?P (L ! j)))"
    unfolding find_last_index by blast
  have c: "mutated rs (L ! i) \<longleftrightarrow> changes rs (xs ! i)" if "i < length L" for i
    using n(2,3) [OF that] by (auto simp: changes_def)
  show ?thesis
  proof
    assume np: "\<not> pending_in_ledger rs L"
    show "changes_verified rs xs"
      unfolding changes_verified_def n(1)
    proof (intro allI impI)
      fix i
      assume i: "i < length L" "changes rs (xs ! i)"
      define M where "M = {k. k < length L \<and> changes rs (xs ! k)}"
      have M: "finite M" "i \<in> M" using i by (simp_all add: M_def)
      define m where "m = Max M"
      have m: "m \<in> M" "i \<le> m" "\<And>k. k \<in> M \<Longrightarrow> k \<le> m"
        unfolding m_def using M by (simp_all add: Max_in, metis Max_in empty_iff)
      from m(1) c have "m < length L" "mutated rs (L ! m)" by (simp_all add: M_def)
      with np obtain j where j: "j < length L" "m < j" "?P (L ! j)" unfolding p by blast
      have nc: "\<not> changes rs (xs ! j)" using m(3) [of j] j(1,2) by (fastforce simp: M_def)
      with j c have "fst (xs ! j) \<in> verification rs" using n(2) by metis
      with j m(2) nc show "\<exists>j<length L. i < j \<and> fst (xs ! j) \<in> verification rs \<and> \<not> changes rs (xs ! j)"
        by (intro exI [of _ j]) simp
    qed
  next
    assume "changes_verified rs xs"
    then show "\<not> pending_in_ledger rs L" using c n unfolding p changes_verified_def by metis
  qed
qed

text \<open>The gates that look at the history alone, and the number of failed executions an answer may claim.\<close>

lemma history_ready:
  assumes "run_steps happens (new_harness g tools ks types enforce require rs) es = Inr h"
  shows "ready_to_finish h \<longleftrightarrow> (executions es \<noteq> [] \<or> \<not> require) \<and> last_block_allows es
     \<and> (\<forall>xs x. executions es = xs @ [x] \<longrightarrow> snd (snd x) = Success)
     \<and> checks_recovered rs (executions es) \<and> changes_verified rs (executions es)"
proof -
  have ok: "ledger_ok h" by (rule events.run_inv [OF ledger_ok_new assms])
  have f: "require_receipt h = require" "roles h = rs" and r: "map receipt_of (receipts h) = map signed (executions es)"
    using history_state [OF assms] by (simp_all add: new_harness_def fixed_part_def)
  note n = receipts_nth [OF r]
  have none: "receipts h = [] \<longleftrightarrow> executions es = []" using n(1) by (metis length_0_conv)
  have latest: "(receipts h \<noteq> [] \<longrightarrow> r_status (last (receipts h)) = Success)
      \<longleftrightarrow> (\<forall>xs x. executions es = xs @ [x] \<longrightarrow> snd (snd x) = Success)"
  proof (cases "executions es" rule: rev_cases)
    case Nil
    with none show ?thesis by simp
  next
    case (snoc xs x)
    with n(1) have "receipts h \<noteq> []" "length (receipts h) - 1 = length xs" "length xs < length (receipts h)" by auto
    with n(3) [of "length xs"] snoc show ?thesis by (cases x) (auto simp: last_conv_nth)
  qed
  have opened: "open_failures h = [] \<longleftrightarrow> checks_recovered rs (executions es)"
  proof -
    have "(\<forall>t. dget (open_failures h) t = None) \<longleftrightarrow> open_failures h = []"
      by (cases "open_failures h") (auto simp: dget_def split: if_splits)
    moreover have "(\<forall>t. dget (open_failures h) t = None) \<longleftrightarrow> checks_recovered rs (executions es)"
      using ok no_open_failure [OF r, of rs] f(2) by (simp add: ledger_ok_def)
    ultimately show ?thesis by simp
  qed
  have pending: "\<not> pending_verification h \<longleftrightarrow> changes_verified rs (executions es)"
    using ok nothing_pending [OF r, of rs] f(2) by (simp add: ledger_ok_def)
  show ?thesis
    unfolding ready_to_finish_def latest [symmetric] opened [symmetric] pending [symmetric] none f
    using history_flags [OF assms] by blast
qed

lemma history_failures:
  assumes "run_steps happens (new_harness g tools ks types enforce require rs) es = Inr h"
  shows "length (filter (\<lambda>q. r_status q = Failure) (receipts h)) = length (filter (\<lambda>x. snd (snd x) = Failure) (executions es))"
proof -
  have r: "map receipt_of (receipts h) = map signed (executions es)"
    using history_state [OF assms] by (simp add: new_harness_def)
  have "length (filter (\<lambda>q. r_status q = Failure) (receipts h))
      = length (filter (\<lambda>p. snd (snd p) = Failure) (map receipt_of (receipts h)))"
    by (simp add: filter_map o_def receipt_of_def)
  also have "\<dots> = length (filter (\<lambda>x. snd (snd x) = Failure) (executions es))"
    unfolding r by (simp add: filter_map o_def signed_def)
  finally show ?thesis .
qed

text \<open>
  C2: On a harness whatever happened to it, a terminal answer is accepted exactly when every gate is open for
  that history: some call was executed if a receipt is required; the history does not end in a stalled
  investigation, nor in a repeated call unless the latest execution of that call succeeded; the latest
  execution succeeded; every failed verification was followed by another execution of its tool; every
  successful mutation was followed by a verification; where the contract enforces it, a number of failed
  executions claimed in the answer is the number of executions that failed; and the answer satisfies the
  required keys and types.
\<close>

theorem terminal_gate:
  assumes "run_steps happens (new_harness g tools ks types enforce require rs) es = Inr h"
  shows "terminal_issue h content = Inr None \<longleftrightarrow>
     (executions es \<noteq> [] \<or> \<not> require)
     \<and> last_block_allows es
     \<and> (\<forall>xs x. executions es = xs @ [x] \<longrightarrow> snd (snd x) = Success)
     \<and> checks_recovered rs (executions es) \<and> changes_verified rs (executions es)
     \<and> (case json_loads (strip content) of
          Inl e \<Rightarrow> e = JSONDecodeError
        | Inr (JObj d) \<Rightarrow> enforce \<and> dhas d ''failed_executions'' \<longrightarrow>
            get d ''failed_executions'' = JInt (int (length (filter (\<lambda>x. snd (snd x) = Failure) (executions es))))
        | Inr _ \<Rightarrow> True)
     \<and> (\<forall>keys. ks = Some keys \<longrightarrow> satisfies_contract content keys types)"
proof -
  have f: "required_json_keys h = ks" "required_json_types h = types" "enforce_failed_execution_claim h = enforce"
    using history_state [OF assms] by (simp_all add: new_harness_def fixed_part_def)
  note failures = history_failures [OF assms] and ready = history_ready [OF assms]
  have claim: "(case json_loads (strip content) of Inr v \<Rightarrow> failed_executions_issue h v = None | Inl e \<Rightarrow> e = JSONDecodeError)
      \<longleftrightarrow> (case json_loads (strip content) of
          Inl e \<Rightarrow> e = JSONDecodeError
        | Inr (JObj d) \<Rightarrow> enforce \<and> dhas d ''failed_executions'' \<longrightarrow>
            get d ''failed_executions'' = JInt (int (length (filter (\<lambda>x. snd (snd x) = Failure) (executions es))))
        | Inr _ \<Rightarrow> True)"
    by (simp add: failed_executions_issue_def f failures Let_def split: sum.splits json.splits)
  have "terminal_issue h content = Inr None \<longleftrightarrow> ready_to_finish h
     \<and> (case json_loads (strip content) of Inr v \<Rightarrow> failed_executions_issue h v = None | Inl e \<Rightarrow> e = JSONDecodeError)
     \<and> (\<forall>keys. ks = Some keys \<longrightarrow> satisfies_contract content keys types)"
    using terminal_issue_None [of h content] by (simp add: f)
  then show ?thesis unfolding claim ready by blast
qed

text \<open>A change, a failed and a passing check, and the passing check again.\<close>

definition sample_history :: "happening list" where
  "sample_history = [Executed ''write_file'' [] ''ok'', Executed ''run_tests'' [] ''2 failed'', Executed ''run_tests'' [] ''ok'',
     Repeated ''run_tests'' []]"

lemma sample_history_runs:
  "\<exists>h. run_steps happens (new_harness [] {} (Some [''failed_executions'']) [] True True default_roles) sample_history = Inr h"
proof -
  let ?h = "new_harness [] {} (Some [''failed_executions'']) [] True True default_roles"
  obtain h1 r1 where 1: "record_status ?h ''write_file'' [] Success = (h1, r1)" by fastforce
  obtain h2 r2 where 2: "record_status h1 ''run_tests'' [] Failure = (h2, r2)" by fastforce
  obtain h3 r3 where 3: "record_status h2 ''run_tests'' [] Success = (h3, r3)" by fastforce
  note f1 = record_status_fields [OF 1] note f2 = record_status_fields [OF 2] note f3 = record_status_fields [OF 3]
  have not_mutation: "''run_tests'' \<notin> mutation (roles h2)"
    unfolding f2(2) f1(2) by (simp add: new_harness_def default_roles_def DEFAULT_MUTATION_TOOLS_def)
  have "epoch h3 = r_epoch r3" using f3(3,6,8) not_mutation by simp
  then have "duplicate h3 ''run_tests'' [] = Some r3"
    using f3(1,5) by (simp add: duplicate_def Let_def)
  with 1 2 3 show ?thesis
    by (simp add: sample_history_def happens_def record_step_def record_result_def sample_statuses)
qed

theorem terminal_gate_witness:
  "\<exists>h. run_steps happens (new_harness [] {} (Some [''failed_executions'']) [] True True default_roles) sample_history = Inr h
     \<and> terminal_issue h ''{\"failed_executions\": 1}'' = Inr None
     \<and> terminal_issue h ''{\"failed_executions\": 2}'' \<noteq> Inr None"
proof -
  obtain h where h: "run_steps happens (new_harness [] {} (Some [''failed_executions'']) [] True True default_roles) sample_history = Inr h"
    using sample_history_runs by blast
  have x: "executions sample_history = [(''write_file'', [], Success), (''run_tests'', [], Failure), (''run_tests'', [], Success)]"
    by (simp add: sample_history_def sample_statuses)
  have b: "last_block_allows sample_history"
    unfolding last_block_allows_def x by (simp add: sample_history_def outcome_of_call_def signed_def)
  have c: "checks_recovered default_roles (executions sample_history)" "changes_verified default_roles (executions sample_history)"
    unfolding x by code_simp+
  have j: "json_loads (strip ''{\"failed_executions\": 1}'') = Inr (JObj [(''failed_executions'', JInt 1)])"
    "json_loads (strip ''{\"failed_executions\": 2}'') = Inr (JObj [(''failed_executions'', JInt 2)])" by code_simp+
  note gate = terminal_gate [OF h]
  have "terminal_issue h ''{\"failed_executions\": 1}'' = Inr None"
    unfolding gate j sum.case json.case using b c
    by (simp add: x satisfies_contract_def j dkeys_def dget_def get_def get_or_def)
  moreover have "terminal_issue h ''{\"failed_executions\": 2}'' \<noteq> Inr None"
    unfolding gate j sum.case json.case by (simp add: x dhas_dget dget_def get_def get_or_def)
  ultimately show ?thesis using h by blast
qed

section \<open>Signatures of calls\<close>

text \<open>The arguments without the order of their keys, at every level, and the text that is hashed.\<close>

definition same_arguments :: "jobject \<Rightarrow> jobject \<Rightarrow> bool" where
  "same_arguments a b \<longleftrightarrow> canon (JObj a) = canon (JObj b)"

definition signed_text :: "string \<Rightarrow> jobject \<Rightarrow> string" where
  "signed_text n a = n @ CHR 0x00 # json_dumps (canon (JObj a))"

definition truncated_collision :: "string \<Rightarrow> string \<Rightarrow> bool" where
  "truncated_collision s t \<longleftrightarrow> s \<noteq> t \<and> take 12 (sha256_hex s) = take 12 (sha256_hex t)"

lemma canonical_signature_text: "canonical_signature n a = n @ '':'' @ take 12 (sha256_hex (signed_text n a))"
  by (simp only: canonical_signature_def signed_text_def dumps_sorted json_dumps_def Let_def)

lemma same_text:
  assumes "json_ok False (JObj a)" "json_ok False (JObj b)" "signed_text n a = signed_text n b"
  shows "same_arguments a b"
proof -
  have "json_dumps (canon (JObj a)) = json_dumps (canon (JObj b))" using assms(3) by (simp add: signed_text_def del: canon.simps)
  then show ?thesis
    using json_dumps_loads [OF canon_ok [OF assms(1)]] json_dumps_loads [OF canon_ok [OF assms(2)]]
    unfolding same_arguments_def by (metis sum.inject(2))
qed

lemma same_bindings:
  assumes "json_ok False (JObj a)" "json_ok False (JObj b)" "\<And>k. dget a k = dget b k"
  shows "same_arguments a b"
proof -
  have "map_of a = map_of b" using assms(3) by (simp add: dget_def fun_eq_iff)
  moreover have "map_of (map (\<lambda>kv. (fst kv, canon (snd kv))) d) = map_option canon \<circ> map_of d" for d :: jobject
    by (induction d) (auto simp: fun_eq_iff)
  ultimately show ?thesis
    using assms(1,2) unfolding same_arguments_def canon.simps json.inject case_prod_unfold
    by (intro sort_key_same_bindings) (simp_all add: o_def)
qed

text \<open>
  C6: The signature identifies the call. Two calls have the same signature exactly when they name the same
  tool and their arguments are the same up to the order of keys, or the two texts that are hashed differ and
  collide in the first twelve digits of their SHA-256; in particular the order in which arguments are written
  does not matter. The arguments are those the reader of JSON can return.
\<close>

theorem signature_identifies_call:
  assumes "json_ok False (JObj a)" "json_ok False (JObj b)"
  shows "(canonical_signature m a = canonical_signature n b \<longleftrightarrow>
       m = n \<and> (same_arguments a b \<or> truncated_collision (signed_text n a) (signed_text n b)))
    \<and> ((\<forall>k. dget a k = dget b k) \<longrightarrow> canonical_signature n a = canonical_signature n b)"
proof -
  have "canonical_signature n a = canonical_signature n b \<longleftrightarrow>
      same_arguments a b \<or> truncated_collision (signed_text n a) (signed_text n b)"
    using same_text [OF assms, of n]
    by (auto simp: canonical_signature_text truncated_collision_def same_arguments_def signed_text_def simp del: canon.simps)
  with canonical_signature_name same_bindings [OF assms] show ?thesis by blast
qed

theorem signature_identifies_call_witness:
  "canonical_signature ''f'' [(''x'', JInt 1), (''y'', JNull)] = canonical_signature ''f'' [(''y'', JNull), (''x'', JInt 1)]
     \<and> (canonical_signature ''f'' [(''x'', JInt 1)] = canonical_signature ''f'' [(''x'', JInt 2)] \<longleftrightarrow>
          truncated_collision (signed_text ''f'' [(''x'', JInt 1)]) (signed_text ''f'' [(''x'', JInt 2)]))"
proof -
  let ?a = "[(''x'', JInt 1), (''y'', JNull)]" and ?b = "[(''y'', JNull), (''x'', JInt 1)]"
  have small: "length (dec_digits 1) \<le> int_digit_limit" "length (dec_digits 2) \<le> int_digit_limit" by code_simp+
  then have ok: "json_ok False (JObj ?a)" "json_ok False (JObj ?b)" "json_ok False (JObj [(''x'', JInt 1)])"
    "json_ok False (JObj [(''x'', JInt 2)])" by simp_all
  have "\<forall>k. dget ?a k = dget ?b k" by (simp add: dget_def)
  with signature_identifies_call [OF ok(1,2), of "''f''" "''f''"]
  have "canonical_signature ''f'' ?a = canonical_signature ''f'' ?b" by blast
  moreover have "\<not> same_arguments [(''x'', JInt 1)] [(''x'', JInt 2)]" by (simp add: same_arguments_def)
  ultimately show ?thesis using signature_identifies_call [OF ok(3,4), of "''f''" "''f''"] by blast
qed

end
