(* ===== verification/Projection.thy ===== *)
theory Projection
  imports Core_Laws
begin

text \<open>
  Local Projection (\<open>projection.py\<close>): the decision whether the result of the latest tool call
  may be returned as the final answer without a model call, and the comparison of a candidate
  with the answer the model did give. The methods \<open>projection_decision\<close>,
  \<open>projection_shadow_candidate\<close> and \<open>project_final\<close> of the harness are here too.
\<close>

section \<open>Python equality of decoded values\<close>

text \<open>
  A boolean is the integer 0 or 1, and a number equals another of a different type when the
  values are equal. The integer value of a float is the decimal rounded to 53 bits, ties to even.
\<close>

fun excess_bits :: "nat \<Rightarrow> nat" where
  "excess_bits n = (if n < 9007199254740992 then 0 else Suc (excess_bits (n div 2)))"

declare excess_bits.simps [simp del]

definition round53 :: "nat \<Rightarrow> nat" where
  "round53 n =
     (let k = excess_bits n in
      if k = 0 then n
      else (let q = n div 2 ^ k; r = n mod 2 ^ k; h = 2 ^ (k - 1)
            in (if h < r \<or> r = h \<and> odd q then q + 1 else q) * 2 ^ k))"

fun float_int :: "pyfloat \<Rightarrow> int option" where
  "float_int (FDec neg m e) =
     (if e < 0 then None
      else Some (if neg then - int (round53 (m * 10 ^ nat e)) else int (round53 (m * 10 ^ nat e))))"
| "float_int _ = None"

fun num_int :: "json \<Rightarrow> int option" where
  "num_int (JBool b) = Some (if b then 1 else 0)"
| "num_int (JInt i) = Some i"
| "num_int (JFloat f) = float_int f"
| "num_int _ = None"

fun py_eq :: "json \<Rightarrow> json \<Rightarrow> bool" where
  "py_eq JNull w = (w = JNull)"
| "py_eq (JStr s) w = (w = JStr s)"
| "py_eq (JArr vs) w =
     (case w of JArr ws \<Rightarrow> length vs = length ws \<and> list_all2 py_eq vs ws | _ \<Rightarrow> False)"
| "py_eq (JObj kvs) w =
     (case w of JObj kws \<Rightarrow>
        length kvs = length kws
        \<and> (\<forall>kv \<in> set kvs. case map_of kws (fst kv) of None \<Rightarrow> False | Some x \<Rightarrow> py_eq (snd kv) x)
      | _ \<Rightarrow> False)"
| "py_eq (JFloat f) w =
     (case float_int f of Some i \<Rightarrow> num_int w = Some i
      | None \<Rightarrow> f \<noteq> FNaN \<and> w = JFloat f)"
| "py_eq (JBool b) w = (num_int w = num_int (JBool b))"
| "py_eq (JInt i) w = (num_int w = num_int (JInt i))"

section \<open>Decisions\<close>

text \<open>The reference \<open>\s*(\d+)\s+passed\s*\<close>, matched in full: the digits of the count.\<close>

definition passed_count :: "string \<Rightarrow> string option" where
  "passed_count s =
     (let s1 = lstrip s; ds = takeWhile is_digit s1; s2 = dropWhile is_digit s1; s3 = lstrip s2
      in if ds \<noteq> [] \<and> s3 \<noteq> s2 \<and> lower (take 6 s3) = ''passed'' \<and> lstrip (drop 6 s3) = []
         then Some ds else None)"

definition PRIMITIVE_TYPES :: "string list" where
  "PRIMITIVE_TYPES = [''string'', ''integer'', ''number'', ''boolean'']"

type_synonym schema = "(string \<times> string) list"

record canonical_projection =
  p_value :: jobject
  declared_schema :: schema

definition projection_content :: "canonical_projection \<Rightarrow> string" where
  "projection_content c = json_dumps (JObj (p_value c))"

record projection_decision =
  eligible :: bool
  reason :: string
  candidate :: "canonical_projection option"

definition decision_to_safe_dict :: "projection_decision \<Rightarrow> jobject" where
  "decision_to_safe_dict d = [(''eligible'', JBool (eligible d)), (''reason'', JStr (reason d))]"

definition rejected :: "string \<Rightarrow> projection_decision" where
  "rejected r = \<lparr>eligible = False, reason = r, candidate = None\<rparr>"

text \<open>\<open>ProjectionDecision(True, reason, candidate)\<close>.\<close>

definition accepted :: "string \<Rightarrow> canonical_projection \<Rightarrow> projection_decision" where
  "accepted r c = \<lparr>eligible = True, reason = r, candidate = Some c\<rparr>"

definition declared_schema_of :: "agent_harness \<Rightarrow> schema option" where
  "declared_schema_of h =
     (case required_json_keys h of None \<Rightarrow> None
      | Some ks \<Rightarrow>
        (let types = required_json_types h in
         if ks = [] \<or> \<not> distinct ks \<or> set ks \<noteq> set (dkeys types) then None
         else if \<exists>kt \<in> set types. snd kt \<notin> set PRIMITIVE_TYPES then None
         else Some (map (\<lambda>k. (k, the (dget types k))) ks)))"

definition proven_verification_candidate ::
  "agent_harness \<Rightarrow> string \<Rightarrow> string \<Rightarrow> schema \<Rightarrow> canonical_projection option result" where
  "proven_verification_candidate h name res sch =
     (if name \<notin> verification (roles h) \<or> sch \<noteq> [(''status'', ''string''), (''tests'', ''integer'')]
      then Inr None
      else (case passed_count res of None \<Rightarrow> Inr None
            | Some ds \<Rightarrow>
                (if int_digit_limit < length ds then Inl (ValueError ''int_digits'')
                 else Inr (Some \<lparr>p_value = [(''status'', JStr ''passed''), (''tests'', JInt (int (dec_value ds)))],
                                 declared_schema = sch\<rparr>))))"

definition projection_matches_type :: "json \<Rightarrow> string \<Rightarrow> bool" where
  "projection_matches_type v t =
     (if t = ''string'' then is_str v
      else if t = ''integer'' then is_int v
      else if t = ''number'' then is_int v \<or> is_float v
      else if t = ''boolean'' then is_bool v
      else False)"

text \<open>The result is the reason of a rejection, or the value with its keys in schema order.\<close>

definition parse_exact_terminal :: "string \<Rightarrow> schema \<Rightarrow> (string + jobject) result" where
  "parse_exact_terminal content sch =
     (case loads_with True content of
        Inl e \<Rightarrow> (if e = OutsideModel then Inl e else Inr (Inl ''malformed_tool_result''))
      | Inr (JObj value) \<Rightarrow>
          (if set (dkeys value) \<noteq> set (map fst sch) then Inr (Inl ''schema_keys_mismatch'')
           else if \<exists>kt \<in> set sch. \<not> projection_matches_type (the (dget value (fst kt))) (snd kt)
           then Inr (Inl ''schema_type_mismatch'')
           else Inr (Inr (dict_of (map (\<lambda>kt. (fst kt, the (dget value (fst kt)))) sch))))
      | Inr _ \<Rightarrow> Inr (Inl ''terminal_not_object''))"

text \<open>The guards of the decision that do not look at the text of the result, in order.\<close>

definition projection_rejection ::
  "agent_harness \<Rightarrow> string \<Rightarrow> bool \<Rightarrow> bool \<Rightarrow> string option" where
  "projection_rejection h name degraded blocked =
     (if degraded then Some ''transcript_degraded''
      else if blocked \<or> last_action_blocked h then Some ''blocked_unresolved_action''
      else if pending_verification h then Some ''pending_verification''
      else if open_failures h \<noteq> [] then Some ''open_failure''
      else if receipts h = [] then Some ''no_receipt''
      else (let latest = last (receipts h) in
            if r_epoch latest \<noteq> epoch h then Some ''stale_receipt''
            else if r_status latest \<noteq> Success then Some ''receipt_not_success''
            else if available_tools h \<noteq> {} \<and> name \<notin> available_tools h then Some ''unknown_tool_result''
            else if r_tool latest \<noteq> name then Some ''nonlatest_receipt''
            else None))"

definition decide_local_projection_shadow_candidate ::
  "agent_harness \<Rightarrow> string \<Rightarrow> string \<Rightarrow> bool \<Rightarrow> bool \<Rightarrow> projection_decision result" where
  "decide_local_projection_shadow_candidate h name res degraded blocked =
     (case projection_rejection h name degraded blocked of Some r \<Rightarrow> Inr (rejected r)
      | None \<Rightarrow>
        (case declared_schema_of h of None \<Rightarrow> Inr (rejected ''unsupported_schema'')
         | Some sch \<Rightarrow>
           (case proven_verification_candidate h name res sch of Inl e \<Rightarrow> Inl e
            | Inr (Some c) \<Rightarrow> Inr (accepted ''proven_verifier_summary'' c)
            | Inr None \<Rightarrow>
              (case parse_exact_terminal res sch of Inl e \<Rightarrow> Inl e
               | Inr (Inl r) \<Rightarrow> Inr (rejected r)
               | Inr (Inr value) \<Rightarrow>
                   Inr (accepted ''exact_primitive_object'' \<lparr>p_value = value, declared_schema = sch\<rparr>)))))"

definition decide_local_projection ::
  "agent_harness \<Rightarrow> string \<Rightarrow> string \<Rightarrow> bool \<Rightarrow> bool \<Rightarrow> projection_decision result" where
  "decide_local_projection h name res degraded blocked =
     (case decide_local_projection_shadow_candidate h name res degraded blocked of Inl e \<Rightarrow> Inl e
      | Inr shadow \<Rightarrow>
          (if \<not> eligible shadow then Inr shadow
           else if reason shadow \<noteq> ''proven_verifier_summary'' then Inr (rejected ''unpromoted_rule'')
           else Inr \<lparr>eligible = True, reason = ''eligible'', candidate = candidate shadow\<rparr>))"

text \<open>\<open>AgentHarness.project_final\<close>.\<close>

definition project_final :: "agent_harness \<Rightarrow> string \<Rightarrow> string \<Rightarrow> string option result" where
  "project_final h name res =
     (case decide_local_projection h name res False False of Inl e \<Rightarrow> Inl e
      | Inr d \<Rightarrow>
          (case candidate d of None \<Rightarrow> Inr None
           | Some c \<Rightarrow> Inr (if eligible d then Some (projection_content c) else None)))"

section \<open>Shadow comparison\<close>

record shadow_evaluation =
  s_eligible :: bool
  agreement :: "bool option"
  s_reason :: string

definition evaluation_to_safe_dict :: "shadow_evaluation \<Rightarrow> jobject" where
  "evaluation_to_safe_dict s =
     [(''eligible'', JBool (s_eligible s)),
      (''agreement'', case agreement s of None \<Rightarrow> JNull | Some b \<Rightarrow> JBool b),
      (''reason'', JStr (s_reason s))]"

definition evaluate_projection_shadow ::
  "projection_decision \<Rightarrow> string option \<Rightarrow> shadow_evaluation result" where
  "evaluate_projection_shadow d actual_model_terminal =
     (case (if eligible d then candidate d else None) of
        None \<Rightarrow> Inr \<lparr>s_eligible = False, agreement = None, s_reason = reason d\<rparr>
      | Some c \<Rightarrow>
        (case actual_model_terminal of
           None \<Rightarrow> Inr \<lparr>s_eligible = True, agreement = None, s_reason = ''model_terminal_missing''\<rparr>
         | Some t \<Rightarrow>
           (case parse_exact_terminal t (declared_schema c) of Inl e \<Rightarrow> Inl e
            | Inr (Inl _) \<Rightarrow>
                Inr \<lparr>s_eligible = True, agreement = Some False, s_reason = ''model_terminal_invalid''\<rparr>
            | Inr (Inr value) \<Rightarrow>
                (if py_eq (JObj value) (JObj (p_value c))
                 then Inr \<lparr>s_eligible = True, agreement = Some True, s_reason = ''exact_agreement''\<rparr>
                 else Inr \<lparr>s_eligible = True, agreement = Some False, s_reason = ''terminal_mismatch''\<rparr>))))"

section \<open>Laws\<close>

lemma projection_rejection_None:
  "projection_rejection h name degraded blocked = None \<longleftrightarrow>
     \<not> degraded \<and> \<not> blocked \<and> \<not> last_action_blocked h \<and> \<not> pending_verification h
     \<and> open_failures h = [] \<and> receipts h \<noteq> []
     \<and> r_epoch (last (receipts h)) = epoch h \<and> r_status (last (receipts h)) = Success
     \<and> (available_tools h \<noteq> {} \<longrightarrow> name \<in> available_tools h) \<and> r_tool (last (receipts h)) = name"
  by (auto simp: projection_rejection_def Let_def)

lemma rejection_ready:
  "projection_rejection h name degraded blocked = None \<Longrightarrow> ready_to_finish h"
  by (auto simp: projection_rejection_None ready_to_finish_def)

lemma declared_schema_of_Some:
  assumes "declared_schema_of h = Some sch" "dict_ok (required_json_types h)"
  shows "required_json_keys h = Some (map fst sch)" "distinct (map fst sch)"
    "set sch = set (required_json_types h)" "set (map snd sch) \<subseteq> set PRIMITIVE_TYPES"
proof -
  from assms(1) obtain ks where ks: "required_json_keys h = Some ks" "distinct ks"
      "set ks = set (dkeys (required_json_types h))"
      "\<forall>kt \<in> set (required_json_types h). snd kt \<in> set PRIMITIVE_TYPES"
      "sch = map (\<lambda>k. (k, the (dget (required_json_types h) k))) ks"
    by (auto simp: declared_schema_of_def Let_def split: option.splits if_splits)
  then have f: "map fst sch = ks" by (simp add: o_def)
  with ks show "required_json_keys h = Some (map fst sch)" "distinct (map fst sch)" by simp_all
  show s: "set sch = set (required_json_types h)"
  proof -
    have m: "dget (required_json_types h) k = Some t \<longleftrightarrow> (k, t) \<in> set (required_json_types h)" for k t
      using assms(2) by (simp add: dget_def dict_ok_def dkeys_def)
    show ?thesis
    proof (intro set_eqI iffI)
      fix kt assume "kt \<in> set sch"
      then obtain k where k: "k \<in> set ks" "kt = (k, the (dget (required_json_types h) k))"
        using ks(5) by auto
      then obtain t where "dget (required_json_types h) k = Some t" using ks(3) by (auto simp: dkeys_dget)
      with k m show "kt \<in> set (required_json_types h)" by simp
    next
      fix kt assume kt: "kt \<in> set (required_json_types h)"
      then have "dget (required_json_types h) (fst kt) = Some (snd kt)" using m by simp
      moreover have "fst kt \<in> set ks" using kt ks(3) by (simp add: dkeys_def)
      ultimately show "kt \<in> set sch" unfolding ks(5) by force
    qed
  qed
  show "set (map snd sch) \<subseteq> set PRIMITIVE_TYPES" using s ks(4) by auto
qed

lemma matches_types_agree:
  "t \<in> set PRIMITIVE_TYPES \<Longrightarrow> matches_json_type v t = Inr (projection_matches_type v t)"
  by (auto simp: PRIMITIVE_TYPES_def matches_json_type_def projection_matches_type_def)

lemma parse_exact_terminal_value:
  assumes "parse_exact_terminal content sch = Inr (Inr value)" "distinct (map fst sch)"
  shows "map fst value = map fst sch" "json_ok True (JObj value)"
    "(k, t) \<in> set sch \<Longrightarrow> \<exists>v. dget value k = Some v \<and> projection_matches_type v t"
proof -
  from assms(1) obtain d where d: "loads_with True content = Inr (JObj d)" "set (dkeys d) = set (map fst sch)"
      "\<forall>kt \<in> set sch. projection_matches_type (the (dget d (fst kt))) (snd kt)"
      "value = dict_of (map (\<lambda>kt. (fst kt, the (dget d (fst kt)))) sch)"
    by (auto simp: parse_exact_terminal_def split: sum.splits json.splits if_splits)
  have v: "value = map (\<lambda>kt. (fst kt, the (dget d (fst kt)))) sch"
    unfolding d(4) by (rule dict_of_distinct) (use assms(2) in \<open>simp add: o_def\<close>)
  then show f: "map fst value = map fst sch" by (simp add: o_def)
  have ok: "json_ok True (JObj d)" by (rule loads_ok [OF d(1)])
  have mem: "\<exists>v. dget d k = Some v \<and> json_ok True v" if "(k, t) \<in> set sch" for k t
  proof -
    have "k \<in> set (dkeys d)" using that d(2) by force
    then obtain v where "dget d k = Some v" by (auto simp: dkeys_dget)
    moreover from this have "(k, v) \<in> set d" by (auto simp: dget_def dest: map_of_SomeD)
    ultimately show ?thesis using ok by auto
  qed
  have "json_ok True (snd kv)" if "kv \<in> set value" for kv
    using that mem unfolding v by fastforce
  with f assms(2) show "json_ok True (JObj value)" by (simp del: distinct_map)
  assume kt: "(k, t) \<in> set sch"
  have "dget value k = Some (the (dget d k))"
  proof -
    have "distinct (map fst value)" using f assms(2) by simp
    moreover have "(k, the (dget d k)) \<in> set value"
      unfolding v set_map by (rule image_eqI [OF _ kt]) simp
    ultimately show ?thesis by (simp add: dget_def)
  qed
  with d(3) kt show "\<exists>v. dget value k = Some v \<and> projection_matches_type v t" by force
qed

lemma dumps_object_strip: "strip (json_dumps (JObj d)) = json_dumps (JObj d)"
  by (simp add: json_dumps_def strip_def lstrip_def rstrip_def is_space_def case_prod_unfold Let_def)

lemma json_ok_mono: "json_ok True v \<Longrightarrow> json_ok False v"
  by (induction "True" v rule: json_ok.induct) auto

text \<open>Any candidate, released or only compared in the shadow, satisfies the terminal contract.\<close>

lemma contract_of_value:
  assumes sch: "declared_schema_of h = Some sch" "dict_ok (required_json_types h)"
    and v: "map fst value = map fst sch" "json_ok False (JObj value)"
      "\<And>k t. (k, t) \<in> set sch \<Longrightarrow> \<exists>v. dget value k = Some v \<and> projection_matches_type v t"
    and ready: "ready_to_finish h" and claim: "failed_executions_issue h (JObj value) = None"
  shows "terminal_issue h (json_dumps (JObj value)) = Inr None"
proof -
  note s = declared_schema_of_Some [OF sch]
  have l: "json_loads (strip (json_dumps (JObj value))) = Inr (JObj value)"
    using v(2) by (simp only: dumps_object_strip json_dumps_loads)
  have "satisfies_contract (json_dumps (JObj value)) (map fst sch) (required_json_types h)"
    unfolding satisfies_contract_def
  proof (intro exI conjI ballI, rule l)
    show "set (dkeys value) = set (map fst sch)" using v(1) by (simp add: dkeys_def del: set_map)
    fix kt assume kt: "kt \<in> set (required_json_types h)"
    obtain k t where [simp]: "kt = (k, t)" by (cases kt)
    have in_sch: "(k, t) \<in> set sch" using kt s(3) by simp
    then have "t \<in> set PRIMITIVE_TYPES" using s(4) by force
    with v(3) [OF in_sch] show "case kt of (k, t) \<Rightarrow> \<forall>v. dget value k = Some v \<longrightarrow> matches_json_type v t = Inr True"
      by (auto simp: matches_types_agree)
  qed
  with l claim ready s(1) show ?thesis by (simp add: terminal_issue_None)
qed

lemma shadow_candidate_cases:
  assumes "decide_local_projection_shadow_candidate h name res degraded blocked = Inr d" "eligible d"
  obtains sch c where "projection_rejection h name degraded blocked = None" "declared_schema_of h = Some sch"
    "candidate d = Some c" "declared_schema c = sch"
    "reason d = ''proven_verifier_summary'' \<and> proven_verification_candidate h name res sch = Inr (Some c)
     \<or> reason d = ''exact_primitive_object'' \<and> parse_exact_terminal res sch = Inr (Inr (p_value c))
       \<and> proven_verification_candidate h name res sch = Inr None"
proof -
  have none: "projection_rejection h name degraded blocked = None"
    and sch: "\<exists>sch. declared_schema_of h = Some sch"
    using assms by (auto simp: decide_local_projection_shadow_candidate_def rejected_def split: option.splits)
  from sch obtain sch where sch: "declared_schema_of h = Some sch" by blast
  note d = assms(1) [unfolded decide_local_projection_shadow_candidate_def, simplified none sch option.case]
  show ?thesis
  proof (cases "proven_verification_candidate h name res sch")
    case (Inr p)
    show ?thesis
    proof (cases p)
      case (Some c)
      with d Inr have "d = accepted ''proven_verifier_summary'' c" by simp
      moreover from Inr Some have "declared_schema c = sch"
        by (auto simp: proven_verification_candidate_def split: option.splits if_splits)
      ultimately show ?thesis
        using that [OF none sch, of c] Inr Some by (simp add: accepted_def)
    next
      case None
      with d Inr assms(2) obtain w where
        v: "parse_exact_terminal res sch = Inr (Inr w)"
          "d = accepted ''exact_primitive_object'' \<lparr>p_value = w, declared_schema = sch\<rparr>"
        by (auto simp: rejected_def split: sum.splits)
      with that [OF none sch, of "\<lparr>p_value = w, declared_schema = sch\<rparr>"] Inr None
      show ?thesis by (simp add: accepted_def)
    qed
  qed (use d in simp)
qed

lemma proven_candidate_Some:
  "proven_verification_candidate h name res sch = Inr (Some c) \<longleftrightarrow>
     name \<in> verification (roles h) \<and> sch = [(''status'', ''string''), (''tests'', ''integer'')]
     \<and> (\<exists>ds. passed_count res = Some ds \<and> length ds \<le> int_digit_limit
          \<and> c = \<lparr>p_value = [(''status'', JStr ''passed''), (''tests'', JInt (int (dec_value ds)))],
                 declared_schema = sch\<rparr>)"
  by (auto simp: proven_verification_candidate_def split: option.splits)

lemma shadow_candidate_passes:
  assumes d: "decide_local_projection_shadow_candidate h name res degraded blocked = Inr d" "eligible d"
    and types: "dict_ok (required_json_types h)"
    and c: "candidate d = Some c" and claim: "failed_executions_issue h (JObj (p_value c)) = None"
  shows "terminal_issue h (projection_content c) = Inr None"
proof -
  from shadow_candidate_cases [OF d] c obtain sch where none: "projection_rejection h name degraded blocked = None"
    and sch: "declared_schema_of h = Some sch"
    and how: "proven_verification_candidate h name res sch = Inr (Some c)
      \<or> parse_exact_terminal res sch = Inr (Inr (p_value c))"
    by (metis option.inject)
  have "map fst (p_value c) = map fst sch \<and> json_ok False (JObj (p_value c))
      \<and> (\<forall>k t. (k, t) \<in> set sch \<longrightarrow> (\<exists>v. dget (p_value c) k = Some v \<and> projection_matches_type v t))"
    using how
  proof
    assume "proven_verification_candidate h name res sch = Inr (Some c)"
    then obtain ds where ds: "sch = [(''status'', ''string''), (''tests'', ''integer'')]" "length ds \<le> int_digit_limit"
      "p_value c = [(''status'', JStr ''passed''), (''tests'', JInt (int (dec_value ds)))]"
      "passed_count res = Some ds"
      unfolding proven_candidate_Some by auto
    have digits: "c \<in> set ds \<Longrightarrow> is_digit c" for c
      using ds(4) by (auto simp: passed_count_def Let_def split: if_splits dest: set_takeWhileD)
    have "ds \<noteq> []" using ds(4) by (auto simp: passed_count_def Let_def split: if_splits)
    then have "length (dec_digits (dec_value ds)) \<le> length ds"
      by (intro length_dec_digits dec_value_bound digits) auto
    with ds(2) have "length (dec_digits (dec_value ds)) \<le> int_digit_limit" by simp
    with ds show ?thesis by (auto simp: dget_def projection_matches_type_def)
  next
    assume "parse_exact_terminal res sch = Inr (Inr (p_value c))"
    from parse_exact_terminal_value [OF this declared_schema_of_Some(2) [OF sch types]] show ?thesis
      by (auto dest: json_ok_mono simp del: json_ok.simps)
  qed
  then show ?thesis
    unfolding projection_content_def using rejection_ready [OF none] claim
    by (intro contract_of_value [OF sch types]) auto
qed

lemma decide_local_projection_eligible:
  "decide_local_projection h name res degraded blocked = Inr d \<and> eligible d \<longleftrightarrow>
     projection_rejection h name degraded blocked = None
     \<and> (\<exists>sch c. declared_schema_of h = Some sch
          \<and> proven_verification_candidate h name res sch = Inr (Some c)
          \<and> d = \<lparr>eligible = True, reason = ''eligible'', candidate = Some c\<rparr>)"
  by (auto simp: decide_local_projection_def decide_local_projection_shadow_candidate_def rejected_def
      accepted_def split: option.splits sum.splits if_splits)

lemma released_candidate_passes:
  assumes "decide_local_projection h name res degraded blocked = Inr d" "eligible d" "candidate d = Some c"
    and types: "dict_ok (required_json_types h)"
  shows "terminal_issue h (projection_content c) = Inr None"
proof -
  from assms obtain sch where sch: "projection_rejection h name degraded blocked = None"
      "declared_schema_of h = Some sch" "proven_verification_candidate h name res sch = Inr (Some c)"
    using decide_local_projection_eligible [of h name res degraded blocked d] by auto
  then have "decide_local_projection_shadow_candidate h name res degraded blocked
      = Inr (accepted ''proven_verifier_summary'' c)"
    by (simp add: decide_local_projection_shadow_candidate_def)
  moreover have "failed_executions_issue h (JObj (p_value c)) = None"
    using sch(3) by (auto simp: proven_candidate_Some failed_executions_issue_def dhas_dget dget_def)
  ultimately show ?thesis
    using shadow_candidate_passes [OF _ _ types] by (simp add: accepted_def)
qed

section \<open>Properties of Local Projection\<close>

text \<open>A harness whose only receipt is a passed check, under the status and count contract.\<close>

definition sample_checked :: agent_harness where
  "sample_checked =
     (new_harness [] {''run_tests''} (Some [''status'', ''tests'']) [(''status'', ''string''), (''tests'', ''integer'')]
        True True default_roles)
     \<lparr>receipts := [\<lparr>receipt_id = 1, r_tool = ''run_tests'', r_signature = [], r_status = Success, r_epoch = 0\<rparr>]\<rparr>"



text \<open>
  C8: A released projection, and any shadow candidate that does not claim a wrong number of
  failed executions, is an answer the terminal gate of the same harness accepts: projecting never
  returns what the model itself would not have been allowed to return.
\<close>

theorem projection_passes_terminal_gate:
  assumes "dict_ok (required_json_types h)"
  shows "(\<forall>d c. decide_local_projection h name res degraded blocked = Inr d \<and> eligible d \<and> candidate d = Some c
      \<longrightarrow> terminal_issue h (projection_content c) = Inr None)
    \<and> (\<forall>d c. decide_local_projection_shadow_candidate h name res degraded blocked = Inr d \<and> eligible d
      \<and> candidate d = Some c \<and> failed_executions_issue h (JObj (p_value c)) = None
      \<longrightarrow> terminal_issue h (projection_content c) = Inr None)"
  using shadow_candidate_passes [OF _ _ assms] released_candidate_passes [OF _ _ _ assms] by blast

theorem projection_passes_terminal_gate_witness:
  "terminal_issue sample_checked ''{\"status\":\"passed\",\"tests\":12}'' = Inr None"
proof -
  let ?c = "\<lparr>p_value = [(''status'', JStr ''passed''), (''tests'', JInt 12)],
                 declared_schema = [(''status'', ''string''), (''tests'', ''integer'')]\<rparr>"
  have "decide_local_projection sample_checked ''run_tests'' ''12 passed'' False False
      = Inr \<lparr>eligible = True, reason = ''eligible'', candidate = Some ?c\<rparr>" by code_simp
  moreover have "dict_ok (required_json_types sample_checked)" by code_simp
  moreover have "projection_content ?c = ''{\"status\":\"passed\",\"tests\":12}''" by code_simp
  ultimately show ?thesis
    using projection_passes_terminal_gate [of sample_checked "''run_tests''" "''12 passed''" False False]
    by (metis projection_decision.select_convs(1,3))
qed

end
