(* ===== verification/Accounting.thy ===== *)
theory Accounting
  imports Json_Laws
begin

text \<open>
  Accounting of completions projected without model work (\<open>projection_accounting.py\<close>): the
  marker the proxy attaches, its exact recognition, and the public summary of a run.
\<close>

definition LOCAL_PROJECTION_EXTENSION :: string where
  "LOCAL_PROJECTION_EXTENSION = ''x-shiftedx-projection-v1''"

definition local_projection_accounting :: jobject where
  "local_projection_accounting =
     [(''origin'', JStr ''local_projection''), (''upstream_calls'', JInt 0),
      (''upstream_model_usage'',
        JObj [(''prompt_tokens'', JInt 0), (''completion_tokens'', JInt 0), (''total_tokens'', JInt 0)]),
      (''client_input_tokenization'', JObj [(''available'', JBool False), (''tokens'', JNull)])]"

definition has_exactly :: "jobject \<Rightarrow> string list \<Rightarrow> bool" where
  "has_exactly d ks \<longleftrightarrow> set (dkeys d) = set ks"

definition is_exact_local_projection_marker :: "json \<Rightarrow> bool" where
  "is_exact_local_projection_marker marker =
     (case marker of JObj m \<Rightarrow>
        has_exactly m [''origin'', ''upstream_calls'', ''upstream_model_usage'', ''client_input_tokenization'']
        \<and> get m ''origin'' = JStr ''local_projection'' \<and> get m ''upstream_calls'' = JInt 0
        \<and> (case get m ''upstream_model_usage'' of JObj u \<Rightarrow>
             has_exactly u [''prompt_tokens'', ''completion_tokens'', ''total_tokens'']
             \<and> (\<forall>kv \<in> set u. snd kv = JInt 0) | _ \<Rightarrow> False)
        \<and> (case get m ''client_input_tokenization'' of JObj t \<Rightarrow>
             has_exactly t [''available'', ''tokens'']
             \<and> get t ''available'' = JBool False \<and> get t ''tokens'' = JNull | _ \<Rightarrow> False)
      | _ \<Rightarrow> False)"

text \<open>The loop over the completions; the state is the two counts.\<close>

fun count_projection :: "nat \<times> nat \<Rightarrow> json \<Rightarrow> (nat \<times> nat) result" where
  "count_projection (records, projections) (JObj completion) =
     (let marker = get completion LOCAL_PROJECTION_EXTENSION in
      if marker = JNull then Inr (records + 1, projections)
      else if \<not> is_exact_local_projection_marker marker then Inl (ValueError ''invalid_marker'')
      else Inr (records + 1, projections + 1))"
| "count_projection _ _ = Inl (ValueError ''not_an_object'')"

definition public_projection_summary :: "json list \<Rightarrow> jobject result" where
  "public_projection_summary completions =
     (case run_steps count_projection (0, 0) completions of Inl e \<Rightarrow> Inl e
      | Inr (records, projections) \<Rightarrow> Inr
         [(''schema_version'', JStr ''shiftedx-public-projection-summary-v1''),
          (''completion_records'', JInt (int records)), (''local_projections'', JInt (int projections)),
          (''upstream_calls_avoided'', JInt (int projections)),
          (''local_projection_upstream_model_usage'',
            JObj [(''prompt_tokens'', JInt 0), (''completion_tokens'', JInt 0), (''total_tokens'', JInt 0)]),
          (''local_projection_client_input_tokenization'',
            JObj [(''available'', JBool False), (''records'', JInt (int projections))])])"

section \<open>Laws\<close>

lemma marker_exact [simp]: "is_exact_local_projection_marker (JObj local_projection_accounting)"
  by (auto simp: is_exact_local_projection_marker_def local_projection_accounting_def has_exactly_def
      dkeys_def get_def get_or_def dget_def)

text \<open>Two objects are equal for Python when they bind the same keys to the same values.\<close>

definition same_items :: "jobject \<Rightarrow> jobject \<Rightarrow> bool" where
  "same_items d e \<longleftrightarrow> (\<forall>k. dget d k = dget e k)"

lemma has_exactly_get:
  assumes "has_exactly d ks" "k \<in> set ks"
  shows "dget d k = Some (get d k)"
proof -
  have "k \<in> set (dkeys d)" using assms by (simp add: has_exactly_def)
  then show ?thesis by (auto simp: dkeys_dget get_def get_or_def)
qed

lemma has_exactly_None: "has_exactly d ks \<Longrightarrow> k \<notin> set ks \<Longrightarrow> dget d k = None"
  by (metis has_exactly_def dkeys_dget)

lemma usage_zero:
  assumes "has_exactly u ks" "\<forall>kv \<in> set u. snd kv = JInt 0" "k \<in> set ks"
  shows "get u k = JInt 0"
proof -
  from has_exactly_get [OF assms(1,3)] have "(k, get u k) \<in> set u"
    by (auto simp: dget_def dest: map_of_SomeD)
  with assms(2) show ?thesis by force
qed

lemma exact_marker_fields:
  assumes "is_exact_local_projection_marker (JObj m)"
  obtains u t where
    "has_exactly m [''origin'', ''upstream_calls'', ''upstream_model_usage'', ''client_input_tokenization'']"
    "get m ''origin'' = JStr ''local_projection''" "get m ''upstream_calls'' = JInt 0"
    "get m ''upstream_model_usage'' = JObj u" "get m ''client_input_tokenization'' = JObj t"
    "has_exactly u [''prompt_tokens'', ''completion_tokens'', ''total_tokens'']" "\<forall>kv \<in> set u. snd kv = JInt 0"
    "has_exactly t [''available'', ''tokens'']" "get t ''available'' = JBool False" "get t ''tokens'' = JNull"
  using assms by (auto simp: is_exact_local_projection_marker_def split: json.splits)

definition projected_marker :: "json \<Rightarrow> bool" where
  "projected_marker v = (case v of JObj d \<Rightarrow> is_exact_local_projection_marker (get d LOCAL_PROJECTION_EXTENSION) | _ \<Rightarrow> False)"

definition marker_acceptable :: "json \<Rightarrow> bool" where
  "marker_acceptable v = (case v of JObj d \<Rightarrow>
      get d LOCAL_PROJECTION_EXTENSION = JNull \<or> is_exact_local_projection_marker (get d LOCAL_PROJECTION_EXTENSION)
    | _ \<Rightarrow> False)"

lemma marker_not_null [simp]: "\<not> is_exact_local_projection_marker JNull"
  by (simp add: is_exact_local_projection_marker_def)

lemma count_projection_step:
  "marker_acceptable v \<Longrightarrow> count_projection (r, p) v = Inr (Suc r, if projected_marker v then Suc p else p)"
  "\<not> marker_acceptable v \<Longrightarrow> \<exists>e. count_projection (r, p) v = Inl (ValueError e)"
  by (cases v; auto simp: marker_acceptable_def projected_marker_def Let_def)+

lemma run_count:
  "list_all marker_acceptable vs \<Longrightarrow>
     run_steps count_projection (r, p) vs = Inr (r + length vs, p + length (filter projected_marker vs))"
  by (induction vs arbitrary: r p) (auto simp: count_projection_step)

lemma run_count_error:
  "\<not> list_all marker_acceptable vs \<Longrightarrow> \<exists>e. run_steps count_projection (r, p) vs = Inl (ValueError e)"
proof (induction vs arbitrary: r p)
  case (Cons v vs)
  show ?case
  proof (cases "marker_acceptable v")
    case True
    with Cons show ?thesis by (simp add: count_projection_step)
  next
    case False
    then obtain e where "count_projection (r, p) v = Inl (ValueError e)" using count_projection_step(2) by blast
    then show ?thesis by simp
  qed
qed simp

section \<open>Properties of the accounting\<close>

text \<open>
  The public summary of a run counts every completion and, as local projections and as
  upstream calls avoided, exactly those that carry the exact marker; it is refused when a record is
  not an object or carries any other marker.
\<close>

theorem summary_counts_exact_markers:
  "if list_all marker_acceptable completions
   then \<exists>s. public_projection_summary completions = Inr s
     \<and> get s ''completion_records'' = JInt (int (length completions))
     \<and> get s ''local_projections'' = JInt (int (length (filter projected_marker completions)))
     \<and> get s ''upstream_calls_avoided'' = get s ''local_projections''
   else \<exists>e. public_projection_summary completions = Inl (ValueError e)"
proof (cases "list_all marker_acceptable completions")
  case True
  then show ?thesis
    by (simp add: public_projection_summary_def run_count get_def get_or_def dget_def)
next
  case False
  then obtain e where "run_steps count_projection (0, 0) completions = Inl (ValueError e)"
    using run_count_error by blast
  with False show ?thesis by (simp add: public_projection_summary_def)
qed

text \<open>
  The recogniser accepts exactly the accounting the proxy writes: an accepted marker has the
  same four fields, the same zero usage and the same unavailable tokenization, in whatever order
  its keys come.
\<close>

lemma accepted_marker_is_accounting:
  assumes "is_exact_local_projection_marker (JObj m)"
  shows "set (dkeys m) = set (dkeys local_projection_accounting)
    \<and> get m ''origin'' = get local_projection_accounting ''origin''
    \<and> get m ''upstream_calls'' = get local_projection_accounting ''upstream_calls''
    \<and> (\<exists>u t. get m ''upstream_model_usage'' = JObj u \<and> get m ''client_input_tokenization'' = JObj t
         \<and> same_items u [(''prompt_tokens'', JInt 0), (''completion_tokens'', JInt 0), (''total_tokens'', JInt 0)]
         \<and> same_items t [(''available'', JBool False), (''tokens'', JNull)])"
proof -
  from exact_marker_fields [OF assms] obtain u t where
    m: "has_exactly m [''origin'', ''upstream_calls'', ''upstream_model_usage'', ''client_input_tokenization'']"
      "get m ''origin'' = JStr ''local_projection''" "get m ''upstream_calls'' = JInt 0"
      "get m ''upstream_model_usage'' = JObj u" "get m ''client_input_tokenization'' = JObj t"
    and u: "has_exactly u [''prompt_tokens'', ''completion_tokens'', ''total_tokens'']" "\<forall>kv \<in> set u. snd kv = JInt 0"
    and t: "has_exactly t [''available'', ''tokens'']" "get t ''available'' = JBool False" "get t ''tokens'' = JNull"
    by blast
  have "dget u k = dget [(''prompt_tokens'', JInt 0), (''completion_tokens'', JInt 0), (''total_tokens'', JInt 0)] k" for k
    using has_exactly_get [OF u(1), of k] has_exactly_None [OF u(1), of k] usage_zero [OF u, of k]
    by (cases "k \<in> set [''prompt_tokens'', ''completion_tokens'', ''total_tokens'']") (auto simp: dget_def)
  moreover have "dget t k = dget [(''available'', JBool False), (''tokens'', JNull)] k" for k
    using has_exactly_get [OF t(1), of k] has_exactly_None [OF t(1), of k] t(2,3)
    by (cases "k \<in> set [''available'', ''tokens'']") (auto simp: dget_def)
  ultimately show ?thesis
    using m by (simp add: same_items_def has_exactly_def local_projection_accounting_def dkeys_def get_def get_or_def dget_def)
qed


end
