(* ===== verification/Capabilities.thy ===== *)
theory Capabilities
  imports Json_Laws
begin

text \<open>
  Public errors (\<open>errors.py\<close>), the planning of upstream phases
  (\<open>provider_capabilities.py\<close>) and the cache-namespace policy (\<open>cache_policy.py\<close>).
\<close>

section \<open>Errors\<close>

record proxy_error =
  e_status_code :: int
  e_code :: string
  e_message :: string
  e_headers :: "(string, string) dict"

definition proxy_err :: "int \<Rightarrow> string \<Rightarrow> string \<Rightarrow> proxy_error" where
  "proxy_err st cd msg = \<lparr>e_status_code = st, e_code = cd, e_message = msg, e_headers = []\<rparr>"

definition upstream_timeout :: proxy_error where
  "upstream_timeout = proxy_err 504 ''upstream_timeout'' ''The configured upstream timed out.''"

definition upstream_failure_with :: "string \<Rightarrow> int \<Rightarrow> (string, string) dict \<Rightarrow> proxy_error" where
  "upstream_failure_with cd st hs =
     \<lparr>e_status_code = st, e_code = cd,
      e_message = ''The configured upstream returned an unusable response.'', e_headers = hs\<rparr>"

text \<open>\<open>UpstreamFailure(code)\<close> with the default status 502 and no headers.\<close>

definition upstream_failure :: "string \<Rightarrow> proxy_error" where
  "upstream_failure cd = upstream_failure_with cd 502 []"

text \<open>
  What a handler ends with: an error the application turns into a public response, or another
  exception, which the framework answers with a plain 500.
\<close>

datatype failure = Proxy proxy_error | Unhandled exn

type_synonym 'a outcome = "failure + 'a"

fun uncaught :: "'a result \<Rightarrow> 'a outcome" where
  "uncaught (Inl e) = Inl (Unhandled e)"
| "uncaught (Inr v) = Inr v"

definition refuse :: "int \<Rightarrow> string \<Rightarrow> string \<Rightarrow> 'a outcome" where
  "refuse st cd msg = Inl (Proxy (proxy_err st cd msg))"

definition upstream_fails :: "string \<Rightarrow> 'a outcome" where
  "upstream_fails cd = Inl (Proxy (upstream_failure cd))"

section \<open>Upstream phases\<close>

datatype capability_mode = Passthrough | Phase_Split | Combined_V1

datatype capability_phase = Acquisition | Finalization

text \<open>
  The context variable: the body of \<open>with upstream_phase(phase)\<close> runs with the phase set and
  the previous value is restored however the body ends.
\<close>

definition upstream_phase ::
  "capability_phase option \<Rightarrow> (capability_phase option \<Rightarrow> 'a) \<Rightarrow> capability_phase option \<Rightarrow> 'a \<times> capability_phase option"
where
  "upstream_phase phase body current = (body phase, current)"

definition current_upstream_phase :: "capability_phase option \<Rightarrow> capability_phase option" where
  "current_upstream_phase current = current"

definition requires_phase_split :: "capability_mode \<Rightarrow> bool \<Rightarrow> bool \<Rightarrow> bool \<Rightarrow> bool" where
  "requires_phase_split mode has_tools has_response_format strict_schema_supported \<longleftrightarrow>
     mode = Phase_Split \<and> has_tools \<and> has_response_format \<and> strict_schema_supported"

definition requires_combined_capability :: "capability_mode \<Rightarrow> bool \<Rightarrow> bool \<Rightarrow> bool \<Rightarrow> bool" where
  "requires_combined_capability mode has_tools has_response_format strict_schema_supported \<longleftrightarrow>
     mode = Combined_V1 \<and> has_tools \<and> has_response_format \<and> strict_schema_supported"

definition COMBINED_TOOL_TERMINAL_CONTRACT_ID :: string where
  "COMBINED_TOOL_TERMINAL_CONTRACT_ID = ''native_tool_or_strict_json_schema:v1''"

definition COMBINED_CAPABILITY_SCHEMA_VERSION :: string where
  "COMBINED_CAPABILITY_SCHEMA_VERSION = ''1.0''"

definition is_lower_hex :: "char \<Rightarrow> bool" where
  "is_lower_hex c = (is_digit c \<or> (97 \<le> ord_of c \<and> ord_of c \<le> 102))"

definition is_ascii_alnum :: "char \<Rightarrow> bool" where
  "is_ascii_alnum c = (is_digit c \<or> (65 \<le> ord_of c \<and> ord_of c \<le> 90) \<or> (97 \<le> ord_of c \<and> ord_of c \<le> 122))"

definition SOURCE_REVISION_matches :: "string \<Rightarrow> bool" where
  "SOURCE_REVISION_matches s = (length s = 40 \<and> list_all is_lower_hex s)"

text \<open>A non-empty run of digits, then a given continuation.\<close>

definition after_digits :: "(string \<Rightarrow> bool) \<Rightarrow> string \<Rightarrow> bool" where
  "after_digits k s = (takeWhile is_digit s \<noteq> [] \<and> k (dropWhile is_digit s))"

fun after_dot :: "(string \<Rightarrow> bool) \<Rightarrow> string \<Rightarrow> bool" where
  "after_dot k [] = False"
| "after_dot k (c # s) = (c = CHR ''.'' \<and> k s)"

fun version_suffix :: "string \<Rightarrow> bool" where
  "version_suffix [] = True"
| "version_suffix (c # s) =
     (c \<in> {CHR ''+'', CHR ''.'', CHR ''-''} \<and> s \<noteq> []
      \<and> list_all (\<lambda>c. is_ascii_alnum c \<or> c = CHR ''.'' \<or> c = CHR ''-'') s)"

definition RUNTIME_VERSION_matches :: "string \<Rightarrow> bool" where
  "RUNTIME_VERSION_matches =
     after_digits (after_dot (after_digits (after_dot (after_digits version_suffix))))"

fun str_satisfies :: "(string \<Rightarrow> bool) \<Rightarrow> json \<Rightarrow> bool" where
  "str_satisfies P (JStr s) = P s"
| "str_satisfies P _ = False"

definition combined_tool_terminal_schema_supported :: "json \<Rightarrow> bool" where
  "combined_tool_terminal_schema_supported document =
     (case document of JObj d \<Rightarrow>
        get d ''schema_version'' = JStr COMBINED_CAPABILITY_SCHEMA_VERSION
        \<and> (case get d ''runtime'' of JObj r \<Rightarrow>
             get r ''name'' = JStr ''mtplx''
             \<and> str_satisfies RUNTIME_VERSION_matches (get r ''version'')
             \<and> str_satisfies SOURCE_REVISION_matches (get r ''source_revision'') | _ \<Rightarrow> False)
        \<and> (case get d ''features'' of JObj f \<Rightarrow>
             (case get f ''combined_tool_terminal_schema'' of JObj c \<Rightarrow>
                get c ''supported'' = JBool True
                \<and> get c ''contract_id'' = JStr COMBINED_TOOL_TERMINAL_CONTRACT_ID | _ \<Rightarrow> False)
           | _ \<Rightarrow> False)
      | _ \<Rightarrow> False)"

definition outbound_payload ::
  "jobject \<Rightarrow> json list \<Rightarrow> capability_phase option \<Rightarrow> jobject" where
  "outbound_payload base_payload msgs phase =
     (let payload = dset base_payload ''messages'' (JArr msgs) in
      case phase of
        Some Acquisition \<Rightarrow> dpop payload ''response_format''
      | Some Finalization \<Rightarrow> dpop (dpop (dpop payload ''tools'') ''tool_choice'') ''parallel_tool_calls''
      | None \<Rightarrow> payload)"

section \<open>Cache namespaces\<close>

datatype cache_capability_mode = Cache_Disabled | Cache_Unknown

record server_cache_namespace =
  opaque_hmac_namespace :: string
  key_version :: string

definition DEFAULT_CACHE_NAMESPACE_FIELDS :: "string list" where
  "DEFAULT_CACHE_NAMESPACE_FIELDS =
     [''cache_salt'', ''prompt_cache_key'', ''cache_namespace'', ''cache_namespace_key'',
      ''cache_key_version'', ''cache_principal_id'', ''cache_hmac_namespace'', ''tenant_id'',
      ''cache_tenant_id'', ''cache_key'', ''prompt_cache_salt'']"

definition normalize_cache_field_name :: "string \<Rightarrow> string" where
  "normalize_cache_field_name name = filter is_alnum (casefold name)"

definition cache_namespace_field_names :: "string option \<Rightarrow> string set result" where
  "cache_namespace_field_names configured_fields =
     (let configured = (case configured_fields of None \<Rightarrow> []
          | Some names \<Rightarrow> map (\<lambda>entry. normalize_cache_field_name (strip entry)) (split_on (CHR '','') names))
      in if configured_fields \<noteq> None \<and> (configured = [] \<or> [] \<in> set configured)
         then Inl (ValueError ''cache_namespace_fields'')
         else Inr (set (filter (\<lambda>f. f \<noteq> [])
                (map normalize_cache_field_name (DEFAULT_CACHE_NAMESPACE_FIELDS @ configured)))))"

text \<open>True when \<open>ClientCacheNamespaceError\<close> is raised; the mode and the namespace are unused.\<close>

definition reject_client_cache_namespaces ::
  "jobject \<Rightarrow> cache_capability_mode \<Rightarrow> string set \<Rightarrow> server_cache_namespace option \<Rightarrow> bool" where
  "reject_client_cache_namespaces payload mode denied_fields server_namespace =
     list_ex (\<lambda>name. normalize_cache_field_name name \<in> denied_fields) (dkeys payload)"

section \<open>Laws\<close>

lemma uncaught_simps [simp]:
  "uncaught m = Inr v \<longleftrightarrow> m = Inr v" "uncaught m = Inl f \<longleftrightarrow> (\<exists>e. m = Inl e \<and> f = Unhandled e)"
  by (cases m; auto)+

lemma refuse_not_Inr [simp]: "refuse st cd msg \<noteq> Inr v" "upstream_fails cd \<noteq> Inr v"
  by (simp_all add: refuse_def upstream_fails_def)

lemma phase_cases:
  obtains "phase = None" | "phase = Some Acquisition" | "phase = Some Finalization"
  by (cases phase; cases "the phase") auto

lemma outbound_messages: "dget (outbound_payload base msgs phase) ''messages'' = Some (JArr msgs)"
  by (auto simp: outbound_payload_def Let_def dict_laws split: option.splits capability_phase.splits)

lemma outbound_other:
  "k \<noteq> ''messages'' \<Longrightarrow> dget (outbound_payload base msgs phase) k =
     (if phase = Some Acquisition \<and> k = ''response_format''
        \<or> phase = Some Finalization \<and> k \<in> {''tools'', ''tool_choice'', ''parallel_tool_calls''}
      then None else dget base k)"
  by (cases phase rule: phase_cases) (simp_all add: outbound_payload_def Let_def dict_laws)

lemma ord_lower:
  "ord_of (lower_char c) = (let n = ord_of c in
     if (65 \<le> n \<and> n \<le> 90) \<or> (192 \<le> n \<and> n \<le> 222 \<and> n \<noteq> 215) then n + 32 else (n :: nat))"
  by (auto simp: lower_char_def Let_def)

lemma alnum_lower: "is_alnum (lower_char c) = is_alnum c"
  unfolding is_alnum_def ord_lower Let_def by (simp split: if_splits; linarith)

lemma lower_idem: "lower_char (lower_char c) = lower_char c"
proof -
  have "ord_of (lower_char (lower_char c)) = (ord_of (lower_char c) :: nat)"
    unfolding ord_lower [of "lower_char c"] ord_lower [of c] Let_def by (simp split: if_splits)
  then show ?thesis by (rule injD [OF inj_of_char])
qed

lemma casefold_append: "casefold (s @ t) = casefold s @ casefold t"
  by (simp add: casefold_def)

lemma casefold_simps [simp]:
  "casefold [] = []"
  "casefold (c # s) = (if ord_of c = 223 then ''ss'' else [lower_char c]) @ casefold s"
  by (simp_all add: casefold_def)

lemma lower_not_223: "ord_of (lower_char c) = (223 :: nat) \<longleftrightarrow> ord_of c = (223 :: nat)"
  unfolding ord_lower Let_def by (simp split: if_splits)

lemma lower_s: "lower_char (CHR ''s'') = CHR ''s''" "is_alnum (CHR ''s'')" "ord_of (CHR ''s'') \<noteq> (223 :: nat)"
  by code_simp+

lemma normalize_Cons:
  "normalize_cache_field_name (c # s) =
     (if ord_of c = (223 :: nat) then ''ss'' else if is_alnum c then [lower_char c] else [])
     @ normalize_cache_field_name s"
  by (simp add: normalize_cache_field_name_def alnum_lower lower_s)

lemma normalize_idem: "normalize_cache_field_name (normalize_cache_field_name s) = normalize_cache_field_name s"
  by (induction s)
    (auto simp: normalize_Cons lower_s alnum_lower lower_idem lower_not_223 normalize_cache_field_name_def)

section \<open>Properties of the upstream and cache policies\<close>

text \<open>
  The payload of an upstream attempt is the client's request with the working messages in
  place of its messages: the acquisition phase withholds only the response format, the
  finalization phase only the tools, the tool choice and the parallel flag, and without a phase
  nothing is withheld.
\<close>

lemma outbound_payload_fields:
  "dget (outbound_payload base msgs phase) k =
     (if k = ''messages'' then Some (JArr msgs)
      else if phase = Some Acquisition \<and> k = ''response_format''
        \<or> phase = Some Finalization \<and> k \<in> {''tools'', ''tool_choice'', ''parallel_tool_calls''}
      then None else dget base k)"
proof (cases "k = ''messages''")
  case True
  then show ?thesis by (simp only: outbound_messages if_True simp_thms)
next
  case False
  then show ?thesis by (simp only: outbound_other [OF False] if_False simp_thms)
qed

definition configured_cache_fields :: "string option \<Rightarrow> string set" where
  "configured_cache_fields cfg =
     (case cfg of None \<Rightarrow> {} | Some names \<Rightarrow> strip ` set (split_on (CHR '','') names))"

lemma default_fields_nonempty: "f \<in> set DEFAULT_CACHE_NAMESPACE_FIELDS \<Longrightarrow> normalize_cache_field_name f \<noteq> []"
proof -
  have "list_all (\<lambda>f. normalize_cache_field_name f \<noteq> []) DEFAULT_CACHE_NAMESPACE_FIELDS" by code_simp
  then show "f \<in> set DEFAULT_CACHE_NAMESPACE_FIELDS \<Longrightarrow> normalize_cache_field_name f \<noteq> []"
    by (simp add: list_all_iff)
qed

lemma cache_fields_are:
  assumes "cache_namespace_field_names cfg = Inr denied"
  shows "denied = normalize_cache_field_name ` (set DEFAULT_CACHE_NAMESPACE_FIELDS \<union> configured_cache_fields cfg)"
proof -
  define ns where "ns = (case cfg of None \<Rightarrow> []
      | Some names \<Rightarrow> map (\<lambda>entry. normalize_cache_field_name (strip entry)) (split_on (CHR '','') names))"
  have ns: "set ns = normalize_cache_field_name ` configured_cache_fields cfg"
    by (auto simp: ns_def configured_cache_fields_def split: option.splits)
  from assms have d: "denied = set (filter (\<lambda>f. f \<noteq> [])
        (map normalize_cache_field_name (DEFAULT_CACHE_NAMESPACE_FIELDS @ ns)))" and "[] \<notin> set ns \<or> cfg = None"
    by (auto simp: cache_namespace_field_names_def Let_def ns_def split: if_splits)
  then have "[] \<notin> set ns" by (auto simp: ns_def)
  with d have "denied = normalize_cache_field_name ` set DEFAULT_CACHE_NAMESPACE_FIELDS
      \<union> normalize_cache_field_name ` set ns"
    using default_fields_nonempty ns normalize_idem by (auto simp: image_iff)
  also have "normalize_cache_field_name ` set ns = set ns"
    unfolding ns by (simp add: image_image normalize_idem)
  finally show ?thesis using ns by (simp only: image_Un)
qed

text \<open>
  A request is refused exactly when one of its top-level fields spells, up to letter case
  and separators, one of the default cache-namespace controls or one of those the operator added;
  neither the capability mode nor a server namespace changes that.
\<close>

theorem cache_controls_rejected:
  assumes "cache_namespace_field_names cfg = Inr denied"
  shows "reject_client_cache_namespaces payload mode denied namespace \<longleftrightarrow>
    (\<exists>k \<in> set (dkeys payload).
       \<exists>f \<in> set DEFAULT_CACHE_NAMESPACE_FIELDS \<union> configured_cache_fields cfg.
         normalize_cache_field_name k = normalize_cache_field_name f)"
  unfolding reject_client_cache_namespaces_def list_ex_iff cache_fields_are [OF assms] by (auto simp: image_iff)

end
