(* ===== verification/Config.thy ===== *)
theory Config
  imports Complex_Main Core_Laws Capabilities
begin

text \<open>
  Process configuration (\<open>config.py\<close>): the settings with their bounds and validators, the
  secrets and lists derived from them, and the tool roles. The values are the ones the
  environment delivers after conversion to the field types, which is the settings library's
  work; \<open>make_settings\<close> is what the class then checks. A validator that raises rejects the
  settings; which message is reported first when several raise is the library's choice.
  Reading and parsing the YAML file is the parameter \<open>load\<close>.
\<close>

section \<open>Splitting a URL\<close>

text \<open>
  \<open>urllib.parse.urlsplit\<close>: leading blanks and control characters are dropped and tabs and line
  breaks removed; the scheme ends at the first colon when it starts with a letter and has only
  scheme characters; the network location ends at the first slash, question mark or hash. A
  bracketed host is validated by the library as an address, on which the model makes no statement.
\<close>

record split_url =
  u_scheme :: string
  u_netloc :: string
  u_query :: string
  u_fragment :: string

definition is_scheme_char :: "char \<Rightarrow> bool" where
  "is_scheme_char c = (is_ascii_alnum c \<or> c = CHR ''+'' \<or> c = CHR ''-'' \<or> c = CHR ''.'')"

definition is_ascii_letter :: "char \<Rightarrow> bool" where
  "is_ascii_letter c = (is_ascii_alnum c \<and> \<not> is_digit c)"

text \<open>The text before and after the first occurrence of a character, \<open>str.partition\<close>.\<close>

definition before_char :: "char \<Rightarrow> string \<Rightarrow> string" where
  "before_char d s = takeWhile (\<lambda>c. c \<noteq> d) s"

definition after_char :: "char \<Rightarrow> string \<Rightarrow> string" where
  "after_char d s = drop 1 (dropWhile (\<lambda>c. c \<noteq> d) s)"

definition split_scheme :: "string \<Rightarrow> string \<times> string" where
  "split_scheme u =
     (let s = before_char (CHR '':'') u in
      if CHR '':'' \<in> set u \<and> s \<noteq> [] \<and> is_ascii_letter (hd s) \<and> list_all is_scheme_char s
      then (lower s, after_char (CHR '':'') u) else ([], u))"

definition urlsplit :: "string \<Rightarrow> split_url result" where
  "urlsplit url =
     (let u = filter (\<lambda>c. c \<notin> {CHR 0x09, CHR 0x0A, CHR 0x0D})
                (dropWhile (\<lambda>c. ord_of c \<le> (32 :: nat)) url);
          (scheme, rest) = split_scheme u;
          has_netloc = starts_with ''//'' rest;
          after = (if has_netloc then drop 2 rest else rest);
          netloc = (if has_netloc
                    then takeWhile (\<lambda>c. c \<notin> {CHR ''/'', CHR ''?'', CHR ''#''}) after else []);
          path = drop (length netloc) after;
          fragment = after_char (CHR ''#'') path;
          path' = before_char (CHR ''#'') path
      in if (CHR ''['' \<in> set netloc) \<noteq> (CHR '']'' \<in> set netloc) then Inl (ValueError ''Invalid IPv6 URL'')
         else if CHR ''['' \<in> set netloc then Inl OutsideModel
         else Inr \<lparr>u_scheme = scheme, u_netloc = netloc,
                   u_query = after_char (CHR ''?'') path', u_fragment = fragment\<rparr>)"

text \<open>\<open>parsed.username or parsed.password\<close>: the user information before the last at sign.\<close>

definition has_credentials :: "split_url \<Rightarrow> bool" where
  "has_credentials p =
     (let n = u_netloc p in
      if CHR ''@'' \<notin> set n then False
      else (let userinfo = rev (after_char (CHR ''@'') (rev n)) in
            before_char (CHR '':'') userinfo \<noteq> [] \<or> after_char (CHR '':'') userinfo \<noteq> []))"

section \<open>Settings\<close>

datatype deployment_profile = Development | Production

datatype principal_budget_mode = Authenticated_Budget | Global_Budget

record settings =
  deployment_profile :: deployment_profile
  upstream_base_url :: string
  upstream_api_key :: "string option"
  proxy_api_key :: "string option"
  listen_host :: string
  listen_port :: int
  trusted_policy_extension_api_keys :: "string option"
  upstream_cache_capability_mode :: cache_capability_mode
  upstream_tool_response_capability_mode :: capability_mode
  upstream_cache_namespace_fields :: "string option"
  harness_profile :: string
  harness_config_file :: "string option"
  mutation_tools :: "string option"
  verification_tools :: "string option"
  investigation_tools :: "string option"
  denied_tools :: "string option"
  max_internal_retries :: nat
  max_upstream_calls :: nat
  upstream_timeout_seconds :: rat
  max_request_bytes :: nat
  max_upstream_response_bytes :: nat
  server_connection_limit :: nat
  server_backlog :: nat
  admission_limit :: nat
  admission_wait_seconds :: rat
  total_request_deadline_seconds :: rat
  principal_budget_mode :: principal_budget_mode
  principal_concurrency_limit :: nat
  principal_rate_limit :: nat
  principal_rate_window_seconds :: rat
  overload_retry_after_seconds :: nat
  concurrency_limit :: nat
  concurrency_wait_seconds :: rat
  telemetry_enabled :: bool
  metrics_enabled :: bool
  allow_harness_opt_out :: bool
  log_level :: string
  cors_allow_origins :: "string option"
  require_receipt_when_tools_present :: bool

definition in_bounds :: "'a::linorder \<Rightarrow> 'a \<Rightarrow> 'a \<Rightarrow> bool" where
  "in_bounds lo hi x \<longleftrightarrow> lo \<le> x \<and> x \<le> hi"

text \<open>The bounds of the fields.\<close>

definition settings_in_bounds :: "settings \<Rightarrow> bool" where
  "settings_in_bounds s \<longleftrightarrow>
     in_bounds 1 65535 (listen_port s)
     \<and> in_bounds 0 20 (max_internal_retries s) \<and> in_bounds 1 25 (max_upstream_calls s)
     \<and> 0 < upstream_timeout_seconds s \<and> upstream_timeout_seconds s \<le> 3600
     \<and> in_bounds 1024 100000000 (max_request_bytes s)
     \<and> in_bounds 1024 500000000 (max_upstream_response_bytes s)
     \<and> in_bounds 1 100000 (server_connection_limit s) \<and> in_bounds 1 100000 (server_backlog s)
     \<and> in_bounds 1 10000 (admission_limit s)
     \<and> 0 < admission_wait_seconds s \<and> admission_wait_seconds s \<le> 60
     \<and> 0 < total_request_deadline_seconds s \<and> total_request_deadline_seconds s \<le> 3600
     \<and> in_bounds 1 10000 (principal_concurrency_limit s) \<and> in_bounds 1 100000 (principal_rate_limit s)
     \<and> 0 < principal_rate_window_seconds s \<and> principal_rate_window_seconds s \<le> 3600
     \<and> in_bounds 0 3600 (overload_retry_after_seconds s)
     \<and> in_bounds 1 10000 (concurrency_limit s)
     \<and> 0 < concurrency_wait_seconds s \<and> concurrency_wait_seconds s \<le> 60"

definition validate_upstream_base_url :: "string \<Rightarrow> string result" where
  "validate_upstream_base_url url =
     bind (urlsplit url) (\<lambda>p.
       if u_scheme p \<notin> {''http'', ''https''} \<or> u_netloc p = []
       then Inl (ValueError ''UPSTREAM_BASE_URL must be an absolute http(s) URL'')
       else if has_credentials p \<or> u_query p \<noteq> [] \<or> u_fragment p \<noteq> []
       then Inl (ValueError ''UPSTREAM_BASE_URL cannot contain credentials, query, or fragment'')
       else Inr (rev (dropWhile (\<lambda>c. c = CHR ''/'') (rev url))))"

definition validate_profile :: "string \<Rightarrow> string result" where
  "validate_profile p =
     (if p \<noteq> HARNESS_PROFILE then Inl (ValueError (''Only HARNESS_PROFILE='' @ HARNESS_PROFILE @ '' is supported''))
      else Inr p)"

definition is_visible_ascii :: "char \<Rightarrow> bool" where
  "is_visible_ascii c = (33 \<le> ord_of c \<and> ord_of c \<le> (126 :: nat))"

definition validate_proxy_api_key :: "string option \<Rightarrow> string option result" where
  "validate_proxy_api_key key =
     (case key of None \<Rightarrow> Inr None
      | Some secret \<Rightarrow>
          (if secret = [] \<or> \<not> list_all is_visible_ascii secret
           then Inl (ValueError ''PROXY_API_KEY must be a non-empty visible ASCII bearer token'')
           else Inr key))"

definition is_token_char :: "char \<Rightarrow> bool" where
  "is_token_char c = (is_ascii_alnum c
     \<or> c \<in> {CHR ''-'', CHR ''.'', CHR ''_'', CHR ''~'', CHR ''+'', CHR ''/''})"

definition HTTP_BEARER_TOKEN_matches :: "string \<Rightarrow> bool" where
  "HTTP_BEARER_TOKEN_matches s =
     (takeWhile is_token_char s \<noteq> [] \<and> list_all (\<lambda>c. c = CHR ''='') (dropWhile is_token_char s))"

definition validate_trusted_policy_extension_api_keys :: "string option \<Rightarrow> string option result" where
  "validate_trusted_policy_extension_api_keys keys =
     (case keys of None \<Rightarrow> Inr None
      | Some ks \<Rightarrow>
          (let entries = map strip (split_on (CHR '','') ks) in
           if entries = [] \<or> \<not> list_all HTTP_BEARER_TOKEN_matches entries
           then Inl (ValueError ''TRUSTED_POLICY_EXTENSION_API_KEYS must contain non-empty HTTP-safe bearer tokens'')
           else Inr keys))"

definition validate_upstream_cache_namespace_fields :: "string option \<Rightarrow> string option result" where
  "validate_upstream_cache_namespace_fields names =
     (case names of None \<Rightarrow> Inr None | Some _ \<Rightarrow> bind (cache_namespace_field_names names) (\<lambda>_. Inr names))"

definition upper_char :: "char \<Rightarrow> char" where
  "upper_char c = (if 97 \<le> ord_of c \<and> ord_of c \<le> (122 :: nat) then char_of (ord_of c - 32 :: nat) else c)"

text \<open>
  \<open>str.upper\<close> on ASCII; a character it would change beyond ASCII is in no level, changed or not.
\<close>

definition validate_log_level :: "string \<Rightarrow> string result" where
  "validate_log_level v =
     (let level = map upper_char v in
      if level \<notin> {''CRITICAL'', ''ERROR'', ''WARNING'', ''INFO'', ''DEBUG''}
      then Inl (ValueError ''LOG_LEVEL is invalid'') else Inr level)"

definition csv :: "string \<Rightarrow> string list" where
  "csv v = filter (\<lambda>item. item \<noteq> []) (map strip (split_on (CHR '','') v))"

definition trusted_policy_extension_keys :: "settings \<Rightarrow> string set" where
  "trusted_policy_extension_keys s =
     (case trusted_policy_extension_api_keys s of None \<Rightarrow> {} | Some ks \<Rightarrow> set (csv ks))"

definition validate_production_profile :: "settings \<Rightarrow> settings result" where
  "validate_production_profile s =
     (if deployment_profile s = Production \<and> proxy_api_key s = None
      then Inl (ValueError ''DEPLOYMENT_PROFILE=production requires PROXY_API_KEY'')
      else if server_connection_limit s \<le> admission_limit s
      then Inl (ValueError ''SERVER_CONNECTION_LIMIT must exceed ADMISSION_LIMIT for management headroom'')
      else if \<exists>k. proxy_api_key s = Some k \<and> k \<in> trusted_policy_extension_keys s
      then Inl (ValueError ''TRUSTED_POLICY_EXTENSION_API_KEYS must not include the ordinary PROXY_API_KEY'')
      else Inr s)"

definition make_settings :: "settings \<Rightarrow> settings result" where
  "make_settings s =
     (if \<not> settings_in_bounds s then Inl (ValueError ''bounds'')
      else bind (validate_upstream_base_url (upstream_base_url s)) (\<lambda>url.
           bind (validate_proxy_api_key (proxy_api_key s)) (\<lambda>pk.
           bind (validate_trusted_policy_extension_api_keys (trusted_policy_extension_api_keys s)) (\<lambda>tk.
           bind (validate_upstream_cache_namespace_fields (upstream_cache_namespace_fields s)) (\<lambda>cf.
           bind (validate_profile (harness_profile s)) (\<lambda>hp.
           bind (validate_log_level (log_level s)) (\<lambda>ll.
             validate_production_profile
               (s\<lparr>upstream_base_url := url, proxy_api_key := pk, trusted_policy_extension_api_keys := tk,
                  upstream_cache_namespace_fields := cf, harness_profile := hp, log_level := ll\<rparr>))))))))"

section \<open>Derived values\<close>

definition upstream_url :: "settings \<Rightarrow> string \<Rightarrow> string" where
  "upstream_url s endpoint = upstream_base_url s @ ''/'' @ dropWhile (\<lambda>c. c = CHR ''/'') endpoint"

definition allowed_origins :: "settings \<Rightarrow> string list" where
  "allowed_origins s = (case cors_allow_origins s of None \<Rightarrow> [] | Some v \<Rightarrow> if v = [] then [] else csv v)"

definition cache_namespace_fields :: "settings \<Rightarrow> string set result" where
  "cache_namespace_fields s = cache_namespace_field_names (upstream_cache_namespace_fields s)"

definition denied_tool_names :: "settings \<Rightarrow> string set" where
  "denied_tool_names s = (case denied_tools s of None \<Rightarrow> {} | Some v \<Rightarrow> set (csv v))"

definition principal_budget_key :: "settings \<Rightarrow> string \<Rightarrow> string" where
  "principal_budget_key s credential =
     hexdigest (hmac_sha256
       (utf8 (case proxy_api_key s of Some k \<Rightarrow> k | None \<Rightarrow> ''shiftedx-admission-development''))
       (utf8 credential))"

section \<open>Roles\<close>

definition role_names :: "jobject \<Rightarrow> string \<Rightarrow> string set \<Rightarrow> string set result" where
  "role_names sec key fallback =
     (case get sec key of
        JNull \<Rightarrow> Inr fallback
      | JArr vs \<Rightarrow>
          (if list_all (\<lambda>v. is_str v \<and> v \<noteq> JStr []) vs then Inr (set (map py_str vs))
           else Inl (ValueError (''Harness YAML roles.'' @ key @ '' must be a list of tool names'')))
      | _ \<Rightarrow> Inl (ValueError (''Harness YAML roles.'' @ key @ '' must be a list of tool names'')))"

text \<open>The roles of the YAML document; \<open>load\<close> reads and parses the file.\<close>

definition yaml_roles :: "json \<Rightarrow> tool_roles \<Rightarrow> tool_roles result" where
  "yaml_roles document rs =
     (case (if truthy document then document else JObj []) of
        JObj d \<Rightarrow>
          (case get_or d ''roles'' (JObj d) of
             JObj sec \<Rightarrow>
               bind (role_names sec ''mutation'' (mutation rs)) (\<lambda>m.
               bind (role_names sec ''verification'' (verification rs)) (\<lambda>v.
               bind (role_names sec ''investigation'' (investigation rs)) (\<lambda>i.
                 Inr \<lparr>mutation = m, verification = v, investigation = i\<rparr>)))
           | _ \<Rightarrow> Inl (ValueError ''Harness YAML roles must be an object''))
      | _ \<Rightarrow> Inl (ValueError ''HARNESS_CONFIG_FILE must contain a YAML object''))"

definition validate_distinct_roles :: "tool_roles \<Rightarrow> unit result" where
  "validate_distinct_roles rs =
     (case run_steps (\<lambda>assigned names.
             if assigned \<inter> names \<noteq> {}
             then Inl (ValueError ''Configured tool roles must assign each tool name to only one role'')
             else Inr (assigned \<union> names))
           {} [mutation rs, verification rs, investigation rs] of
        Inl e \<Rightarrow> Inl e | Inr _ \<Rightarrow> Inr ())"

definition override :: "string option \<Rightarrow> string set \<Rightarrow> string set" where
  "override v names = (case v of None \<Rightarrow> names | Some t \<Rightarrow> set (csv t))"

definition configured_roles :: "(string \<Rightarrow> json option) \<Rightarrow> settings \<Rightarrow> tool_roles result" where
  "configured_roles load s =
     bind (case harness_config_file s of None \<Rightarrow> Inr default_roles
           | Some path \<Rightarrow>
               (case load path of None \<Rightarrow> Inl (ValueError ''Unable to read HARNESS_CONFIG_FILE'')
                | Some document \<Rightarrow> yaml_roles document default_roles)) (\<lambda>rs.
     (let configured = \<lparr>mutation = override (mutation_tools s) (mutation rs),
                        verification = override (verification_tools s) (verification rs),
                        investigation = override (investigation_tools s) (investigation rs)\<rparr>
      in bind (validate_distinct_roles configured) (\<lambda>_. Inr configured)))"

section \<open>Laws\<close>

lemma validate_distinct_roles_iff: "validate_distinct_roles rs = Inr () \<longleftrightarrow> roles_disjoint rs"
  by (auto simp: validate_distinct_roles_def roles_disjoint_def)

lemma make_settings_Inr:
  assumes "make_settings s = Inr s'"
  shows "settings_in_bounds s'" "validate_production_profile s' = Inr s'"
    "validate_proxy_api_key (proxy_api_key s') = Inr (proxy_api_key s')"
    "validate_trusted_policy_extension_api_keys (trusted_policy_extension_api_keys s')
       = Inr (trusted_policy_extension_api_keys s')"
    "\<exists>fs. cache_namespace_fields s' = Inr fs"
proof -
  from assms obtain url pk tk cf hp ll where v: "settings_in_bounds s"
      "validate_proxy_api_key (proxy_api_key s) = Inr pk"
      "validate_trusted_policy_extension_api_keys (trusted_policy_extension_api_keys s) = Inr tk"
      "validate_upstream_cache_namespace_fields (upstream_cache_namespace_fields s) = Inr cf"
      "validate_production_profile
         (s\<lparr>upstream_base_url := url, proxy_api_key := pk, trusted_policy_extension_api_keys := tk,
            upstream_cache_namespace_fields := cf, harness_profile := hp, log_level := ll\<rparr>) = Inr s'"
    by (auto simp: make_settings_def bind_Inr_iff split: if_splits)
  then have s': "s' = s\<lparr>upstream_base_url := url, proxy_api_key := pk, trusted_policy_extension_api_keys := tk,
            upstream_cache_namespace_fields := cf, harness_profile := hp, log_level := ll\<rparr>"
    by (auto simp: validate_production_profile_def split: if_splits)
  show "settings_in_bounds s'" using v(1) unfolding s' by (simp add: settings_in_bounds_def)
  show "validate_production_profile s' = Inr s'" using v(5) s' by simp
  show "validate_proxy_api_key (proxy_api_key s') = Inr (proxy_api_key s')"
    using v(2) unfolding s' by (auto simp: validate_proxy_api_key_def split: option.splits if_splits)
  show "validate_trusted_policy_extension_api_keys (trusted_policy_extension_api_keys s')
       = Inr (trusted_policy_extension_api_keys s')"
    using v(3) unfolding s'
    by (auto simp: validate_trusted_policy_extension_api_keys_def Let_def split: option.splits if_splits)
  show "\<exists>fs. cache_namespace_fields s' = Inr fs"
    using v(4) unfolding s' cache_namespace_fields_def
    by (auto simp: validate_upstream_cache_namespace_fields_def bind_Inr_iff cache_namespace_field_names_def
        Let_def split: option.splits)
qed

section \<open>Properties of the configuration\<close>

text \<open>
  Whatever the file and the environment name, the configured roles assign every tool to at
  most one role, so that reading the role of a tool never raises; an ambiguous configuration is
  refused at start.
\<close>

theorem configured_roles_unambiguous:
  assumes "configured_roles load s = Inr rs"
  shows "roles_disjoint rs \<and> (\<forall>n. \<exists>r. configured_role rs n = Inr r)"
proof -
  from assms have "validate_distinct_roles rs = Inr ()"
    by (auto simp: configured_roles_def bind_Inr_iff Let_def)
  then have "roles_disjoint rs" by (simp only: validate_distinct_roles_iff)
  with configured_role_disjoint [OF this] show ?thesis by blast
qed

text \<open>The settings the class has when only the upstream is given.\<close>

definition default_settings :: "string \<Rightarrow> settings" where
  "default_settings url =
     \<lparr>deployment_profile = Development, upstream_base_url = url, upstream_api_key = None,
      proxy_api_key = None, listen_host = ''0.0.0.0'', listen_port = 8090,
      trusted_policy_extension_api_keys = None, upstream_cache_capability_mode = Cache_Disabled,
      upstream_tool_response_capability_mode = Passthrough, upstream_cache_namespace_fields = None,
      harness_profile = HARNESS_PROFILE, harness_config_file = None, mutation_tools = None,
      verification_tools = None, investigation_tools = None, denied_tools = None,
      max_internal_retries = 4, max_upstream_calls = 7, upstream_timeout_seconds = 120,
      max_request_bytes = 2000000, max_upstream_response_bytes = 10000000,
      server_connection_limit = 24, server_backlog = 128, admission_limit = 16,
      admission_wait_seconds = 1, total_request_deadline_seconds = 180,
      principal_budget_mode = Authenticated_Budget, principal_concurrency_limit = 4,
      principal_rate_limit = 60, principal_rate_window_seconds = 60, overload_retry_after_seconds = 1,
      concurrency_limit = 32, concurrency_wait_seconds = 1, telemetry_enabled = False,
      metrics_enabled = True, allow_harness_opt_out = False, log_level = ''INFO'',
      cors_allow_origins = None, require_receipt_when_tools_present = True\<rparr>"

lemma csv_nonempty: "k \<in> set (csv v) \<Longrightarrow> k \<noteq> []"
  by (auto simp: csv_def)

text \<open>
  C12: Settings that pass validation keep their management headroom and have a retry and call
  budget within bounds; a production profile has a proxy key; the proxy key is not empty and is
  none of the keys that may use policy extensions, and none of those is empty.
\<close>

theorem validated_settings_are_safe:
  assumes "make_settings s = Inr s'"
  shows "admission_limit s' < server_connection_limit s' \<and> 1 \<le> admission_limit s'
    \<and> 1 \<le> max_upstream_calls s' \<and> max_upstream_calls s' \<le> 25 \<and> max_internal_retries s' \<le> 20
    \<and> (deployment_profile s' = Production \<longrightarrow> proxy_api_key s' \<noteq> None)
    \<and> (\<forall>k. proxy_api_key s' = Some k \<longrightarrow> k \<noteq> [] \<and> k \<notin> trusted_policy_extension_keys s')
    \<and> [] \<notin> trusted_policy_extension_keys s'"
proof -
  note m = make_settings_Inr [OF assms]
  have "admission_limit s' < server_connection_limit s'"
    "deployment_profile s' = Production \<longrightarrow> proxy_api_key s' \<noteq> None"
    "\<forall>k. proxy_api_key s' = Some k \<longrightarrow> k \<notin> trusted_policy_extension_keys s'"
    using m(2) by (auto simp: validate_production_profile_def split: if_splits)
  moreover have "\<forall>k. proxy_api_key s' = Some k \<longrightarrow> k \<noteq> []"
    using m(3) by (auto simp: validate_proxy_api_key_def split: if_splits)
  moreover have "[] \<notin> trusted_policy_extension_keys s'"
    by (auto simp: trusted_policy_extension_keys_def dest: csv_nonempty split: option.splits)
  ultimately show ?thesis using m(1) by (simp add: settings_in_bounds_def in_bounds_def)
qed

theorem validated_settings_are_safe_witness:
  "\<exists>s'. make_settings (default_settings ''http://u/v1/'' \<lparr>proxy_api_key := Some ''k''\<rparr>) = Inr s'
     \<and> upstream_base_url s' = ''http://u/v1'' \<and> admission_limit s' < server_connection_limit s'"
proof -
  have "validate_upstream_base_url ''http://u/v1/'' = Inr ''http://u/v1''"
    "validate_log_level ''INFO'' = Inr ''INFO''" "list_all is_visible_ascii ''k''" by code_simp+
  then obtain s' where s': "make_settings (default_settings ''http://u/v1/'' \<lparr>proxy_api_key := Some ''k''\<rparr>) = Inr s'"
    and "upstream_base_url s' = ''http://u/v1''"
    by (simp add: make_settings_def default_settings_def settings_in_bounds_def in_bounds_def
        validate_proxy_api_key_def validate_trusted_policy_extension_api_keys_def
        validate_upstream_cache_namespace_fields_def validate_profile_def validate_production_profile_def
        trusted_policy_extension_keys_def)
  with validated_settings_are_safe [OF s'] show ?thesis by blast
qed

end
