(* ===== verification/Transcript.thy ===== *)
theory Transcript
  imports Core_Laws Capabilities
begin

text \<open>
  The trust boundary for transcripts and schemas (\<open>transcript.py\<close>): role annotations of
  tools, the terminal contract derived from \<open>response_format\<close>, and the reconstruction of a
  harness from the visible call and result pairs.
\<close>

section \<open>Tools\<close>

definition TOOL_ROLES :: "string list" where
  "TOOL_ROLES = [''mutation'', ''verification'', ''investigation'', ''other'']"

text \<open>\<open>PolicyAnnotationError\<close> (code, message, status) beside the other exceptions.\<close>

datatype tools_error = Annotation_Error string string int | Raised exn

definition tool_name :: "jobject \<Rightarrow> string result" where
  "tool_name tool =
     (case get tool ''function'' of
        JObj f \<Rightarrow> (case get f ''name'' of JStr name \<Rightarrow> Inr name
                   | _ \<Rightarrow> Inl (ValueError ''Every tool must contain function.name''))
      | _ \<Rightarrow> Inl (ValueError ''Every tool must contain function.name''))"

definition invalid_role_annotation :: tools_error where
  "invalid_role_annotation =
     Annotation_Error ''invalid_role_annotation'' ''x-shiftedx-role must be a supported string when present.'' 400"

text \<open>\<open>None\<close> stands for the marker of a missing annotation.\<close>

definition annotation_role :: "json option \<Rightarrow> tools_error + string option" where
  "annotation_role v =
     (case v of None \<Rightarrow> Inr None
      | Some (JStr s) \<Rightarrow>
          (let role = lower (strip s) in
           if role \<notin> set TOOL_ROLES then Inl invalid_role_annotation else Inr (Some role))
      | Some _ \<Rightarrow> Inl invalid_role_annotation)"

fun raising :: "'a result \<Rightarrow> tools_error + 'a" where
  "raising (Inl e) = Inl (Raised e)"
| "raising (Inr v) = Inr v"

text \<open>The role of one tool, from its two annotations.\<close>

definition annotated_role :: "json option \<Rightarrow> json option \<Rightarrow> tools_error + string option" where
  "annotated_role top_annotation function_annotation =
     bind (annotation_role top_annotation) (\<lambda>top_role.
     bind (annotation_role function_annotation) (\<lambda>function_role.
       if top_role \<noteq> None \<and> function_role \<noteq> None \<and> top_role \<noteq> function_role
       then Inl (Annotation_Error ''conflicting_role_annotation''
              ''Top-level and function x-shiftedx-role annotations must agree.'' 400)
       else Inr (if function_role \<noteq> None then function_role else top_role)))"

definition ROLE_KEY :: string where "ROLE_KEY = ''x-shiftedx-role''"

text \<open>The tool with both annotations popped.\<close>

definition strip_annotations :: "jobject \<Rightarrow> jobject" where
  "strip_annotations tool =
     (let t = dpop tool ROLE_KEY in
      case get t ''function'' of JObj f \<Rightarrow> dset t ''function'' (JObj (dpop f ROLE_KEY)) | _ \<Rightarrow> t)"

text \<open>The effect of one annotation on the roles.\<close>

definition assign_role ::
  "tool_roles \<Rightarrow> bool \<Rightarrow> tool_roles \<times> bool \<Rightarrow> string \<Rightarrow> string option \<Rightarrow> tools_error + tool_roles \<times> bool"
where
  "assign_role configured_roles allowed st name role =
     (case role of None \<Rightarrow> Inr st
      | Some r \<Rightarrow>
        bind (raising (configured_role configured_roles name)) (\<lambda>protected_role.
          if protected_role \<noteq> None \<and> protected_role \<noteq> Some r \<and> \<not> allowed
          then Inl (Annotation_Error ''protected_role_override_denied''
                 ''A server-configured tool role cannot be changed by this principal.'' 403)
          else if protected_role = Some r then Inr st
          else bind (raising (with_annotation (fst st) name r)) (\<lambda>rs.
                 Inr (rs, snd st \<or> protected_role \<noteq> None))))"

text \<open>The loop state: the tools forwarded so far, the roles, whether an extension was used.\<close>

definition prepare_tool ::
  "tool_roles \<Rightarrow> bool \<Rightarrow> json list \<times> tool_roles \<times> bool \<Rightarrow> json \<Rightarrow> tools_error + json list \<times> tool_roles \<times> bool"
where
  "prepare_tool configured_roles allowed st raw =
     (case raw of
        JObj tool \<Rightarrow>
          bind (raising (tool_name tool)) (\<lambda>name.
          bind (annotated_role (dget tool ROLE_KEY)
                  (case get tool ''function'' of JObj f \<Rightarrow> dget f ROLE_KEY | _ \<Rightarrow> None)) (\<lambda>role.
          bind (assign_role configured_roles allowed (snd st) name role) (\<lambda>st'.
            Inr (fst st @ [JObj (strip_annotations tool)], st'))))
      | _ \<Rightarrow> Inl (Raised (ValueError ''Every tool must be an object'')))"

definition prepare_tools ::
  "json \<Rightarrow> tool_roles \<Rightarrow> bool \<Rightarrow> tools_error + json list \<times> tool_roles \<times> bool" where
  "prepare_tools raw_tools configured_roles allowed =
     (case raw_tools of
        JNull \<Rightarrow> Inr ([], configured_roles, False)
      | JArr tools \<Rightarrow> run_steps (prepare_tool configured_roles allowed) ([], configured_roles, False) tools
      | _ \<Rightarrow> Inl (Raised (ValueError ''tools must be an array'')))"

section \<open>The terminal contract\<close>

record schema_contract =
  contract_keys :: "string list option"
  contract_types :: "(string, string) dict"
  strict_primitive_object :: bool
  contract_enforces_failed_executions :: bool

definition no_contract :: schema_contract where
  "no_contract = \<lparr>contract_keys = None, contract_types = [], strict_primitive_object = False,
     contract_enforces_failed_executions = False\<rparr>"

definition CONTRACT_TYPES :: "string list" where
  "CONTRACT_TYPES = [''string'', ''integer'', ''number'', ''boolean'']"

text \<open>
  Membership of a value in a set of strings: a list or an object is not hashable, and Python
  raises \<open>TypeError\<close>.
\<close>

fun in_string_set :: "json \<Rightarrow> string list \<Rightarrow> bool result" where
  "in_string_set (JStr s) ss = Inr (s \<in> set ss)"
| "in_string_set (JArr vs) ss = Inl TypeError"
| "in_string_set (JObj kvs) ss = Inl TypeError"
| "in_string_set _ ss = Inr False"

text \<open>The loop over the properties; \<open>None\<close> is the early return without a contract.\<close>

fun property_types :: "(string \<times> json) list \<Rightarrow> (string, string) dict option result" where
  "property_types [] = Inr (Some [])"
| "property_types ((key, JObj definition) # ps) =
     bind (in_string_set (get definition ''type'') CONTRACT_TYPES) (\<lambda>ok.
       if \<not> ok then Inr None
       else bind (property_types ps) (\<lambda>ts.
              Inr (map_option (\<lambda>types. (key, py_str (get definition ''type'')) # types) ts)))"
| "property_types ((key, _) # ps) = Inr None"

definition is_strict_primitive_object_schema :: "jobject \<Rightarrow> jobject \<Rightarrow> jobject \<Rightarrow> bool" where
  "is_strict_primitive_object_schema wrapper schema properties \<longleftrightarrow>
     get wrapper ''strict'' = JBool True \<and> get schema ''additionalProperties'' = JBool False
     \<and> (case get schema ''required'' of
          JArr req \<Rightarrow> length req = length properties \<and> list_all is_str req
            \<and> set (map py_str req) = set (dkeys properties)
        | _ \<Rightarrow> False)
     \<and> set (dkeys schema) \<subseteq> set [''type'', ''properties'', ''required'', ''additionalProperties'',
          ''title'', ''description'']
     \<and> list_all (\<lambda>kv. case snd kv of
          JObj d \<Rightarrow> set (dkeys d) \<subseteq> set [''type'', ''title'', ''description'']
            \<and> get d ''type'' \<in> set (map JStr CONTRACT_TYPES)
        | _ \<Rightarrow> False) properties"

definition response_schema_contract :: "json \<Rightarrow> schema_contract result" where
  "response_schema_contract response_format =
     (case response_format of
        JObj rf \<Rightarrow>
          (if get rf ''type'' \<noteq> JStr ''json_schema'' then Inr no_contract
           else (case get rf ''json_schema'' of
             JObj wrapper \<Rightarrow>
               (case get wrapper ''schema'' of
                  JObj schema \<Rightarrow>
                    (if get schema ''type'' \<noteq> JStr ''object'' then Inr no_contract
                     else (case get schema ''properties'' of
                       JObj properties \<Rightarrow>
                         bind (property_types properties) (\<lambda>ts.
                           case ts of None \<Rightarrow> Inr no_contract
                           | Some types \<Rightarrow>
                             (let strict = is_strict_primitive_object_schema wrapper schema properties in
                              Inr \<lparr>contract_keys = Some (dkeys properties), contract_types = types,
                                strict_primitive_object = strict,
                                contract_enforces_failed_executions =
                                  strict \<and> get wrapper ''name'' = JStr ''shiftedx_recovery_result_v1''
                                  \<and> dget types ''failed_executions'' = Some ''integer''\<rparr>))
                     | _ \<Rightarrow> Inr no_contract))
                | _ \<Rightarrow> Inr no_contract)
           | _ \<Rightarrow> Inr no_contract))
      | _ \<Rightarrow> Inr no_contract)"

section \<open>Reconstruction\<close>

text \<open>\<open>json.loads(raw) if isinstance(raw, str) else raw\<close>, which must be an object.\<close>

definition decode_arguments :: "json \<Rightarrow> jobject result" where
  "decode_arguments raw =
     bind (case raw of JStr s \<Rightarrow> json_loads s | _ \<Rightarrow> Inr raw) (\<lambda>v.
       case v of JObj d \<Rightarrow> Inr d
       | _ \<Rightarrow> Inl (ValueError ''tool call arguments must decode to an object''))"

definition arguments_of :: "jobject \<Rightarrow> jobject result" where
  "arguments_of call =
     (case get call ''function'' of
        JObj f \<Rightarrow> decode_arguments (get_or f ''arguments'' (JObj []))
      | _ \<Rightarrow> Inl (ValueError ''tool call is missing function''))"

definition content_text :: "json \<Rightarrow> string" where
  "content_text content = (case content of JStr s \<Rightarrow> s | _ \<Rightarrow> json_dumps content)"

record reconstruction =
  r_harness :: agent_harness
  degraded :: bool
  warnings :: "string list"
  latest_tool :: "string option"
  latest_result :: "string option"

record rebuild =
  rb_harness :: agent_harness
  rb_pending :: "(string, string \<times> jobject) dict"
  rb_warnings :: "string list"
  rb_latest :: "(string \<times> string) option"

definition warn :: "string \<Rightarrow> rebuild \<Rightarrow> rebuild result" where
  "warn w rb = Inr (rb\<lparr>rb_warnings := rb_warnings rb @ [w]\<rparr>)"

text \<open>\<open>function.get("name") if isinstance(function, dict) else None\<close>.\<close>

definition function_name :: "jobject \<Rightarrow> json" where
  "function_name call = (case get call ''function'' of JObj f \<Rightarrow> get f ''name'' | _ \<Rightarrow> JNull)"

definition note_call :: "rebuild \<Rightarrow> json \<Rightarrow> rebuild result" where
  "note_call rb raw =
     (case raw of
        JObj call \<Rightarrow>
          (case (get call ''id'', function_name call) of
             (JStr call_id, JStr name) \<Rightarrow>
               (if call_id = [] then warn ''invalid_tool_call'' rb
                else if dhas (rb_pending rb) call_id then warn ''duplicate_tool_call_id'' rb
                else (case arguments_of call of
                        Inl e \<Rightarrow> (if e = OutsideModel then Inl e else warn ''invalid_tool_arguments'' rb)
                      | Inr args \<Rightarrow> Inr (rb\<lparr>rb_pending := dset (rb_pending rb) call_id (name, args)\<rparr>)))
           | _ \<Rightarrow> warn ''invalid_tool_call'' rb)
      | _ \<Rightarrow> warn ''invalid_tool_call'' rb)"

definition note_result :: "rebuild \<Rightarrow> jobject \<Rightarrow> rebuild result" where
  "note_result rb msg =
     (case get msg ''tool_call_id'' of
        JStr call_id \<Rightarrow>
          (case dget (rb_pending rb) call_id of
             None \<Rightarrow> warn ''orphan_tool_result'' rb
           | Some (name, args) \<Rightarrow>
               (let res = content_text (get_or msg ''content'' (JStr [])) in
                bind (record_result (rb_harness rb) name args res) (\<lambda>hr.
                  Inr (rb\<lparr>rb_harness := fst hr, rb_pending := dpop (rb_pending rb) call_id,
                          rb_latest := Some (name, res)\<rparr>))))
      | _ \<Rightarrow> warn ''orphan_tool_result'' rb)"

text \<open>\<open>message.get("tool_calls") or []\<close>.\<close>

definition calls_or_empty :: "jobject \<Rightarrow> json" where
  "calls_or_empty msg =
     (let calls = get msg ''tool_calls'' in if truthy calls then calls else JArr [])"

definition note_message :: "rebuild \<Rightarrow> json \<Rightarrow> rebuild result" where
  "note_message rb raw =
     (case raw of
        JObj msg \<Rightarrow>
          (if get msg ''role'' = JStr ''assistant'' then
             (case calls_or_empty msg of
                JArr calls \<Rightarrow> run_steps note_call rb calls
              | _ \<Rightarrow> warn ''invalid_tool_calls'' rb)
           else if get msg ''role'' = JStr ''tool'' then note_result rb msg
           else Inr rb)
      | _ \<Rightarrow> warn ''non_object_message'' rb)"

definition is_user_message :: "json \<Rightarrow> bool" where
  "is_user_message v = (case v of JObj msg \<Rightarrow> get msg ''role'' = JStr ''user'' | _ \<Rightarrow> False)"

definition goal_of :: "json list \<Rightarrow> string" where
  "goal_of messages =
     (case find is_user_message (rev messages) of
        Some (JObj msg) \<Rightarrow> content_text (get_or msg ''content'' (JStr [])) | _ \<Rightarrow> [])"

text \<open>\<open>dict.fromkeys\<close>: the distinct elements in order of first occurrence.\<close>

definition fromkeys :: "'a list \<Rightarrow> 'a list" where
  "fromkeys xs = rev (remdups (rev xs))"

definition start_rebuild ::
  "json list \<Rightarrow> string set \<Rightarrow> tool_roles \<Rightarrow> schema_contract \<Rightarrow> bool \<Rightarrow> rebuild" where
  "start_rebuild messages available rs contract require =
     \<lparr>rb_harness = new_harness (goal_of messages) available (contract_keys contract)
        (contract_types contract) (contract_enforces_failed_executions contract) require rs,
      rb_pending = [], rb_warnings = [], rb_latest = None\<rparr>"

definition finish_rebuild :: "rebuild \<Rightarrow> reconstruction" where
  "finish_rebuild rb =
     (let ws = (if rb_pending rb \<noteq> [] then rb_warnings rb @ [''unmatched_tool_call''] else rb_warnings rb)
      in \<lparr>r_harness = rb_harness rb, degraded = (ws \<noteq> []), warnings = fromkeys ws,
          latest_tool = map_option fst (rb_latest rb), latest_result = map_option snd (rb_latest rb)\<rparr>)"

definition reconstruct ::
  "json \<Rightarrow> string set \<Rightarrow> tool_roles \<Rightarrow> schema_contract \<Rightarrow> bool \<Rightarrow> reconstruction result" where
  "reconstruct messages available rs contract require =
     (case messages of
        JArr ms \<Rightarrow>
          bind (run_steps note_message (start_rebuild ms available rs contract require) ms) (\<lambda>rb.
            Inr (finish_rebuild rb))
      | _ \<Rightarrow> Inl (ValueError ''messages must be an array''))"

end
