(* ===== verification/Transcript_Laws.thy ===== *)
theory Transcript_Laws
  imports Transcript
begin

text \<open>
  What the transcript boundary guarantees: every recorded execution is a visible call paired
  with a later visible result, a transcript that is not degraded loses none, annotations are
  stripped from forwarded tools, and a server-configured role survives an untrusted request.
\<close>

section \<open>Pairs of calls and results\<close>

text \<open>The message proposes the call \<open>c\<close> of tool \<open>n\<close> with arguments \<open>a\<close>.\<close>

definition proposes :: "json \<Rightarrow> string \<Rightarrow> string \<Rightarrow> jobject \<Rightarrow> bool" where
  "proposes v c n a \<longleftrightarrow> (\<exists>msg calls call. v = JObj msg \<and> get msg ''role'' = JStr ''assistant''
     \<and> get msg ''tool_calls'' = JArr calls \<and> JObj call \<in> set calls \<and> get call ''id'' = JStr c
     \<and> c \<noteq> [] \<and> function_name call = JStr n \<and> arguments_of call = Inr a)"

text \<open>The message delivers the result text \<open>t\<close> of the call \<open>c\<close>.\<close>

definition delivers :: "json \<Rightarrow> string \<Rightarrow> string \<Rightarrow> bool" where
  "delivers v c t \<longleftrightarrow> (\<exists>msg. v = JObj msg \<and> get msg ''role'' = JStr ''tool''
     \<and> get msg ''tool_call_id'' = JStr c \<and> t = content_text (get_or msg ''content'' (JStr [])))"

text \<open>
  The execution is the result at position \<open>j\<close> of a call proposed before it, with no other
  result of that call identifier between the two.
\<close>

definition paired :: "json list \<Rightarrow> string \<times> jobject \<times> string \<Rightarrow> nat \<Rightarrow> bool" where
  "paired ms e j \<longleftrightarrow> (case e of (n, a, t) \<Rightarrow>
     j < length ms \<and> (\<exists>i < j. \<exists>c. proposes (ms ! i) c n a \<and> delivers (ms ! j) c t
       \<and> (\<forall>k. i < k \<and> k < j \<longrightarrow> (\<forall>t. \<not> delivers (ms ! k) c t))))"

definition awaiting :: "json list \<Rightarrow> string \<Rightarrow> string \<Rightarrow> jobject \<Rightarrow> bool" where
  "awaiting ms c n a \<longleftrightarrow> (\<exists>i < length ms. proposes (ms ! i) c n a
     \<and> (\<forall>k. i < k \<and> k < length ms \<longrightarrow> (\<forall>t. \<not> delivers (ms ! k) c t)))"

lemma paired_append: "paired ms e j \<Longrightarrow> paired (ms @ ms') e j"
proof -
  obtain n a t where e: "e = (n, a, t)" by (cases e)
  assume "paired ms e j"
  then obtain i c where i: "j < length ms" "i < j" "proposes (ms ! i) c n a" "delivers (ms ! j) c t"
    "\<forall>k. i < k \<and> k < j \<longrightarrow> (\<forall>t. \<not> delivers (ms ! k) c t)"
    unfolding e by (auto simp: paired_def)
  then show "paired (ms @ ms') e j"
    unfolding e paired_def prod.case by (intro conjI exI [of _ i] exI [of _ c]) (auto simp: nth_append)
qed

lemma awaiting_append:
  "awaiting ms c n a \<Longrightarrow> \<forall>t. \<not> delivers m c t \<Longrightarrow> awaiting (ms @ [m]) c n a"
  unfolding awaiting_def
proof (elim exE conjE)
  fix i assume i: "i < length ms" "proposes (ms ! i) c n a"
    "\<forall>k. i < k \<and> k < length ms \<longrightarrow> (\<forall>t. \<not> delivers (ms ! k) c t)" "\<forall>t. \<not> delivers m c t"
  show "\<exists>i<length (ms @ [m]). proposes ((ms @ [m]) ! i) c n a
      \<and> (\<forall>k. i < k \<and> k < length (ms @ [m]) \<longrightarrow> (\<forall>t. \<not> delivers ((ms @ [m]) ! k) c t))"
    using i by (intro exI [of _ i]) (auto simp: nth_append less_Suc_eq)
qed

lemma awaiting_new: "proposes m c n a \<Longrightarrow> awaiting (ms @ [m]) c n a"
  unfolding awaiting_def by (intro exI [of _ "length ms"]) (auto simp: nth_append)

lemma awaiting_paired:
  assumes "awaiting ms c n a" "delivers m c t"
  shows "paired (ms @ [m]) (n, a, t) (length ms)"
proof -
  from assms(1) obtain i where "i < length ms" "proposes (ms ! i) c n a"
    "\<forall>k. i < k \<and> k < length ms \<longrightarrow> (\<forall>t. \<not> delivers (ms ! k) c t)"
    by (auto simp: awaiting_def)
  with assms(2) show ?thesis
    unfolding paired_def prod.case by (intro conjI exI [of _ i] exI [of _ c]) (auto simp: nth_append)
qed

section \<open>The calls of one message\<close>

lemma warn_fields [simp]:
  "warn w rb = Inr rb' \<longleftrightarrow> rb' = rb\<lparr>rb_warnings := rb_warnings rb @ [w]\<rparr>"
  by (auto simp: warn_def)

text \<open>What one call may change: it adds a warning, or a pending call under a new identifier.\<close>

lemma note_call_cases:
  assumes "note_call rb raw = Inr rb'"
  obtains w where "rb' = rb\<lparr>rb_warnings := rb_warnings rb @ [w]\<rparr>"
  | call c n a where "raw = JObj call" "get call ''id'' = JStr c" "c \<noteq> []" "function_name call = JStr n"
      "arguments_of call = Inr a" "\<not> dhas (rb_pending rb) c"
      "rb' = rb\<lparr>rb_pending := dset (rb_pending rb) c (n, a)\<rparr>"
  using assms
  by (auto simp: note_call_def split: json.splits if_splits sum.splits)

lemma length_dset_new: "\<not> dhas d k \<Longrightarrow> length (dset d k v) = Suc (length d)"
  by (induction d k v rule: dset.induct) (auto simp: dhas_def dkeys_def)

lemma run_note_call:
  assumes "run_steps note_call rb calls = Inr rb'"
  shows "rb_harness rb' = rb_harness rb" "rb_latest rb' = rb_latest rb"
    "rb_warnings rb' = [] \<Longrightarrow> rb_warnings rb = [] \<and> length (rb_pending rb') = length (rb_pending rb) + length calls"
    "dict_ok (rb_pending rb) \<Longrightarrow> dict_ok (rb_pending rb')"
    "dget (rb_pending rb') c = Some (n, a) \<Longrightarrow> dget (rb_pending rb) c = Some (n, a)
       \<or> (\<exists>call. JObj call \<in> set calls \<and> get call ''id'' = JStr c \<and> c \<noteq> [] \<and> function_name call = JStr n
            \<and> arguments_of call = Inr a)"
proof -
  have "rb_harness rb' = rb_harness rb \<and> rb_latest rb' = rb_latest rb
    \<and> (rb_warnings rb' = [] \<longrightarrow> rb_warnings rb = [] \<and> length (rb_pending rb') = length (rb_pending rb) + length calls)
    \<and> (dict_ok (rb_pending rb) \<longrightarrow> dict_ok (rb_pending rb'))
    \<and> (dget (rb_pending rb') c = Some (n, a) \<longrightarrow> dget (rb_pending rb) c = Some (n, a)
       \<or> (\<exists>call. JObj call \<in> set calls \<and> get call ''id'' = JStr c \<and> c \<noteq> [] \<and> function_name call = JStr n
            \<and> arguments_of call = Inr a))"
    using assms
  proof (induction calls arbitrary: rb)
    case Nil
    then show ?case by simp
  next
    case (Cons raw calls)
    from Cons.prems obtain rb1 where s: "note_call rb raw = Inr rb1" "run_steps note_call rb1 calls = Inr rb'"
      by (auto split: sum.splits)
    note IH = Cons.IH [OF s(2)]
    from s(1) show ?case
    proof (cases rule: note_call_cases)
      case (1 w)
      with IH show ?thesis by auto
    next
      case (2 call c' n' a')
      then have "length (rb_pending rb1) = Suc (length (rb_pending rb))" by (simp add: length_dset_new)
      with 2 IH show ?thesis by (auto simp: dict_laws split: if_splits)
    qed
  qed
  then show "rb_harness rb' = rb_harness rb" "rb_latest rb' = rb_latest rb"
    "rb_warnings rb' = [] \<Longrightarrow> rb_warnings rb = [] \<and> length (rb_pending rb') = length (rb_pending rb) + length calls"
    "dict_ok (rb_pending rb) \<Longrightarrow> dict_ok (rb_pending rb')"
    "dget (rb_pending rb') c = Some (n, a) \<Longrightarrow> dget (rb_pending rb) c = Some (n, a)
       \<or> (\<exists>call. JObj call \<in> set calls \<and> get call ''id'' = JStr c \<and> c \<noteq> [] \<and> function_name call = JStr n
            \<and> arguments_of call = Inr a)"
    by blast+
qed

section \<open>The invariant of the reconstruction\<close>

definition is_tool_message :: "json \<Rightarrow> bool" where
  "is_tool_message v = (case v of JObj msg \<Rightarrow> get msg ''role'' = JStr ''tool'' | _ \<Rightarrow> False)"

definition calls_of :: "json \<Rightarrow> json list" where
  "calls_of v = (case v of JObj msg \<Rightarrow>
     (if get msg ''role'' = JStr ''assistant''
      then (case get msg ''tool_calls'' of JArr calls \<Rightarrow> calls | _ \<Rightarrow> []) else []) | _ \<Rightarrow> [])"

text \<open>What the state says of the messages read so far, from a harness \<open>h0\<close> without receipts.\<close>

definition rebuilt :: "agent_harness \<Rightarrow> json list \<Rightarrow> rebuild \<Rightarrow> bool" where
  "rebuilt h0 ms rb \<longleftrightarrow>
     (\<exists>es js. run_steps record_step h0 es = Inr (rb_harness rb) \<and> list_all2 (paired ms) es js
        \<and> sorted_wrt (<) js
        \<and> rb_latest rb = (if es = [] then None else Some (fst (last es), snd (snd (last es))))
        \<and> (rb_warnings rb = [] \<longrightarrow> length es = length (filter is_tool_message ms)
             \<and> length (concat (map calls_of ms)) = length es + length (rb_pending rb)))
     \<and> dict_ok (rb_pending rb)
     \<and> (\<forall>c n a. dget (rb_pending rb) c = Some (n, a) \<longrightarrow> awaiting ms c n a)"

lemma rebuilt_start: "rebuilt (rb_harness (start_rebuild ms tools rs con req)) [] (start_rebuild ms tools rs con req)"
  unfolding rebuilt_def
  by (rule conjI, rule exI [of _ "[]"], rule exI [of _ "[]"])
    (simp_all add: start_rebuild_def dict_ok_def dkeys_def dget_def)

lemma paired_weaken: "list_all2 (paired ms) es js \<Longrightarrow> list_all2 (paired (ms @ [m])) es js"
  by (erule list_all2_mono) (rule paired_append)

text \<open>A message that is no result: the executions stay as they are.\<close>

lemma rebuilt_no_result:
  assumes "rebuilt h0 ms rb" and quiet: "\<And>c t. \<not> delivers m c t"
    and same: "rb_harness rb' = rb_harness rb" "rb_latest rb' = rb_latest rb"
    and counts: "rb_warnings rb' = [] \<Longrightarrow> rb_warnings rb = [] \<and> \<not> is_tool_message m
      \<and> length (rb_pending rb') = length (rb_pending rb) + length (calls_of m)"
    and ok: "dict_ok (rb_pending rb) \<Longrightarrow> dict_ok (rb_pending rb')"
    and pend: "\<And>c n a. dget (rb_pending rb') c = Some (n, a) \<Longrightarrow>
      dget (rb_pending rb) c = Some (n, a) \<or> proposes m c n a"
  shows "rebuilt h0 (ms @ [m]) rb'"
proof -
  from assms(1) obtain es js where e: "run_steps record_step h0 es = Inr (rb_harness rb)"
      "list_all2 (paired ms) es js" "sorted_wrt (<) js"
      "rb_latest rb = (if es = [] then None else Some (fst (last es), snd (snd (last es))))"
      "rb_warnings rb = [] \<longrightarrow> length es = length (filter is_tool_message ms)
             \<and> length (concat (map calls_of ms)) = length es + length (rb_pending rb)"
    and p: "dict_ok (rb_pending rb)" "\<forall>c n a. dget (rb_pending rb) c = Some (n, a) \<longrightarrow> awaiting ms c n a"
    by (auto simp: rebuilt_def)
  have "rb_warnings rb' = [] \<longrightarrow> length es = length (filter is_tool_message (ms @ [m]))
             \<and> length (concat (map calls_of (ms @ [m]))) = length es + length (rb_pending rb')"
    using counts e(5) by auto
  moreover have "awaiting (ms @ [m]) c n a" if "dget (rb_pending rb') c = Some (n, a)" for c n a
    using pend [OF that] p(2) quiet by (auto intro: awaiting_append awaiting_new)
  ultimately show ?thesis
    unfolding rebuilt_def same
    by (intro conjI exI [of _ es] exI [of _ js] e paired_weaken ok p) blast+
qed

lemma calls_or_empty_calls:
  "get msg ''role'' = JStr ''assistant'' \<Longrightarrow> calls_or_empty msg = JArr calls \<Longrightarrow> calls = calls_of (JObj msg)"
  by (auto simp: calls_or_empty_def calls_of_def Let_def split: json.splits if_splits)

lemma length_dpop:
  assumes "dict_ok d" "dget d k = Some v"
  shows "length d = Suc (length (dpop d k))"
proof -
  from assms(2) obtain xs ys where d: "d = xs @ (k, v) # ys"
    by (metis dget_def map_of_SomeD split_list)
  with assms(1) have "k \<notin> fst ` set xs" "k \<notin> fst ` set ys" by (auto simp: dict_ok_def dkeys_def)
  then have "dpop d k = xs @ ys"
    unfolding d dpop_def by (force intro: arg_cong2 [of _ _ _ _ "(@)"] filter_True)
  with d show ?thesis by simp
qed

lemma rebuilt_result:
  assumes r: "rebuilt h0 ms rb" and m: "get msg ''role'' = JStr ''tool''" "note_result rb msg = Inr rb'"
  shows "rebuilt h0 (ms @ [JObj msg]) rb'"
proof -
  from r obtain es js where e: "run_steps record_step h0 es = Inr (rb_harness rb)"
      "list_all2 (paired ms) es js" "sorted_wrt (<) js"
      "rb_latest rb = (if es = [] then None else Some (fst (last es), snd (snd (last es))))"
      "rb_warnings rb = [] \<longrightarrow> length es = length (filter is_tool_message ms)
             \<and> length (concat (map calls_of ms)) = length es + length (rb_pending rb)"
    and p: "dict_ok (rb_pending rb)" "\<forall>c n a. dget (rb_pending rb) c = Some (n, a) \<longrightarrow> awaiting ms c n a"
    by (auto simp: rebuilt_def)
  have tool: "is_tool_message (JObj msg)" "calls_of (JObj msg) = []"
    using m(1) by (simp_all add: is_tool_message_def calls_of_def)
  show ?thesis
  proof (cases "\<exists>c x. get msg ''tool_call_id'' = JStr c \<and> dget (rb_pending rb) c = Some x")
    case False
    then have rb': "rb' = rb\<lparr>rb_warnings := rb_warnings rb @ [''orphan_tool_result'']\<rparr>"
      using m(2) by (auto simp: note_result_def split: json.splits option.splits)
    have "awaiting (ms @ [JObj msg]) c n a" if "dget (rb_pending rb) c = Some (n, a)" for c n a
      using that p(2) False by (intro awaiting_append) (auto simp: delivers_def)
    with e p show ?thesis
      unfolding rebuilt_def rb'
      by (intro conjI exI [of _ es] exI [of _ js]) (auto intro: paired_weaken)
  next
    case True
    then obtain c n a where c: "get msg ''tool_call_id'' = JStr c" "dget (rb_pending rb) c = Some (n, a)"
      by auto
    define t where "t = content_text (get_or msg ''content'' (JStr []))"
    from m(2) c obtain hr where hr: "record_result (rb_harness rb) n a t = Inr hr"
        "rb' = rb\<lparr>rb_harness := fst hr, rb_pending := dpop (rb_pending rb) c, rb_latest := Some (n, t)\<rparr>"
      by (auto simp: note_result_def Let_def t_def bind_Inr_iff)
    have d: "delivers (JObj msg) c t" using m(1) c(1) by (simp add: delivers_def t_def)
    have run: "run_steps record_step h0 (es @ [(n, a, t)]) = Inr (fst hr)"
      using e(1) hr(1) by (simp add: run_steps_snoc record_step_def split: prod.splits)
    have "list_all2 (paired (ms @ [JObj msg])) (es @ [(n, a, t)]) (js @ [length ms])"
      using paired_weaken [OF e(2)] awaiting_paired [OF _ d] p(2) c(2) by (auto intro: list_all2_appendI)
    moreover have "sorted_wrt (<) (js @ [length ms])"
      using e(2,3) by (auto simp: sorted_wrt_append in_set_conv_nth list_all2_conv_all_nth paired_def)
    moreover have "length (rb_pending rb) = Suc (length (dpop (rb_pending rb) c))"
      using p(1) c(2) by (auto intro: length_dpop)
    moreover have "awaiting (ms @ [JObj msg]) c' n' a'" if "dget (dpop (rb_pending rb) c) c' = Some (n', a')" for c' n' a'
      using that p(2) c(1) by (intro awaiting_append) (auto simp: delivers_def dict_laws split: if_splits)
    ultimately show ?thesis
      unfolding rebuilt_def using run e(5) tool p(1)
      by (intro conjI exI [of _ "es @ [(n, a, t)]"] exI [of _ "js @ [length ms]"])
        (auto simp: hr(2) dict_laws)
  qed
qed

lemma rebuilt_step:
  assumes "rebuilt h0 ms rb" "note_message rb m = Inr rb'"
  shows "rebuilt h0 (ms @ [m]) rb'"
proof (cases m)
  case (JObj msg)
  show ?thesis
  proof (cases "get msg ''role'' = JStr ''tool''")
    case True
    with assms JObj show ?thesis by (auto simp: note_message_def intro: rebuilt_result)
  next
    case False
    with JObj have quiet: "\<not> delivers m c t" "\<not> is_tool_message m" for c t
      by (auto simp: delivers_def is_tool_message_def)
    show ?thesis
    proof (cases "get msg ''role'' = JStr ''assistant'' \<and> is_list (calls_or_empty msg)")
      case True
      then obtain calls where c: "calls_or_empty msg = JArr calls" by (auto elim: is_list.elims)
      have calls: "calls = calls_of m" using calls_or_empty_calls c True JObj by blast
      have run: "run_steps note_call rb calls = Inr rb'" using assms(2) JObj True c by (simp add: note_message_def)
      have named: "proposes m c n a" if "JObj call \<in> set calls" "get call ''id'' = JStr c" "c \<noteq> []"
        "function_name call = JStr n" "arguments_of call = Inr a" for call c n a
        using that True JObj calls unfolding proposes_def
        by (auto simp: calls_of_def split: json.splits intro!: exI)
      show ?thesis
      proof (rule rebuilt_no_result [OF assms(1) quiet(1) run_note_call(1,2) [OF run]])
        show "rb_warnings rb' = [] \<Longrightarrow> rb_warnings rb = [] \<and> \<not> is_tool_message m
          \<and> length (rb_pending rb') = length (rb_pending rb) + length (calls_of m)"
          using run_note_call(3) [OF run] quiet(2) calls by simp
        show "dict_ok (rb_pending rb) \<Longrightarrow> dict_ok (rb_pending rb')" by (rule run_note_call(4) [OF run])
        show "dget (rb_pending rb') c = Some (n, a) \<Longrightarrow> dget (rb_pending rb) c = Some (n, a) \<or> proposes m c n a" for c n a
          using run_note_call(5) [OF run, of c n a] named by blast
      qed
    next
      case other: False
      then have rb': "rb' = rb \<and> get msg ''role'' \<noteq> JStr ''assistant'' \<or> (\<exists>w. rb' = rb\<lparr>rb_warnings := rb_warnings rb @ [w]\<rparr>)"
        using assms(2) JObj False by (auto simp: note_message_def split: json.splits if_splits)
      show ?thesis
        by (rule rebuilt_no_result [OF assms(1) quiet(1)]) (use rb' JObj quiet(2) in \<open>auto simp: calls_of_def\<close>)
    qed
  qed
next
  case (JArr x)
  with assms show ?thesis
    by (intro rebuilt_no_result [OF assms(1)]) (auto simp: note_message_def delivers_def)
qed (use assms in \<open>intro rebuilt_no_result [OF assms(1)]; auto simp: note_message_def delivers_def\<close>)+

lemma rebuilt_run:
  assumes "run_steps note_message rb ms = Inr rb'" "rebuilt h0 pre rb"
  shows "rebuilt h0 (pre @ ms) rb'"
  using assms
proof (induction ms arbitrary: rb pre)
  case (Cons m ms)
  then obtain rb1 where "note_message rb m = Inr rb1" "run_steps note_message rb1 ms = Inr rb'"
    by (auto split: sum.splits)
  with Cons.IH [of rb1 "pre @ [m]"] rebuilt_step [OF Cons.prems(2)] show ?case by simp
qed simp

lemma fromkeys_nil [simp]: "fromkeys xs = [] \<longleftrightarrow> xs = []"
  by (simp add: fromkeys_def)

lemma reconstruct_Inr:
  assumes "reconstruct (JArr ms) tools rs con req = Inr r"
  obtains rb where "rebuilt (new_harness (goal_of ms) tools (contract_keys con) (contract_types con)
       (contract_enforces_failed_executions con) req rs) ms rb"
    "r = finish_rebuild rb"
proof -
  from assms obtain rb where run: "run_steps note_message (start_rebuild ms tools rs con req) ms = Inr rb"
    "r = finish_rebuild rb" by (auto simp: reconstruct_def bind_Inr_iff)
  from rebuilt_run [OF run(1) rebuilt_start] that run(2) show ?thesis
    by (simp add: start_rebuild_def)
qed

lemma run_record_length:
  "run_steps record_step h es = Inr h' \<Longrightarrow> length (receipts h') = length (receipts h) + length es"
proof (induction es arbitrary: h)
  case (Cons e es)
  then obtain h1 where "record_step h e = Inr h1" "run_steps record_step h1 es = Inr h'" by (auto split: sum.splits)
  with Cons.IH [of h1] record_step_receipts [of h e h1] show ?case by simp
qed simp

text \<open>A transcript with one call and its result.\<close>

definition sample_transcript :: "json list" where
  "sample_transcript =
     [JObj [(''role'', JStr ''assistant''),
        (''tool_calls'', JArr [JObj [(''id'', JStr ''c1''), (''function'',
            JObj [(''name'', JStr ''read_file''), (''arguments'', JStr ''{}'')])]])],
      JObj [(''role'', JStr ''tool''), (''tool_call_id'', JStr ''c1''), (''content'', JStr ''ok'')]]"

lemma sample_reconstruct:
  "\<exists>r. reconstruct (JArr sample_transcript) {} default_roles no_contract True = Inr r
     \<and> \<not> degraded r \<and> latest_tool r = Some ''read_file''"
proof -
  let ?args = "JObj [(''name'', JStr ''read_file''), (''arguments'', JStr ''{}'')]"
  let ?call = "[(''id'', JStr ''c1''), (''function'', ?args)]"
  define rb where "rb = start_rebuild sample_transcript {} default_roles no_contract True"
  have args: "arguments_of ?call = Inr []" by code_simp
  have rb: "rb_pending rb = []" "rb_warnings rb = []" by (simp_all add: rb_def start_rebuild_def)
  define rb1 where "rb1 = rb\<lparr>rb_pending := [(''c1'', ''read_file'', [])]\<rparr>"
  have one: "note_message rb (sample_transcript ! 0) = Inr rb1"
    using args rb by (simp add: sample_transcript_def note_message_def calls_or_empty_def get_def get_or_def dget_def
        note_call_def function_name_def dhas_def dkeys_def rb1_def)
  obtain h' rc where h': "record_status (rb_harness rb) ''read_file'' [] Success = (h', rc)" by fastforce
  have two: "note_message rb1 (sample_transcript ! 1) = Inr
      (rb1\<lparr>rb_harness := h', rb_pending := [], rb_latest := Some (''read_file'', ''ok'')\<rparr>)"
    by (simp add: sample_transcript_def note_message_def get_def get_or_def dget_def note_result_def
        content_text_def record_result_def sample_statuses h' rb1_def dpop_def)
  have run: "run_steps f s [x, y] = Inr u" if "f s x = Inr t" "f t y = Inr u" for f and s t u :: rebuild and x y :: json
    using that by simp
  have two_elements: "sample_transcript = [sample_transcript ! 0, sample_transcript ! 1]" by (simp add: sample_transcript_def)
  have "run_steps note_message rb sample_transcript = Inr
      (rb1\<lparr>rb_harness := h', rb_pending := [], rb_latest := Some (''read_file'', ''ok'')\<rparr>)"
    by (subst two_elements, rule run [OF one two])
  then show ?thesis
    by (simp add: reconstruct_def flip: rb_def) (simp add: finish_rebuild_def rb1_def rb(2))
qed

section \<open>Properties of the reconstruction\<close>

text \<open>
  C9: The reconstructed harness is the harness that recorded, in order, exactly one execution for
  each of a strictly increasing list of result messages, each paired with a call proposed by an
  earlier assistant message under the same identifier with no other result of that identifier in
  between; nothing else in the transcript becomes a receipt. The latest tool and result are those
  of the last such execution.
\<close>

theorem receipts_are_visible_pairs:
  assumes "reconstruct (JArr ms) tools rs con req = Inr r"
  shows "\<exists>es js.
    run_steps record_step (new_harness (goal_of ms) tools (contract_keys con) (contract_types con)
       (contract_enforces_failed_executions con) req rs) es = Inr (r_harness r)
    \<and> list_all2 (paired ms) es js \<and> sorted_wrt (<) js
    \<and> latest_tool r = (if es = [] then None else Some (fst (last es)))
    \<and> latest_result r = (if es = [] then None else Some (snd (snd (last es))))"
proof -
  from reconstruct_Inr [OF assms] obtain rb where
    rb: "rebuilt (new_harness (goal_of ms) tools (contract_keys con) (contract_types con)
       (contract_enforces_failed_executions con) req rs) ms rb" "r = finish_rebuild rb" .
  from rb(1) obtain es js where e: "run_steps record_step (new_harness (goal_of ms) tools (contract_keys con)
       (contract_types con) (contract_enforces_failed_executions con) req rs) es = Inr (rb_harness rb)"
    "list_all2 (paired ms) es js" "sorted_wrt (<) js"
    "rb_latest rb = (if es = [] then None else Some (fst (last es), snd (snd (last es))))"
    unfolding rebuilt_def by blast
  show ?thesis
    by (intro exI [of _ es] exI [of _ js] conjI) (use e rb(2) in \<open>simp_all add: finish_rebuild_def Let_def\<close>)
qed

theorem receipts_are_visible_pairs_witness:
  "\<exists>r es. reconstruct (JArr sample_transcript) {} default_roles no_contract True = Inr r
     \<and> es \<noteq> [] \<and> fst (last es) = ''read_file''
     \<and> run_steps record_step (new_harness (goal_of sample_transcript) {} None [] False True default_roles) es
        = Inr (r_harness r)"
proof -
  obtain r where r: "reconstruct (JArr sample_transcript) {} default_roles no_contract True = Inr r"
    "latest_tool r = Some ''read_file''" using sample_reconstruct by blast
  from receipts_are_visible_pairs [OF r(1)] r show ?thesis by (auto simp: no_contract_def split: if_splits)
qed

section \<open>Role annotations\<close>

text \<open>What an untrusted request leaves as the server configured it.\<close>

definition keeps_protected :: "tool_roles \<Rightarrow> json list \<times> tool_roles \<times> bool \<Rightarrow> bool" where
  "keeps_protected rs st \<longleftrightarrow> roles_disjoint rs \<and> roles_disjoint (fst (snd st)) \<and> \<not> snd (snd st)
     \<and> (\<forall>n r. configured_role rs n = Inr (Some r) \<longrightarrow> configured_role (fst (snd st)) n = Inr (Some r))"

lemma raising_Inr [simp]: "raising m = Inr v \<longleftrightarrow> m = Inr v"
  by (cases m) auto

lemma assign_role_keeps:
  assumes "keeps_protected rs (fw, st)" "assign_role rs False st name role = Inr st'"
  shows "keeps_protected rs (fw', st')"
proof (cases role)
  case None
  with assms show ?thesis by (simp add: assign_role_def keeps_protected_def)
next
  case (Some r)
  from assms(1) have dis: "roles_disjoint rs" "roles_disjoint (fst st)" "\<not> snd st"
    and prot: "\<And>n r. configured_role rs n = Inr (Some r) \<Longrightarrow> configured_role (fst st) n = Inr (Some r)"
    by (auto simp: keeps_protected_def)
  obtain p where p: "configured_role rs name = Inr p" using configured_role_disjoint [OF dis(1)] by blast
  show ?thesis
  proof (cases "p = Some r")
    case True
    with assms Some p show ?thesis by (simp add: assign_role_def keeps_protected_def)
  next
    case False
    with assms(2) Some p obtain rs' where rs': "p = None" "with_annotation (fst st) name r = Inr rs'" "st' = (rs', snd st)"
      by (auto simp: assign_role_def bind_Inr_iff split: if_splits)
    have "configured_role rs' n = configured_role (fst st) n" if "n \<noteq> name" for n
      using with_annotation_other_names [OF rs'(2) that] by (simp add: configured_role_def)
    with prot p rs' have "configured_role rs' n = Inr (Some x)" if "configured_role rs n = Inr (Some x)" for n x
      using that by (cases "n = name") auto
    with dis rs'(3) with_annotation_disjoint [OF dis(2) rs'(2)] show ?thesis by (simp add: keeps_protected_def)
  qed
qed

lemma prepare_tool_Inr:
  assumes "prepare_tool rs allowed st raw = Inr st'"
  obtains tool name role where "raw = JObj tool" "tool_name tool = Inr name"
    "assign_role rs allowed (snd st) name role = Inr (snd st')" "fst st' = fst st @ [JObj (strip_annotations tool)]"
  using assms by (auto simp: prepare_tool_def bind_Inr_iff split: json.splits)

interpretation untrusted: invariant_loop "prepare_tool rs False" "keeps_protected rs" for rs
proof
  fix s e s'
  assume k: "keeps_protected rs s" and "prepare_tool rs False s e = Inr s'"
  from prepare_tool_Inr [OF this(2)] obtain name role where
    "assign_role rs False (snd s) name role = Inr (snd s')" by metis
  from assign_role_keeps [OF _ this, of "fst s" "fst s'"] k show "keeps_protected rs s'" by simp
qed

definition strip_tool :: "json \<Rightarrow> json" where
  "strip_tool v = (case v of JObj tool \<Rightarrow> JObj (strip_annotations tool) | _ \<Rightarrow> v)"

lemma prepare_tools_forwards:
  "run_steps (prepare_tool rs allowed) st raw = Inr st' \<Longrightarrow>
     fst st' = fst st @ map strip_tool raw \<and> list_all is_dict raw"
proof (induction raw arbitrary: st)
  case (Cons v raw)
  then obtain st1 where s: "prepare_tool rs allowed st v = Inr st1"
    "run_steps (prepare_tool rs allowed) st1 raw = Inr st'" by (auto split: sum.splits)
  from prepare_tool_Inr [OF s(1)] obtain tool where "v = JObj tool" "fst st1 = fst st @ [JObj (strip_annotations tool)]"
    by metis
  with Cons.IH [OF s(2)] show ?case by (simp add: strip_tool_def)
qed simp

lemma stripped_clean:
  "dget (strip_annotations tool) ROLE_KEY = None"
  "get (strip_annotations tool) ''function'' = JObj f \<Longrightarrow> dget f ROLE_KEY = None"
  "k \<noteq> ROLE_KEY \<Longrightarrow> k \<noteq> ''function'' \<Longrightarrow> dget (strip_annotations tool) k = dget tool k"
proof -
  have ne: "''function'' \<noteq> ROLE_KEY" by (simp add: ROLE_KEY_def)
  define t where "t = dpop tool ROLE_KEY"
  have t: "dget t k = (if k = ROLE_KEY then None else dget tool k)" for k by (simp add: t_def dget_dpop)
  have c: "(\<exists>g. strip_annotations tool = dset t ''function'' (JObj (dpop g ROLE_KEY)))
      \<or> strip_annotations tool = t \<and> \<not> is_dict (get t ''function'')"
    by (cases "get t ''function''") (simp_all add: strip_annotations_def Let_def flip: t_def, blast)
  from c show "dget (strip_annotations tool) ROLE_KEY = None"
    using ne t by (elim disjE exE conjE) (simp_all add: dget_dset)
  from c show "k \<noteq> ROLE_KEY \<Longrightarrow> k \<noteq> ''function'' \<Longrightarrow> dget (strip_annotations tool) k = dget tool k"
    using t by (elim disjE exE conjE) (simp_all only: dget_dset if_False)
  assume f: "get (strip_annotations tool) ''function'' = JObj f"
  from c show "dget f ROLE_KEY = None"
  proof (elim disjE exE conjE)
    fix g assume "strip_annotations tool = dset t ''function'' (JObj (dpop g ROLE_KEY))"
    with f have "f = dpop g ROLE_KEY" by (simp add: get_def get_or_def dget_dset)
    then show ?thesis by (simp add: dget_dpop)
  next
    assume "strip_annotations tool = t" "\<not> is_dict (get t ''function'')"
    with f show ?thesis by simp
  qed
qed

text \<open>
  C11: Without the permission to use policy extensions a request cannot change the role of any
  tool the server configured, whatever annotations it carries; the roles stay disjoint and no
  extension is reported as used.
\<close>

theorem protected_roles_survive:
  assumes "roles_disjoint rs" "prepare_tools raw rs False = Inr (forwarded, rs', used)"
  shows "\<not> used \<and> roles_disjoint rs'
    \<and> (\<forall>n r. configured_role rs n = Inr (Some r) \<longrightarrow> configured_role rs' n = Inr (Some r))"
proof -
  have start: "keeps_protected rs ([], rs, False)" using assms(1) by (simp add: keeps_protected_def)
  have "keeps_protected rs (forwarded, rs', used)"
    using assms(2) start untrusted.run_inv [OF start]
    by (auto simp: prepare_tools_def split: json.splits)
  then show ?thesis by (simp add: keeps_protected_def)
qed

theorem protected_roles_survive_witness:
  "\<exists>forwarded rs'. prepare_tools
     (JArr [JObj [(''type'', JStr ''function''), (''x-shiftedx-role'', JStr '' Verification''),
                  (''function'', JObj [(''name'', JStr ''pytest'')])]]) default_roles False
       = Inr (forwarded, rs', False)
     \<and> configured_role rs' ''write_file'' = Inr (Some ''mutation'') \<and> ''pytest'' \<in> verification rs'
     \<and> forwarded = [JObj [(''type'', JStr ''function''), (''function'', JObj [(''name'', JStr ''pytest'')])]]"
proof -
  let ?raw = "JArr [JObj [(''type'', JStr ''function''), (''x-shiftedx-role'', JStr '' Verification''),
                  (''function'', JObj [(''name'', JStr ''pytest'')])]]"
  have role: "annotation_role (Some (JStr '' Verification'')) = Inr (Some ''verification'')" by code_simp
  have "prepare_tools ?raw default_roles False = Inr
      ([JObj [(''type'', JStr ''function''), (''function'', JObj [(''name'', JStr ''pytest'')])]],
       default_roles\<lparr>verification := insert ''pytest'' DEFAULT_VERIFICATION_TOOLS\<rparr>, False)"
    using role unfolding prepare_tools_def json.case run_steps.simps prepare_tool_def
    by (simp add: tool_name_def get_def get_or_def dget_def ROLE_KEY_def annotated_role_def
        annotation_role_def assign_role_def configured_role_disjoint [OF default_roles_disjoint]
        strip_annotations_def Let_def dpop_def, simp add: with_annotation_def default_roles_def
        DEFAULT_MUTATION_TOOLS_def DEFAULT_VERIFICATION_TOOLS_def DEFAULT_INVESTIGATION_TOOLS_def)
  moreover from protected_roles_survive [OF default_roles_disjoint this]
  have "configured_role (default_roles\<lparr>verification := insert ''pytest'' DEFAULT_VERIFICATION_TOOLS\<rparr>) ''write_file''
      = Inr (Some ''mutation'')"
    using configured_role_disjoint [OF default_roles_disjoint, of "''write_file''"]
    by (simp add: default_roles_def DEFAULT_MUTATION_TOOLS_def)
  moreover have "''pytest'' \<in> verification (default_roles\<lparr>verification := insert ''pytest'' DEFAULT_VERIFICATION_TOOLS\<rparr>)"
    by simp
  ultimately show ?thesis by blast
qed

text \<open>
  The tools that go upstream are the client's tools, in order, without the proxy's role
  annotations at the top level and in the function, and with every other top-level field kept.
\<close>

lemma tools_forwarded_without_annotations:
  assumes "prepare_tools (JArr raw) rs allowed = Inr (forwarded, rs', used)"
  shows "length forwarded = length raw \<and> (\<forall>i < length raw. \<exists>tool tool'.
     raw ! i = JObj tool \<and> forwarded ! i = JObj tool' \<and> dget tool' ''x-shiftedx-role'' = None
     \<and> (\<forall>f. get tool' ''function'' = JObj f \<longrightarrow> dget f ''x-shiftedx-role'' = None)
     \<and> (\<forall>k. k \<noteq> ''x-shiftedx-role'' \<and> k \<noteq> ''function'' \<longrightarrow> dget tool' k = dget tool k))"
proof -
  have f: "forwarded = map strip_tool raw" "list_all is_dict raw"
    using assms prepare_tools_forwards [of rs allowed "([], rs, False)" raw "(forwarded, rs', used)"]
    by (auto simp: prepare_tools_def)
  have "\<exists>tool. raw ! i = JObj tool \<and> forwarded ! i = JObj (strip_annotations tool)" if "i < length raw" for i
    using that f by (auto simp: list_all_length strip_tool_def elim!: is_dict.elims(2) split: json.splits)
  then have "\<exists>tool tool'. raw ! i = JObj tool \<and> forwarded ! i = JObj tool' \<and> tool' = strip_annotations tool"
    if "i < length raw" for i using that by blast
  note stripped = this
  show ?thesis
  proof (intro conjI allI impI)
    show "length forwarded = length raw" by (simp add: f(1))
    fix i assume "i < length raw"
    from stripped [OF this] obtain tool where t: "raw ! i = JObj tool" "forwarded ! i = JObj (strip_annotations tool)"
      by blast
    show "\<exists>tool tool'. raw ! i = JObj tool \<and> forwarded ! i = JObj tool' \<and> dget tool' ''x-shiftedx-role'' = None
     \<and> (\<forall>f. get tool' ''function'' = JObj f \<longrightarrow> dget f ''x-shiftedx-role'' = None)
     \<and> (\<forall>k. k \<noteq> ''x-shiftedx-role'' \<and> k \<noteq> ''function'' \<longrightarrow> dget tool' k = dget tool k)"
      by (intro exI [of _ tool] exI [of _ "strip_annotations tool"] conjI t allI impI
          stripped_clean [unfolded ROLE_KEY_def]) (simp_all only: simp_thms)
  qed
qed

end
