(* ===== verification/Transcript_Pairing.thy ===== *)
theory Transcript_Pairing
  imports Transcript_Laws
begin

text \<open>
  The calls and results of a transcript as one sequence of tokens, in the order of the transcript, and what
  an intact reconstruction shows of it: the tokens of every identifier are calls and results in alternation.
\<close>

section \<open>Tokens\<close>

datatype token = Proposed json | Answered json

fun token_id :: "token \<Rightarrow> json" where
  "token_id (Proposed v) = v"
| "token_id (Answered v) = v"

definition call_id :: "json \<Rightarrow> json" where
  "call_id call = (case call of JObj d \<Rightarrow> get d ''id'' | _ \<Rightarrow> JNull)"

definition call_token :: "json \<Rightarrow> token" where
  "call_token call = Proposed (call_id call)"

definition result_tokens :: "json \<Rightarrow> token list" where
  "result_tokens m =
     (case m of JObj msg \<Rightarrow> if get msg ''role'' = JStr ''tool'' then [Answered (get msg ''tool_call_id'')] else [] | _ \<Rightarrow> [])"

definition tokens_of :: "json \<Rightarrow> token list" where
  "tokens_of m = map call_token (calls_of m) @ result_tokens m"

abbreviation tokens :: "json list \<Rightarrow> token list" where
  "tokens ms \<equiv> concat (map tokens_of ms)"

definition tokens_with :: "json \<Rightarrow> token list \<Rightarrow> token list" where
  "tokens_with v ts = filter (\<lambda>t. token_id t = v) ts"

lemma tokens_with_append [simp]: "tokens_with v (ts @ us) = tokens_with v ts @ tokens_with v us"
  by (simp add: tokens_with_def)

lemma tokens_with_Nil [simp]: "tokens_with v [] = []"
  by (simp add: tokens_with_def)

text \<open>The tokens of an identifier: pairs, then a call that still waits for its result.\<close>

definition waiting :: "rebuild \<Rightarrow> json \<Rightarrow> bool" where
  "waiting rb v \<longleftrightarrow> (\<exists>c. v = JStr c \<and> dhas (rb_pending rb) c)"

definition pairs :: "nat \<Rightarrow> json \<Rightarrow> token list" where
  "pairs n v = concat (replicate n [Proposed v, Answered v])"

lemma pairs_Suc: "pairs n v @ [Proposed v, Answered v] = pairs (Suc n) v"
  by (induction n) (simp_all add: pairs_def)

definition alternating :: "rebuild \<Rightarrow> token list \<Rightarrow> bool" where
  "alternating rb ts \<longleftrightarrow>
     dict_ok (rb_pending rb) \<and> (\<forall>v. \<exists>n. tokens_with v ts = pairs n v @ (if waiting rb v then [Proposed v] else []))"

section \<open>Steps of the reconstruction\<close>

lemma note_call_clean:
  assumes "note_call rb raw = Inr rb'" "rb_warnings rb' = []"
  obtains c x where "rb_warnings rb = []" "call_id raw = JStr c" "\<not> dhas (rb_pending rb) c"
    "rb_pending rb' = dset (rb_pending rb) c x"
  using assms by (auto simp: note_call_def warn_def call_id_def split: json.splits if_splits sum.splits)

lemma note_call_alternating:
  assumes "note_call rb raw = Inr rb'" "rb_warnings rb' = []" "alternating rb ts"
  shows "rb_warnings rb = [] \<and> alternating rb' (ts @ [call_token raw])"
proof -
  obtain c x where c: "rb_warnings rb = []" "call_id raw = JStr c" "\<not> dhas (rb_pending rb) c"
    "rb_pending rb' = dset (rb_pending rb) c x" using assms(1,2) by (rule note_call_clean)
  have w: "waiting rb' v \<longleftrightarrow> v = JStr c \<or> waiting rb v" for v
    by (auto simp: waiting_def c(4) dhas_dget dget_dset)
  have "\<exists>n. tokens_with v (ts @ [call_token raw]) = pairs n v @ (if waiting rb' v then [Proposed v] else [])" for v
  proof -
    from assms(3) obtain n where n: "tokens_with v ts = pairs n v @ (if waiting rb v then [Proposed v] else [])"
      unfolding alternating_def by blast
    moreover have "\<not> waiting rb (JStr c)" using c(3) by (simp add: waiting_def)
    ultimately have "tokens_with v (ts @ [call_token raw]) = pairs n v @ (if waiting rb' v then [Proposed v] else [])"
      by (simp add: w) (auto simp: tokens_with_def call_token_def c(2))
    then show ?thesis ..
  qed
  moreover have "dict_ok (rb_pending rb')" using assms(3) by (simp add: alternating_def c(4) py.ok_store)
  ultimately show ?thesis using c(1) by (simp add: alternating_def)
qed

lemma note_calls_alternating:
  assumes "run_steps note_call rb calls = Inr rb'" "rb_warnings rb' = []" "rb_warnings rb = [] \<Longrightarrow> alternating rb ts"
  shows "rb_warnings rb = [] \<and> alternating rb' (ts @ map call_token calls)"
  using assms
proof (induction calls arbitrary: rb ts)
  case (Cons raw calls)
  then obtain rb1 where 1: "note_call rb raw = Inr rb1" "run_steps note_call rb1 calls = Inr rb'" by (auto split: sum.splits)
  have "alternating rb1 (ts @ [call_token raw])" if "rb_warnings rb1 = []"
    using note_call_alternating [OF 1(1) that] note_call_clean [OF 1(1) that] Cons.prems(3) by blast
  from Cons.IH [OF 1(2) Cons.prems(2) this] have "rb_warnings rb1 = []" "alternating rb' ((ts @ [call_token raw]) @ map call_token calls)"
    by blast+
  with note_call_clean [OF 1(1)] show ?case by auto
qed simp

lemma note_result_alternating:
  assumes "note_result rb msg = Inr rb'" "rb_warnings rb' = []" "alternating rb ts"
  shows "rb_warnings rb = [] \<and> alternating rb' (ts @ [Answered (get msg ''tool_call_id'')])"
proof -
  from assms(1,2) obtain c x where c: "rb_warnings rb = []" "get msg ''tool_call_id'' = JStr c" "dget (rb_pending rb) c = Some x"
    "rb_pending rb' = dpop (rb_pending rb) c"
    by (auto simp: note_result_def warn_def Let_def bind_Inr_iff split: json.splits option.splits)
  have w: "waiting rb' v \<longleftrightarrow> v \<noteq> JStr c \<and> waiting rb v" for v
    by (auto simp: waiting_def c(4) dhas_dget dget_dpop)
  have wc: "waiting rb (JStr c)" using c(3) by (simp add: waiting_def dhas_dget)
  have "\<exists>n. tokens_with v (ts @ [Answered (JStr c)]) = pairs n v @ (if waiting rb' v then [Proposed v] else [])" for v
  proof -
    from assms(3) obtain n where n: "tokens_with v ts = pairs n v @ (if waiting rb v then [Proposed v] else [])"
      unfolding alternating_def by blast
    show ?thesis
    proof (cases "v = JStr c")
      case True
      with n wc have "tokens_with v (ts @ [Answered (JStr c)]) = pairs (Suc n) v @ (if waiting rb' v then [Proposed v] else [])"
        unfolding pairs_Suc [symmetric] by (simp add: w) (simp add: tokens_with_def)
      then show ?thesis ..
    next
      case False
      with n show ?thesis by (intro exI [of _ n]) (simp add: w, auto simp: tokens_with_def)
    qed
  qed
  moreover have "dict_ok (rb_pending rb')" using assms(3) by (simp add: alternating_def c(4) py.ok_discard)
  ultimately show ?thesis using c(1,2) by (simp add: alternating_def)
qed

lemma note_message_alternating:
  assumes "note_message rb m = Inr rb'" "rb_warnings rb' = []" "rb_warnings rb = [] \<Longrightarrow> alternating rb ts"
  shows "rb_warnings rb = [] \<and> alternating rb' (ts @ tokens_of m)"
proof (cases m)
  case (JObj msg)
  consider calls where "get msg ''role'' = JStr ''assistant''" "calls_or_empty msg = JArr calls" "run_steps note_call rb calls = Inr rb'"
    | "get msg ''role'' = JStr ''tool''" "note_result rb msg = Inr rb'"
    | "get msg ''role'' \<noteq> JStr ''assistant''" "get msg ''role'' \<noteq> JStr ''tool''" "rb' = rb"
    using assms(1,2) JObj by (auto simp: note_message_def warn_def split: json.splits if_splits)
  then show ?thesis
  proof cases
    case 1
    then have "tokens_of m = map call_token calls"
      using calls_or_empty_calls [OF 1(1,2)] JObj by (simp add: tokens_of_def result_tokens_def)
    with note_calls_alternating [OF 1(3) assms(2,3)] show ?thesis by simp
  next
    case 2
    then have "tokens_of m = [Answered (get msg ''tool_call_id'')]"
      using JObj by (simp add: tokens_of_def result_tokens_def calls_of_def)
    moreover have "rb_warnings rb = []"
      using 2(2) assms(2) by (auto simp: note_result_def warn_def Let_def bind_Inr_iff split: json.splits option.splits)
    ultimately show ?thesis using note_result_alternating [OF 2(2) assms(2)] assms(3) by simp
  next
    case 3
    then have "tokens_of m = []" using JObj by (simp add: tokens_of_def result_tokens_def calls_of_def)
    with 3(3) assms(2,3) show ?thesis by simp
  qed
qed (use assms(1,2) in \<open>auto simp: note_message_def warn_def\<close>)

lemma note_messages_alternating:
  assumes "run_steps note_message rb ms = Inr rb'" "rb_warnings rb' = []" "rb_warnings rb = [] \<Longrightarrow> alternating rb ts"
  shows "alternating rb' (ts @ tokens ms)"
  using assms
proof (induction ms arbitrary: rb ts)
  case Nil
  then show ?case by simp
next
  case (Cons m ms)
  then obtain rb1 where 1: "note_message rb m = Inr rb1" "run_steps note_message rb1 ms = Inr rb'" by (auto split: sum.splits)
  have "alternating rb1 (ts @ tokens_of m)" if "rb_warnings rb1 = []"
    using note_message_alternating [OF 1(1) that Cons.prems(3)] by blast
  from Cons.IH [OF 1(2) Cons.prems(2) this] show ?case by simp
qed

section \<open>Intact transcripts\<close>

text \<open>
  C10: A transcript that is not degraded is accounted for in full: no warning was raised, every result message
  is a receipt, and every proposed call has exactly one result: for each call identifier, the calls and the
  results that carry it, in the order of the transcript, are a call, its result, a call, its result and so on,
  with none left over.
\<close>

theorem intact_transcript_is_complete:
  assumes "reconstruct (JArr ms) tools rs con req = Inr r"
  shows "degraded r \<or> (warnings r = []
     \<and> length (receipts (r_harness r)) = length (filter is_tool_message ms)
     \<and> (\<forall>v. \<exists>n. filter (\<lambda>t. token_id t = v) (tokens ms) = concat (replicate n [Proposed v, Answered v])))"
proof (cases "degraded r")
  case False
  from reconstruct_Inr [OF assms] obtain rb0 where
    rb0: "rebuilt (new_harness (goal_of ms) tools (contract_keys con) (contract_types con)
       (contract_enforces_failed_executions con) req rs) ms rb0" "r = finish_rebuild rb0" .
  from rb0(1) obtain es where es: "run_steps record_step (new_harness (goal_of ms) tools (contract_keys con)
       (contract_types con) (contract_enforces_failed_executions con) req rs) es = Inr (rb_harness rb0)"
    "rb_warnings rb0 = [] \<longrightarrow> length es = length (filter is_tool_message ms)"
    unfolding rebuilt_def by blast
  have "length (receipts (rb_harness rb0)) = length es"
    using run_record_length [OF es(1)] by (simp add: new_harness_def)
  with es(2) rb0(2) False have first: "warnings r = []" "length (receipts (r_harness r)) = length (filter is_tool_message ms)"
    by (auto simp: finish_rebuild_def Let_def split: if_splits)
  from assms obtain rb where run: "run_steps note_message (start_rebuild ms tools rs con req) ms = Inr rb"
    "r = finish_rebuild rb" by (auto simp: reconstruct_def bind_Inr_iff)
  then have clean: "rb_warnings rb = []" "rb_pending rb = []"
    using False by (auto simp: finish_rebuild_def Let_def split: if_splits)
  have "alternating (start_rebuild ms tools rs con req) []"
    by (simp add: alternating_def start_rebuild_def waiting_def dhas_def dkeys_def dict_ok_def pairs_def exI [of _ 0])
  from note_messages_alternating [OF run(1) clean(1) this] have "alternating rb (tokens ms)" by simp
  then have "\<forall>v. \<exists>n. filter (\<lambda>t. token_id t = v) (tokens ms) = concat (replicate n [Proposed v, Answered v])"
    using clean(2) by (simp add: alternating_def waiting_def tokens_with_def pairs_def dhas_def dkeys_def)
  with first show ?thesis by blast
qed simp

theorem intact_transcript_is_complete_witness:
  "\<exists>r. reconstruct (JArr sample_transcript) {} default_roles no_contract True = Inr r
     \<and> warnings r = [] \<and> length (receipts (r_harness r)) = 1
     \<and> (\<exists>n. filter (\<lambda>t. token_id t = JStr ''c1'') (tokens sample_transcript)
          = concat (replicate n [Proposed (JStr ''c1''), Answered (JStr ''c1'')]))"
proof -
  obtain r where r: "reconstruct (JArr sample_transcript) {} default_roles no_contract True = Inr r" "\<not> degraded r"
    using sample_reconstruct by blast
  from intact_transcript_is_complete [OF r(1)] r(2) have "warnings r = []"
    "length (receipts (r_harness r)) = length (filter is_tool_message sample_transcript)"
    "\<exists>n. filter (\<lambda>t. token_id t = JStr ''c1'') (tokens sample_transcript)
       = concat (replicate n [Proposed (JStr ''c1''), Answered (JStr ''c1'')])" by blast+
  moreover have "length (filter is_tool_message sample_transcript) = 1" by code_simp
  ultimately show ?thesis using r(1) by simp
qed

end
