(* ===== verification/Attempts.thy ===== *)
theory Attempts
  imports Prelude
begin

text \<open>
  A loop that makes at most a fixed number of attempts. One attempt either finishes with a
  result or asks for another; when the attempts are used up the loop ends with a fallback. Both
  loops of the chat service have this shape, \<open>while upstream_calls < max_upstream_calls\<close>, with
  exactly one upstream call per attempt.
\<close>

datatype ('s, 'r) attempt_result = Finished 'r 's | Retry 's

fun attempts :: "('s \<Rightarrow> ('s, 'r) attempt_result) \<Rightarrow> 'r \<Rightarrow> nat \<Rightarrow> 's \<Rightarrow> 'r \<times> 's" where
  "attempts step out 0 s = (out, s)"
| "attempts step out (Suc n) s =
     (case step s of Finished r s' \<Rightarrow> (r, s') | Retry s' \<Rightarrow> attempts step out n s')"

text \<open>The loop with its guard: the remaining attempts are the limit less the calls made.\<close>

definition attempt_loop ::
  "('s \<Rightarrow> ('s, 'r) attempt_result) \<Rightarrow> 'r \<Rightarrow> ('s \<Rightarrow> nat) \<Rightarrow> nat \<Rightarrow> 's \<Rightarrow> 'r \<times> 's" where
  "attempt_loop step out calls limit s = attempts step out (limit - calls s) s"

locale counted_attempts =
  fixes step :: "'s \<Rightarrow> ('s, 'r) attempt_result" and calls :: "'s \<Rightarrow> nat"
  assumes retry_counts: "step s = Retry s' \<Longrightarrow> calls s' = Suc (calls s)"
    and finish_counts: "step s = Finished r s' \<Longrightarrow> calls s' \<le> Suc (calls s)"
begin

text \<open>The recursion is the \<open>while\<close> loop of the code.\<close>

lemma loop_unfold:
  "attempt_loop step out calls limit s =
     (if calls s < limit then
        (case step s of Finished r s' \<Rightarrow> (r, s') | Retry s' \<Rightarrow> attempt_loop step out calls limit s')
      else (out, s))"
proof (cases "calls s < limit")
  case True
  then obtain n where n: "limit - calls s = Suc n" by (metis Suc_diff_Suc)
  show ?thesis
  proof (cases "step s")
    case (Retry s')
    with retry_counts n have "limit - calls s' = n" by fastforce
    with True n Retry show ?thesis by (simp add: attempt_loop_def)
  qed (use True n in \<open>simp add: attempt_loop_def\<close>)
qed (simp add: attempt_loop_def)

text \<open>Rule for the loop: an invariant at its head, a postcondition at each of its exits.\<close>

lemma loop_inv:
  assumes inv: "\<And>s s'. I s \<Longrightarrow> calls s < limit \<Longrightarrow> step s = Retry s' \<Longrightarrow> I s'"
    and post: "\<And>s r s'. I s \<Longrightarrow> calls s < limit \<Longrightarrow> step s = Finished r s' \<Longrightarrow> Q r s'"
    and out: "\<And>s. I s \<Longrightarrow> limit \<le> calls s \<Longrightarrow> Q out s"
    and start: "I s" and run: "attempt_loop step out calls limit s = (r, s')"
  shows "Q r s'"
  using start run
proof (induction "limit - calls s" arbitrary: s)
  case 0
  then show ?case using loop_unfold [of out limit s] out by (simp split: if_splits)
next
  case (Suc n)
  then have lt: "calls s < limit" by simp
  show ?case
  proof (cases "step s")
    case (Finished r' s1)
    then show ?thesis using Suc.prems lt post loop_unfold [of out limit s] by auto
  next
    case (Retry s1)
    then have "calls s1 = Suc (calls s)" by (rule retry_counts)
    with Suc.hyps(2) lt Retry Suc.prems inv show ?thesis
      by (intro Suc.hyps(1) [of s1]) (auto simp: loop_unfold [of out limit s])
  qed
qed

lemma calls_bounded:
  assumes "calls s \<le> limit" "attempt_loop step out calls limit s = (r, s')"
  shows "calls s' \<le> limit"
  by (rule loop_inv [where I = "\<lambda>s. calls s \<le> limit" and Q = "\<lambda>r s'. calls s' \<le> limit", OF _ _ _ assms])
    (use retry_counts finish_counts in fastforce)+

end

end
