(* ===== verification/Service.thy ===== *)
theory Service
  imports Transcript Projection Accounting Config Attempts
begin

text \<open>
  The policy loop of chat completions (\<open>service.py\<close>). Upstream is the parameter \<open>up\<close>, a
  function of the number of the call within the request and the payload; it answers with an
  object or fails. The headers, which only travel, the wall time in the telemetry and the timing
  capture of qualification runs are left out. The state of a run carries, beside the working
  messages, the log of what was sent upstream with its phase, and the intervention counts the
  error handler reads.
\<close>

definition REQUIRE_RECEIPT_EXTENSION :: string where
  "REQUIRE_RECEIPT_EXTENSION = ''x-shiftedx-require-receipt''"

definition TOOL_DENY_EXTENSION :: string where
  "TOOL_DENY_EXTENSION = ''x-shiftedx-denied-tools''"

record policy_telemetry =
  t_profile :: string
  t_blocked_duplicates :: nat
  t_blocked_stalls :: nat
  t_corrections :: nat
  t_upstream_calls :: nat
  t_receipt_projections :: nat
  t_upstream_calls_avoided :: nat
  t_degraded_state :: bool
  t_policy_extensions_used :: nat

record chat_result =
  cr_body :: jobject
  cr_telemetry :: policy_telemetry

record chat_service =
  cs_settings :: settings
  base_roles :: tool_roles
  cs_cache_fields :: "string set"
  cs_denied_tools :: "string set"

definition make_service :: "(string \<Rightarrow> json option) \<Rightarrow> settings \<Rightarrow> chat_service result" where
  "make_service load s =
     bind (configured_roles load s) (\<lambda>rs.
     bind (cache_namespace_fields s) (\<lambda>fs.
       Inr \<lparr>cs_settings = s, base_roles = rs, cs_cache_fields = fs, cs_denied_tools = denied_tool_names s\<rparr>))"

section \<open>Validation of the request\<close>

definition blank :: "string \<Rightarrow> bool" where
  "blank s = (strip s = [])"

definition invalid_messages :: "string \<Rightarrow> unit outcome" where
  "invalid_messages msg = refuse 400 ''invalid_messages'' msg"

definition nonblank_str :: "json \<Rightarrow> bool" where
  "nonblank_str v = str_satisfies (\<lambda>s. \<not> blank s) v"

definition nonempty_str :: "json \<Rightarrow> bool" where
  "nonempty_str v = str_satisfies (\<lambda>s. s \<noteq> []) v"

definition validate_content_parts :: "json list \<Rightarrow> unit outcome" where
  "validate_content_parts parts =
     (if parts = [] \<or> list_ex (\<lambda>p. case p of JObj d \<Rightarrow> \<not> nonblank_str (get d ''type'') | _ \<Rightarrow> True) parts
      then invalid_messages ''Content-part arrays must contain objects with non-empty string types.''
      else Inr ())"

definition has_usable_assistant_content :: "json \<Rightarrow> bool" where
  "has_usable_assistant_content content =
     (case content of JStr s \<Rightarrow> \<not> blank s | JArr parts \<Rightarrow> parts \<noteq> [] | _ \<Rightarrow> False)"

definition validate_tool_call :: "json \<Rightarrow> unit outcome" where
  "validate_tool_call v =
     (case v of
        JObj call \<Rightarrow>
          (if nonempty_str (get call ''id'') \<and> get call ''type'' = JStr ''function''
              \<and> (case get call ''function'' of
                   JObj f \<Rightarrow> nonblank_str (get f ''name'') \<and> is_str (get f ''arguments'')
                 | _ \<Rightarrow> False)
           then Inr ()
           else invalid_messages ''Assistant tool calls must be complete function calls.'')
      | _ \<Rightarrow> invalid_messages ''Every tool call must be an object.'')"

fun each :: "('a \<Rightarrow> 'e + unit) \<Rightarrow> 'a list \<Rightarrow> 'e + unit" where
  "each f [] = Inr ()"
| "each f (x # xs) = bind (f x) (\<lambda>_. each f xs)"

text \<open>The checks of one message of a known role, in order.\<close>

definition validate_role_content :: "string \<Rightarrow> jobject \<Rightarrow> unit outcome" where
  "validate_role_content role msg =
     (let content = get msg ''content''; text_or_parts = (is_str content \<or> is_list content) in
      if role \<noteq> ''assistant'' \<and> \<not> dhas msg ''content''
      then invalid_messages ''System, user, and tool messages require content.''
      else if role \<noteq> ''assistant'' \<and> \<not> text_or_parts
      then invalid_messages ''Message content must be a string or content-part array.''
      else if role = ''assistant'' \<and> content \<noteq> JNull \<and> \<not> text_or_parts
      then invalid_messages ''Assistant content must be a string, content-part array, or null.''
      else (case content of JArr parts \<Rightarrow> validate_content_parts parts | _ \<Rightarrow> Inr ()))"

definition validate_identity :: "string \<Rightarrow> jobject \<Rightarrow> unit outcome" where
  "validate_identity role msg =
     (if dhas msg ''name'' \<and> \<not> nonblank_str (get msg ''name'')
      then invalid_messages ''Message name must be a non-empty string when present.''
      else if role = ''tool'' \<and> \<not> nonempty_str (get msg ''tool_call_id'')
      then invalid_messages ''Tool messages require a non-empty tool_call_id.''
      else Inr ())"

definition validate_calls :: "string \<Rightarrow> jobject \<Rightarrow> unit outcome" where
  "validate_calls role msg =
     bind (if dhas msg ''tool_calls'' then
             (case get msg ''tool_calls'' of
                JArr calls \<Rightarrow>
                  (if role = ''assistant'' then each validate_tool_call calls
                   else invalid_messages ''tool_calls is supported only as an assistant array.'')
              | _ \<Rightarrow> invalid_messages ''tool_calls is supported only as an assistant array.'')
           else Inr ()) (\<lambda>_.
       if role = ''assistant'' \<and> \<not> has_usable_assistant_content (get msg ''content'')
          \<and> (case get msg ''tool_calls'' of JArr calls \<Rightarrow> calls = [] | _ \<Rightarrow> True)
       then invalid_messages ''Assistant messages require content or a non-empty valid tool_calls array.''
       else Inr ())"

definition validate_message :: "json \<Rightarrow> unit outcome" where
  "validate_message v =
     (case v of
        JObj msg \<Rightarrow>
          bind (uncaught (in_string_set (get msg ''role'') [''system'', ''user'', ''assistant'', ''tool'']))
            (\<lambda>known.
             if \<not> known then invalid_messages ''Every message role must be supported by v1.''
             else (let role = py_str (get msg ''role'') in
               bind (validate_role_content role msg) (\<lambda>_.
               bind (validate_identity role msg) (\<lambda>_. validate_calls role msg))))
      | _ \<Rightarrow> invalid_messages ''Every message must be an object.'')"

definition valid_tool_schema :: "json \<Rightarrow> bool" where
  "valid_tool_schema v =
     (case v of
        JObj tool \<Rightarrow> get tool ''type'' = JStr ''function''
          \<and> (case get tool ''function'' of
               JObj f \<Rightarrow> nonblank_str (get f ''name'')
                 \<and> (dhas f ''parameters'' \<longrightarrow> is_dict (get f ''parameters''))
             | _ \<Rightarrow> False)
      | _ \<Rightarrow> False)"

definition validate_tool_schemas :: "json \<Rightarrow> unit outcome" where
  "validate_tool_schemas tools =
     (case tools of
        JArr ts \<Rightarrow> (if list_all valid_tool_schema ts then Inr ()
                    else refuse 400 ''invalid_tools'' ''Every tool must be a function schema with function.name.'')
      | _ \<Rightarrow> refuse 400 ''invalid_tools'' ''tools must be an array.'')"

definition invalid_response_format :: "string \<Rightarrow> unit outcome" where
  "invalid_response_format msg = refuse 400 ''invalid_response_format'' msg"

definition validate_response_format :: "json \<Rightarrow> unit outcome" where
  "validate_response_format v =
     (case v of
        JObj rf \<Rightarrow>
          (if \<not> nonblank_str (get rf ''type'')
           then invalid_response_format ''response_format.type must be a non-empty string.''
           else if get rf ''type'' \<noteq> JStr ''json_schema'' then Inr ()
           else (case get rf ''json_schema'' of
             JObj wrapper \<Rightarrow>
               (case get wrapper ''schema'' of
                  JObj schema \<Rightarrow>
                    (if get schema ''type'' = JStr ''object'' \<and> dhas schema ''properties''
                        \<and> \<not> is_dict (get schema ''properties'')
                     then invalid_response_format ''json_schema object properties must be an object when present.''
                     else Inr ())
                | _ \<Rightarrow> invalid_response_format ''json_schema response_format requires an object schema.'')
           | _ \<Rightarrow> invalid_response_format ''json_schema response_format requires an object wrapper.''))
      | _ \<Rightarrow> invalid_response_format ''response_format must be an object.'')"

definition validate_chat_payload :: "jobject \<Rightarrow> bool \<Rightarrow> unit outcome" where
  "validate_chat_payload payload harness_enabled =
     (if \<not> nonblank_str (get payload ''model'')
      then refuse 400 ''invalid_model'' ''model must be a non-empty string.''
      else (case get payload ''messages'' of
        JArr ms \<Rightarrow>
          bind (each validate_message ms) (\<lambda>_.
            if dhas payload ''stream'' \<and> \<not> is_bool (get payload ''stream'')
            then refuse 400 ''invalid_stream'' ''stream must be a JSON boolean.''
            else if harness_enabled \<and> dhas payload ''n'' \<and> get payload ''n'' \<noteq> JInt 1
            then refuse 400 ''multiple_choices_not_supported'' ''Harness mode requires n=1.''
            else bind (if dhas payload ''tools'' then validate_tool_schemas (get payload ''tools'') else Inr ())
              (\<lambda>_. if dhas payload ''response_format''
                   then validate_response_format (get payload ''response_format'') else Inr ()))
      | _ \<Rightarrow> refuse 400 ''invalid_messages'' ''messages must be an array.''))"

section \<open>The plan of a request\<close>

text \<open>What the first half of \<open>complete\<close> derives from an admissible request.\<close>

record plan =
  pl_forwarded :: jobject
  pl_tools :: "json list"
  pl_roles :: tool_roles
  pl_extension_used :: bool
  pl_receipt_override :: "bool option"
  pl_contract :: schema_contract
  pl_split :: bool
  pl_combined :: bool

fun tools_outcome :: "tools_error + 'a \<Rightarrow> 'a outcome" where
  "tools_outcome (Inr v) = Inr v"
| "tools_outcome (Inl (Annotation_Error cd msg st)) = refuse st cd msg"
| "tools_outcome (Inl (Raised (ValueError msg))) = refuse 400 ''invalid_tools'' msg"
| "tools_outcome (Inl (Raised JSONDecodeError)) = refuse 400 ''invalid_tools'' ''invalid JSON''"
| "tools_outcome (Inl (Raised e)) = Inl (Unhandled e)"

text \<open>The gates before the request is translated, in order.\<close>

definition gate_request ::
  "chat_service \<Rightarrow> jobject \<Rightarrow> bool \<Rightarrow> bool \<Rightarrow> server_cache_namespace option \<Rightarrow> unit outcome" where
  "gate_request cs payload harness_enabled extensions_allowed namespace =
     bind (validate_chat_payload payload harness_enabled) (\<lambda>_.
       if \<not> harness_enabled \<and> cs_denied_tools cs \<noteq> {}
       then refuse 403 ''harness_opt_out_denied_by_tool_policy'' ''Harness opt-out is unavailable for this request.''
       else if reject_client_cache_namespaces payload
                 (upstream_cache_capability_mode (cs_settings cs)) (cs_cache_fields cs) namespace
       then refuse 400 ''untrusted_cache_namespace''
              ''Client-selected cache namespaces are not supported by this upstream profile.''
       else if get payload ''stream'' = JBool True
       then refuse 400 ''streaming_not_supported'' ''stream=true is not supported by this proxy version.''
       else if dhas payload TOOL_DENY_EXTENSION
       then refuse 400 ''tool_deny_override_denied'' ''Tool deny policy is configured only by the server.''
       else (case dget payload REQUIRE_RECEIPT_EXTENSION of
               None \<Rightarrow> Inr ()
             | Some (JBool b) \<Rightarrow>
                 (if \<not> b \<and> \<not> extensions_allowed
                  then refuse 403 ''receipt_override_denied''
                         ''Receipt requirements cannot be disabled by this principal.''
                  else Inr ())
             | Some _ \<Rightarrow> refuse 400 ''invalid_receipt_override''
                 (REQUIRE_RECEIPT_EXTENSION @ '' must be a boolean when present.'')))"

definition receipt_override :: "jobject \<Rightarrow> bool option" where
  "receipt_override payload =
     (case dget payload REQUIRE_RECEIPT_EXTENSION of Some (JBool b) \<Rightarrow> Some b | _ \<Rightarrow> None)"

definition make_plan ::
  "chat_service \<Rightarrow> jobject \<Rightarrow> bool \<Rightarrow> bool \<Rightarrow> plan outcome" where
  "make_plan cs payload extensions_allowed trusted_extension_used =
     (let mode = upstream_tool_response_capability_mode (cs_settings cs);
          override = receipt_override payload;
          popped = dpop payload REQUIRE_RECEIPT_EXTENSION in
      bind (tools_outcome (prepare_tools (get popped ''tools'') (base_roles cs) extensions_allowed))
        (\<lambda>(tools, roles, role_extension_used).
      (let forwarded = (if dhas popped ''tools'' then dset popped ''tools'' (JArr tools) else popped);
           has_format = dhas forwarded ''response_format'' in
       bind (uncaught (response_schema_contract (get forwarded ''response_format''))) (\<lambda>contract.
         if mode \<noteq> Passthrough \<and> tools \<noteq> [] \<and> has_format \<and> \<not> strict_primitive_object contract
         then refuse 400
                (if mode = Phase_Split then ''unsupported_phase_split_schema'' else ''unsupported_combined_schema'')
                ''The selected upstream capability mode cannot safely enforce this response schema with tools.''
         else Inr \<lparr>pl_forwarded = forwarded, pl_tools = tools, pl_roles = roles,
                pl_extension_used = (trusted_extension_used \<or> role_extension_used \<or> override = Some False),
                pl_receipt_override = override, pl_contract = contract,
                pl_split = requires_phase_split mode (tools \<noteq> []) has_format (strict_primitive_object contract),
                pl_combined = requires_combined_capability mode (tools \<noteq> []) has_format
                  (strict_primitive_object contract)\<rparr>))))"

end
