(* ===== verification/Chat_Loop.thy ===== *)
theory Chat_Loop
  imports Service
begin

text \<open>
  The second half of \<open>service.py\<close>: the rejection of proposed calls, local projection on the
  latest result, the bounded policy loop, the opt-out loop and \<open>complete\<close> itself.
\<close>

section \<open>Rejecting proposed calls\<close>

definition call_arguments :: "jobject \<Rightarrow> (string \<times> jobject) result" where
  "call_arguments call =
     (case get call ''function'' of
        JObj f \<Rightarrow>
          (case get f ''name'' of
             JStr name \<Rightarrow> bind (decode_arguments (get_or f ''arguments'' (JObj []))) (\<lambda>args. Inr (name, args))
           | _ \<Rightarrow> Inl (ValueError ''invalid function''))
      | _ \<Rightarrow> Inl (ValueError ''invalid function''))"

definition denied_text :: string where
  "denied_text = json_dumps (JObj
     [(''shiftedx_harness'', JStr ''tool_denied_by_server''),
      (''execution_status'', JStr ''blocked_not_executed''),
      (''fact'', JStr ''This proposed call was blocked by the proxy and did not reach the client executor.''),
      (''instruction'', JStr ''Choose a permitted tool or return a safe final answer.'')])"

text \<open>The state of the loop over the calls: the harness, the flag, the rejections by index.\<close>

record rejection =
  rj_harness :: agent_harness
  rj_can_finalize :: bool
  rj_rejected :: "(nat, string) dict"

definition reject_call :: "rejection \<Rightarrow> nat \<Rightarrow> string \<Rightarrow> rejection" where
  "reject_call st i msg =
     st\<lparr>rj_harness := (rj_harness st)\<lparr>last_action_blocked := True\<rparr>, rj_can_finalize := False,
        rj_rejected := dset (rj_rejected st) i msg\<rparr>"

text \<open>The checks of a call the harness may block: a stall first, then a duplicate.\<close>

definition harness_rejection :: "rejection \<Rightarrow> nat \<Rightarrow> string \<Rightarrow> jobject \<Rightarrow> rejection" where
  "harness_rejection st i name args =
     (case stalled_result (rj_harness st) name of
        (h, Some msg) \<Rightarrow>
          st\<lparr>rj_harness := h, rj_can_finalize := False, rj_rejected := dset (rj_rejected st) i msg\<rparr>
      | (h, None) \<Rightarrow>
          (case duplicate h name args of
             None \<Rightarrow> st\<lparr>rj_harness := h\<rparr>
           | Some prior \<Rightarrow>
               (let (h', msg) = blocked_result h prior in
                st\<lparr>rj_harness := h',
                   rj_can_finalize := (rj_can_finalize st \<and> r_status prior = Success
                     \<and> \<not> pending_verification h' \<and> open_failures h' = []),
                   rj_rejected := dset (rj_rejected st) i msg\<rparr>)))"

definition note_proposed :: "string set \<Rightarrow> rejection \<Rightarrow> nat \<times> json \<Rightarrow> rejection result" where
  "note_proposed denied st ic =
     (case ic of (i, raw) \<Rightarrow>
       (case raw of
          JObj call \<Rightarrow>
            (case call_arguments call of
               Inl e \<Rightarrow> (if e = OutsideModel then Inl e
                         else Inr (reject_call st i ''{\"shiftedx_harness\":\"invalid_tool_arguments\"}''))
             | Inr (name, args) \<Rightarrow>
                 (if name \<in> denied then Inr (reject_call st i denied_text)
                  else Inr (harness_rejection st i name args)))
        | _ \<Rightarrow> Inr (reject_call st i ''{\"shiftedx_harness\":\"invalid_tool_call\"}'')))"

definition rejected_results ::
  "json list \<Rightarrow> agent_harness \<Rightarrow> string set \<Rightarrow> (agent_harness \<times> (nat, string) dict) result" where
  "rejected_results calls h denied =
     bind (run_steps (note_proposed denied) \<lparr>rj_harness = h, rj_can_finalize = True, rj_rejected = []\<rparr>
             (enumerate 0 calls)) (\<lambda>st.
       Inr ((rj_harness st)\<lparr>force_finalize := (rj_rejected st \<noteq> []
               \<and> length (rj_rejected st) = length calls \<and> rj_can_finalize st)\<rparr>,
            rj_rejected st))"

section \<open>Local projection of the latest result\<close>

text \<open>The scan of the messages before the last; \<open>Some\<close> the pending calls, or an early return.\<close>

fun scan_call :: "(string, string) dict \<Rightarrow> json \<Rightarrow> (string, string) dict option" where
  "scan_call pending (JObj call) =
     (case (get call ''id'', function_name call) of
        (JStr c, JStr n) \<Rightarrow> (if c = [] \<or> dhas pending c then None else Some (dset pending c n))
      | _ \<Rightarrow> None)"
| "scan_call pending _ = None"

fun scan_calls :: "(string, string) dict \<Rightarrow> json list \<Rightarrow> (string, string) dict option" where
  "scan_calls pending [] = Some pending"
| "scan_calls pending (c # cs) =
     (case scan_call pending c of None \<Rightarrow> None | Some p \<Rightarrow> scan_calls p cs)"

fun scan_messages :: "(string, string) dict \<Rightarrow> json list \<Rightarrow> (string, string) dict option" where
  "scan_messages pending [] = Some pending"
| "scan_messages pending (JObj msg # ms) =
     (if get msg ''role'' = JStr ''assistant'' then
        (case calls_or_empty msg of
           JArr calls \<Rightarrow>
             (case scan_calls pending calls of None \<Rightarrow> None | Some p \<Rightarrow> scan_messages p ms)
         | _ \<Rightarrow> None)
      else if get msg ''role'' = JStr ''tool'' then
        (case get msg ''tool_call_id'' of
           JStr c \<Rightarrow> (if dhas pending c then scan_messages (dpop pending c) ms else None)
         | _ \<Rightarrow> None)
      else scan_messages pending ms)"
| "scan_messages pending (_ # ms) = None"

definition latest_exact_paired_tool_result :: "json list \<Rightarrow> (string \<times> string) option" where
  "latest_exact_paired_tool_result messages =
     (if messages = [] then None
      else (case last messages of
        JObj final \<Rightarrow>
          (case (get final ''role'' = JStr ''tool'', get final ''content'') of
             (True, JStr content) \<Rightarrow>
               (case scan_messages [] (butlast messages) of
                  None \<Rightarrow> None
                | Some pending \<Rightarrow>
                    (case get final ''tool_call_id'' of
                       JStr c \<Rightarrow> map_option (\<lambda>n. (n, content)) (dget pending c)
                     | _ \<Rightarrow> None))
           | _ \<Rightarrow> None)
      | _ \<Rightarrow> None))"

definition BLOCK_MARKERS :: "string list" where
  "BLOCK_MARKERS =
     [''duplicate_call_blocked'', ''stalled_investigation_blocked'', ''invalid_tool_call'',
      ''invalid_tool_arguments'', ''response_withheld_due_to_blocked_sibling'']"

fun has_blocked_unresolved_action :: "json list \<Rightarrow> bool result" where
  "has_blocked_unresolved_action [] = Inr False"
| "has_blocked_unresolved_action (v # ms) =
     (case v of
        JObj msg \<Rightarrow>
          (if get msg ''role'' \<noteq> JStr ''tool'' then has_blocked_unresolved_action ms
           else (case get msg ''content'' of
             JStr content \<Rightarrow>
               (case json_loads content of
                  Inl JSONDecodeError \<Rightarrow> has_blocked_unresolved_action ms
                | Inl e \<Rightarrow> Inl e
                | Inr (JObj d) \<Rightarrow>
                    (case in_string_set (get d ''shiftedx_harness'') BLOCK_MARKERS of
                       Inl e \<Rightarrow> Inl e
                     | Inr b \<Rightarrow> (if b then Inr True else has_blocked_unresolved_action ms))
                | Inr _ \<Rightarrow> has_blocked_unresolved_action ms)
           | _ \<Rightarrow> has_blocked_unresolved_action ms))
      | _ \<Rightarrow> has_blocked_unresolved_action ms)"

definition project_latest_if_current :: "json list \<Rightarrow> reconstruction \<Rightarrow> string option result" where
  "project_latest_if_current messages rebuilt =
     (case latest_exact_paired_tool_result messages of
        None \<Rightarrow> Inr None
      | Some (name, res) \<Rightarrow>
          (if latest_tool rebuilt \<noteq> Some name \<or> latest_result rebuilt \<noteq> Some res then Inr None
           else bind (has_blocked_unresolved_action messages) (\<lambda>blocked.
                bind (decide_local_projection (r_harness rebuilt) name res (degraded rebuilt) blocked) (\<lambda>d.
                  Inr (case candidate d of None \<Rightarrow> None
                       | Some c \<Rightarrow> if eligible d then Some (projection_content c) else None)))))"

text \<open>The identifier and the time of creation are parameters.\<close>

definition projected_response :: "string \<Rightarrow> int \<Rightarrow> string \<Rightarrow> string \<Rightarrow> jobject" where
  "projected_response uid created model content =
     [(''id'', JStr (''chatcmpl-shiftedx-'' @ uid)), (''object'', JStr ''chat.completion''),
      (''created'', JInt created), (''model'', JStr model),
      (''choices'', JArr [JObj [(''index'', JInt 0),
          (''message'', JObj [(''role'', JStr ''assistant''), (''content'', JStr content)]),
          (''finish_reason'', JStr ''stop'')]]),
      (''usage'', JObj [(''prompt_tokens'', JInt 0), (''completion_tokens'', JInt 0), (''total_tokens'', JInt 0)]),
      (LOCAL_PROJECTION_EXTENSION, JObj local_projection_accounting)]"

definition without_reserved_projection_marker :: "jobject \<Rightarrow> jobject" where
  "without_reserved_projection_marker response = dpop response LOCAL_PROJECTION_EXTENSION"

section \<open>Messages for the model\<close>

fun inject_suffix :: "json list \<Rightarrow> json list option" where
  "inject_suffix [] = None"
| "inject_suffix (v # ms) =
     (case v of
        JObj msg \<Rightarrow>
          (if get msg ''role'' = JStr ''system'' then
             (case get msg ''content'' of
                JStr content \<Rightarrow>
                  Some (JObj (if contains HARNESS_SYSTEM_SUFFIX content then msg
                              else dset msg ''content'' (JStr (content @ HARNESS_SYSTEM_SUFFIX))) # ms)
              | _ \<Rightarrow> map_option (\<lambda>r. v # r) (inject_suffix ms))
           else map_option (\<lambda>r. v # r) (inject_suffix ms))
      | _ \<Rightarrow> map_option (\<lambda>r. v # r) (inject_suffix ms))"

definition user_message :: "string \<Rightarrow> json" where
  "user_message content = JObj [(''role'', JStr ''user''), (''content'', JStr content)]"

definition inject_harness :: "json list \<Rightarrow> agent_harness \<Rightarrow> bool \<Rightarrow> json list" where
  "inject_harness messages h is_degraded =
     (case inject_suffix messages of
        Some ms \<Rightarrow> ms
      | None \<Rightarrow> JObj [(''role'', JStr ''system''), (''content'', JStr (strip HARNESS_SYSTEM_SUFFIX))] # messages)
     @ [user_message (render h @ (if is_degraded
          then '' Transcript state is degraded due to incomplete or invalid call/result pairing.'' else []))]"

definition response_message :: "jobject \<Rightarrow> jobject outcome" where
  "response_message response =
     (case get response ''choices'' of
        JArr [JObj choice] \<Rightarrow>
          (case get choice ''message'' of
             JObj msg \<Rightarrow> Inr msg
           | _ \<Rightarrow> upstream_fails ''upstream_malformed_completion'')
      | _ \<Rightarrow> upstream_fails ''upstream_malformed_completion'')"

text \<open>The response after \<open>message["content"] = content\<close>, which mutates it in place.\<close>

definition set_content :: "jobject \<Rightarrow> string \<Rightarrow> jobject" where
  "set_content response content =
     (case get response ''choices'' of
        JArr [JObj choice] \<Rightarrow>
          (case get choice ''message'' of
             JObj msg \<Rightarrow> dset response ''choices''
               (JArr [JObj (dset choice ''message'' (JObj (dset msg ''content'' (JStr content))))])
           | _ \<Rightarrow> response)
      | _ \<Rightarrow> response)"

definition assistant_turn :: "jobject \<Rightarrow> json list \<Rightarrow> json" where
  "assistant_turn msg calls =
     JObj [(''role'', JStr ''assistant''),
           (''content'', if truthy (get msg ''content'') then get msg ''content'' else JStr []),
           (''tool_calls'', JArr calls)]"

definition withheld_text :: string where
  "withheld_text = json_dumps (JObj
     [(''shiftedx_harness'', JStr ''response_withheld_due_to_blocked_sibling''),
      (''instruction'', JStr ''Reissue this call in a separate safe turn if it is still needed.'')])"

definition rejection_message :: "(nat, string) dict \<Rightarrow> nat \<Rightarrow> json \<Rightarrow> json" where
  "rejection_message rej i raw =
     (let call_id = (case raw of JObj call \<Rightarrow>
            (case get call ''id'' of JStr c \<Rightarrow> if c = [] then None else Some c | _ \<Rightarrow> None) | _ \<Rightarrow> None)
      in JObj [(''role'', JStr ''tool''),
               (''tool_call_id'', JStr (case call_id of Some c \<Rightarrow> c
                  | None \<Rightarrow> ''shiftedx-invalid-'' @ dec_digits i)),
               (''content'', JStr (case dget rej i of Some t \<Rightarrow> t | None \<Rightarrow> withheld_text))])"

text \<open>The text of the content: not a string is an empty text or its JSON.\<close>

definition terminal_content :: "jobject \<Rightarrow> string" where
  "terminal_content msg =
     (case get msg ''content'' of JStr s \<Rightarrow> s | JNull \<Rightarrow> [] | v \<Rightarrow> json_dumps v)"

section \<open>The policy loop\<close>

text \<open>
  \<open>rn_counts\<close> is the snapshot of corrections, blocked duplicates and blocked stalls;
  \<open>rn_sent\<close> the payloads handed to upstream, each with its phase.
\<close>

record run =
  rn_harness :: agent_harness
  rn_messages :: "json list"
  rn_calls :: nat
  rn_retries :: nat
  rn_phase :: "capability_phase option"
  rn_sent :: "(capability_phase option \<times> jobject) list"
  rn_counts :: "nat \<times> nat \<times> nat"

type_synonym upstream = "nat \<Rightarrow> jobject \<Rightarrow> jobject outcome"

definition intervention_counts :: "agent_harness \<Rightarrow> nat \<times> nat \<times> nat" where
  "intervention_counts h = (terminal_corrections h, blocked_duplicates h, blocked_stalls h)"

definition snapshot :: "run \<Rightarrow> run" where
  "snapshot st = st\<lparr>rn_counts := intervention_counts (rn_harness st)\<rparr>"

definition retry_exhausted :: "'a outcome" where
  "retry_exhausted = refuse 502 ''harness_retry_exhausted''
     ''The harness could not obtain a safe response within configured bounds.''"

text \<open>\<open>harness.terminal_corrections >= 2 or internal_retries >= max_internal_retries\<close>.\<close>

definition corrections_used_up :: "settings \<Rightarrow> run \<Rightarrow> bool" where
  "corrections_used_up s st \<longleftrightarrow>
     2 \<le> terminal_corrections (rn_harness st) \<or> max_internal_retries s \<le> rn_retries st"

text \<open>A retry that appends messages and a correction of the given issue.\<close>

definition correct_with :: "json list \<Rightarrow> string \<Rightarrow> run \<Rightarrow> run" where
  "correct_with ms issue st =
     (let (h, txt) = correction (rn_harness st) issue in
      snapshot (st\<lparr>rn_harness := h, rn_retries := Suc (rn_retries st),
                   rn_messages := rn_messages st @ ms @ [user_message txt]\<rparr>))"

text \<open>The branch of a response that proposes tool calls.\<close>

definition handle_calls ::
  "chat_service \<Rightarrow> run \<Rightarrow> jobject \<Rightarrow> jobject \<Rightarrow> json list \<Rightarrow> (run, jobject outcome) attempt_result" where
  "handle_calls cs st response msg calls =
     (if rn_phase st = Some Finalization then
        (if corrections_used_up (cs_settings cs) st then Finished retry_exhausted st
         else Retry (correct_with [] ''The finalization response cannot contain tool calls.'' st))
      else (case rejected_results calls (rn_harness st) (cs_denied_tools cs) of
        Inl e \<Rightarrow> Finished (Inl (Unhandled e)) st
      | Inr (h, rej) \<Rightarrow>
          (let st' = snapshot (st\<lparr>rn_harness := h\<rparr>) in
           if rej = [] then Finished (Inr (without_reserved_projection_marker response)) st'
           else if max_internal_retries (cs_settings cs) \<le> rn_retries st' then Finished retry_exhausted st'
           else Retry (snapshot (st'\<lparr>rn_retries := Suc (rn_retries st'),
                  rn_messages := rn_messages st' @ [assistant_turn msg calls]
                    @ map (\<lambda>(i, c). rejection_message rej i c) (enumerate 0 calls)\<rparr>)))))"

text \<open>The branch of a terminal answer; a normalised content is written back to the response.\<close>

definition handle_terminal ::
  "chat_service \<Rightarrow> run \<Rightarrow> jobject \<Rightarrow> jobject \<Rightarrow> (run, jobject outcome) attempt_result" where
  "handle_terminal cs st response msg =
     (case normalize_bare_json (terminal_content msg) of
        Inl e \<Rightarrow> Finished (Inl (Unhandled e)) st
      | Inr (content, changed) \<Rightarrow>
          (case terminal_issue (rn_harness st) content of
             Inl e \<Rightarrow> Finished (Inl (Unhandled e)) st
           | Inr None \<Rightarrow>
               Finished (Inr (without_reserved_projection_marker
                  (if changed then set_content response content else response))) st
           | Inr (Some issue) \<Rightarrow>
               (if corrections_used_up (cs_settings cs) st then Finished retry_exhausted st
                else Retry (correct_with
                  [JObj [(''role'', JStr ''assistant''), (''content'', JStr content)]] issue st))))"

definition attempt_payload :: "plan \<Rightarrow> run \<Rightarrow> capability_phase option \<Rightarrow> jobject" where
  "attempt_payload pl st phase =
     (let payload = outbound_payload (pl_forwarded pl) (rn_messages st) phase in
      if force_finalize (rn_harness st) \<and> \<not> pl_split pl
      then dset payload ''tool_choice'' (JStr ''none'') else payload)"

definition attempt_phase :: "plan \<Rightarrow> run \<Rightarrow> capability_phase option" where
  "attempt_phase pl st =
     (if pl_split pl \<and> force_finalize (rn_harness st) then Some Finalization else rn_phase st)"

text \<open>What happens to a response: its message is proposed calls or a terminal answer.\<close>

definition handle_response ::
  "chat_service \<Rightarrow> run \<Rightarrow> jobject \<Rightarrow> (run, jobject outcome) attempt_result" where
  "handle_response cs st response =
     (case response_message response of
        Inl f \<Rightarrow> Finished (Inl f) st
      | Inr msg \<Rightarrow>
          (if truthy (get msg ''tool_calls'') then
             (case get msg ''tool_calls'' of
                JArr calls \<Rightarrow> handle_calls cs st response msg calls
              | _ \<Rightarrow> Finished (upstream_fails ''upstream_malformed_tool_calls'') st)
           else handle_terminal cs st response msg))"

definition chat_attempt ::
  "chat_service \<Rightarrow> plan \<Rightarrow> upstream \<Rightarrow> run \<Rightarrow> (run, jobject outcome) attempt_result" where
  "chat_attempt cs pl up st =
     (let phase = attempt_phase pl st;
          payload = attempt_payload pl st phase;
          st1 = st\<lparr>rn_phase := phase, rn_sent := rn_sent st @ [(phase, payload)]\<rparr>
      in case up (rn_calls st) payload of
           Inl f \<Rightarrow> Finished (Inl f) st1
         | Inr response \<Rightarrow> handle_response cs (st1\<lparr>rn_calls := Suc (rn_calls st)\<rparr>) response)"

definition chat_loop ::
  "chat_service \<Rightarrow> plan \<Rightarrow> upstream \<Rightarrow> run \<Rightarrow> jobject outcome \<times> run" where
  "chat_loop cs pl up st =
     attempt_loop (chat_attempt cs pl up) retry_exhausted rn_calls (max_upstream_calls (cs_settings cs)) st"

section \<open>The opt-out loop\<close>

text \<open>The content after unwrapping, and whether it misses the contract.\<close>

definition terminal_schema_issue :: "jobject \<Rightarrow> schema_contract \<Rightarrow> (string \<times> string option) result" where
  "terminal_schema_issue msg contract =
     bind (normalize_bare_json (terminal_content msg)) (\<lambda>(content, changed).
     bind (bare_json_issue content (contract_keys contract) (contract_types contract)) (\<lambda>issue.
       Inr (content, issue)))"

definition off_attempt ::
  "settings \<Rightarrow> plan \<Rightarrow> upstream \<Rightarrow> run \<Rightarrow> (run, jobject outcome) attempt_result" where
  "off_attempt s pl up st =
     (let payload = outbound_payload (pl_forwarded pl) (rn_messages st) (rn_phase st);
          st1 = st\<lparr>rn_sent := rn_sent st @ [(rn_phase st, payload)]\<rparr>
      in case up (rn_calls st) payload of
           Inl f \<Rightarrow> Finished (Inl f) st1
         | Inr response \<Rightarrow>
           (let st2 = st1\<lparr>rn_calls := Suc (rn_calls st)\<rparr>;
                retry = (if max_internal_retries s \<le> rn_retries st2 then Finished retry_exhausted st2
                         else Retry (st2\<lparr>rn_retries := Suc (rn_retries st2)\<rparr>))
            in case response_message response of
                 Inl f \<Rightarrow> Finished (Inl f) st2
               | Inr msg \<Rightarrow>
                 (if truthy (get msg ''tool_calls'') then
                    (if \<not> is_list (get msg ''tool_calls'')
                     then Finished (upstream_fails ''upstream_malformed_tool_calls'') st2
                     else if rn_phase st2 = Some Acquisition
                     then Finished (Inr (without_reserved_projection_marker response)) st2
                     else retry)
                  else if rn_phase st2 = Some Acquisition then Retry (st2\<lparr>rn_phase := Some Finalization\<rparr>)
                  else (case terminal_schema_issue msg (pl_contract pl) of
                      Inl e \<Rightarrow> Finished (Inl (Unhandled e)) st2
                    | Inr (content, None) \<Rightarrow>
                        Finished (Inr (without_reserved_projection_marker
                          (if get msg ''content'' = JStr content then response
                           else set_content response content))) st2
                    | Inr (content, Some _) \<Rightarrow> retry))))"

definition off_loop :: "settings \<Rightarrow> plan \<Rightarrow> upstream \<Rightarrow> run \<Rightarrow> jobject outcome \<times> run" where
  "off_loop s pl up st =
     attempt_loop (off_attempt s pl up) retry_exhausted rn_calls (max_upstream_calls s) st"

section \<open>Telemetry\<close>

definition self_profile :: string where "self_profile = ''shiftedx-harness-v1''"

definition telemetry :: "agent_harness \<Rightarrow> nat \<Rightarrow> reconstruction \<Rightarrow> nat \<Rightarrow> nat \<Rightarrow> bool \<Rightarrow> policy_telemetry" where
  "telemetry h calls rebuilt projections avoided extension_used =
     \<lparr>t_profile = self_profile, t_blocked_duplicates = blocked_duplicates h,
      t_blocked_stalls = blocked_stalls h, t_corrections = terminal_corrections h,
      t_upstream_calls = calls, t_receipt_projections = projections, t_upstream_calls_avoided = avoided,
      t_degraded_state = degraded rebuilt, t_policy_extensions_used = (if extension_used then 1 else 0)\<rparr>"

definition off_telemetry :: "nat \<Rightarrow> bool \<Rightarrow> policy_telemetry" where
  "off_telemetry calls extension_used =
     \<lparr>t_profile = ''off'', t_blocked_duplicates = 0, t_blocked_stalls = 0, t_corrections = 0,
      t_upstream_calls = calls, t_receipt_projections = 0, t_upstream_calls_avoided = 0,
      t_degraded_state = False, t_policy_extensions_used = (if extension_used then 1 else 0)\<rparr>"

section \<open>A whole request\<close>

text \<open>The log of a request: what went upstream, and the counts the error handler would read.\<close>

record run_log =
  lg_sent :: "(capability_phase option \<times> jobject) list"
  lg_counts :: "nat \<times> nat \<times> nat"

definition quiet :: run_log where
  "quiet = \<lparr>lg_sent = [], lg_counts = (0, 0, 0)\<rparr>"

definition log_of :: "run \<Rightarrow> run_log" where
  "log_of st = \<lparr>lg_sent = rn_sent st, lg_counts = rn_counts st\<rparr>"

definition initial_phase :: "plan \<Rightarrow> reconstruction \<Rightarrow> capability_phase option" where
  "initial_phase pl rebuilt =
     (let h = r_harness rebuilt in
      if \<not> pl_split pl then None
      else if get (pl_forwarded pl) ''tool_choice'' = JStr ''none'' \<and> receipts h \<noteq> []
        \<and> r_status (last (receipts h)) = Success \<and> \<not> degraded rebuilt \<and> \<not> pending_verification h
        \<and> open_failures h = [] \<and> \<not> last_action_blocked h
      then Some Finalization else Some Acquisition)"

definition messages_of :: "plan \<Rightarrow> json list" where
  "messages_of pl = (case get (pl_forwarded pl) ''messages'' of JArr ms \<Rightarrow> ms | _ \<Rightarrow> [])"

definition start_run :: "plan \<Rightarrow> reconstruction \<Rightarrow> run" where
  "start_run pl rebuilt =
     \<lparr>rn_harness = r_harness rebuilt,
      rn_messages = inject_harness (messages_of pl) (r_harness rebuilt) (degraded rebuilt),
      rn_calls = 0, rn_retries = 0, rn_phase = initial_phase pl rebuilt, rn_sent = [],
      rn_counts = intervention_counts (r_harness rebuilt)\<rparr>"

definition available_tools_of :: "plan \<Rightarrow> string set" where
  "available_tools_of pl =
     set (map (\<lambda>t. case t of JObj tool \<Rightarrow> (case tool_name tool of Inr n \<Rightarrow> n | Inl _ \<Rightarrow> []) | _ \<Rightarrow> [])
       (pl_tools pl))"

definition requires_receipt :: "chat_service \<Rightarrow> plan \<Rightarrow> bool" where
  "requires_receipt cs pl \<longleftrightarrow> pl_tools pl \<noteq> []
     \<and> (case pl_receipt_override pl of
          None \<Rightarrow> require_receipt_when_tools_present (cs_settings cs) | Some b \<Rightarrow> b)"

definition rebuild_request :: "chat_service \<Rightarrow> plan \<Rightarrow> reconstruction result" where
  "rebuild_request cs pl =
     reconstruct (JArr (messages_of pl)) (available_tools_of pl) (pl_roles pl) (pl_contract pl) (requires_receipt cs pl)"

text \<open>The request with the harness: projection first, then the loop.\<close>

definition complete_with_harness ::
  "chat_service \<Rightarrow> plan \<Rightarrow> upstream \<Rightarrow> string \<Rightarrow> int \<Rightarrow> chat_result outcome \<times> run_log" where
  "complete_with_harness cs pl up uid created =
     (case rebuild_request cs pl of
        Inl (ValueError msg) \<Rightarrow> (refuse 400 ''invalid_messages'' msg, quiet)
      | Inl e \<Rightarrow> (Inl (Unhandled e), quiet)
      | Inr rebuilt \<Rightarrow>
          (let st = start_run pl rebuilt in
           case project_latest_if_current (messages_of pl) rebuilt of
             Inl e \<Rightarrow> (Inl (Unhandled e), log_of st)
           | Inr (Some content) \<Rightarrow>
               (Inr \<lparr>cr_body = projected_response uid created (py_str (get (pl_forwarded pl) ''model'')) content,
                     cr_telemetry = telemetry (r_harness rebuilt) 0 rebuilt 1 1 (pl_extension_used pl)\<rparr>,
                log_of st)
           | Inr None \<Rightarrow>
               (let (out, st') = chat_loop cs pl up st in
                (bind out (\<lambda>body. Inr \<lparr>cr_body = body,
                   cr_telemetry = telemetry (rn_harness st') (rn_calls st') rebuilt 0 0 (pl_extension_used pl)\<rparr>),
                 log_of st'))))"

text \<open>The request that opted out: one call, or the two grammar phases.\<close>

definition complete_without_harness ::
  "chat_service \<Rightarrow> plan \<Rightarrow> upstream \<Rightarrow> chat_result outcome \<times> run_log" where
  "complete_without_harness cs pl up =
     (let st = \<lparr>rn_harness = new_harness [] {} None [] False False (pl_roles pl),
                rn_messages = messages_of pl, rn_calls = 0, rn_retries = 0,
                rn_phase = Some Acquisition, rn_sent = [], rn_counts = (0, 0, 0)\<rparr>;
          result = (\<lambda>n body. \<lparr>cr_body = body, cr_telemetry = off_telemetry n (pl_extension_used pl)\<rparr>) in
      if pl_split pl then
        (let (out, st') = off_loop (cs_settings cs) pl up st in
         (bind out (\<lambda>body. Inr (result (rn_calls st') body)), log_of st'))
      else
        (bind (up 0 (pl_forwarded pl)) (\<lambda>response.
           Inr (result 1 (without_reserved_projection_marker response))),
         \<lparr>lg_sent = [(None, pl_forwarded pl)], lg_counts = (0, 0, 0)\<rparr>))"

text \<open>
  \<open>probe\<close> is the answer of \<open>upstream.combined_tool_terminal_schema_supported()\<close>, asked only when
  the combined capability is used.
\<close>

definition complete ::
  "chat_service \<Rightarrow> upstream \<Rightarrow> bool outcome \<Rightarrow> string \<Rightarrow> int \<Rightarrow> jobject \<Rightarrow> bool \<Rightarrow> bool \<Rightarrow> bool
   \<Rightarrow> server_cache_namespace option \<Rightarrow> chat_result outcome \<times> run_log" where
  "complete cs up probe uid created payload harness_enabled extensions_allowed trusted_used namespace =
     (case bind (gate_request cs payload harness_enabled extensions_allowed namespace)
             (\<lambda>_. make_plan cs payload extensions_allowed trusted_used) of
        Inl f \<Rightarrow> (Inl f, quiet)
      | Inr pl \<Rightarrow>
          (case (if pl_combined pl then probe else Inr True) of
             Inl f \<Rightarrow> (Inl f, quiet)
           | Inr False \<Rightarrow>
               (refuse 503 ''upstream_combined_capability_unavailable''
                  ''The configured upstream combined capability is unavailable.'', quiet)
           | Inr True \<Rightarrow>
               (if harness_enabled then complete_with_harness cs pl up uid created
                else complete_without_harness cs pl up)))"

end
