(* ===== verification/Chat_Laws.thy ===== *)
theory Chat_Laws
  imports Chat_Loop Transcript_Laws
begin

text \<open>
  What the policy loop guarantees: it is bounded, it never changes the ledger it was started
  with, it releases only calls and answers the harness admits, and the counts the error handler
  reads are those of the harness.
\<close>

section \<open>The parts of the harness a request cannot change\<close>

definition same_ledger :: "agent_harness \<Rightarrow> agent_harness \<Rightarrow> bool" where
  "same_ledger h h' \<longleftrightarrow> receipts h' = receipts h \<and> epoch h' = epoch h \<and> roles h' = roles h
     \<and> available_tools h' = available_tools h \<and> open_failures h' = open_failures h
     \<and> pending_verification h' = pending_verification h
     \<and> required_json_keys h' = required_json_keys h \<and> required_json_types h' = required_json_types h
     \<and> enforce_failed_execution_claim h' = enforce_failed_execution_claim h
     \<and> require_receipt h' = require_receipt h
     \<and> investigations_since_failed_verification h' = investigations_since_failed_verification h"

lemma same_ledger_refl [simp]: "same_ledger h h"
  by (simp add: same_ledger_def)

lemma same_ledger_trans: "same_ledger h h' \<Longrightarrow> same_ledger h' h'' \<Longrightarrow> same_ledger h h''"
  by (simp add: same_ledger_def)

lemma same_ledger_updates [simp]:
  "same_ledger h (h\<lparr>last_action_blocked := b\<rparr>)" "same_ledger h (h\<lparr>force_finalize := b\<rparr>)"
  by (simp_all add: same_ledger_def)

lemma same_ledger_stalled: "stalled_result h n = (h', r) \<Longrightarrow> same_ledger h h'"
  by (auto simp: stalled_result_def same_ledger_def split: if_splits)

lemma same_ledger_blocked: "blocked_result h p = (h', t) \<Longrightarrow> same_ledger h h'"
  by (auto simp: blocked_result_def same_ledger_def Let_def)

lemma same_ledger_correction: "correction h i = (h', t) \<Longrightarrow> same_ledger h h'"
  by (auto simp: correction_def same_ledger_def)

lemma duplicate_same_ledger: "same_ledger h h' \<Longrightarrow> duplicate h' n a = duplicate h n a"
  by (simp add: duplicate_def same_ledger_def)

lemma stall_same_ledger: "same_ledger h h' \<Longrightarrow> stall_blocks h' n = stall_blocks h n"
  by (simp add: stall_blocks_def same_ledger_def verification_failure_open_def)

lemma corrections_stalled: "stalled_result h n = (h', r) \<Longrightarrow> terminal_corrections h' = terminal_corrections h"
  by (auto simp: stalled_result_def split: if_splits)

lemma corrections_blocked: "blocked_result h p = (h', t) \<Longrightarrow> terminal_corrections h' = terminal_corrections h"
  by (auto simp: blocked_result_def Let_def)

lemma correction_counts: "correction h i = (h', t) \<Longrightarrow> terminal_corrections h' = Suc (terminal_corrections h)"
  by (auto simp: correction_def)

section \<open>Rejections\<close>

text \<open>A proposed call the harness and the server let through.\<close>

definition permitted :: "string set \<Rightarrow> agent_harness \<Rightarrow> json \<Rightarrow> bool" where
  "permitted denied h raw \<longleftrightarrow> (\<exists>call name args. raw = JObj call \<and> call_arguments call = Inr (name, args)
     \<and> name \<notin> denied \<and> \<not> stall_blocks h name \<and> duplicate h name args = None)"

lemma dset_nonempty [simp]: "dset d k v \<noteq> []"
  by (induction d k v rule: dset.induct) auto

lemma stalled_result_None_iff: "(\<exists>h'. stalled_result h n = (h', None)) \<longleftrightarrow> \<not> stall_blocks h n"
  by (auto simp: stalled_result_def)

lemma stalled_result_unchanged: "stalled_result h n = (h', None) \<Longrightarrow> h' = h \<and> \<not> stall_blocks h n"
  by (auto simp: stalled_result_def split: if_splits)

lemma harness_rejection_cases:
  obtains (stall) h msg where "stalled_result (rj_harness st) n = (h, Some msg)" "stall_blocks (rj_harness st) n"
      "harness_rejection st i n a = st\<lparr>rj_harness := h, rj_can_finalize := False, rj_rejected := dset (rj_rejected st) i msg\<rparr>"
  | (pass) "\<not> stall_blocks (rj_harness st) n" "duplicate (rj_harness st) n a = None" "harness_rejection st i n a = st"
  | (dup) prior h msg where "\<not> stall_blocks (rj_harness st) n" "duplicate (rj_harness st) n a = Some prior"
      "blocked_result (rj_harness st) prior = (h, msg)"
      "harness_rejection st i n a = st\<lparr>rj_harness := h,
         rj_can_finalize := (rj_can_finalize st \<and> r_status prior = Success \<and> \<not> pending_verification h \<and> open_failures h = []),
         rj_rejected := dset (rj_rejected st) i msg\<rparr>"
proof -
  obtain h r where s: "stalled_result (rj_harness st) n = (h, r)" by fastforce
  show thesis
  proof (cases r)
    case (Some msg)
    with s stalled_result_reads(1) [of "rj_harness st" n h msg] show thesis
      by (intro stall [of h msg]) (auto simp: harness_rejection_def)
  next
    case None
    with s stalled_result_unchanged have h: "h = rj_harness st" "\<not> stall_blocks (rj_harness st) n" by blast+
    show thesis
    proof (cases "duplicate (rj_harness st) n a")
      case d: None
      show thesis by (rule pass [OF h(2) d]) (simp add: harness_rejection_def s None h(1) d)
    next
      case (Some prior)
      obtain h' msg where "blocked_result (rj_harness st) prior = (h', msg)" by fastforce
      with Some h s None show thesis by (intro dup [of prior h' msg]) (auto simp: harness_rejection_def)
    qed
  qed
qed

lemma note_proposed_ledger:
  assumes "note_proposed denied st ic = Inr st'"
  shows "same_ledger (rj_harness st) (rj_harness st')
    \<and> terminal_corrections (rj_harness st') = terminal_corrections (rj_harness st)
    \<and> (if permitted denied (rj_harness st) (snd ic) then st' = st
       else rj_rejected st' \<noteq> [])"
proof -
  obtain i raw where ic: "ic = (i, raw)" by (cases ic)
  show ?thesis
  proof (cases "\<exists>call name args. raw = JObj call \<and> call_arguments call = Inr (name, args) \<and> name \<notin> denied")
    case False
    then have "\<exists>msg. st' = reject_call st i msg"
      using assms unfolding ic by (auto simp: note_proposed_def split: json.splits sum.splits prod.splits if_splits)
    with False show ?thesis unfolding ic by (auto simp: reject_call_def permitted_def)
  next
    case True
    then obtain call n a where c: "raw = JObj call" "call_arguments call = Inr (n, a)" "n \<notin> denied" by blast
    with assms have st': "st' = harness_rejection st i n a" by (simp add: ic note_proposed_def)
    have perm: "permitted denied (rj_harness st) raw
        \<longleftrightarrow> \<not> stall_blocks (rj_harness st) n \<and> duplicate (rj_harness st) n a = None"
      using c by (auto simp: permitted_def)
    show ?thesis
    proof (cases rule: harness_rejection_cases [of st n i a])
      case (stall h msg)
      with perm st' show ?thesis by (auto simp: ic dest: same_ledger_stalled corrections_stalled)
    next
      case pass
      with perm st' show ?thesis by (simp add: ic)
    next
      case (dup prior h msg)
      with perm st' show ?thesis by (auto simp: ic dest: same_ledger_blocked corrections_blocked)
    qed
  qed
qed

lemma run_note_proposed:
  assumes "run_steps (note_proposed denied) st ics = Inr st'"
  shows "same_ledger (rj_harness st) (rj_harness st')
    \<and> terminal_corrections (rj_harness st') = terminal_corrections (rj_harness st)
    \<and> (rj_rejected st' = [] \<longrightarrow> rj_rejected st = [] \<and> rj_harness st' = rj_harness st
        \<and> (\<forall>ic \<in> set ics. permitted denied (rj_harness st) (snd ic)))"
  using assms
proof (induction ics arbitrary: st)
  case Nil
  then show ?case by simp
next
  case (Cons ic ics)
  then obtain st1 where s: "note_proposed denied st ic = Inr st1" "run_steps (note_proposed denied) st1 ics = Inr st'"
    by (auto split: sum.splits)
  from note_proposed_ledger [OF s(1)] Cons.IH [OF s(2)] show ?case
    by (auto intro: same_ledger_trans split: if_splits)
qed

lemma rejected_results_laws:
  assumes "rejected_results calls h denied = Inr (h', rej)"
  shows "same_ledger h h' \<and> terminal_corrections h' = terminal_corrections h
    \<and> (rej = [] \<longrightarrow> (\<forall>c \<in> set calls. permitted denied h c))"
proof -
  from assms obtain st where st: "run_steps (note_proposed denied) \<lparr>rj_harness = h, rj_can_finalize = True, rj_rejected = []\<rparr>
      (enumerate 0 calls) = Inr st" "same_ledger (rj_harness st) h'" "terminal_corrections h' = terminal_corrections (rj_harness st)"
      "rej = rj_rejected st"
    by (auto simp: rejected_results_def bind_Inr_iff)
  have "set (map snd (enumerate 0 calls)) = set calls" by simp
  then have mem: "\<exists>i. (i, c) \<in> set (enumerate 0 calls)" if "c \<in> set calls" for c
    using that by (metis imageE list.set_map prod.collapse)
  from run_note_proposed [OF st(1)] st(2-4) mem show ?thesis by (fastforce intro: same_ledger_trans)
qed

section \<open>One attempt\<close>

lemma snapshot_fields [simp]:
  "rn_harness (snapshot st) = rn_harness st" "rn_calls (snapshot st) = rn_calls st"
  "rn_retries (snapshot st) = rn_retries st" "rn_phase (snapshot st) = rn_phase st"
  "rn_sent (snapshot st) = rn_sent st" "rn_messages (snapshot st) = rn_messages st"
  "rn_counts (snapshot st) = intervention_counts (rn_harness st)"
  by (simp_all add: snapshot_def)

lemma correct_with_fields:
  "rn_calls (correct_with ms i st) = rn_calls st" "rn_retries (correct_with ms i st) = Suc (rn_retries st)"
  "rn_sent (correct_with ms i st) = rn_sent st" "rn_phase (correct_with ms i st) = rn_phase st"
  "same_ledger (rn_harness st) (rn_harness (correct_with ms i st))"
  "terminal_corrections (rn_harness (correct_with ms i st)) = Suc (terminal_corrections (rn_harness st))"
  "rn_counts (correct_with ms i st) = intervention_counts (rn_harness (correct_with ms i st))"
  using same_ledger_correction [of "rn_harness st" i] correction_counts [of "rn_harness st" i]
  by (simp_all add: correct_with_def split: prod.splits)

text \<open>What the handling of a response keeps; \<open>h0\<close> is the harness the loop was started with.\<close>

definition run_ok :: "chat_service \<Rightarrow> agent_harness \<Rightarrow> run \<Rightarrow> bool" where
  "run_ok cs h0 st \<longleftrightarrow> same_ledger h0 (rn_harness st)
     \<and> rn_counts st = intervention_counts (rn_harness st)
     \<and> terminal_corrections (rn_harness st) \<le> max 2 (terminal_corrections h0)
     \<and> rn_retries st \<le> max_internal_retries (cs_settings cs)"

text \<open>The reasons for which a body is released.\<close>

definition released_calls :: "chat_service \<Rightarrow> agent_harness \<Rightarrow> jobject \<Rightarrow> jobject \<Rightarrow> jobject \<Rightarrow> bool" where
  "released_calls cs h0 response msg body \<longleftrightarrow>
     (\<exists>calls. get msg ''tool_calls'' = JArr calls \<and> calls \<noteq> [] \<and> body = without_reserved_projection_marker response
        \<and> (\<forall>c \<in> set calls. permitted (cs_denied_tools cs) h0 c))"

definition released_answer :: "agent_harness \<Rightarrow> jobject \<Rightarrow> jobject \<Rightarrow> jobject \<Rightarrow> bool" where
  "released_answer h response msg body \<longleftrightarrow>
     \<not> truthy (get msg ''tool_calls'')
     \<and> (\<exists>content changed. normalize_bare_json (terminal_content msg) = Inr (content, changed)
          \<and> terminal_issue h content = Inr None
          \<and> body = without_reserved_projection_marker (if changed then set_content response content else response))"

definition released :: "chat_service \<Rightarrow> agent_harness \<Rightarrow> run \<Rightarrow> jobject \<Rightarrow> jobject \<Rightarrow> bool" where
  "released cs h0 st response body \<longleftrightarrow> (\<exists>msg. response_message response = Inr msg
     \<and> (released_calls cs h0 response msg body \<or> released_answer (rn_harness st) response msg body))"

lemma permitted_same_ledger: "same_ledger h h' \<Longrightarrow> permitted denied h' c = permitted denied h c"
  by (simp add: permitted_def duplicate_same_ledger stall_same_ledger)

lemma handle_calls_laws:
  assumes ok: "run_ok cs h0 st" and m: "response_message response = Inr msg" "get msg ''tool_calls'' = JArr calls" "calls \<noteq> []"
  shows "handle_calls cs st response msg calls = Retry st' \<Longrightarrow>
      run_ok cs h0 st' \<and> rn_calls st' = rn_calls st \<and> rn_sent st' = rn_sent st \<and> rn_retries st' = Suc (rn_retries st)"
    and "handle_calls cs st response msg calls = Finished r st' \<Longrightarrow>
      run_ok cs h0 st' \<and> rn_calls st' = rn_calls st \<and> rn_sent st' = rn_sent st \<and> rn_retries st' = rn_retries st
      \<and> (\<forall>body. r = Inr body \<longrightarrow> released cs h0 st' response body)"
proof -
  have led: "same_ledger h0 (rn_harness st)" using ok by (simp add: run_ok_def)
  have rej: "same_ledger h0 h" "terminal_corrections h = terminal_corrections (rn_harness st)"
    "rej = [] \<Longrightarrow> \<forall>c \<in> set calls. permitted (cs_denied_tools cs) h0 c"
    if "rejected_results calls (rn_harness st) (cs_denied_tools cs) = Inr (h, rej)" for h rej
    using rejected_results_laws [OF that] led permitted_same_ledger [OF led]
    by (auto intro: same_ledger_trans)
  show "handle_calls cs st response msg calls = Retry st' \<Longrightarrow>
      run_ok cs h0 st' \<and> rn_calls st' = rn_calls st \<and> rn_sent st' = rn_sent st \<and> rn_retries st' = Suc (rn_retries st)"
    using ok rej correct_with_fields(5)
    by (auto simp: handle_calls_def run_ok_def corrections_used_up_def Let_def correct_with_fields(1-4,6,7)
        split: if_splits sum.splits prod.splits intro: same_ledger_trans)
  assume f: "handle_calls cs st response msg calls = Finished r st'"
  have "run_ok cs h0 st' \<and> rn_calls st' = rn_calls st \<and> rn_sent st' = rn_sent st \<and> rn_retries st' = rn_retries st"
    using f ok rej by (auto simp: handle_calls_def run_ok_def Let_def split: if_splits sum.splits prod.splits)
  moreover have "released cs h0 st' response body" if "r = Inr body" for body
    using f that m rej unfolding released_def released_calls_def
    by (auto simp: handle_calls_def retry_exhausted_def Let_def split: if_splits sum.splits prod.splits)
  ultimately show "run_ok cs h0 st' \<and> rn_calls st' = rn_calls st \<and> rn_sent st' = rn_sent st \<and> rn_retries st' = rn_retries st
      \<and> (\<forall>body. r = Inr body \<longrightarrow> released cs h0 st' response body)" by blast
qed

lemma handle_terminal_laws:
  assumes ok: "run_ok cs h0 st" and m: "response_message response = Inr msg" "\<not> truthy (get msg ''tool_calls'')"
  shows "handle_terminal cs st response msg = Retry st' \<Longrightarrow>
      run_ok cs h0 st' \<and> rn_calls st' = rn_calls st \<and> rn_sent st' = rn_sent st \<and> rn_retries st' = Suc (rn_retries st)"
    and "handle_terminal cs st response msg = Finished r st' \<Longrightarrow>
      st' = st \<and> (\<forall>body. r = Inr body \<longrightarrow> released cs h0 st' response body)"
proof -
  show "handle_terminal cs st response msg = Retry st' \<Longrightarrow>
      run_ok cs h0 st' \<and> rn_calls st' = rn_calls st \<and> rn_sent st' = rn_sent st \<and> rn_retries st' = Suc (rn_retries st)"
    using ok correct_with_fields(5)
    by (auto simp: handle_terminal_def run_ok_def corrections_used_up_def correct_with_fields(1-4,6,7)
        split: if_splits sum.splits prod.splits option.splits intro: same_ledger_trans)
  assume f: "handle_terminal cs st response msg = Finished r st'"
  then have "st' = st" by (auto simp: handle_terminal_def split: if_splits sum.splits prod.splits option.splits)
  moreover have "released cs h0 st response body" if "r = Inr body" for body
  proof -
    from f that obtain content changed where c: "normalize_bare_json (terminal_content msg) = Inr (content, changed)"
      "terminal_issue (rn_harness st) content = Inr None"
      "body = without_reserved_projection_marker (if changed then set_content response content else response)"
      by (auto simp: handle_terminal_def retry_exhausted_def split: if_splits sum.splits prod.splits option.splits)
    with m(2) have "released_answer (rn_harness st) response msg body" unfolding released_answer_def by blast
    with m(1) show ?thesis unfolding released_def by blast
  qed
  ultimately show "st' = st \<and> (\<forall>body. r = Inr body \<longrightarrow> released cs h0 st' response body)" by blast
qed

lemma handle_response_laws:
  assumes ok: "run_ok cs h0 st"
  shows "handle_response cs st response = Retry st' \<Longrightarrow>
      run_ok cs h0 st' \<and> rn_calls st' = rn_calls st \<and> rn_sent st' = rn_sent st \<and> rn_retries st' = Suc (rn_retries st)"
    and "handle_response cs st response = Finished r st' \<Longrightarrow>
      run_ok cs h0 st' \<and> rn_calls st' = rn_calls st \<and> rn_sent st' = rn_sent st \<and> rn_retries st' = rn_retries st
      \<and> (\<forall>body. r = Inr body \<longrightarrow> released cs h0 st' response body)"
proof -
  show "handle_response cs st response = Retry st' \<Longrightarrow>
      run_ok cs h0 st' \<and> rn_calls st' = rn_calls st \<and> rn_sent st' = rn_sent st \<and> rn_retries st' = Suc (rn_retries st)"
    using handle_calls_laws(1) [OF ok] handle_terminal_laws(1) [OF ok]
    by (auto simp: handle_response_def split: sum.splits json.splits if_splits)
  assume f: "handle_response cs st response = Finished r st'"
  show "run_ok cs h0 st' \<and> rn_calls st' = rn_calls st \<and> rn_sent st' = rn_sent st \<and> rn_retries st' = rn_retries st
      \<and> (\<forall>body. r = Inr body \<longrightarrow> released cs h0 st' response body)"
  proof (cases "response_message response")
    case (Inl e)
    with f ok show ?thesis by (auto simp: handle_response_def)
  next
    case (Inr msg)
    show ?thesis
    proof (cases "truthy (get msg ''tool_calls'')")
      case True
      show ?thesis
      proof (cases "is_list (get msg ''tool_calls'')")
        case list: True
        then obtain calls where c: "get msg ''tool_calls'' = JArr calls" by (auto elim: is_list.elims)
        with True have "calls \<noteq> []" by simp
        from handle_calls_laws(2) [OF ok Inr c this] f Inr c True show ?thesis by (simp add: handle_response_def)
      next
        case False
        with f Inr True ok show ?thesis by (auto simp: handle_response_def split: json.splits)
      qed
    next
      case False
      with handle_terminal_laws(2) [OF ok Inr] f Inr ok show ?thesis by (auto simp: handle_response_def)
    qed
  qed
qed

section \<open>The loop\<close>

lemma handle_response_calls:
  "handle_response cs st response = Retry st' \<Longrightarrow> rn_calls st' = rn_calls st \<and> rn_phase st' = rn_phase st"
  "handle_response cs st response = Finished r st' \<Longrightarrow> rn_calls st' = rn_calls st"
proof -
  have c: "handle_calls cs st response msg calls = Retry st' \<Longrightarrow> rn_calls st' = rn_calls st \<and> rn_phase st' = rn_phase st"
    "handle_calls cs st response msg calls = Finished r st' \<Longrightarrow> rn_calls st' = rn_calls st" for msg calls
    by (auto simp: handle_calls_def correct_with_fields Let_def split: if_splits sum.splits prod.splits)
  have t: "handle_terminal cs st response msg = Retry st' \<Longrightarrow> rn_calls st' = rn_calls st \<and> rn_phase st' = rn_phase st"
    "handle_terminal cs st response msg = Finished r st' \<Longrightarrow> rn_calls st' = rn_calls st" for msg
    by (auto simp: handle_terminal_def correct_with_fields split: if_splits sum.splits prod.splits option.splits)
  show "handle_response cs st response = Retry st' \<Longrightarrow> rn_calls st' = rn_calls st \<and> rn_phase st' = rn_phase st"
    by (auto simp: handle_response_def split: sum.splits json.splits if_splits dest: c(1) t(1))
  show "handle_response cs st response = Finished r st' \<Longrightarrow> rn_calls st' = rn_calls st"
    by (auto simp: handle_response_def split: sum.splits json.splits if_splits dest: c(2) t(2))
qed

interpretation chat: counted_attempts "chat_attempt cs pl up" rn_calls for cs pl up
  by unfold_locales
    (auto simp: chat_attempt_def Let_def split: sum.splits dest: handle_response_calls)

text \<open>A payload of the loop is the request with other messages, cut to its phase.\<close>

definition proper_payload :: "plan \<Rightarrow> capability_phase option \<times> jobject \<Rightarrow> bool" where
  "proper_payload pl pp \<longleftrightarrow> (pl_split pl \<or> fst pp = None)
     \<and> (\<exists>msgs. snd pp = outbound_payload (pl_forwarded pl) msgs (fst pp)
          \<or> \<not> pl_split pl \<and> snd pp = dset (outbound_payload (pl_forwarded pl) msgs (fst pp)) ''tool_choice'' (JStr ''none''))"

definition loop_ok :: "chat_service \<Rightarrow> plan \<Rightarrow> agent_harness \<Rightarrow> run \<Rightarrow> bool" where
  "loop_ok cs pl h0 st \<longleftrightarrow> run_ok cs h0 st \<and> length (rn_sent st) = rn_calls st \<and> rn_calls st = rn_retries st
     \<and> (\<forall>pp \<in> set (rn_sent st). proper_payload pl pp) \<and> (pl_split pl \<or> rn_phase st = None)"

definition loop_done :: "chat_service \<Rightarrow> plan \<Rightarrow> upstream \<Rightarrow> agent_harness \<Rightarrow> jobject outcome \<Rightarrow> run \<Rightarrow> bool" where
  "loop_done cs pl up h0 r st \<longleftrightarrow> run_ok cs h0 st
     \<and> length (rn_sent st) \<le> Suc (max_internal_retries (cs_settings cs))
     \<and> length (rn_sent st) \<le> max_upstream_calls (cs_settings cs)
     \<and> (\<forall>pp \<in> set (rn_sent st). proper_payload pl pp)
     \<and> (\<forall>body. r = Inr body \<longrightarrow> rn_sent st \<noteq> [] \<and> rn_calls st = length (rn_sent st)
          \<and> (\<exists>response. up (length (rn_sent st) - 1) (snd (last (rn_sent st))) = Inr response
               \<and> released cs h0 st response body))"

lemma attempt_payload_proper:
  "pl_split pl \<or> rn_phase st = None \<Longrightarrow>
     proper_payload pl (attempt_phase pl st, attempt_payload pl st (attempt_phase pl st))
     \<and> (pl_split pl \<or> attempt_phase pl st = None)"
  by (auto simp: proper_payload_def attempt_payload_def attempt_phase_def Let_def)

lemma chat_attempt_laws:
  assumes "loop_ok cs pl h0 st" and guard: "rn_calls st < max_upstream_calls (cs_settings cs)"
  shows "chat_attempt cs pl up st = Retry st' \<Longrightarrow> loop_ok cs pl h0 st'"
    and "chat_attempt cs pl up st = Finished r st' \<Longrightarrow> loop_done cs pl up h0 r st'"
proof -
  define ph where "ph = attempt_phase pl st"
  define p where "p = attempt_payload pl st ph"
  define st1 where "st1 = st\<lparr>rn_phase := ph, rn_sent := rn_sent st @ [(ph, p)]\<rparr>"
  define st2 where "st2 = st1\<lparr>rn_calls := Suc (rn_calls st)\<rparr>"
  from assms(1) have ok: "run_ok cs h0 st" "length (rn_sent st) = rn_calls st" "rn_calls st = rn_retries st"
      "\<forall>pp \<in> set (rn_sent st). proper_payload pl pp" "pl_split pl \<or> rn_phase st = None"
    by (auto simp: loop_ok_def)
  have pp: "proper_payload pl (ph, p)" "pl_split pl \<or> ph = None"
    using attempt_payload_proper [OF ok(5)] by (simp_all add: p_def ph_def)
  have ok2: "run_ok cs h0 st1" "run_ok cs h0 st2" using ok(1) by (simp_all add: run_ok_def st1_def st2_def)
  have bound: "rn_retries st \<le> max_internal_retries (cs_settings cs)" using ok(1) by (simp add: run_ok_def)
  have c: "chat_attempt cs pl up st = (case up (rn_calls st) p of Inl f \<Rightarrow> Finished (Inl f) st1
      | Inr response \<Rightarrow> handle_response cs st2 response)"
    unfolding chat_attempt_def Let_def st2_def st1_def p_def ph_def by simp
  show "loop_ok cs pl h0 st'" if "chat_attempt cs pl up st = Retry st'"
  proof -
    from that c obtain response where r: "handle_response cs st2 response = Retry st'" by (auto split: sum.splits)
    from handle_response_laws(1) [OF ok2(2) r] handle_response_calls(1) [OF r] ok pp show ?thesis
      by (auto simp: loop_ok_def st1_def st2_def)
  qed
  show "loop_done cs pl up h0 r st'" if "chat_attempt cs pl up st = Finished r st'"
  proof (cases "up (rn_calls st) p")
    case (Inl f)
    with that c have "r = Inl f" "st' = st1" by auto
    with ok pp ok2(1) bound guard show ?thesis by (auto simp: loop_done_def st1_def)
  next
    case (Inr response)
    with that c have r: "handle_response cs st2 response = Finished r st'" by simp
    from handle_response_laws(2) [OF ok2(2) r] have st': "run_ok cs h0 st'" "rn_calls st' = Suc (rn_calls st)"
        "rn_sent st' = rn_sent st @ [(ph, p)]" "\<forall>body. r = Inr body \<longrightarrow> released cs h0 st' response body"
      by (simp_all add: st1_def st2_def)
    have "up (length (rn_sent st') - 1) (snd (last (rn_sent st'))) = Inr response"
      using Inr ok(2) by (simp add: st'(3))
    with st'(4) have "\<forall>body. r = Inr body \<longrightarrow> (\<exists>response. up (length (rn_sent st') - 1) (snd (last (rn_sent st'))) = Inr response
               \<and> released cs h0 st' response body)" by blast
    with st'(1,2) ok(2-4) pp(1) bound guard show ?thesis unfolding loop_done_def st'(3) by simp
  qed
qed

lemma chat_loop_laws:
  assumes "loop_ok cs pl h0 st" "rn_calls st \<le> max_upstream_calls (cs_settings cs)" "chat_loop cs pl up st = (r, st')"
  shows "loop_done cs pl up h0 r st'"
proof -
  let ?I = "\<lambda>st. loop_ok cs pl h0 st \<and> rn_calls st \<le> max_upstream_calls (cs_settings cs)"
  have "?I s'" if "?I s" "rn_calls s < max_upstream_calls (cs_settings cs)" "chat_attempt cs pl up s = Retry s'" for s s'
    using chat_attempt_laws(1) [OF _ that(2,3)] chat.retry_counts [OF that(3)] that(1,2) by simp
  moreover have "loop_done cs pl up h0 r s'"
    if "?I s" "rn_calls s < max_upstream_calls (cs_settings cs)" "chat_attempt cs pl up s = Finished r s'" for s r s'
    using that chat_attempt_laws(2) by blast
  moreover have "loop_done cs pl up h0 retry_exhausted s" if "?I s" "max_upstream_calls (cs_settings cs) \<le> rn_calls s" for s
    using that by (auto simp: loop_ok_def loop_done_def run_ok_def retry_exhausted_def)
  moreover have "?I st" using assms by simp
  ultimately show ?thesis
    using assms(3) unfolding chat_loop_def by (rule chat.loop_inv [where I = ?I and Q = "loop_done cs pl up h0"])
qed

section \<open>The opt-out loop\<close>

lemma off_attempt_calls:
  "off_attempt s pl up st = Retry st' \<Longrightarrow> rn_calls st' = Suc (rn_calls st)"
  "off_attempt s pl up st = Finished r st' \<Longrightarrow> rn_calls st' \<le> Suc (rn_calls st)"
  by (auto simp: off_attempt_def Let_def split: sum.splits if_splits prod.splits option.splits)

interpretation off: counted_attempts "off_attempt s pl up" rn_calls for s pl up
  by unfold_locales (auto dest: off_attempt_calls)

text \<open>Why the opt-out loop releases a body.\<close>

definition off_released :: "plan \<Rightarrow> capability_phase option \<Rightarrow> jobject \<Rightarrow> jobject \<Rightarrow> bool" where
  "off_released pl phase response body \<longleftrightarrow> (\<exists>msg. response_message response = Inr msg
     \<and> (phase = Some Acquisition \<and> truthy (get msg ''tool_calls'') \<and> body = without_reserved_projection_marker response
        \<or> phase \<noteq> Some Acquisition \<and> \<not> truthy (get msg ''tool_calls'')
          \<and> (\<exists>content. terminal_schema_issue msg (pl_contract pl) = Inr (content, None)
               \<and> body = without_reserved_projection_marker
                   (if get msg ''content'' = JStr content then response else set_content response content))))"

definition off_ok :: "plan \<Rightarrow> run \<Rightarrow> bool" where
  "off_ok pl st \<longleftrightarrow> length (rn_sent st) = rn_calls st \<and> (\<forall>pp \<in> set (rn_sent st). proper_payload pl pp)"

definition off_done :: "settings \<Rightarrow> plan \<Rightarrow> upstream \<Rightarrow> jobject outcome \<Rightarrow> run \<Rightarrow> bool" where
  "off_done s pl up r st \<longleftrightarrow> length (rn_sent st) \<le> max_upstream_calls s
     \<and> (\<forall>pp \<in> set (rn_sent st). proper_payload pl pp)
     \<and> (\<forall>body. r = Inr body \<longrightarrow> rn_sent st \<noteq> [] \<and> rn_calls st = length (rn_sent st)
          \<and> (\<exists>response. up (length (rn_sent st) - 1) (snd (last (rn_sent st))) = Inr response
               \<and> off_released pl (fst (last (rn_sent st))) response body))"

lemma off_attempt_laws:
  assumes "off_ok pl st" "rn_calls st < max_upstream_calls s" "pl_split pl"
  shows "off_attempt s pl up st = Retry st' \<Longrightarrow> off_ok pl st'"
    and "off_attempt s pl up st = Finished r st' \<Longrightarrow> off_done s pl up r st'"
proof -
  define p where "p = outbound_payload (pl_forwarded pl) (rn_messages st) (rn_phase st)"
  have pp: "proper_payload pl (rn_phase st, p)" using assms(3) by (auto simp: proper_payload_def p_def)
  show "off_attempt s pl up st = Retry st' \<Longrightarrow> off_ok pl st'"
    using assms(1) pp
    by (auto simp: off_attempt_def Let_def off_ok_def simp flip: p_def
        split: sum.splits if_splits prod.splits option.splits)
  assume f: "off_attempt s pl up st = Finished r st'"
  have sent: "rn_sent st' = rn_sent st @ [(rn_phase st, p)]"
    using f by (auto simp: off_attempt_def Let_def p_def split: sum.splits if_splits prod.splits option.splits)
  have rel: "rn_calls st' = Suc (rn_calls st) \<and> (\<exists>response. up (rn_calls st) p = Inr response
      \<and> off_released pl (rn_phase st) response body)" if "r = Inr body" for body
    using f that unfolding off_released_def
    by (auto simp: off_attempt_def Let_def retry_exhausted_def simp flip: p_def
        split: sum.splits if_splits prod.splits option.splits)
  have len: "length (rn_sent st) = rn_calls st" "\<forall>pp \<in> set (rn_sent st). proper_payload pl pp"
    using assms(1) by (simp_all add: off_ok_def)
  show "off_done s pl up r st'"
    unfolding off_done_def sent using rel len pp assms(2) by simp
qed

lemma off_loop_laws:
  assumes "off_ok pl st" "rn_calls st \<le> max_upstream_calls s" "pl_split pl" "off_loop s pl up st = (r, st')"
  shows "off_done s pl up r st'"
proof -
  let ?I = "\<lambda>st. off_ok pl st \<and> rn_calls st \<le> max_upstream_calls s"
  have "?I u'" if "?I u" "rn_calls u < max_upstream_calls s" "off_attempt s pl up u = Retry u'" for u u'
    using off_attempt_laws(1) [OF _ that(2) assms(3) that(3)] off.retry_counts [OF that(3)] that(1,2) by simp
  moreover have "off_done s pl up r u'"
    if "?I u" "rn_calls u < max_upstream_calls s" "off_attempt s pl up u = Finished r u'" for u r u'
    using that off_attempt_laws(2) assms(3) by blast
  moreover have "off_done s pl up retry_exhausted u" if "?I u" "max_upstream_calls s \<le> rn_calls u" for u
    using that by (auto simp: off_ok_def off_done_def retry_exhausted_def)
  moreover have "?I st" using assms by simp
  ultimately show ?thesis
    using assms(4) unfolding off_loop_def by (rule off.loop_inv [where I = ?I and Q = "off_done s pl up"])
qed

section \<open>A whole request\<close>

lemma new_harness_counts [simp]:
  "terminal_corrections (new_harness g tools ks types enforce req rs) = 0"
  by (simp add: new_harness_def)

lemma corrections_note:
  "terminal_corrections (note_failures n r h) = terminal_corrections h"
  "terminal_corrections (note_mutation n r h) = terminal_corrections h"
  by (simp_all add: note_failures_def note_mutation_def Let_def)

lemma record_status_corrections:
  "terminal_corrections (fst (record_status h n a st)) = terminal_corrections h"
  by (simp add: record_status_def Let_def corrections_note)

lemma record_step_corrections:
  assumes "record_step h e = Inr h'"
  shows "terminal_corrections h' = terminal_corrections h"
proof -
  obtain n a t where e: "e = (n, a, t)" by (cases e)
  from assms obtain st r where "record_status h n a st = (h', r)"
    unfolding e by (auto simp: record_step_def record_result_Inr split: sum.splits prod.splits)
  then show ?thesis using record_status_corrections [of h n a st] by simp
qed

lemma run_record_corrections:
  "run_steps record_step h es = Inr h' \<Longrightarrow> terminal_corrections h' = terminal_corrections h"
  by (induction es arbitrary: h) (auto split: sum.splits dest: record_step_corrections)

lemma rebuild_request_corrections:
  assumes "rebuild_request cs pl = Inr rc"
  shows "terminal_corrections (r_harness rc) = 0"
proof -
  from assms have "reconstruct (JArr (messages_of pl)) (available_tools_of pl) (pl_roles pl) (pl_contract pl)
      (requires_receipt cs pl) = Inr rc" by (simp add: rebuild_request_def)
  from reconstruct_Inr [OF this] obtain rb where
    "rc = finish_rebuild rb" "\<exists>h0 es. terminal_corrections h0 = 0 \<and> run_steps record_step h0 es = Inr (rb_harness rb)"
    unfolding rebuilt_def using new_harness_counts by metis
  then show ?thesis by (auto simp: finish_rebuild_def Let_def dest: run_record_corrections)
qed

lemma start_run_ok:
  "rebuild_request cs pl = Inr rc \<Longrightarrow> loop_ok cs pl (r_harness rc) (start_run pl rc)"
  by (auto simp: loop_ok_def run_ok_def start_run_def initial_phase_def Let_def rebuild_request_corrections)

text \<open>The ways a request with the harness ends.\<close>

lemma complete_with_harness_cases:
  assumes "complete_with_harness cs pl up uid created = (out, lg)"
  obtains (refused) f where "out = Inl f" "lg_sent lg = []"
  | (projected) rc content where "rebuild_request cs pl = Inr rc"
      "project_latest_if_current (messages_of pl) rc = Inr (Some content)" "lg_sent lg = []"
      "out = Inr \<lparr>cr_body = projected_response uid created (py_str (get (pl_forwarded pl) ''model'')) content,
                  cr_telemetry = telemetry (r_harness rc) 0 rc 1 1 (pl_extension_used pl)\<rparr>"
      "lg = log_of (start_run pl rc)"
  | (looped) rc r st where "rebuild_request cs pl = Inr rc"
      "chat_loop cs pl up (start_run pl rc) = (r, st)" "lg = log_of st"
      "out = bind r (\<lambda>body. Inr \<lparr>cr_body = body,
         cr_telemetry = telemetry (rn_harness st) (rn_calls st) rc 0 0 (pl_extension_used pl)\<rparr>)"
proof (cases "rebuild_request cs pl")
  case (Inl e)
  with assms refused show ?thesis
    by (cases e) (auto simp: complete_with_harness_def quiet_def refuse_def)
next
  case (Inr rc)
  show ?thesis
  proof (cases "project_latest_if_current (messages_of pl) rc")
    case (Inl e)
    with assms Inr have "out = Inl (Unhandled e)" "lg = log_of (start_run pl rc)"
      by (auto simp: complete_with_harness_def Let_def)
    then show ?thesis by (intro refused) (simp_all add: log_of_def start_run_def)
  next
    case p: (Inr content)
    show ?thesis
    proof (cases content)
      case None
      obtain r st where l: "chat_loop cs pl up (start_run pl rc) = (r, st)" by fastforce
      with assms Inr p None show ?thesis
        by (intro looped [OF Inr l]) (auto simp: complete_with_harness_def Let_def)
    next
      case (Some c)
      with assms Inr p have "lg = log_of (start_run pl rc)"
        "out = Inr \<lparr>cr_body = projected_response uid created (py_str (get (pl_forwarded pl) ''model'')) c,
                  cr_telemetry = telemetry (r_harness rc) 0 rc 1 1 (pl_extension_used pl)\<rparr>"
        by (auto simp: complete_with_harness_def Let_def)
      with p Some show ?thesis by (intro projected [OF Inr]) (simp_all add: log_of_def start_run_def)
    qed
  qed
qed

lemma looped_done:
  assumes "rebuild_request cs pl = Inr rc" "chat_loop cs pl up (start_run pl rc) = (r, st)"
  shows "loop_done cs pl up (r_harness rc) r st"
  by (rule chat_loop_laws [OF start_run_ok [OF assms(1)] _ assms(2)]) (simp add: start_run_def)

text \<open>The two halves of \<open>complete\<close>; before the second nothing is sent.\<close>

lemma complete_cases:
  assumes "complete cs up probe uid created payload enabled allowed trusted ns = (out, lg)"
  obtains (refused) f where "out = Inl f" "lg = quiet"
  | (planned) pl where "gate_request cs payload enabled allowed ns = Inr ()"
      "make_plan cs payload allowed trusted = Inr pl"
      "if enabled then complete_with_harness cs pl up uid created = (out, lg)
       else complete_without_harness cs pl up = (out, lg)"
proof (cases "bind (gate_request cs payload enabled allowed ns) (\<lambda>_. make_plan cs payload allowed trusted)")
  case (Inl f)
  with assms have "out = Inl f" "lg = quiet" by (auto simp: complete_def)
  then show ?thesis by (rule refused)
next
  case (Inr pl)
  show ?thesis
  proof (cases "if pl_combined pl then probe else Inr True")
    case p: (Inl f)
    with assms Inr refused show ?thesis by (auto simp: complete_def)
  next
    case p: (Inr b)
    show ?thesis
    proof (cases b)
      case True
      with assms Inr p have "if enabled then complete_with_harness cs pl up uid created = (out, lg)
       else complete_without_harness cs pl up = (out, lg)" by (simp add: complete_def split: if_splits)
      moreover from Inr have "gate_request cs payload enabled allowed ns = Inr ()" "make_plan cs payload allowed trusted = Inr pl"
        by (auto simp: bind_Inr_iff)
      ultimately show ?thesis by (intro planned)
    next
      case False
      with assms Inr p refused show ?thesis by (auto simp: complete_def refuse_def)
    qed
  qed
qed

end
