(* ===== verification/Chat_Properties.thy ===== *)
theory Chat_Properties
  imports Chat_Laws
begin

text \<open>
  The properties of a whole chat request, with the facts about plans they rest on and the sample
  requests their witnesses run.
\<close>

section \<open>Plans\<close>

lemma if_refuse_iff: "(if b then refuse st cd msg else x) = Inr v \<longleftrightarrow> \<not> b \<and> x = Inr v"
  by simp

lemma make_plan_forwarded:
  assumes "make_plan cs payload allowed trusted = Inr pl"
  shows "dget (pl_forwarded pl) REQUIRE_RECEIPT_EXTENSION = None"
    "k \<noteq> ''tools'' \<Longrightarrow> k \<noteq> REQUIRE_RECEIPT_EXTENSION \<Longrightarrow> dget (pl_forwarded pl) k = dget payload k"
    "pl_receipt_override pl = receipt_override payload"
proof -
  let ?p = "dpop payload REQUIRE_RECEIPT_EXTENSION"
  from assms obtain ts where f: "pl_forwarded pl = (if dhas ?p ''tools'' then dset ?p ''tools'' (JArr ts) else ?p)"
    and "pl_receipt_override pl = receipt_override payload"
    by (auto simp: make_plan_def Let_def bind_Inr_iff if_refuse_iff)
  moreover have "REQUIRE_RECEIPT_EXTENSION \<noteq> ''tools''" by (simp add: REQUIRE_RECEIPT_EXTENSION_def)
  ultimately show "dget (pl_forwarded pl) REQUIRE_RECEIPT_EXTENSION = None"
    "k \<noteq> ''tools'' \<Longrightarrow> k \<noteq> REQUIRE_RECEIPT_EXTENSION \<Longrightarrow> dget (pl_forwarded pl) k = dget payload k"
    "pl_receipt_override pl = receipt_override payload"
    by (simp_all add: dget_dset dget_dpop)
qed

lemma gate_request_Inr:
  assumes "gate_request cs payload enabled allowed ns = Inr ()"
  shows "dget payload TOOL_DENY_EXTENSION = None"
    "\<not> allowed \<Longrightarrow> receipt_override payload \<noteq> Some False"
    "\<not> enabled \<Longrightarrow> cs_denied_tools cs = {}"
    "\<not> reject_client_cache_namespaces payload (upstream_cache_capability_mode (cs_settings cs)) (cs_cache_fields cs) ns"
proof -
  from assms have g: "\<not> (\<not> enabled \<and> cs_denied_tools cs \<noteq> {})"
    "\<not> reject_client_cache_namespaces payload (upstream_cache_capability_mode (cs_settings cs)) (cs_cache_fields cs) ns"
    "\<not> dhas payload TOOL_DENY_EXTENSION"
    "dget payload REQUIRE_RECEIPT_EXTENSION = Some (JBool False) \<longrightarrow> allowed"
    by (auto simp: gate_request_def bind_Inr_iff split: if_splits option.splits json.splits)
  then show "dget payload TOOL_DENY_EXTENSION = None" "\<not> enabled \<Longrightarrow> cs_denied_tools cs = {}"
    "\<not> reject_client_cache_namespaces payload (upstream_cache_capability_mode (cs_settings cs)) (cs_cache_fields cs) ns"
    by (auto simp: dhas_dget)
  show "\<not> allowed \<Longrightarrow> receipt_override payload \<noteq> Some False"
    using g(4) by (auto simp: receipt_override_def split: option.splits json.splits)
qed

lemma tools_outcome_Inr: "tools_outcome r = Inr v \<longleftrightarrow> r = Inr v"
  by (cases r rule: tools_outcome.cases) (auto simp: refuse_def)

text \<open>
  A tool as it goes upstream: without the role annotation at the top level and in the function, and with
  everything else that the client put there.
\<close>

definition clean_tool :: "json \<Rightarrow> json \<Rightarrow> bool" where
  "clean_tool raw forwarded \<longleftrightarrow>
     (\<exists>tool tool'. raw = JObj tool \<and> forwarded = JObj tool' \<and> dget tool' ''x-shiftedx-role'' = None
        \<and> (\<forall>f. get tool' ''function'' = JObj f \<longrightarrow> dget f ''x-shiftedx-role'' = None)
        \<and> (\<forall>f. get tool ''function'' = JObj f \<longrightarrow>
             (\<exists>f'. get tool' ''function'' = JObj f' \<and> (\<forall>k. k \<noteq> ''x-shiftedx-role'' \<longrightarrow> dget f' k = dget f k)))
        \<and> (\<forall>k. k \<noteq> ''x-shiftedx-role'' \<and> k \<noteq> ''function'' \<longrightarrow> dget tool' k = dget tool k))"

lemma strip_tool_clean: "clean_tool (JObj tool) (strip_tool (JObj tool))"
proof -
  have ne: "ROLE_KEY \<noteq> ''function''" by (simp add: ROLE_KEY_def)
  have "\<exists>f'. get (strip_annotations tool) ''function'' = JObj f' \<and> (\<forall>k. k \<noteq> ROLE_KEY \<longrightarrow> dget f' k = dget f k)"
    if "get tool ''function'' = JObj f" for f
    using that ne by (intro exI [of _ "dpop f ROLE_KEY"])
      (simp add: strip_annotations_def Let_def get_def get_or_def dget_dpop dget_dset)
  then show ?thesis
    unfolding clean_tool_def strip_tool_def json.case
    using stripped_clean [where tool = tool] unfolding ROLE_KEY_def by blast
qed

definition clean_tools :: "json option \<Rightarrow> json option \<Rightarrow> bool" where
  "clean_tools raw forwarded \<longleftrightarrow>
     forwarded = None \<or> raw = Some JNull \<and> forwarded = Some (JArr [])
     \<or> (\<exists>ts fs. raw = Some (JArr ts) \<and> forwarded = Some (JArr fs) \<and> list_all2 clean_tool ts fs)"

lemma make_plan_tools:
  assumes "make_plan cs payload allowed trusted = Inr pl"
  shows "clean_tools (dget payload ''tools'') (dget (pl_forwarded pl) ''tools'')"
proof -
  let ?p = "dpop payload REQUIRE_RECEIPT_EXTENSION"
  have key: "REQUIRE_RECEIPT_EXTENSION \<noteq> ''tools''" by (simp add: REQUIRE_RECEIPT_EXTENSION_def)
  then have same: "dget ?p ''tools'' = dget payload ''tools''" "get ?p ''tools'' = get payload ''tools''"
    by (simp_all add: dget_dpop get_def get_or_def)
  from assms obtain ts rs used where t: "prepare_tools (get payload ''tools'') (base_roles cs) allowed = Inr (ts, rs, used)"
    "pl_forwarded pl = (if dhas ?p ''tools'' then dset ?p ''tools'' (JArr ts) else ?p)"
    by (auto simp: make_plan_def Let_def bind_Inr_iff if_refuse_iff same(2) tools_outcome_Inr)
  show ?thesis
  proof (cases "dget payload ''tools''")
    case None
    then show ?thesis by (simp add: t(2) clean_tools_def dhas_dget same(1))
  next
    case (Some v)
    then have v: "get payload ''tools'' = v" and f: "dget (pl_forwarded pl) ''tools'' = Some (JArr ts)"
      by (simp_all add: get_def get_or_def t(2) dhas_dget same(1) dget_dset)
    from t(1) v consider "v = JNull" "ts = []" | raw where "v = JArr raw" "prepare_tools (JArr raw) (base_roles cs) allowed = Inr (ts, rs, used)"
      by (cases v) (auto simp: prepare_tools_def)
    then show ?thesis
    proof cases
      case 1
      with Some f show ?thesis by (simp add: clean_tools_def)
    next
      case 2
      have "ts = map strip_tool raw" "list_all is_dict raw"
        using 2(2) prepare_tools_forwards [of "base_roles cs" allowed "([], base_roles cs, False)" raw "(ts, rs, used)"]
        by (auto simp: prepare_tools_def)
      then have "list_all2 clean_tool raw ts"
        using strip_tool_clean by (auto simp: list_all2_conv_all_nth list_all_length elim!: is_dict.elims(2))
      with Some f 2(1) show ?thesis by (simp add: clean_tools_def)
    qed
  qed
qed

text \<open>What every payload of a plan has and lacks.\<close>

definition clean_payload :: "jobject \<Rightarrow> capability_phase option \<times> jobject \<Rightarrow> bool" where
  "clean_payload payload pp \<longleftrightarrow>
     dget (snd pp) ''x-shiftedx-require-receipt'' = None \<and> dget (snd pp) ''x-shiftedx-denied-tools'' = None
     \<and> (fst pp = Some Acquisition \<longrightarrow> dget (snd pp) ''response_format'' = None)
     \<and> (fst pp = Some Finalization \<longrightarrow> dget (snd pp) ''tools'' = None \<and> dget (snd pp) ''tool_choice'' = None
          \<and> dget (snd pp) ''parallel_tool_calls'' = None)
     \<and> clean_tools (dget payload ''tools'') (dget (snd pp) ''tools'')
     \<and> dget (snd pp) ''tool_choice'' \<in> {None, dget payload ''tool_choice'', Some (JStr ''none'')}
     \<and> (\<forall>k. k \<notin> {''messages'', ''tools'', ''tool_choice''} \<longrightarrow> dget (snd pp) k \<in> {None, dget payload k})"

lemma plan_lookups:
  assumes "gate_request cs payload enabled allowed ns = Inr ()" "make_plan cs payload allowed trusted = Inr pl"
  shows "dget (pl_forwarded pl) ''x-shiftedx-require-receipt'' = None"
    "dget (pl_forwarded pl) ''x-shiftedx-denied-tools'' = None"
    "clean_tools (dget payload ''tools'') (dget (pl_forwarded pl) ''tools'')"
    "dget (pl_forwarded pl) ''tool_choice'' \<in> {None, dget payload ''tool_choice'', Some (JStr ''none'')}"
    "k \<notin> {''messages'', ''tools'', ''tool_choice''} \<Longrightarrow> dget (pl_forwarded pl) k \<in> {None, dget payload k}"
proof -
  note fw = make_plan_forwarded(2) [OF assms(2), unfolded REQUIRE_RECEIPT_EXTENSION_def]
  show req: "dget (pl_forwarded pl) ''x-shiftedx-require-receipt'' = None"
    using make_plan_forwarded(1) [OF assms(2)] by (simp add: REQUIRE_RECEIPT_EXTENSION_def)
  have "dget payload ''x-shiftedx-denied-tools'' = None"
    using gate_request_Inr(1) [OF assms(1)] by (simp add: TOOL_DENY_EXTENSION_def)
  then show "dget (pl_forwarded pl) ''x-shiftedx-denied-tools'' = None" using fw [of "''x-shiftedx-denied-tools''"] by simp
  show "clean_tools (dget payload ''tools'') (dget (pl_forwarded pl) ''tools'')" by (rule make_plan_tools [OF assms(2)])
  show "dget (pl_forwarded pl) ''tool_choice'' \<in> {None, dget payload ''tool_choice'', Some (JStr ''none'')}"
    using fw [of "''tool_choice''"] by simp
  show "dget (pl_forwarded pl) k \<in> {None, dget payload k}" if "k \<notin> {''messages'', ''tools'', ''tool_choice''}"
    using that req fw [of k] by (cases "k = ''x-shiftedx-require-receipt''") auto
qed

lemma proper_is_clean:
  assumes g: "gate_request cs payload enabled allowed ns = Inr ()" and pl: "make_plan cs payload allowed trusted = Inr pl"
    and p: "proper_payload pl pp"
  shows "clean_payload payload pp"
proof -
  obtain ph q where pp: "pp = (ph, q)" by (cases pp)
  from p obtain msgs where
    q: "q = outbound_payload (pl_forwarded pl) msgs ph
        \<or> ph = None \<and> q = dset (outbound_payload (pl_forwarded pl) msgs ph) ''tool_choice'' (JStr ''none'')"
    by (auto simp: proper_payload_def pp)
  have out: "dget (outbound_payload (pl_forwarded pl) msgs ph) k =
      (if ph = Some Acquisition \<and> k = ''response_format''
          \<or> ph = Some Finalization \<and> k \<in> {''tools'', ''tool_choice'', ''parallel_tool_calls''}
       then None else dget (pl_forwarded pl) k)" if "k \<noteq> ''messages''" for k
    by (rule outbound_other [OF that])
  have qk: "dget q k = dget (outbound_payload (pl_forwarded pl) msgs ph) k" if "k \<noteq> ''tool_choice'' \<or> ph \<noteq> None" for k
    using q that by (auto simp: dget_dset)
  show ?thesis
    unfolding clean_payload_def pp fst_conv snd_conv
  proof (intro conjI impI allI)
    note fw = plan_lookups [OF g pl]
    show "dget q ''x-shiftedx-require-receipt'' = None" using fw(1) by (simp add: qk out)
    show "dget q ''x-shiftedx-denied-tools'' = None" using fw(2) by (simp add: qk out)
    show "dget q ''response_format'' = None" if "ph = Some Acquisition"
      using that qk [of "''response_format''"] out [of "''response_format''"] by simp
    show "dget q ''tools'' = None" if "ph = Some Finalization"
      using that qk [of "''tools''"] out [of "''tools''"] by simp
    show "dget q ''tool_choice'' = None" if "ph = Some Finalization"
      using that qk [of "''tool_choice''"] out [of "''tool_choice''"] by simp
    show "dget q ''parallel_tool_calls'' = None" if "ph = Some Finalization"
      using that qk [of "''parallel_tool_calls''"] out [of "''parallel_tool_calls''"] by simp
    show "clean_tools (dget payload ''tools'') (dget q ''tools'')"
    proof -
      have "dget q ''tools'' \<in> {None, dget (pl_forwarded pl) ''tools''}"
        using qk [of "''tools''"] out [of "''tools''"] by simp
      with fw(3) show ?thesis by (auto simp: clean_tools_def)
    qed
    show "dget q ''tool_choice'' \<in> {None, dget payload ''tool_choice'', Some (JStr ''none'')}"
      using q out [of "''tool_choice''"] fw(4) by (cases "ph = Some Finalization") (auto simp: dget_dset)
    show "dget q k \<in> {None, dget payload k}" if "k \<notin> {''messages'', ''tools'', ''tool_choice''}" for k
    proof -
      from that have "dget q k = dget (outbound_payload (pl_forwarded pl) msgs ph) k" by (intro qk) blast
      moreover have "dget (outbound_payload (pl_forwarded pl) msgs ph) k \<in> {None, dget (pl_forwarded pl) k}"
        using that out [of k] by (metis insertCI)
      moreover have "dget (pl_forwarded pl) k \<in> {None, dget payload k}" using that fw(5) by blast
      ultimately show ?thesis by auto
    qed
  qed
qed

lemma unphased_proper:
  assumes "gate_request cs payload enabled allowed ns = Inr ()" "make_plan cs payload allowed trusted = Inr pl"
  shows "clean_payload payload (None, pl_forwarded pl)"
  unfolding clean_payload_def fst_conv snd_conv
  by (intro conjI impI allI plan_lookups [OF assms]; (assumption | (erule option.distinct(1) [THEN notE])))

section \<open>The opt-out half\<close>

lemma complete_without_harness_cases:
  assumes "complete_without_harness cs pl up = (out, lg)" "1 \<le> max_upstream_calls (cs_settings cs)"
  obtains (single) "\<not> pl_split pl" "lg_sent lg = [(None, pl_forwarded pl)]" "lg_counts lg = (0, 0, 0)"
      "out = bind (up 0 (pl_forwarded pl)) (\<lambda>response.
           Inr \<lparr>cr_body = without_reserved_projection_marker response,
                cr_telemetry = off_telemetry 1 (pl_extension_used pl)\<rparr>)"
  | (split) r st where "pl_split pl" "off_done (cs_settings cs) pl up r st" "lg = log_of st"
      "out = bind r (\<lambda>body. Inr \<lparr>cr_body = body, cr_telemetry = off_telemetry (rn_calls st) (pl_extension_used pl)\<rparr>)"
proof (cases "pl_split pl")
  case True
  define st0 where "st0 = \<lparr>rn_harness = new_harness [] {} None [] False False (pl_roles pl),
                rn_messages = messages_of pl, rn_calls = 0, rn_retries = 0,
                rn_phase = Some Acquisition, rn_sent = [], rn_counts = (0, 0, 0)\<rparr>"
  obtain r st where l: "off_loop (cs_settings cs) pl up st0 = (r, st)" by fastforce
  have "off_done (cs_settings cs) pl up r st"
    by (rule off_loop_laws [OF _ _ True l]) (simp_all add: off_ok_def st0_def)
  with True assms(1) l show ?thesis
    by (intro split) (auto simp: complete_without_harness_def Let_def simp flip: st0_def)
next
  case False
  with assms(1) show ?thesis by (intro single) (auto simp: complete_without_harness_def Let_def)
qed

section \<open>A sample request\<close>

definition sample_service :: chat_service where
  "sample_service = \<lparr>cs_settings = default_settings ''http://u'', base_roles = default_roles,
     cs_cache_fields = {}, cs_denied_tools = {''rm''}\<rparr>"

definition sample_payload :: jobject where
  "sample_payload = [(''model'', JStr ''m''),
     (''messages'', JArr [JObj [(''role'', JStr ''user''), (''content'', JStr ''hi'')]])]"

definition sample_response :: jobject where
  "sample_response = [(''choices'', JArr [JObj [(''message'',
     JObj [(''role'', JStr ''assistant''), (''content'', JStr ''ok'')])]]),
     (''x-shiftedx-projection-v1'', JStr ''spoofed'')]"

definition sample_plan :: plan where
  "sample_plan = \<lparr>pl_forwarded = sample_payload, pl_tools = [], pl_roles = default_roles,
     pl_extension_used = False, pl_receipt_override = None, pl_contract = no_contract,
     pl_split = False, pl_combined = False\<rparr>"

lemma sample_gate: "gate_request sample_service sample_payload enabled allowed None = Inr () \<longleftrightarrow> enabled"
proof -
  have v: "validate_chat_payload sample_payload enabled = Inr ()"
  proof -
    have "nonblank_str (get sample_payload ''model'')"
      "validate_message (JObj [(''role'', JStr ''user''), (''content'', JStr ''hi'')]) = Inr ()" by code_simp+
    then show ?thesis
      by (simp add: validate_chat_payload_def sample_payload_def get_def get_or_def dget_def dhas_def dkeys_def)
  qed
  have "\<not> dhas sample_payload TOOL_DENY_EXTENSION" "dget sample_payload REQUIRE_RECEIPT_EXTENSION = None"
    "get sample_payload ''stream'' \<noteq> JBool True"
    by (simp_all add: sample_payload_def TOOL_DENY_EXTENSION_def REQUIRE_RECEIPT_EXTENSION_def
        dhas_def dkeys_def dget_def get_def get_or_def)
  with v show ?thesis
    by (simp add: gate_request_def sample_service_def reject_client_cache_namespaces_def list_ex_iff refuse_def)
qed

lemma sample_make_plan: "make_plan sample_service sample_payload allowed False = Inr sample_plan"
proof -
  have "dpop sample_payload REQUIRE_RECEIPT_EXTENSION = sample_payload"
    "receipt_override sample_payload = None" "get sample_payload ''tools'' = JNull"
    "get sample_payload ''response_format'' = JNull" "\<not> dhas sample_payload ''tools''"
    by (simp_all add: sample_payload_def REQUIRE_RECEIPT_EXTENSION_def receipt_override_def dpop_def
        dhas_def dkeys_def dget_def get_def get_or_def)
  then show ?thesis
    by (simp add: make_plan_def sample_plan_def sample_service_def prepare_tools_def response_schema_contract_def
        default_settings_def requires_phase_split_def requires_combined_capability_def)
qed

lemma sample_rebuild:
  "\<exists>rc. rebuild_request sample_service sample_plan = Inr rc
     \<and> project_latest_if_current (messages_of sample_plan) rc = Inr None
     \<and> receipts (r_harness rc) = [] \<and> \<not> require_receipt (r_harness rc)
     \<and> required_json_keys (r_harness rc) = None \<and> \<not> last_action_blocked (r_harness rc)
     \<and> open_failures (r_harness rc) = [] \<and> \<not> pending_verification (r_harness rc)
     \<and> \<not> enforce_failed_execution_claim (r_harness rc)"
proof -
  have "messages_of sample_plan = [JObj [(''role'', JStr ''user''), (''content'', JStr ''hi'')]]"
    by (simp add: messages_of_def sample_plan_def sample_payload_def get_def get_or_def dget_def)
  then show ?thesis
    by (simp add: rebuild_request_def reconstruct_def note_message_def get_def get_or_def dget_def
        project_latest_if_current_def latest_exact_paired_tool_result_def finish_rebuild_def start_rebuild_def
        new_harness_def sample_plan_def requires_receipt_def no_contract_def)
qed

lemma sample_attempt:
  assumes "rebuild_request sample_service sample_plan = Inr rc" "receipts (r_harness rc) = []"
    "\<not> require_receipt (r_harness rc)" "required_json_keys (r_harness rc) = None"
    "\<not> last_action_blocked (r_harness rc)" "open_failures (r_harness rc) = []"
    "\<not> pending_verification (r_harness rc)" "\<not> enforce_failed_execution_claim (r_harness rc)"
  obtains st where
    "chat_loop sample_service sample_plan (\<lambda>n p. Inr sample_response) (start_run sample_plan rc)
       = (Inr (dpop sample_response ''x-shiftedx-projection-v1''), st)" "length (rn_sent st) = 1" "rn_calls st = 1"
proof -
  define up :: upstream where "up = (\<lambda>n p. Inr sample_response)"
  define st0 where "st0 = start_run sample_plan rc"
  have calls: "rn_calls st0 = 0" "rn_sent st0 = []" "rn_harness st0 = r_harness rc" by (simp_all add: st0_def start_run_def)
  have norm: "normalize_bare_json ''ok'' = Inr (''ok'', False)" "json_loads (strip ''ok'') = Inl JSONDecodeError"
    by code_simp+
  have msg: "response_message sample_response = Inr [(''role'', JStr ''assistant''), (''content'', JStr ''ok'')]"
    by (simp add: response_message_def sample_response_def get_def get_or_def dget_def)
  have issue: "terminal_issue (r_harness rc) ''ok'' = Inr None"
    using assms norm(2) by (simp add: terminal_issue_None ready_to_finish_def failed_executions_issue_def)
  have "\<exists>st. chat_attempt sample_service sample_plan up st0 = Finished
      (Inr (dpop sample_response ''x-shiftedx-projection-v1'')) st \<and> length (rn_sent st) = 1 \<and> rn_calls st = 1"
    using norm(1) issue calls
    by (simp add: chat_attempt_def Let_def up_def handle_response_def msg get_def get_or_def dget_def
        handle_terminal_def terminal_content_def without_reserved_projection_marker_def LOCAL_PROJECTION_EXTENSION_def)
  then obtain st where st: "chat_attempt sample_service sample_plan up st0 = Finished
      (Inr (dpop sample_response ''x-shiftedx-projection-v1'')) st" "length (rn_sent st) = 1" "rn_calls st = 1" by blast
  have "0 < max_upstream_calls (cs_settings sample_service)" by (simp add: sample_service_def default_settings_def)
  with st(1) have "chat_loop sample_service sample_plan up st0 = (Inr (dpop sample_response ''x-shiftedx-projection-v1''), st)"
    using chat.loop_unfold [of sample_service sample_plan up retry_exhausted _ st0] calls by (simp add: chat_loop_def)
  with st(2,3) show thesis using that unfolding up_def st0_def by blast
qed

lemma sample_complete:
  "\<exists>res lg. complete sample_service (\<lambda>n p. Inr sample_response) (Inr True) uid created sample_payload True False False None
      = (Inr res, lg) \<and> length (lg_sent lg) = 1 \<and> t_upstream_calls (cr_telemetry res) = 1
     \<and> cr_body res = dpop sample_response ''x-shiftedx-projection-v1''"
proof -
  from sample_rebuild obtain rc where rc: "rebuild_request sample_service sample_plan = Inr rc"
    "project_latest_if_current (messages_of sample_plan) rc = Inr None" "receipts (r_harness rc) = []"
    "\<not> require_receipt (r_harness rc)" "required_json_keys (r_harness rc) = None"
    "\<not> last_action_blocked (r_harness rc)" "open_failures (r_harness rc) = []"
    "\<not> pending_verification (r_harness rc)" "\<not> enforce_failed_execution_claim (r_harness rc)" by blast
  from sample_attempt [OF rc(1,3-)] obtain st where
    "chat_loop sample_service sample_plan (\<lambda>n p. Inr sample_response) (start_run sample_plan rc)
       = (Inr (dpop sample_response ''x-shiftedx-projection-v1''), st)" "length (rn_sent st) = 1" "rn_calls st = 1" .
  then show ?thesis
    using rc(1,2) sample_gate [of True False] sample_make_plan [of False]
    by (simp add: complete_def complete_with_harness_def sample_plan_def [THEN arg_cong, of pl_combined]
        Let_def telemetry_def log_of_def)
qed

section \<open>Bounds of the loop\<close>

lemma off_done_bounds: "off_done s pl up r st \<Longrightarrow> length (rn_sent st) \<le> max_upstream_calls s
    \<and> (\<forall>body. r = Inr body \<longrightarrow> rn_calls st = length (rn_sent st))"
  by (simp add: off_done_def)

lemma loop_done_bounds: "loop_done cs pl up h0 r st \<Longrightarrow>
    length (rn_sent st) \<le> max_upstream_calls (cs_settings cs)
    \<and> length (rn_sent st) \<le> Suc (max_internal_retries (cs_settings cs))
    \<and> (\<forall>body. r = Inr body \<longrightarrow> rn_calls st = length (rn_sent st))"
  by (simp add: loop_done_def)

text \<open>
  C14: A chat request always ends, and its loops are bounded by the configuration: whatever the
  upstream answers, at most \<open>max_upstream_calls\<close> payloads are sent, and with the harness at most
  one more than \<open>max_internal_retries\<close>; a delivered result reports the number of payloads sent.
\<close>

theorem upstream_attempts_bounded:
  assumes "1 \<le> max_upstream_calls (cs_settings cs)"
    and "complete cs up probe uid created payload enabled allowed trusted ns = (out, lg)"
  shows "length (lg_sent lg) \<le> max_upstream_calls (cs_settings cs)
    \<and> (enabled \<longrightarrow> length (lg_sent lg) \<le> Suc (max_internal_retries (cs_settings cs)))
    \<and> (\<forall>res. out = Inr res \<longrightarrow> t_upstream_calls (cr_telemetry res) = length (lg_sent lg))"
  using assms(2)
proof (cases rule: complete_cases)
  case (refused f)
  then show ?thesis by (simp add: quiet_def)
next
  case (planned pl)
  show ?thesis
  proof (cases enabled)
    case True
    with planned(3) have "complete_with_harness cs pl up uid created = (out, lg)" by simp
    then show ?thesis
    proof (cases rule: complete_with_harness_cases)
      case (looped rc r st)
      from loop_done_bounds [OF looped_done [OF looped(1,2)]] looped(3,4) show ?thesis
        by (auto simp: log_of_def telemetry_def bind_Inr_iff)
    qed (simp_all add: telemetry_def)
  next
    case False
    with planned(3) have "complete_without_harness cs pl up = (out, lg)" by simp
    from this assms(1) show ?thesis
    proof (cases rule: complete_without_harness_cases)
      case single
      with assms(1) False show ?thesis by (auto simp: off_telemetry_def bind_Inr_iff)
    next
      case (split r st)
      from off_done_bounds [OF split(2)] split(3,4) False show ?thesis
        by (auto simp: log_of_def off_telemetry_def bind_Inr_iff)
    qed
  qed
qed

theorem upstream_attempts_bounded_witness:
  "\<exists>res lg. complete sample_service (\<lambda>n p. Inr sample_response) (Inr True) ''u'' 0 sample_payload True False False None
      = (Inr res, lg) \<and> length (lg_sent lg) \<le> max_upstream_calls (cs_settings sample_service)"
proof -
  have "1 \<le> max_upstream_calls (cs_settings sample_service)" by (simp add: sample_service_def default_settings_def)
  from upstream_attempts_bounded [OF this] sample_complete [of "''u''" 0] show ?thesis by blast
qed

section \<open>What is released\<close>

text \<open>
  C13: With the harness, no response reaches the client without passing it. When anything was
  sent upstream, the delivered body is the response to the last payload without the reserved
  marker, and the harness, whose ledger is still the one of the transcript, admits it: either
  every proposed call is well formed, not denied by the server, not a duplicate and not stalled,
  or it is a terminal answer to which the terminal gate has no objection.
\<close>

theorem released_response_is_admissible:
  assumes "complete cs up probe uid created payload True allowed trusted ns = (Inr res, lg)"
    and "lg_sent lg \<noteq> []"
  shows "\<exists>pl rc h response msg. make_plan cs payload allowed trusted = Inr pl
    \<and> rebuild_request cs pl = Inr rc \<and> same_ledger (r_harness rc) h
    \<and> up (length (lg_sent lg) - 1) (snd (last (lg_sent lg))) = Inr response
    \<and> response_message response = Inr msg
    \<and> (released_calls cs (r_harness rc) response msg (cr_body res)
       \<or> released_answer h response msg (cr_body res))"
  using assms(1)
proof (cases rule: complete_cases)
  case (planned pl)
  from planned(3) have "complete_with_harness cs pl up uid created = (Inr res, lg)" by simp
  then show ?thesis
  proof (cases rule: complete_with_harness_cases)
    case (looped rc r st)
    from looped(4) obtain body where b: "r = Inr body" "cr_body res = body" by (cases r) auto
    from looped_done [OF looped(1,2)] b obtain response where
      "same_ledger (r_harness rc) (rn_harness st)"
      "up (length (rn_sent st) - 1) (snd (last (rn_sent st))) = Inr response"
      "released cs (r_harness rc) st response body"
      by (auto simp: loop_done_def run_ok_def)
    with planned(2) looped(1,3) b show ?thesis by (auto simp: released_def log_of_def)
  qed (use assms(2) in simp_all)
qed simp

theorem released_response_is_admissible_witness:
  "\<exists>res lg response. complete sample_service (\<lambda>n p. Inr sample_response) (Inr True) ''u'' 0 sample_payload True False False None
      = (Inr res, lg) \<and> (\<exists>msg. response_message response = Inr msg)"
proof -
  from sample_complete [of "''u''" 0] obtain res lg where c:
    "complete sample_service (\<lambda>n p. Inr sample_response) (Inr True) ''u'' 0 sample_payload True False False None = (Inr res, lg)"
    "length (lg_sent lg) = 1" by blast
  from c(2) have "lg_sent lg \<noteq> []" by auto
  from released_response_is_admissible [OF c(1) this] c(1) show ?thesis by blast
qed

section \<open>What is sent\<close>

lemma sent_payloads:
  assumes "1 \<le> max_upstream_calls (cs_settings cs)"
    and "complete cs up probe uid created payload enabled allowed trusted ns = (out, lg)"
    and "pp \<in> set (lg_sent lg)"
  shows "clean_payload payload pp"
  using assms(2)
proof (cases rule: complete_cases)
  case (refused f)
  with assms(3) show ?thesis by (simp add: quiet_def)
next
  case (planned pl)
  note clean = proper_is_clean [OF planned(1,2)]
  show ?thesis
  proof (cases enabled)
    case True
    with planned(3) have "complete_with_harness cs pl up uid created = (out, lg)" by simp
    then show ?thesis
    proof (cases rule: complete_with_harness_cases)
      case (looped rc r st)
      from looped_done [OF looped(1,2)] looped(3) assms(3) clean show ?thesis
        by (auto simp: loop_done_def log_of_def)
    qed (use assms(3) in simp_all)
  next
    case False
    with planned(3) have "complete_without_harness cs pl up = (out, lg)" by simp
    from this assms(1) show ?thesis
    proof (cases rule: complete_without_harness_cases)
      case single
      with assms(3) unphased_proper [OF planned(1,2)] show ?thesis by simp
    next
      case (split r st)
      with assms(3) clean show ?thesis by (auto simp: off_done_def log_of_def)
    qed
  qed
qed

text \<open>
  C16: Every payload sent upstream is clean. The proxy's own extensions never leave it: neither the receipt
  and deny overrides at the top level nor, in any tool or its function, the role annotation; the tools are
  otherwise the client's, one for one. An acquisition payload has no response format; a finalization payload
  has no tools, tool choice or parallel calls; the tool choice is the client's, absent or \<open>none\<close>; and any
  other field but the messages is the client's or absent.
\<close>

theorem upstream_payloads_are_clean:
  assumes "1 \<le> max_upstream_calls (cs_settings cs)"
    and "complete cs up probe uid created payload enabled allowed trusted ns = (out, lg)"
  shows "list_all (clean_payload payload) (lg_sent lg)"
  using sent_payloads [OF assms] by (simp add: list_all_iff)

theorem upstream_payloads_are_clean_witness:
  "\<exists>res lg. complete sample_service (\<lambda>n p. Inr sample_response) (Inr True) ''u'' 0 sample_payload True False False None
      = (Inr res, lg) \<and> list_all (clean_payload sample_payload) (lg_sent lg) \<and> lg_sent lg \<noteq> []"
proof -
  have "1 \<le> max_upstream_calls (cs_settings sample_service)" by (simp add: sample_service_def default_settings_def)
  from upstream_payloads_are_clean [OF this] sample_complete [of "''u''" 0] show ?thesis
    by (metis list.size(3) zero_neq_one)
qed

section \<open>The projection marker\<close>

lemma dget_without_marker: "dget (without_reserved_projection_marker r) LOCAL_PROJECTION_EXTENSION = None"
  by (simp add: without_reserved_projection_marker_def dget_dpop)

lemma dget_projected: "dget (projected_response uid created model content) LOCAL_PROJECTION_EXTENSION
    = Some (JObj local_projection_accounting)"
  by (simp add: projected_response_def LOCAL_PROJECTION_EXTENSION_def dget_def)

lemma released_marker: "released cs h0 st response body \<Longrightarrow> dget body LOCAL_PROJECTION_EXTENSION = None"
  by (auto simp: released_def released_calls_def released_answer_def dget_without_marker)

lemma off_released_marker: "off_released pl ph response body \<Longrightarrow> dget body LOCAL_PROJECTION_EXTENSION = None"
  by (auto simp: off_released_def dget_without_marker)

text \<open>
  C17: The projection marker belongs to the proxy. A delivered body carries it exactly when no
  payload was sent upstream, it is then the accounting object and the telemetry counts one
  projection and one avoided call; an upstream response can never forge it.
\<close>

theorem projection_marker_is_owned:
  assumes "1 \<le> max_upstream_calls (cs_settings cs)"
    and "complete cs up probe uid created payload enabled allowed trusted ns = (Inr res, lg)"
  shows "(dget (cr_body res) LOCAL_PROJECTION_EXTENSION, t_receipt_projections (cr_telemetry res),
      t_upstream_calls_avoided (cr_telemetry res))
    = (if lg_sent lg = [] then (Some (JObj local_projection_accounting), 1, 1) else (None, 0, 0))"
  using assms(2)
proof (cases rule: complete_cases)
  case (planned pl)
  show ?thesis
  proof (cases enabled)
    case True
    with planned(3) have "complete_with_harness cs pl up uid created = (Inr res, lg)" by simp
    then show ?thesis
    proof (cases rule: complete_with_harness_cases)
      case (looped rc r st)
      then obtain body where b: "r = Inr body" by (cases r) auto
      with looped_done [OF looped(1,2)] looped(3,4) show ?thesis
        by (auto simp: loop_done_def log_of_def telemetry_def dest: released_marker)
    qed (simp_all add: dget_projected telemetry_def)
  next
    case False
    with planned(3) have "complete_without_harness cs pl up = (Inr res, lg)" by simp
    from this assms(1) show ?thesis
    proof (cases rule: complete_without_harness_cases)
      case single
      then show ?thesis by (cases "up 0 (pl_forwarded pl)") (auto simp: dget_without_marker off_telemetry_def)
    next
      case (split r st)
      then obtain body where b: "r = Inr body" by (cases r) auto
      with split show ?thesis by (auto simp: off_done_def log_of_def off_telemetry_def dest: off_released_marker)
    qed
  qed
qed simp

theorem projection_marker_is_owned_witness:
  "\<exists>res lg. complete sample_service (\<lambda>n p. Inr sample_response) (Inr True) ''u'' 0 sample_payload True False False None
      = (Inr res, lg) \<and> dget sample_response LOCAL_PROJECTION_EXTENSION \<noteq> None
      \<and> dget (cr_body res) LOCAL_PROJECTION_EXTENSION = None"
proof -
  have l: "1 \<le> max_upstream_calls (cs_settings sample_service)" by (simp add: sample_service_def default_settings_def)
  from sample_complete [of "''u''" 0] obtain res lg where c:
    "complete sample_service (\<lambda>n p. Inr sample_response) (Inr True) ''u'' 0 sample_payload True False False None = (Inr res, lg)"
    "length (lg_sent lg) = 1" by blast
  moreover from c(2) have "lg_sent lg \<noteq> []" by auto
  moreover have "dget sample_response LOCAL_PROJECTION_EXTENSION \<noteq> None"
    by (simp add: sample_response_def LOCAL_PROJECTION_EXTENSION_def dget_def)
  ultimately show ?thesis using projection_marker_is_owned [OF l c(1)] by auto
qed

section \<open>Interventions\<close>

lemma off_attempt_counts:
  "off_attempt s pl up st = Retry st' \<Longrightarrow> rn_counts st' = rn_counts st"
  "off_attempt s pl up st = Finished r st' \<Longrightarrow> rn_counts st' = rn_counts st"
  by (auto simp: off_attempt_def Let_def split: sum.splits if_splits prod.splits option.splits)

lemma off_counts:
  assumes "complete_without_harness cs pl up = (out, lg)"
  shows "lg_counts lg = (0, 0, 0)"
proof (cases "pl_split pl")
  case True
  define st0 where "st0 = \<lparr>rn_harness = new_harness [] {} None [] False False (pl_roles pl),
                rn_messages = messages_of pl, rn_calls = 0, rn_retries = 0,
                rn_phase = Some Acquisition, rn_sent = [], rn_counts = (0, 0, 0)\<rparr>"
  obtain r st where l: "off_loop (cs_settings cs) pl up st0 = (r, st)" by fastforce
  let ?I = "\<lambda>st. rn_counts st = (0, 0, 0)"
  have "?I u'" if "?I u" "rn_calls u < max_upstream_calls (cs_settings cs)" "off_attempt (cs_settings cs) pl up u = Retry u'" for u u'
    using that off_attempt_counts(1) by metis
  moreover have "?I u'" if "?I u" "rn_calls u < max_upstream_calls (cs_settings cs)"
      "off_attempt (cs_settings cs) pl up u = Finished r u'" for u r u'
    using that off_attempt_counts(2) by metis
  moreover have "?I u" if "?I u" "max_upstream_calls (cs_settings cs) \<le> rn_calls u" for u using that by simp
  moreover have "?I st0" by (simp add: st0_def)
  ultimately have "?I st"
    using l unfolding off_loop_def by (rule off.loop_inv [where I = ?I and Q = "\<lambda>r. ?I"])
  with assms True l show ?thesis by (auto simp: complete_without_harness_def log_of_def Let_def simp flip: st0_def)
next
  case False
  with assms show ?thesis by (auto simp: complete_without_harness_def Let_def)
qed

lemma off_delivered:
  assumes "complete_without_harness cs pl up = (Inr res, lg)"
  shows "t_corrections (cr_telemetry res) = 0 \<and> t_blocked_duplicates (cr_telemetry res) = 0
    \<and> t_blocked_stalls (cr_telemetry res) = 0"
  using assms
  by (cases "up 0 (pl_forwarded pl)")
    (auto simp: complete_without_harness_def Let_def off_telemetry_def bind_Inr_iff split: if_splits prod.splits)

lemma delivered_counts:
  assumes "complete cs up probe uid created payload enabled allowed trusted ns = (Inr res, lg)"
  shows "lg_counts lg = (t_corrections (cr_telemetry res), t_blocked_duplicates (cr_telemetry res),
      t_blocked_stalls (cr_telemetry res)) \<and> t_corrections (cr_telemetry res) \<le> 2"
  using assms
proof (cases rule: complete_cases)
  case (planned pl)
  show ?thesis
  proof (cases enabled)
    case True
    with planned(3) have "complete_with_harness cs pl up uid created = (Inr res, lg)" by simp
    then show ?thesis
    proof (cases rule: complete_with_harness_cases)
      case (projected rc content)
      with rebuild_request_corrections [OF projected(1)] show ?thesis
        by (simp add: log_of_def start_run_def intervention_counts_def telemetry_def)
    next
      case (looped rc r st)
      from looped(4) obtain body where "r = Inr body" by (cases r) auto
      with looped_done [OF looped(1,2)] rebuild_request_corrections [OF looped(1)] looped(3,4) show ?thesis
        by (auto simp: loop_done_def run_ok_def log_of_def intervention_counts_def telemetry_def)
    qed simp
  next
    case False
    with planned(3) have "complete_without_harness cs pl up = (Inr res, lg)" by simp
    from off_counts [OF this] off_delivered [OF this] show ?thesis by simp
  qed
qed simp

section \<open>Evidence before an answer\<close>

text \<open>The client shows a call and a later result of it that counts as a success.\<close>

definition shows_success :: "json list \<Rightarrow> bool" where
  "shows_success ms \<longleftrightarrow> (\<exists>i j c n a t. i < j \<and> j < length ms \<and> proposes (ms ! i) c n a \<and> delivers (ms ! j) c t
     \<and> receipt_status t = Inr Success)"

lemma record_step_status:
  "record_step h (n, a, t) = Inr h' \<Longrightarrow> receipt_status t = Inr (r_status (last (receipts h')))
     \<and> require_receipt h' = require_receipt h"
  using record_status_fields(1,4,16) by (fastforce simp: record_step_def record_result_Inr split: sum.splits prod.splits)

lemma run_record_require:
  "run_steps record_step h es = Inr h' \<Longrightarrow> require_receipt h' = require_receipt h"
proof (induction es arbitrary: h)
  case (Cons e es)
  obtain n a t where "e = (n, a, t)" by (cases e)
  with Cons record_step_status [of h n a t] show ?case by (fastforce split: sum.splits)
qed simp

lemma run_record_last:
  assumes "run_steps record_step h (es @ [(n, a, t)]) = Inr h'"
  shows "receipt_status t = Inr (r_status (last (receipts h')))"
  using assms by (induction es arbitrary: h) (auto split: sum.splits dest: record_step_status)

lemma rebuilt_success:
  assumes "reconstruct (JArr ms) tools rs con req = Inr rc"
    and "receipts (r_harness rc) \<noteq> []" "r_status (last (receipts (r_harness rc))) = Success"
  shows "shows_success ms"
proof -
  define h0 where "h0 = new_harness (goal_of ms) tools (contract_keys con) (contract_types con)
       (contract_enforces_failed_executions con) req rs"
  from reconstruct_Inr [OF assms(1)] obtain rb es js where
    r: "rc = finish_rebuild rb" "run_steps record_step h0 es = Inr (rb_harness rb)" "list_all2 (paired ms) es js"
    unfolding rebuilt_def h0_def by metis
  from r(1) have h: "r_harness rc = rb_harness rb" by (simp add: finish_rebuild_def Let_def)
  have "receipts h0 = []" by (simp add: h0_def new_harness_def)
  with run_record_length [OF r(2)] assms(2) h have "es \<noteq> []" by auto
  then obtain es' n a t where es: "es = es' @ [(n, a, t)]" by (metis prod_cases3 rev_exhaust)
  from run_record_last [OF r(2) [unfolded es]] assms(3) h have t: "receipt_status t = Inr Success" by simp
  from r(3) obtain j where "paired ms (n, a, t) j" unfolding es by (auto simp: list_all2_append1 list_all2_Cons1)
  then obtain i c where "i < j" "j < length ms" "proposes (ms ! i) c n a" "delivers (ms ! j) c t"
    by (auto simp: paired_def)
  with t show ?thesis unfolding shows_success_def by blast
qed

lemma reconstruct_require:
  assumes "reconstruct (JArr ms) tools rs con req = Inr rc"
  shows "require_receipt (r_harness rc) = req"
proof -
  from reconstruct_Inr [OF assms] obtain rb where r: "rc = finish_rebuild rb"
    and "\<exists>es. run_steps record_step (new_harness (goal_of ms) tools (contract_keys con) (contract_types con)
       (contract_enforces_failed_executions con) req rs) es = Inr (rb_harness rb)"
    unfolding rebuilt_def by metis
  then show ?thesis by (auto simp: finish_rebuild_def Let_def new_harness_def dest: run_record_require)
qed

lemma projected_ready:
  assumes "project_latest_if_current ms rc = Inr (Some content)"
  shows "ready_to_finish (r_harness rc)"
proof -
  from assms obtain name res blocked d where
    "decide_local_projection (r_harness rc) name res (degraded rc) blocked = Inr d" "candidate d \<noteq> None" "eligible d"
    by (auto simp: project_latest_if_current_def bind_Inr_iff split: option.splits prod.splits if_splits)
  then have "projection_rejection (r_harness rc) name (degraded rc) blocked = None"
    using decide_local_projection_eligible by blast
  then show ?thesis by (rule rejection_ready)
qed

lemma ready_ledger: "same_ledger h0 h \<Longrightarrow> ready_to_finish h \<Longrightarrow> require_receipt h0 \<Longrightarrow>
    receipts h0 \<noteq> [] \<and> r_status (last (receipts h0)) = Success"
  by (auto simp: ready_to_finish_def same_ledger_def)

lemma plan_requires_receipt:
  assumes "gate_request cs payload enabled False ns = Inr ()" "make_plan cs payload False trusted = Inr pl"
    and "get payload ''tools'' = JArr ts" "ts \<noteq> []" "require_receipt_when_tools_present (cs_settings cs)"
  shows "requires_receipt cs pl"
proof -
  have "REQUIRE_RECEIPT_EXTENSION \<noteq> ''tools''" by (simp add: REQUIRE_RECEIPT_EXTENSION_def)
  then have "get (dpop payload REQUIRE_RECEIPT_EXTENSION) ''tools'' = JArr ts"
    using assms(3) by (simp add: get_def get_or_def dget_dpop)
  with assms(2) obtain x y where "run_steps (prepare_tool (base_roles cs) False) ([], base_roles cs, False) ts
      = Inr (pl_tools pl, x, y)"
    by (auto simp: make_plan_def Let_def bind_Inr_iff if_refuse_iff prepare_tools_def tools_outcome_Inr)
  from prepare_tools_forwards [OF this] assms(4) have "pl_tools pl \<noteq> []" by simp
  moreover have "pl_receipt_override pl \<noteq> Some False"
    using gate_request_Inr(2) [OF assms(1)] make_plan_forwarded(3) [OF assms(2)] by simp
  ultimately show ?thesis using assms(5) by (auto simp: requires_receipt_def split: option.splits)
qed

lemma rebuild_requires_receipt:
  "rebuild_request cs pl = Inr rc \<Longrightarrow> require_receipt (r_harness rc) = requires_receipt cs pl"
  unfolding rebuild_request_def by (rule reconstruct_require)

text \<open>
  C15: An answer needs evidence. When tools are present, receipts are required by the server and
  the principal may not use policy extensions, a delivered response either proposes tool calls,
  or the client's own transcript shows a tool call with a later result that counts as a success;
  nothing in the request can lift this.
\<close>

theorem untrusted_answer_has_evidence:
  assumes "complete cs up probe uid created payload True False trusted ns = (Inr res, lg)"
    and "get payload ''tools'' = JArr ts" "ts \<noteq> []" "require_receipt_when_tools_present (cs_settings cs)"
    and "get payload ''messages'' = JArr ms"
  shows "shows_success ms \<or> (\<exists>response msg. up (length (lg_sent lg) - 1) (snd (last (lg_sent lg))) = Inr response
    \<and> response_message response = Inr msg \<and> truthy (get msg ''tool_calls''))"
  using assms(1)
proof (cases rule: complete_cases)
  case (planned pl)
  have req: "requires_receipt cs pl" by (rule plan_requires_receipt [OF planned(1,2) assms(2-4)])
  have "''messages'' \<noteq> REQUIRE_RECEIPT_EXTENSION" by (simp add: REQUIRE_RECEIPT_EXTENSION_def)
  then have ms: "messages_of pl = ms"
    using make_plan_forwarded(2) [OF planned(2), of "''messages''"] assms(5) by (simp add: messages_of_def get_def get_or_def)
  have success: "shows_success ms" if "rebuild_request cs pl = Inr rc" "same_ledger (r_harness rc) h" "ready_to_finish h" for rc h
    using ready_ledger [OF that(2,3)] that(1) rebuild_requires_receipt [OF that(1)] req ms
    by (auto simp: rebuild_request_def intro: rebuilt_success)
  from planned(3) have "complete_with_harness cs pl up uid created = (Inr res, lg)" by simp
  then show ?thesis
  proof (cases rule: complete_with_harness_cases)
    case (projected rc content)
    with success [OF projected(1) same_ledger_refl] projected_ready show ?thesis by blast
  next
    case (looped rc r st)
    from looped(4) obtain body where b: "r = Inr body" by (cases r) auto
    from looped_done [OF looped(1,2)] b obtain response where
      r: "same_ledger (r_harness rc) (rn_harness st)"
      "up (length (rn_sent st) - 1) (snd (last (rn_sent st))) = Inr response" "released cs (r_harness rc) st response body"
      by (auto simp: loop_done_def run_ok_def)
    from r(3) obtain msg where "response_message response = Inr msg"
      "released_calls cs (r_harness rc) response msg body \<or> released_answer (rn_harness st) response msg body"
      unfolding released_def by blast
    with r(1,2) looped(1,3) success show ?thesis
      by (auto simp: released_calls_def released_answer_def terminal_issue_None log_of_def)
  qed simp
qed simp
text \<open>A request with a tool, and a response that calls it.\<close>

definition tool_payload :: jobject where
  "tool_payload = [(''model'', JStr ''m''),
     (''messages'', JArr [JObj [(''role'', JStr ''user''), (''content'', JStr ''hi'')]]),
     (''tools'', JArr [JObj [(''type'', JStr ''function''), (''function'', JObj [(''name'', JStr ''ls'')])]])]"

definition tool_response :: jobject where
  "tool_response = [(''choices'', JArr [JObj [(''message'',
     JObj [(''role'', JStr ''assistant''), (''content'', JNull), (''tool_calls'',
       JArr [JObj [(''id'', JStr ''c1''), (''type'', JStr ''function''),
         (''function'', JObj [(''name'', JStr ''ls''), (''arguments'', JStr ''{}'')])]])])]])]"

definition tool_plan :: plan where
  "tool_plan = \<lparr>pl_forwarded = tool_payload,
     pl_tools = [JObj [(''type'', JStr ''function''), (''function'', JObj [(''name'', JStr ''ls'')])]],
     pl_roles = default_roles, pl_extension_used = False, pl_receipt_override = None, pl_contract = no_contract,
     pl_split = False, pl_combined = False\<rparr>"

lemma tool_gate: "gate_request sample_service tool_payload True False None = Inr ()"
proof -
  have v: "validate_chat_payload tool_payload True = Inr ()"
  proof -
    have "nonblank_str (get tool_payload ''model'')"
      "validate_message (JObj [(''role'', JStr ''user''), (''content'', JStr ''hi'')]) = Inr ()"
      "valid_tool_schema (JObj [(''type'', JStr ''function''), (''function'', JObj [(''name'', JStr ''ls'')])])"
      by code_simp+
    then show ?thesis
      by (simp add: validate_chat_payload_def tool_payload_def get_def get_or_def dget_def dhas_def dkeys_def
          validate_tool_schemas_def)
  qed
  have "\<not> dhas tool_payload TOOL_DENY_EXTENSION" "dget tool_payload REQUIRE_RECEIPT_EXTENSION = None"
    "get tool_payload ''stream'' \<noteq> JBool True"
    by (simp_all add: tool_payload_def TOOL_DENY_EXTENSION_def REQUIRE_RECEIPT_EXTENSION_def
        dhas_def dkeys_def dget_def get_def get_or_def)
  with v show ?thesis
    by (simp add: gate_request_def sample_service_def reject_client_cache_namespaces_def list_ex_iff refuse_def)
qed

lemma tool_make_plan: "make_plan sample_service tool_payload False False = Inr tool_plan"
proof -
  have p: "prepare_tool default_roles False ([], default_roles, False)
      (JObj [(''type'', JStr ''function''), (''function'', JObj [(''name'', JStr ''ls'')])])
    = Inr ([JObj [(''type'', JStr ''function''), (''function'', JObj [(''name'', JStr ''ls'')])]], default_roles, False)"
    by (simp add: prepare_tool_def tool_name_def annotated_role_def annotation_role_def assign_role_def strip_annotations_def
        get_def get_or_def dget_def dpop_def ROLE_KEY_def Let_def)
  have "dpop tool_payload REQUIRE_RECEIPT_EXTENSION = tool_payload"
    "receipt_override tool_payload = None"
    "get tool_payload ''response_format'' = JNull" "dhas tool_payload ''tools''"
    "\<not> dhas tool_payload ''response_format''"
    "get tool_payload ''tools'' = JArr [JObj [(''type'', JStr ''function''), (''function'', JObj [(''name'', JStr ''ls'')])]]"
    "dset tool_payload ''tools'' (JArr [JObj [(''type'', JStr ''function''), (''function'', JObj [(''name'', JStr ''ls'')])]]) = tool_payload"
    by (simp_all add: tool_payload_def REQUIRE_RECEIPT_EXTENSION_def receipt_override_def dpop_def
        dhas_def dkeys_def dget_def get_def get_or_def)
  then show ?thesis using p
    by (simp add: make_plan_def tool_plan_def sample_service_def prepare_tools_def response_schema_contract_def Let_def
        default_settings_def requires_phase_split_def requires_combined_capability_def)
qed

lemma tool_complete:
  "\<exists>res lg. complete sample_service (\<lambda>n p. Inr tool_response) (Inr True) uid created tool_payload True False False None
      = (Inr res, lg)"
proof -
  have ms: "messages_of tool_plan = [JObj [(''role'', JStr ''user''), (''content'', JStr ''hi'')]]"
    by (simp add: messages_of_def tool_plan_def tool_payload_def get_def get_or_def dget_def)
  obtain rc where rc: "rebuild_request sample_service tool_plan = Inr rc"
     "project_latest_if_current (messages_of tool_plan) rc = Inr None" "receipts (r_harness rc) = []"
     "open_failures (r_harness rc) = []"
    by (simp add: rebuild_request_def reconstruct_def note_message_def get_def get_or_def dget_def ms
        project_latest_if_current_def latest_exact_paired_tool_result_def finish_rebuild_def start_rebuild_def
        new_harness_def)
  define up :: upstream where "up = (\<lambda>n p. Inr tool_response)"
  define st0 where "st0 = start_run tool_plan rc"
  define call where "call = JObj [(''id'', JStr ''c1''), (''type'', JStr ''function''),
         (''function'', JObj [(''name'', JStr ''ls''), (''arguments'', JStr ''{}'')])]"
  have st0: "rn_calls st0 = 0" "rn_harness st0 = r_harness rc" "rn_phase st0 = None"
    by (simp_all add: st0_def start_run_def initial_phase_def tool_plan_def)
  have args: "call_arguments [(''id'', JStr ''c1''), (''type'', JStr ''function''),
         (''function'', JObj [(''name'', JStr ''ls''), (''arguments'', JStr ''{}'')])] = Inr (''ls'', [])" by code_simp
  have free: "stalled_result (r_harness rc) ''ls'' = (r_harness rc, None)" "duplicate (r_harness rc) ''ls'' [] = None"
    using rc(3,4) by (simp_all add: stalled_result_def stall_blocks_def verification_failure_open_def duplicate_def dkeys_def)
  have rej: "\<exists>h. rejected_results [call] (r_harness rc) (cs_denied_tools sample_service) = Inr (h, [])"
    using args free by (simp add: call_def rejected_results_def note_proposed_def harness_rejection_def sample_service_def)
  have msg: "response_message tool_response = Inr [(''role'', JStr ''assistant''), (''content'', JNull),
      (''tool_calls'', JArr [call])]"
    by (simp add: response_message_def tool_response_def get_def get_or_def dget_def call_def)
  have "\<exists>st body. chat_attempt sample_service tool_plan up st0 = Finished (Inr body) st"
    using rej st0
    by (auto simp add: chat_attempt_def Let_def up_def handle_response_def msg get_def get_or_def dget_def
        handle_calls_def attempt_phase_def tool_plan_def)
  then obtain st body where st: "chat_attempt sample_service tool_plan up st0 = Finished (Inr body) st" by blast
  have "0 < max_upstream_calls (cs_settings sample_service)" by (simp add: sample_service_def default_settings_def)
  with st have "chat_loop sample_service tool_plan up st0 = (Inr body, st)"
    using chat.loop_unfold [of sample_service tool_plan up retry_exhausted _ st0] st0(1) by (simp add: chat_loop_def)
  with rc(1,2) show ?thesis
    using tool_gate tool_make_plan
    by (simp add: complete_def complete_with_harness_def tool_plan_def [THEN arg_cong, of pl_combined] Let_def
        up_def st0_def)
qed

theorem untrusted_answer_has_evidence_witness:
  "\<exists>res lg. complete sample_service (\<lambda>n p. Inr tool_response) (Inr True) ''u'' 0 tool_payload True False False None
      = (Inr res, lg) \<and> (shows_success [JObj [(''role'', JStr ''user''), (''content'', JStr ''hi'')]]
        \<or> (\<exists>msg. response_message tool_response = Inr msg \<and> truthy (get msg ''tool_calls'')))"
proof -
  from tool_complete [of "''u''" 0] obtain res lg where c:
    "complete sample_service (\<lambda>n p. Inr tool_response) (Inr True) ''u'' 0 tool_payload True False False None = (Inr res, lg)"
    by blast
  have t: "get tool_payload ''tools'' = JArr [JObj [(''type'', JStr ''function''), (''function'', JObj [(''name'', JStr ''ls'')])]]"
    "get tool_payload ''messages'' = JArr [JObj [(''role'', JStr ''user''), (''content'', JStr ''hi'')]]"
    by (simp_all add: tool_payload_def get_def get_or_def dget_def)
  have s: "require_receipt_when_tools_present (cs_settings sample_service)"
    by (simp add: sample_service_def default_settings_def)
  from untrusted_answer_has_evidence [OF c t(1) _ s t(2)] c show ?thesis by auto
qed

section \<open>The opt-out\<close>

lemma off_terminal_contract:
  assumes "terminal_schema_issue msg contract = Inr (content, None)" "contract_keys contract = Some ks"
  shows "satisfies_contract content ks (contract_types contract)"
  using assms by (auto simp: terminal_schema_issue_def bind_Inr_iff bare_json_issue_None)

text \<open>
  A request that opted out of the harness is only served when the server denies no tool. Its
  result reports no intervention and is the response to the last payload: without a phase split
  the only payload is the client's request and the response is passed on; with it, a response of
  the acquisition phase proposes calls and one of the finalization phase meets the contract.
\<close>

theorem opt_out_result:
  assumes "1 \<le> max_upstream_calls (cs_settings cs)"
    and "complete cs up probe uid created payload False allowed trusted ns = (Inr res, lg)"
  shows "cs_denied_tools cs = {} \<and> t_profile (cr_telemetry res) = ''off''
    \<and> t_corrections (cr_telemetry res) + t_blocked_duplicates (cr_telemetry res) + t_blocked_stalls (cr_telemetry res) = 0
    \<and> (\<exists>pl response. make_plan cs payload allowed trusted = Inr pl
        \<and> up (length (lg_sent lg) - 1) (snd (last (lg_sent lg))) = Inr response
        \<and> (if pl_split pl then (\<exists>msg. response_message response = Inr msg
              \<and> (if fst (last (lg_sent lg)) = Some Acquisition then truthy (get msg ''tool_calls'')
                 else \<not> truthy (get msg ''tool_calls'')
                   \<and> (\<forall>ks. contract_keys (pl_contract pl) = Some ks \<longrightarrow>
                        (\<exists>content. satisfies_contract content ks (contract_types (pl_contract pl))))))
           else lg_sent lg = [(None, pl_forwarded pl)] \<and> cr_body res = without_reserved_projection_marker response))"
  using assms(2)
proof (cases rule: complete_cases)
  case (planned pl)
  from gate_request_Inr(3) [OF planned(1)] have denied: "cs_denied_tools cs = {}" by simp
  from planned(3) have "complete_without_harness cs pl up = (Inr res, lg)" by simp
  from this assms(1) show ?thesis
  proof (cases rule: complete_without_harness_cases)
    case single
    then obtain response where "up 0 (pl_forwarded pl) = Inr response"
      "res = \<lparr>cr_body = without_reserved_projection_marker response,
              cr_telemetry = off_telemetry 1 (pl_extension_used pl)\<rparr>"
      by (cases "up 0 (pl_forwarded pl)") auto
    with single planned(2) denied show ?thesis by (simp add: off_telemetry_def)
  next
    case (split r st)
    from split(4) obtain body where b: "r = Inr body" by (cases r) auto
    with split(2) obtain response where r: "up (length (rn_sent st) - 1) (snd (last (rn_sent st))) = Inr response"
      "off_released pl (fst (last (rn_sent st))) response body" unfolding off_done_def by blast
    have tel: "cr_telemetry res = off_telemetry (rn_calls st) (pl_extension_used pl)" using split(4) b by simp
    from r(2) obtain msg where m: "response_message response = Inr msg"
      "if fst (last (rn_sent st)) = Some Acquisition then truthy (get msg ''tool_calls'')
       else \<not> truthy (get msg ''tool_calls'') \<and> (\<exists>content. terminal_schema_issue msg (pl_contract pl) = Inr (content, None))"
      unfolding off_released_def by auto
    have "if fst (last (rn_sent st)) = Some Acquisition then truthy (get msg ''tool_calls'')
       else \<not> truthy (get msg ''tool_calls'') \<and> (\<forall>ks. contract_keys (pl_contract pl) = Some ks \<longrightarrow>
          (\<exists>content. satisfies_contract content ks (contract_types (pl_contract pl))))"
      using m(2) by (auto split: if_splits dest: off_terminal_contract)
    with r(1) m(1) have "\<exists>pl' response. make_plan cs payload allowed trusted = Inr pl'
        \<and> up (length (lg_sent lg) - 1) (snd (last (lg_sent lg))) = Inr response
        \<and> pl' = pl \<and> (\<exists>msg. response_message response = Inr msg
              \<and> (if fst (last (lg_sent lg)) = Some Acquisition then truthy (get msg ''tool_calls'')
                 else \<not> truthy (get msg ''tool_calls'')
                   \<and> (\<forall>ks. contract_keys (pl_contract pl) = Some ks \<longrightarrow>
                        (\<exists>content. satisfies_contract content ks (contract_types (pl_contract pl))))))"
      using planned(2) split(3) unfolding log_of_def by simp
    with split(1) denied tel show ?thesis by (fastforce simp: off_telemetry_def)
  qed
qed simp

text \<open>A service without denied tools.\<close>

definition open_service :: chat_service where
  "open_service = sample_service\<lparr>cs_denied_tools := {}\<rparr>"

lemma open_plan: "make_plan open_service sample_payload allowed trusted = Inr (sample_plan\<lparr>pl_extension_used := trusted\<rparr>)"
proof -
  have "dpop sample_payload REQUIRE_RECEIPT_EXTENSION = sample_payload"
    "receipt_override sample_payload = None" "get sample_payload ''tools'' = JNull"
    "get sample_payload ''response_format'' = JNull" "\<not> dhas sample_payload ''tools''"
    by (simp_all add: sample_payload_def REQUIRE_RECEIPT_EXTENSION_def receipt_override_def dpop_def
        dhas_def dkeys_def dget_def get_def get_or_def)
  then show ?thesis
    by (simp add: make_plan_def sample_plan_def open_service_def sample_service_def prepare_tools_def
        response_schema_contract_def default_settings_def requires_phase_split_def requires_combined_capability_def)
qed

lemma open_gate: "gate_request open_service sample_payload False allowed None = Inr ()"
proof -
  have "gate_request sample_service sample_payload True allowed None = Inr ()" by (simp add: sample_gate)
  moreover have "\<not> dhas sample_payload ''n''"
    by (simp add: sample_payload_def dhas_def dkeys_def)
  ultimately show ?thesis
    by (auto simp: gate_request_def open_service_def sample_service_def bind_Inr_iff validate_chat_payload_def
        if_refuse_iff split: if_splits json.splits)
qed

section \<open>A schema the contract cannot read\<close>

text \<open>A response format whose first property has a list of types, such as string or null.\<close>

definition lists_types :: "json \<Rightarrow> bool" where
  "lists_types v \<longleftrightarrow> (\<exists>rf wrapper schema k d ps ts. v = JObj rf \<and> get rf ''type'' = JStr ''json_schema''
     \<and> get rf ''json_schema'' = JObj wrapper \<and> get wrapper ''schema'' = JObj schema
     \<and> get schema ''type'' = JStr ''object'' \<and> get schema ''properties'' = JObj ((k, JObj d) # ps)
     \<and> get d ''type'' = JArr ts)"

lemma lists_types_raises: "lists_types v \<Longrightarrow> response_schema_contract v = Inl TypeError"
  by (auto simp: lists_types_def response_schema_contract_def)

text \<open>
  A response format whose first property lists its types, as nullable properties do, makes
  the request end in an unhandled \<open>TypeError\<close>, with or without the harness and whatever the mode:
  it passes the validation, but the set test on the list raises. Nothing is sent upstream.
\<close>

theorem listed_types_are_unhandled:
  assumes "gate_request cs payload enabled allowed ns = Inr ()"
    and "get payload ''tools'' = JNull" "\<not> dhas payload ''tools''"
    and "lists_types (get payload ''response_format'')"
  shows "complete cs up probe uid created payload enabled allowed trusted ns = (Inl (Unhandled TypeError), quiet)"
proof -
  have ne: "''tools'' \<noteq> REQUIRE_RECEIPT_EXTENSION" "''response_format'' \<noteq> REQUIRE_RECEIPT_EXTENSION"
    by (simp_all add: REQUIRE_RECEIPT_EXTENSION_def)
  let ?p = "dpop payload REQUIRE_RECEIPT_EXTENSION"
  have "get ?p ''tools'' = JNull" "\<not> dhas ?p ''tools''" "lists_types (get ?p ''response_format'')"
    using assms(2-) ne by (simp_all add: get_def get_or_def dget_dpop dhas_dget)
  then have "make_plan cs payload allowed trusted = Inl (Unhandled TypeError)"
    by (simp add: make_plan_def prepare_tools_def lists_types_raises)
  with assms(1) show ?thesis by (simp add: complete_def)
qed

definition nullable_payload :: jobject where
  "nullable_payload = [(''model'', JStr ''m''), (''messages'', JArr []),
     (''response_format'', JObj [(''type'', JStr ''json_schema''),
        (''json_schema'', JObj [(''schema'', JObj [(''type'', JStr ''object''),
           (''properties'', JObj [(''a'', JObj [(''type'', JArr [JStr ''string'', JStr ''null''])])])])])])]"

end
