(* ===== verification/Admission.thy ===== *)
theory Admission
  imports Config "HOL-Library.Multiset"
begin

text \<open>
  Bounded admission (\<open>admission.py\<close>). The controller is the state; every request in flight is an
  element of a multiset and stands at one of the three places where its coroutine can be
  suspended: waiting for its principal's semaphore, waiting for the global one, or running. The
  code between two such places is one step: the two kinds of lock it takes are only ever held
  over code without suspension, so taking them never waits. A budget is an object with an
  identity, to which the dictionary and the requests point. Each step reads the monotonic clock
  once. \<open>c_charged\<close> and \<open>c_slots\<close> are ghosts: the log of charged arrivals, and the number of upstream
  operations that hold a slot.
\<close>

section \<open>State\<close>

record budget =
  b_value :: nat
  b_arrivals :: "rat list"
  b_last_used :: rat
  b_references :: int

datatype place = Waiting_Principal | Waiting_Global | Active

record visitor =
  v_key :: string
  v_budget :: nat
  v_place :: place

record controller =
  c_admission :: nat
  c_upstream :: nat
  c_principals :: "(string, nat) dict"
  c_budgets :: "nat \<Rightarrow> budget"
  c_next :: nat
  c_active :: int
  c_queued :: int
  c_upstream_active :: int
  c_admission_rejections :: nat
  c_rate_rejections :: nat
  c_clock :: rat
  c_visitors :: "visitor multiset"
  c_slots :: nat
  c_charged :: "(string \<times> rat) list"

definition new_budget :: "settings \<Rightarrow> rat \<Rightarrow> budget" where
  "new_budget s t = \<lparr>b_value = principal_concurrency_limit s, b_arrivals = [], b_last_used = t, b_references = 0\<rparr>"

definition new_controller :: "settings \<Rightarrow> controller" where
  "new_controller s =
     \<lparr>c_admission = admission_limit s, c_upstream = concurrency_limit s, c_principals = [],
      c_budgets = (\<lambda>_. new_budget s 0), c_next = 0, c_active = 0, c_queued = 0, c_upstream_active = 0,
      c_admission_rejections = 0, c_rate_rejections = 0, c_clock = 0, c_visitors = {#}, c_slots = 0, c_charged = []\<rparr>"

definition update_budget :: "nat \<Rightarrow> (budget \<Rightarrow> budget) \<Rightarrow> controller \<Rightarrow> controller" where
  "update_budget i f c = c\<lparr>c_budgets := (c_budgets c)(i := f (c_budgets c i))\<rparr>"

section \<open>Operations\<close>

definition GLOBAL_BUDGET_KEY :: string where
  "GLOBAL_BUDGET_KEY = ''global''"

definition budget_key :: "settings \<Rightarrow> string option \<Rightarrow> string" where
  "budget_key s key =
     (case key of None \<Rightarrow> GLOBAL_BUDGET_KEY
      | Some k \<Rightarrow> if principal_budget_mode s = Global_Budget then GLOBAL_BUDGET_KEY else k)"

text \<open>\<open>_principal\<close>: the budget of the key, made when there is none, with one reference more.\<close>

definition principal :: "settings \<Rightarrow> rat \<Rightarrow> string \<Rightarrow> controller \<Rightarrow> nat \<times> controller" where
  "principal s t k c =
     (let (i, c1) = (case dget (c_principals c) k of
            Some i \<Rightarrow> (i, c)
          | None \<Rightarrow> (c_next c, c\<lparr>c_budgets := (c_budgets c)(c_next c := new_budget s t),
                       c_principals := dset (c_principals c) k (c_next c), c_next := Suc (c_next c)\<rparr>))
      in (i, update_budget i (\<lambda>b. b\<lparr>b_references := b_references b + 1\<rparr>) c1))"

definition drop_expired :: "settings \<Rightarrow> rat \<Rightarrow> rat list \<Rightarrow> rat list" where
  "drop_expired s t arrivals = dropWhile (\<lambda>a. a \<le> t - principal_rate_window_seconds s) arrivals"

definition prunable :: "settings \<Rightarrow> rat \<Rightarrow> budget \<Rightarrow> bool" where
  "prunable s t b \<longleftrightarrow> b_references b = 0 \<and> drop_expired s t (b_arrivals b) = []
     \<and> b_last_used b \<le> t - principal_rate_window_seconds s"

text \<open>\<open>_prune_principals\<close>: the loop over a snapshot of the items.\<close>

definition prune_one :: "settings \<Rightarrow> rat \<Rightarrow> controller \<Rightarrow> string \<times> nat \<Rightarrow> controller" where
  "prune_one s t c ki =
     (case ki of (k, i) \<Rightarrow>
       (let b = c_budgets c i;
            c' = update_budget i (\<lambda>b. b\<lparr>b_arrivals := drop_expired s t (b_arrivals b)\<rparr>) c
        in if prunable s t b then c'\<lparr>c_principals := dpop (c_principals c') k\<rparr> else c'))"

definition prune :: "settings \<Rightarrow> rat \<Rightarrow> controller \<Rightarrow> controller" where
  "prune s t c = foldl (prune_one s t) c (c_principals c)"

definition charged :: "settings \<Rightarrow> rat \<Rightarrow> budget \<Rightarrow> bool" where
  "charged s t b \<longleftrightarrow> length (drop_expired s t (b_arrivals b)) < principal_rate_limit s"

text \<open>\<open>release\<close>, \<open>last_used\<close> and \<open>_release_principal_reference\<close> in the final block.\<close>

definition give_back :: "rat \<Rightarrow> budget \<Rightarrow> budget" where
  "give_back t b = b\<lparr>b_value := Suc (b_value b), b_last_used := t, b_references := b_references b - 1\<rparr>"

definition move :: "visitor \<Rightarrow> place \<Rightarrow> controller \<Rightarrow> controller" where
  "move v p c = c\<lparr>c_visitors := add_mset (v\<lparr>v_place := p\<rparr>) (c_visitors c - {#v#})\<rparr>"

definition go :: "visitor \<Rightarrow> controller \<Rightarrow> controller" where
  "go v c = c\<lparr>c_visitors := c_visitors c - {#v#}\<rparr>"

section \<open>The steps of \<open>admit\<close>\<close>

definition arrive :: "settings \<Rightarrow> rat \<Rightarrow> string option \<Rightarrow> controller \<Rightarrow> controller" where
  "arrive s t key c =
     (let k = budget_key s key; (i, c1) = principal s t k (c\<lparr>c_clock := t\<rparr>) in
      c1\<lparr>c_queued := c_queued c1 + 1,
         c_visitors := add_mset \<lparr>v_key = k, v_budget = i, v_place = Waiting_Principal\<rparr> (c_visitors c1)\<rparr>)"

definition acquire_principal :: "visitor \<Rightarrow> controller \<Rightarrow> controller" where
  "acquire_principal v c = move v Waiting_Global (update_budget (v_budget v) (\<lambda>b. b\<lparr>b_value := b_value b - 1\<rparr>) c)"

text \<open>The wait for the principal ends in a timeout or a cancellation.\<close>

definition abandon_principal :: "settings \<Rightarrow> rat \<Rightarrow> bool \<Rightarrow> visitor \<Rightarrow> controller \<Rightarrow> controller" where
  "abandon_principal s t timeout v c =
     prune s t (go v (update_budget (v_budget v) (\<lambda>b. b\<lparr>b_references := b_references b - 1\<rparr>)
       (c\<lparr>c_clock := t, c_queued := c_queued c - 1,
          c_admission_rejections := c_admission_rejections c + (if timeout then 1 else 0)\<rparr>)))"

definition abandon_global :: "settings \<Rightarrow> rat \<Rightarrow> bool \<Rightarrow> visitor \<Rightarrow> controller \<Rightarrow> controller" where
  "abandon_global s t timeout v c =
     prune s t (go v (update_budget (v_budget v) (give_back t)
       (c\<lparr>c_clock := t, c_queued := c_queued c - 1,
          c_admission_rejections := c_admission_rejections c + (if timeout then 1 else 0)\<rparr>)))"

text \<open>The global semaphore is acquired and the arrival charged, or refused, before the body runs.\<close>

definition enter :: "settings \<Rightarrow> rat \<Rightarrow> visitor \<Rightarrow> controller \<Rightarrow> controller" where
  "enter s t v c =
     (if charged s t (c_budgets c (v_budget v)) then
        move v Active (update_budget (v_budget v)
            (\<lambda>b. b\<lparr>b_arrivals := drop_expired s t (b_arrivals b) @ [t], b_last_used := t\<rparr>)
          (c\<lparr>c_clock := t, c_admission := c_admission c - 1, c_queued := c_queued c - 1, c_active := c_active c + 1,
             c_charged := c_charged c @ [(v_key v, t)]\<rparr>))
      else
        prune s t (go v (update_budget (v_budget v)
            (\<lambda>b. give_back t (b\<lparr>b_arrivals := drop_expired s t (b_arrivals b)\<rparr>))
          (c\<lparr>c_clock := t, c_queued := c_queued c - 1, c_rate_rejections := Suc (c_rate_rejections c)\<rparr>))))"

text \<open>The body ends, normally or not.\<close>

definition leave :: "settings \<Rightarrow> rat \<Rightarrow> visitor \<Rightarrow> controller \<Rightarrow> controller" where
  "leave s t v c =
     prune s t (go v (update_budget (v_budget v) (give_back t)
       (c\<lparr>c_clock := t, c_active := c_active c - 1, c_admission := Suc (c_admission c)\<rparr>)))"

definition take_slot :: "controller \<Rightarrow> controller" where
  "take_slot c = c\<lparr>c_upstream := c_upstream c - 1, c_upstream_active := c_upstream_active c + 1, c_slots := Suc (c_slots c)\<rparr>"

definition free_slot :: "controller \<Rightarrow> controller" where
  "free_slot c = c\<lparr>c_upstream := Suc (c_upstream c), c_upstream_active := c_upstream_active c - 1, c_slots := c_slots c - 1\<rparr>"

inductive admission_step :: "settings \<Rightarrow> controller \<Rightarrow> controller \<Rightarrow> bool" for s where
  arrives: "c_clock c \<le> t \<Longrightarrow> admission_step s c (arrive s t key c)"
| acquires: "v \<in># c_visitors c \<Longrightarrow> v_place v = Waiting_Principal \<Longrightarrow> 0 < b_value (c_budgets c (v_budget v))
    \<Longrightarrow> admission_step s c (acquire_principal v c)"
| gives_up: "v \<in># c_visitors c \<Longrightarrow> v_place v = Waiting_Principal \<Longrightarrow> c_clock c \<le> t
    \<Longrightarrow> admission_step s c (abandon_principal s t timeout v c)"
| enters: "v \<in># c_visitors c \<Longrightarrow> v_place v = Waiting_Global \<Longrightarrow> 0 < c_admission c \<Longrightarrow> c_clock c \<le> t
    \<Longrightarrow> admission_step s c (enter s t v c)"
| turns_away: "v \<in># c_visitors c \<Longrightarrow> v_place v = Waiting_Global \<Longrightarrow> c_clock c \<le> t
    \<Longrightarrow> admission_step s c (abandon_global s t timeout v c)"
| leaves: "v \<in># c_visitors c \<Longrightarrow> v_place v = Active \<Longrightarrow> c_clock c \<le> t \<Longrightarrow> admission_step s c (leave s t v c)"
| slot_taken: "0 < c_upstream c \<Longrightarrow> admission_step s c (take_slot c)"
| slot_freed: "0 < c_slots c \<Longrightarrow> admission_step s c (free_slot c)"

inductive admitted :: "settings \<Rightarrow> controller \<Rightarrow> bool" for s where
  start: "admitted s (new_controller s)"
| step: "admitted s c \<Longrightarrow> admission_step s c c' \<Longrightarrow> admitted s c'"

section \<open>Operations under a slot\<close>

definition upstream_slot :: "settings \<Rightarrow> bool \<Rightarrow> 'a outcome \<Rightarrow> 'a outcome" where
  "upstream_slot s granted work =
     (if granted then work
      else Inl (Proxy \<lparr>e_status_code = 503, e_code = ''upstream_concurrency_limited'',
        e_message = ''Upstream capacity is unavailable.'',
        e_headers = [(''Retry-After'', dec_digits (overload_retry_after_seconds s))]\<rparr>))"

text \<open>The refusals of \<open>admit\<close>, for the code of the exhausted gate.\<close>

definition admission_refusal :: "settings \<Rightarrow> string \<Rightarrow> proxy_error" where
  "admission_refusal s code = \<lparr>e_status_code = 429, e_code = code,
     e_message = ''Request admission is temporarily unavailable.'',
     e_headers = [(''Retry-After'', dec_digits (overload_retry_after_seconds s))]\<rparr>"

definition bounded_ready :: "settings \<Rightarrow> bool \<times> bool \<Rightarrow> bool outcome \<Rightarrow> bool outcome \<Rightarrow> bool outcome" where
  "bounded_ready s granted ready supported =
     bind (upstream_slot s (fst granted) ready) (\<lambda>is_ready.
       if \<not> is_ready then Inr False
       else if upstream_tool_response_capability_mode s = Combined_V1
       then upstream_slot s (snd granted) supported
       else Inr True)"

end
