(* ===== verification/Admission_Laws.thy ===== *)
theory Admission_Laws
  imports Admission
begin

text \<open>
  What the admission controller guarantees in every reachable state: the counters are the numbers
  of requests at each place, no semaphore is ever over-committed or leaked, a principal has one
  budget at a time, and no window holds more charged arrivals of a key than its rate limit,
  however budgets are pruned and made again.
\<close>

section \<open>Pruning\<close>

lemma update_budget_fields [simp]:
  "c_budgets (update_budget i f c) j = (if j = i then f (c_budgets c i) else c_budgets c j)"
  "c_principals (update_budget i f c) = c_principals c" "c_visitors (update_budget i f c) = c_visitors c"
  "c_admission (update_budget i f c) = c_admission c" "c_upstream (update_budget i f c) = c_upstream c"
  "c_next (update_budget i f c) = c_next c" "c_active (update_budget i f c) = c_active c"
  "c_queued (update_budget i f c) = c_queued c" "c_upstream_active (update_budget i f c) = c_upstream_active c"
  "c_clock (update_budget i f c) = c_clock c" "c_slots (update_budget i f c) = c_slots c"
  "c_charged (update_budget i f c) = c_charged c"
  by (simp_all add: update_budget_def)

lemma go_fields [simp]:
  "c_budgets (go v c) = c_budgets c" "c_principals (go v c) = c_principals c"
  "c_visitors (go v c) = c_visitors c - {#v#}" "c_admission (go v c) = c_admission c"
  "c_upstream (go v c) = c_upstream c" "c_next (go v c) = c_next c" "c_active (go v c) = c_active c"
  "c_queued (go v c) = c_queued c" "c_upstream_active (go v c) = c_upstream_active c"
  "c_clock (go v c) = c_clock c" "c_slots (go v c) = c_slots c" "c_charged (go v c) = c_charged c"
  by (simp_all add: go_def)

lemma move_fields [simp]:
  "c_budgets (move v p c) = c_budgets c" "c_principals (move v p c) = c_principals c"
  "c_visitors (move v p c) = add_mset (v\<lparr>v_place := p\<rparr>) (c_visitors c - {#v#})"
  "c_admission (move v p c) = c_admission c"
  "c_upstream (move v p c) = c_upstream c" "c_next (move v p c) = c_next c" "c_active (move v p c) = c_active c"
  "c_queued (move v p c) = c_queued c" "c_upstream_active (move v p c) = c_upstream_active c"
  "c_clock (move v p c) = c_clock c" "c_slots (move v p c) = c_slots c" "c_charged (move v p c) = c_charged c"
  by (simp_all add: move_def)

text \<open>Everything of the state but the dictionary and the arrivals of the budgets.\<close>

definition same_rest :: "controller \<Rightarrow> controller \<Rightarrow> bool" where
  "same_rest c c' \<longleftrightarrow> c_visitors c' = c_visitors c \<and> c_admission c' = c_admission c \<and> c_upstream c' = c_upstream c
     \<and> c_next c' = c_next c \<and> c_active c' = c_active c \<and> c_queued c' = c_queued c
     \<and> c_upstream_active c' = c_upstream_active c \<and> c_clock c' = c_clock c \<and> c_slots c' = c_slots c
     \<and> c_charged c' = c_charged c"

lemma same_rest_refl [simp]: "same_rest c c"
  by (simp add: same_rest_def)

lemma same_rest_trans: "same_rest a b \<Longrightarrow> same_rest b c \<Longrightarrow> same_rest a c"
  by (simp add: same_rest_def)

definition aged :: "settings \<Rightarrow> rat \<Rightarrow> budget \<Rightarrow> budget" where
  "aged s t b = b\<lparr>b_arrivals := drop_expired s t (b_arrivals b)\<rparr>"

lemma prune_one_effect:
  "c_budgets (prune_one s t c (k, i)) = (c_budgets c)(i := aged s t (c_budgets c i))"
  "c_principals (prune_one s t c (k, i))
     = (if prunable s t (c_budgets c i) then dpop (c_principals c) k else c_principals c)"
  "same_rest c (prune_one s t c (k, i))"
  by (auto simp: prune_one_def Let_def aged_def update_budget_def same_rest_def)

lemma foldl_prune:
  assumes "distinct (map fst kis)" "distinct (map snd kis)"
  shows "same_rest c (foldl (prune_one s t) c kis)
    \<and> (\<forall>i. c_budgets (foldl (prune_one s t) c kis) i =
        (if i \<in> snd ` set kis then aged s t (c_budgets c i) else c_budgets c i))
    \<and> (\<forall>k. dget (c_principals (foldl (prune_one s t) c kis)) k =
        (if \<exists>i. (k, i) \<in> set kis \<and> prunable s t (c_budgets c i) then None else dget (c_principals c) k))
    \<and> (dict_ok (c_principals c) \<longrightarrow> dict_ok (c_principals (foldl (prune_one s t) c kis)))"
  using assms
proof (induction kis arbitrary: c)
  case Nil
  then show ?case by simp
next
  case (Cons ki kis)
  obtain k i where ki: "ki = (k, i)" by (cases ki)
  define c1 where "c1 = prune_one s t c (k, i)"
  have e: "c_budgets c1 = (c_budgets c)(i := aged s t (c_budgets c i))"
    "c_principals c1 = (if prunable s t (c_budgets c i) then dpop (c_principals c) k else c_principals c)"
    "same_rest c c1"
    unfolding c1_def by (rule prune_one_effect)+
  have new: "i \<notin> snd ` set kis" "k \<notin> fst ` set kis" using Cons.prems by (auto simp: ki)
  from Cons.prems have "distinct (map fst kis)" "distinct (map snd kis)" by (simp_all add: ki)
  note IH = Cons.IH [OF this, of c1]
  have b: "c_budgets c1 j = c_budgets c j" if "j \<in> snd ` set kis" for j using that new(1) e(1) by auto
  have p: "(\<exists>j. (k', j) \<in> set kis \<and> prunable s t (c_budgets c1 j)) = (\<exists>j. (k', j) \<in> set kis \<and> prunable s t (c_budgets c j))" for k'
    using b by (metis image_eqI snd_conv)
  have "same_rest c (foldl (prune_one s t) c1 kis)" using e(3) IH same_rest_trans by blast
  moreover have "c_budgets (foldl (prune_one s t) c1 kis) j =
      (if j \<in> snd ` set (ki # kis) then aged s t (c_budgets c j) else c_budgets c j)" for j
    using IH new(1) by (auto simp: e(1) ki)
  moreover have "dget (c_principals (foldl (prune_one s t) c1 kis)) k' =
      (if \<exists>j. (k', j) \<in> set (ki # kis) \<and> prunable s t (c_budgets c j) then None else dget (c_principals c) k')" for k'
    using IH new(2) by (auto simp: p e(2) ki dget_dpop)
  moreover have "dict_ok (c_principals c) \<longrightarrow> dict_ok (c_principals (foldl (prune_one s t) c1 kis))"
    using IH by (auto simp: e(2) dict_simps)
  ultimately show ?case by (simp add: ki flip: c1_def)
qed

definition one_budget_each :: "controller \<Rightarrow> bool" where
  "one_budget_each c \<longleftrightarrow> dict_ok (c_principals c)
     \<and> (\<forall>k k' i. dget (c_principals c) k = Some i \<longrightarrow> dget (c_principals c) k' = Some i \<longrightarrow> k = k')
     \<and> (\<forall>k i. dget (c_principals c) k = Some i \<longrightarrow> i < c_next c)"

lemma dget_in: "dict_ok d \<Longrightarrow> dget d k = Some v \<longleftrightarrow> (k, v) \<in> set d"
  by (simp add: dict_ok_def dkeys_def dget_def)

lemma distinct_values:
  assumes "dict_ok d" "\<And>k k' i. dget d k = Some i \<Longrightarrow> dget d k' = Some i \<Longrightarrow> k = k'"
  shows "distinct (map snd d)"
proof -
  have "distinct d" using assms(1) by (simp add: dict_ok_def dkeys_def distinct_map)
  moreover have "inj_on snd (set d)"
    using assms(2) by (auto simp: inj_on_def dget_in [OF assms(1)])
  ultimately show ?thesis by (simp add: distinct_map)
qed

lemma prune_effect:
  assumes "one_budget_each c"
  shows "same_rest c (prune s t c)"
    "dget (c_principals c) k = Some i \<Longrightarrow> c_budgets (prune s t c) i = aged s t (c_budgets c i)"
    "(\<forall>k. dget (c_principals c) k \<noteq> Some i) \<Longrightarrow> c_budgets (prune s t c) i = c_budgets c i"
    "dget (c_principals (prune s t c)) k = (case dget (c_principals c) k of None \<Rightarrow> None
       | Some i \<Rightarrow> if prunable s t (c_budgets c i) then None else Some i)"
    "dict_ok (c_principals (prune s t c))"
proof -
  from assms have d: "dict_ok (c_principals c)" "distinct (map fst (c_principals c))" "distinct (map snd (c_principals c))"
    by (auto simp: one_budget_each_def dict_ok_def dkeys_def intro: distinct_values)
  note f = foldl_prune [OF d(2,3), of c s t, folded prune_def]
  have mem: "i \<in> snd ` set (c_principals c) \<longleftrightarrow> (\<exists>k. dget (c_principals c) k = Some i)" for i
    by (force simp: dget_in [OF d(1)])
  from f show "same_rest c (prune s t c)" "dict_ok (c_principals (prune s t c))" using d(1) by blast+
  show "dget (c_principals c) k = Some i \<Longrightarrow> c_budgets (prune s t c) i = aged s t (c_budgets c i)"
    using f mem by (metis (no_types))
  show "(\<forall>k. dget (c_principals c) k \<noteq> Some i) \<Longrightarrow> c_budgets (prune s t c) i = c_budgets c i"
    using f mem by (metis (no_types))
  show "dget (c_principals (prune s t c)) k = (case dget (c_principals c) k of None \<Rightarrow> None
       | Some i \<Rightarrow> if prunable s t (c_budgets c i) then None else Some i)"
    using f by (auto simp: dget_in [OF d(1), symmetric] split: option.split)
qed

section \<open>Counts\<close>

definition standing :: "controller \<Rightarrow> (visitor \<Rightarrow> bool) \<Rightarrow> nat" where
  "standing c P = size (filter_mset P (c_visitors c))"

lemma standing_split: "c_visitors c = add_mset v M \<Longrightarrow> standing c P = (if P v then Suc (size (filter_mset P M)) else size (filter_mset P M))"
  by (simp add: standing_def)

definition budget_counts :: "settings \<Rightarrow> controller \<Rightarrow> nat \<Rightarrow> bool" where
  "budget_counts s c i \<longleftrightarrow> b_references (c_budgets c i) = int (standing c (\<lambda>v. v_budget v = i))
     \<and> b_value (c_budgets c i) + standing c (\<lambda>v. v_budget v = i \<and> v_place v \<noteq> Waiting_Principal) = principal_concurrency_limit s"

definition gate_counts :: "settings \<Rightarrow> controller \<Rightarrow> bool" where
  "gate_counts s c \<longleftrightarrow> c_queued c = int (standing c (\<lambda>v. v_place v \<noteq> Active))
     \<and> c_active c = int (standing c (\<lambda>v. v_place v = Active))
     \<and> c_admission c + standing c (\<lambda>v. v_place v = Active) = admission_limit s
     \<and> c_upstream c + c_slots c = concurrency_limit s \<and> c_upstream_active c = int (c_slots c)"

definition counts_ok :: "settings \<Rightarrow> controller \<Rightarrow> bool" where
  "counts_ok s c \<longleftrightarrow> one_budget_each c \<and> gate_counts s c
     \<and> (\<forall>v \<in># c_visitors c. dget (c_principals c) (v_key v) = Some (v_budget v))
     \<and> (\<forall>k i. dget (c_principals c) k = Some i \<longrightarrow> budget_counts s c i)"

lemma counts_ok_new: "counts_ok s (new_controller s)"
  by (simp add: counts_ok_def new_controller_def one_budget_each_def gate_counts_def standing_def dict_ok_def dget_def dkeys_def)

lemma standing_same_rest: "same_rest c c' \<Longrightarrow> standing c' P = standing c P"
  by (simp add: standing_def same_rest_def)

lemma referenced_not_prunable:
  assumes "counts_ok s c" "v \<in># c_visitors c"
  shows "\<not> prunable s t (c_budgets c (v_budget v))"
proof -
  from assms(2) obtain M where M: "c_visitors c = add_mset v M" by (metis multi_member_split)
  from assms have "budget_counts s c (v_budget v)" by (auto simp: counts_ok_def)
  then show ?thesis by (simp add: prunable_def budget_counts_def standing_split [OF M])
qed

lemma aged_fields [simp]:
  "b_value (aged s t b) = b_value b" "b_references (aged s t b) = b_references b" "b_last_used (aged s t b) = b_last_used b"
  "b_arrivals (aged s t b) = drop_expired s t (b_arrivals b)"
  by (simp_all add: aged_def)

lemma counts_ok_prune:
  assumes ok: "counts_ok s c"
  shows "counts_ok s (prune s t c)"
proof -
  have one: "one_budget_each c" using ok by (simp add: counts_ok_def)
  note p = prune_effect [OF one]
  have some: "dget (c_principals (prune s t c)) k = Some i \<Longrightarrow> dget (c_principals c) k = Some i" for k i
    by (auto simp: p(4) split: option.splits if_splits)
  have "one_budget_each (prune s t c)"
    using one some p(1,5) unfolding one_budget_each_def same_rest_def by metis
  moreover have "gate_counts s (prune s t c)"
    using ok p(1) by (simp add: counts_ok_def gate_counts_def standing_same_rest [OF p(1)] same_rest_def)
  moreover have "dget (c_principals (prune s t c)) (v_key v) = Some (v_budget v)" if "v \<in># c_visitors (prune s t c)" for v
  proof -
    have v: "v \<in># c_visitors c" using that p(1) by (simp add: same_rest_def)
    with ok have "dget (c_principals c) (v_key v) = Some (v_budget v)" by (auto simp: counts_ok_def)
    with referenced_not_prunable [OF ok v] show ?thesis by (simp add: p(4))
  qed
  moreover have "budget_counts s (prune s t c) i" if "dget (c_principals (prune s t c)) k = Some i" for k i
  proof -
    from some [OF that] ok have "budget_counts s c i" by (auto simp: counts_ok_def)
    then show ?thesis using p(2) [OF some [OF that]] by (simp add: budget_counts_def standing_same_rest [OF p(1)])
  qed
  ultimately show ?thesis by (simp add: counts_ok_def)
qed

text \<open>A step that changes one request and its budget, before any pruning.\<close>

lemma counts_ok_change:
  assumes ok: "counts_ok s c" and M: "c_visitors c = add_mset v M" "c_visitors c' = N + M"
    and N: "\<And>w. w \<in># N \<Longrightarrow> v_key w = v_key v \<and> v_budget w = v_budget v"
    and same: "c_principals c' = c_principals c" "c_next c' = c_next c"
      "\<And>i. i \<noteq> v_budget v \<Longrightarrow> b_references (c_budgets c' i) = b_references (c_budgets c i) \<and> b_value (c_budgets c' i) = b_value (c_budgets c i)"
    and here: "budget_counts s c' (v_budget v)" and gates: "gate_counts s c'"
  shows "counts_ok s c'"
proof -
  have "one_budget_each c'" using ok same by (simp add: counts_ok_def one_budget_each_def)
  moreover have "\<forall>w \<in># c_visitors c'. dget (c_principals c') (v_key w) = Some (v_budget w)"
  proof
    fix w assume "w \<in># c_visitors c'"
    then have "w \<in># N \<or> w \<in># M" by (simp add: M)
    moreover have "\<forall>w \<in># c_visitors c. dget (c_principals c) (v_key w) = Some (v_budget w)" using ok by (simp add: counts_ok_def)
    ultimately show "dget (c_principals c') (v_key w) = Some (v_budget w)" using N same M by auto
  qed
  moreover have "budget_counts s c' i" if k: "dget (c_principals c') k = Some i" for k i
  proof (cases "i = v_budget v")
    case False
    have a: "standing c' (\<lambda>w. v_budget w = i \<and> P w) = standing c (\<lambda>w. v_budget w = i \<and> P w)" for P
    proof -
      have "filter_mset (\<lambda>w. v_budget w = i \<and> P w) N = filter_mset (\<lambda>w. False) N"
        using N False by (intro filter_mset_cong) auto
      with False M show ?thesis by (simp add: standing_def)
    qed
    from ok k same have "budget_counts s c i" by (auto simp: counts_ok_def)
    with same(3) [OF False] a [of "\<lambda>_. True"] a [of "\<lambda>w. v_place w \<noteq> Waiting_Principal"] show ?thesis
      by (simp add: budget_counts_def)
  qed (use here in simp)
  ultimately show ?thesis using gates by (simp add: counts_ok_def)
qed
section \<open>The steps keep the counts\<close>

lemma counts_ok_member: "counts_ok s c \<Longrightarrow> v \<in># c_visitors c \<Longrightarrow> budget_counts s c (v_budget v)"
  by (auto simp: counts_ok_def)

lemma counts_ok_gates: "counts_ok s c \<Longrightarrow> gate_counts s c"
  by (simp add: counts_ok_def)

lemma counts_ok_slots:
  "counts_ok s c \<Longrightarrow> 0 < c_upstream c \<Longrightarrow> counts_ok s (take_slot c)"
  "counts_ok s c \<Longrightarrow> 0 < c_slots c \<Longrightarrow> counts_ok s (free_slot c)"
  by (auto simp: counts_ok_def one_budget_each_def gate_counts_def budget_counts_def standing_def take_slot_def free_slot_def)

lemma counts_ok_arrive:
  assumes ok: "counts_ok s c"
  shows "counts_ok s (arrive s t key c)"
proof -
  define k where "k = budget_key s key"
  have one: "one_budget_each c" using ok by (simp add: counts_ok_def)
  have visitors: "\<forall>v \<in># c_visitors c. dget (c_principals c) (v_key v) = Some (v_budget v)"
    and budgets: "\<And>k i. dget (c_principals c) k = Some i \<Longrightarrow> budget_counts s c i"
    using ok by (auto simp: counts_ok_def)
  show ?thesis
  proof (cases "dget (c_principals c) k")
    case (Some i)
    define c' where "c' = arrive s t key c"
    have f: "c_visitors c' = add_mset \<lparr>v_key = k, v_budget = i, v_place = Waiting_Principal\<rparr> (c_visitors c)"
      "c_principals c' = c_principals c" "c_next c' = c_next c"
      "c_budgets c' = (c_budgets c)(i := (c_budgets c i)\<lparr>b_references := b_references (c_budgets c i) + 1\<rparr>)"
      "c_queued c' = c_queued c + 1" "c_active c' = c_active c" "c_admission c' = c_admission c"
      "c_upstream c' = c_upstream c" "c_slots c' = c_slots c" "c_upstream_active c' = c_upstream_active c"
      using Some by (simp_all add: c'_def arrive_def principal_def Let_def update_budget_def flip: k_def)
    have "one_budget_each c'" using one by (simp add: one_budget_each_def f)
    moreover have "gate_counts s c'" using counts_ok_gates [OF ok] by (simp add: gate_counts_def standing_def f)
    moreover have "budget_counts s c' j" if "dget (c_principals c') k' = Some j" for k' j
      using budgets [of k' j] that by (auto simp: budget_counts_def standing_def f)
    ultimately show ?thesis using visitors Some by (auto simp: counts_ok_def f simp flip: c'_def)
  next
    case None
    define i where "i = c_next c"
    define c' where "c' = arrive s t key c"
    have f: "c_visitors c' = add_mset \<lparr>v_key = k, v_budget = i, v_place = Waiting_Principal\<rparr> (c_visitors c)"
      "c_principals c' = dset (c_principals c) k i" "c_next c' = Suc (c_next c)"
      "c_budgets c' = (c_budgets c)(i := (new_budget s t)\<lparr>b_references := 1\<rparr>)"
      "c_queued c' = c_queued c + 1" "c_active c' = c_active c" "c_admission c' = c_admission c"
      "c_upstream c' = c_upstream c" "c_slots c' = c_slots c" "c_upstream_active c' = c_upstream_active c"
      using None
      by (simp_all add: c'_def i_def arrive_def principal_def Let_def update_budget_def new_budget_def flip: k_def)
    have fresh: "j \<noteq> i" if "dget (c_principals c) k' = Some j" for k' j
      using one that by (auto simp: one_budget_each_def i_def)
    have "one_budget_each c'"
      using one fresh unfolding one_budget_each_def f i_def by (auto simp: dict_simps less_Suc_eq split: if_splits)
    moreover have "gate_counts s c'" using counts_ok_gates [OF ok] by (simp add: gate_counts_def standing_def f)
    moreover have "budget_counts s c' j" if "dget (c_principals c') k' = Some j" for k' j
    proof (cases "j = i")
      case True
      have "filter_mset (\<lambda>v. v_budget v = i \<and> P v) (c_visitors c) = filter_mset (\<lambda>v. False) (c_visitors c)" for P
        using visitors fresh by (intro filter_mset_cong) auto
      from this [of "\<lambda>_. True"] this [of "\<lambda>v. v_place v \<noteq> Waiting_Principal"] show ?thesis
        by (simp add: True budget_counts_def standing_def f new_budget_def)
    next
      case False
      with that budgets [of k' j] show ?thesis
        by (auto simp: f dict_simps budget_counts_def standing_def split: if_splits)
    qed
    moreover have "v_key w = k \<longrightarrow> w \<notin># c_visitors c" for w using visitors None by auto
    ultimately show ?thesis using visitors by (auto simp: counts_ok_def f dict_simps simp flip: c'_def)
  qed
qed

text \<open>Each operation on a request, without its pruning, is a change of that request.\<close>

lemma counts_ok_acquire:
  assumes ok: "counts_ok s c" and v: "v \<in># c_visitors c" "v_place v = Waiting_Principal" "0 < b_value (c_budgets c (v_budget v))"
  shows "counts_ok s (acquire_principal v c)"
proof -
  from v(1) obtain M where M: "c_visitors c = add_mset v M" by (metis multi_member_split)
  note b = counts_ok_member [OF ok v(1)] and g = counts_ok_gates [OF ok]
  show ?thesis
    by (rule counts_ok_change [OF ok M, where N = "{#v\<lparr>v_place := Waiting_Global\<rparr>#}"])
      (use b g v in \<open>auto simp: acquire_principal_def M budget_counts_def gate_counts_def standing_def\<close>)
qed

lemma counts_ok_gives_up:
  assumes ok: "counts_ok s c" and v: "v \<in># c_visitors c" "v_place v = Waiting_Principal"
  shows "counts_ok s (abandon_principal s t timeout v c)"
proof -
  from v(1) obtain M where M: "c_visitors c = add_mset v M" by (metis multi_member_split)
  note b = counts_ok_member [OF ok v(1)] and g = counts_ok_gates [OF ok]
  show ?thesis unfolding abandon_principal_def
    by (intro counts_ok_prune, rule counts_ok_change [OF ok M, where N = "{#}"])
      (use b g v in \<open>auto simp: M budget_counts_def gate_counts_def standing_def\<close>)
qed

lemma counts_ok_turns_away:
  assumes ok: "counts_ok s c" and v: "v \<in># c_visitors c" "v_place v = Waiting_Global"
  shows "counts_ok s (abandon_global s t timeout v c)"
proof -
  from v(1) obtain M where M: "c_visitors c = add_mset v M" by (metis multi_member_split)
  note b = counts_ok_member [OF ok v(1)] and g = counts_ok_gates [OF ok]
  show ?thesis unfolding abandon_global_def
    by (intro counts_ok_prune, rule counts_ok_change [OF ok M, where N = "{#}"])
      (use b g v in \<open>auto simp: M budget_counts_def gate_counts_def standing_def give_back_def\<close>)
qed

lemma counts_ok_leave:
  assumes ok: "counts_ok s c" and v: "v \<in># c_visitors c" "v_place v = Active"
  shows "counts_ok s (leave s t v c)"
proof -
  from v(1) obtain M where M: "c_visitors c = add_mset v M" by (metis multi_member_split)
  note b = counts_ok_member [OF ok v(1)] and g = counts_ok_gates [OF ok]
  show ?thesis unfolding leave_def
    by (intro counts_ok_prune, rule counts_ok_change [OF ok M, where N = "{#}"])
      (use b g v in \<open>auto simp: M budget_counts_def gate_counts_def standing_def give_back_def\<close>)
qed

lemma counts_ok_enter:
  assumes ok: "counts_ok s c" and v: "v \<in># c_visitors c" "v_place v = Waiting_Global" "0 < c_admission c"
  shows "counts_ok s (enter s t v c)"
proof -
  from v(1) obtain M where M: "c_visitors c = add_mset v M" by (metis multi_member_split)
  note b = counts_ok_member [OF ok v(1)] and g = counts_ok_gates [OF ok]
  show ?thesis
  proof (cases "charged s t (c_budgets c (v_budget v))")
    case True
    then show ?thesis unfolding enter_def if_P [OF True]
      by (intro counts_ok_change [OF ok M, where N = "{#v\<lparr>v_place := Active\<rparr>#}"])
        (use b g v in \<open>auto simp: M budget_counts_def gate_counts_def standing_def\<close>)
  next
    case False
    then show ?thesis unfolding enter_def if_not_P [OF False]
      by (intro counts_ok_prune, intro counts_ok_change [OF ok M, where N = "{#}"])
        (use b g v in \<open>auto simp: M budget_counts_def gate_counts_def standing_def give_back_def\<close>)
  qed
qed

lemma counts_ok_step: "admission_step s c c' \<Longrightarrow> counts_ok s c \<Longrightarrow> counts_ok s c'"
  by (induction rule: admission_step.induct)
    (auto intro: counts_ok_arrive counts_ok_acquire counts_ok_gives_up counts_ok_enter counts_ok_turns_away
      counts_ok_leave counts_ok_slots)

lemma admitted_counts: "admitted s c \<Longrightarrow> counts_ok s c"
  by (induction rule: admitted.induct) (auto intro: counts_ok_new counts_ok_step)

section \<open>Rates\<close>

definition recent :: "rat \<Rightarrow> rat \<Rightarrow> rat list \<Rightarrow> rat list" where
  "recent w t xs = filter (\<lambda>a. t - w < a) xs"

definition charges :: "string \<Rightarrow> controller \<Rightarrow> rat list" where
  "charges k c = map snd (filter (\<lambda>e. fst e = k) (c_charged c))"

text \<open>At every element, the window that ends there holds at most \<open>l\<close> of the elements so far.\<close>

definition within_rate :: "rat \<Rightarrow> nat \<Rightarrow> rat list \<Rightarrow> bool" where
  "within_rate w l xs \<longleftrightarrow> (\<forall>ys t zs. xs = ys @ t # zs \<longrightarrow> length (recent w t (ys @ [t])) \<le> l)"

lemma within_rate_Nil [simp]: "within_rate w l []"
  by (simp add: within_rate_def)

lemma within_rate_snoc: "within_rate w l (xs @ [t]) \<longleftrightarrow> within_rate w l xs \<and> length (recent w t (xs @ [t])) \<le> l"
proof
  assume r: "within_rate w l (xs @ [t])"
  have "length (recent w u (ys @ [u])) \<le> l" if "xs = ys @ u # zs" for ys u zs
    using r that unfolding within_rate_def by (metis append.assoc append_Cons)
  moreover have "length (recent w t (xs @ [t])) \<le> l" using r unfolding within_rate_def by blast
  ultimately show "within_rate w l xs \<and> length (recent w t (xs @ [t])) \<le> l" unfolding within_rate_def by blast
next
  assume r: "within_rate w l xs \<and> length (recent w t (xs @ [t])) \<le> l"
  have "length (recent w u (ys @ [u])) \<le> l" if e: "xs @ [t] = ys @ u # zs" for ys u zs
  proof (cases zs rule: rev_cases)
    case Nil
    with e r show ?thesis by simp
  next
    case (snoc zs' z)
    with e have "xs = ys @ u # zs'" by simp
    with r show ?thesis unfolding within_rate_def by blast
  qed
  then show "within_rate w l (xs @ [t])" unfolding within_rate_def by blast
qed

lemma recent_recent: "t \<le> u \<Longrightarrow> recent w u (recent w t xs) = recent w u xs"
  by (auto simp: recent_def intro: filter_cong)

lemma sorted_recent: "sorted xs \<Longrightarrow> sorted (recent w t xs)"
  by (simp add: recent_def sorted_wrt_filter)

lemma recent_length_snoc: "length (recent w t (xs @ [t])) \<le> Suc (length (recent w t xs))"
  by (simp add: recent_def)

text \<open>A window that ends at any time, also between two arrivals.\<close>

lemma within_rate_window:
  assumes "sorted xs" "within_rate w l xs"
  shows "length (filter (\<lambda>a. u - w < a \<and> a \<le> u) xs) \<le> l"
  using assms
proof (induction xs rule: rev_induct)
  case (snoc t xs)
  have s: "sorted xs" "\<forall>x \<in> set xs. x \<le> t" using snoc.prems(1) by (simp_all add: sorted_append)
  show ?case
  proof (cases "u - w < t \<and> t \<le> u")
    case False
    with snoc.IH [OF s(1)] snoc.prems(2) show ?thesis by (auto simp: within_rate_snoc)
  next
    case True
    have le: "length (filter P ys) \<le> length (filter Q ys)" if "\<And>a. P a \<Longrightarrow> Q a" for P Q :: "rat \<Rightarrow> bool" and ys
      using that by (induction ys) auto
    have "length (filter (\<lambda>a. u - w < a \<and> a \<le> u) (xs @ [t])) \<le> length (recent w t (xs @ [t]))"
      unfolding recent_def using True by (intro le) linarith
    with snoc.prems(2) show ?thesis by (simp add: within_rate_snoc)
  qed
qed simp

abbreviation "window s \<equiv> principal_rate_window_seconds s"

definition rate_ok :: "settings \<Rightarrow> controller \<Rightarrow> bool" where
  "rate_ok s c \<longleftrightarrow>
     (\<forall>k i. dget (c_principals c) k = Some i \<longrightarrow> sorted (b_arrivals (c_budgets c i))
        \<and> (\<forall>a \<in> set (b_arrivals (c_budgets c i)). a \<le> c_clock c)
        \<and> recent (window s) (c_clock c) (b_arrivals (c_budgets c i)) = recent (window s) (c_clock c) (charges k c))
     \<and> (\<forall>k. dget (c_principals c) k = None \<longrightarrow> recent (window s) (c_clock c) (charges k c) = [])
     \<and> (\<forall>k. sorted (charges k c) \<and> (\<forall>a \<in> set (charges k c). a \<le> c_clock c)
          \<and> within_rate (window s) (principal_rate_limit s) (charges k c))"

lemma rate_ok_new: "rate_ok s (new_controller s)"
  by (simp add: rate_ok_def new_controller_def charges_def dget_def recent_def)

lemma drop_expired_sorted: "sorted xs \<Longrightarrow> drop_expired s t xs = recent (window s) t xs"
  unfolding drop_expired_def recent_def
proof (induction xs)
  case (Cons x xs)
  show ?case
  proof (cases "x \<le> t - window s")
    case False
    with Cons.prems have "\<forall>a \<in> set (x # xs). t - window s < a" by auto
    with False show ?thesis by simp
  qed (use Cons in simp)
qed simp

lemma charges_fields [simp]:
  "charges k (c\<lparr>c_clock := t\<rparr>) = charges k c"
  by (simp add: charges_def)

lemma rate_ok_time:
  assumes "rate_ok s c" "c_clock c \<le> t"
  shows "rate_ok s (c\<lparr>c_clock := t\<rparr>)"
proof -
  have r: "recent (window s) t xs = recent (window s) t ys"
    if "recent (window s) (c_clock c) xs = recent (window s) (c_clock c) ys" for xs ys
    using that recent_recent [OF assms(2)] by metis
  note ok = assms(1) [unfolded rate_ok_def]
  show ?thesis
    unfolding rate_ok_def
  proof (intro conjI allI impI)
    fix k i assume k: "dget (c_principals (c\<lparr>c_clock := t\<rparr>)) k = Some i"
    then have k': "dget (c_principals c) k = Some i" by simp
    from ok k' have o: "sorted (b_arrivals (c_budgets c i))" "\<forall>a \<in> set (b_arrivals (c_budgets c i)). a \<le> c_clock c"
      "recent (window s) (c_clock c) (b_arrivals (c_budgets c i)) = recent (window s) (c_clock c) (charges k c)" by blast+
    from o(1) show "sorted (b_arrivals (c_budgets (c\<lparr>c_clock := t\<rparr>) i))" by simp
    from o(2) assms(2) show "\<forall>a \<in> set (b_arrivals (c_budgets (c\<lparr>c_clock := t\<rparr>) i)). a \<le> c_clock (c\<lparr>c_clock := t\<rparr>)"
      by auto
    from r [OF o(3)] show "recent (window s) (c_clock (c\<lparr>c_clock := t\<rparr>)) (b_arrivals (c_budgets (c\<lparr>c_clock := t\<rparr>) i))
        = recent (window s) (c_clock (c\<lparr>c_clock := t\<rparr>)) (charges k (c\<lparr>c_clock := t\<rparr>))" by simp
  next
    fix k assume "dget (c_principals (c\<lparr>c_clock := t\<rparr>)) k = None"
    with ok have "recent (window s) (c_clock c) (charges k c) = []" by simp
    with r [of "charges k c" "[]"] show "recent (window s) (c_clock (c\<lparr>c_clock := t\<rparr>)) (charges k (c\<lparr>c_clock := t\<rparr>)) = []"
      by (simp add: recent_def)
  next
    fix k
    from ok have o: "sorted (charges k c)" "\<forall>a \<in> set (charges k c). a \<le> c_clock c"
      "within_rate (window s) (principal_rate_limit s) (charges k c)" by blast+
    from o(1) show "sorted (charges k (c\<lparr>c_clock := t\<rparr>))" by simp
    from o(2) assms(2) show "\<forall>a \<in> set (charges k (c\<lparr>c_clock := t\<rparr>)). a \<le> c_clock (c\<lparr>c_clock := t\<rparr>)" by auto
    from o(3) show "within_rate (window s) (principal_rate_limit s) (charges k (c\<lparr>c_clock := t\<rparr>))" by simp
  qed
qed

text \<open>A change of the budgets that at most drops expired arrivals.\<close>

lemma rate_ok_change:
  assumes ok: "rate_ok s c" and same: "c_principals c' = c_principals c" "c_clock c' = c_clock c" "c_charged c' = c_charged c"
    and arr: "\<And>k i. dget (c_principals c) k = Some i \<Longrightarrow> b_arrivals (c_budgets c' i) \<in>
      {b_arrivals (c_budgets c i), drop_expired s (c_clock c) (b_arrivals (c_budgets c i))}"
  shows "rate_ok s c'"
proof -
  have ch: "charges k c' = charges k c" for k by (simp add: charges_def same)
  have "sorted (b_arrivals (c_budgets c' i)) \<and> (\<forall>a \<in> set (b_arrivals (c_budgets c' i)). a \<le> c_clock c)
      \<and> recent (window s) (c_clock c) (b_arrivals (c_budgets c' i)) = recent (window s) (c_clock c) (charges k c)"
    if k: "dget (c_principals c) k = Some i" for k i
  proof -
    from ok k have o: "sorted (b_arrivals (c_budgets c i))" "\<forall>a \<in> set (b_arrivals (c_budgets c i)). a \<le> c_clock c"
      "recent (window s) (c_clock c) (b_arrivals (c_budgets c i)) = recent (window s) (c_clock c) (charges k c)"
      by (auto simp: rate_ok_def)
    from arr [OF k] show ?thesis
    proof (elim insertE)
      assume "b_arrivals (c_budgets c' i) = drop_expired s (c_clock c) (b_arrivals (c_budgets c i))"
      then have "b_arrivals (c_budgets c' i) = recent (window s) (c_clock c) (b_arrivals (c_budgets c i))"
        using drop_expired_sorted [OF o(1)] by simp
      moreover have "\<forall>a \<in> set (recent (window s) (c_clock c) (b_arrivals (c_budgets c i))). a \<le> c_clock c"
        using o(2) by (auto simp: recent_def)
      moreover note sorted_recent [OF o(1), of "window s" "c_clock c"]
      ultimately show ?thesis using o(3) recent_recent [OF order_refl] by (simp only:)
    qed (use o in auto)
  qed
  with ok show ?thesis by (simp add: rate_ok_def same ch)
qed

lemma rate_ok_prune:
  assumes ok: "rate_ok s c" and one: "one_budget_each c" and t: "t = c_clock c"
  shows "rate_ok s (prune s t c)"
proof -
  note p = prune_effect [OF one]
  define c1 where "c1 = (prune s t c)\<lparr>c_principals := c_principals c\<rparr>"
  have same: "c_clock (prune s t c) = c_clock c" "c_charged (prune s t c) = c_charged c"
    using p(1) [of s t] unfolding same_rest_def by blast+
  have c1: "rate_ok s c1"
    by (rule rate_ok_change [OF ok]) (simp_all add: c1_def same p(2) flip: t)
  have ch: "charges k (prune s t c) = charges k c1" for k by (simp add: charges_def c1_def)
  have some: "dget (c_principals (prune s t c)) k = Some i \<Longrightarrow> dget (c_principals c1) k = Some i" for k i
    by (auto simp: p(4) c1_def split: option.splits if_splits)
  have none: "recent (window s) (c_clock c) (charges k c1) = []" if k: "dget (c_principals (prune s t c)) k = None" for k
  proof (cases "dget (c_principals c) k")
    case None
    with c1 show ?thesis by (simp add: rate_ok_def c1_def same)
  next
    case (Some i)
    with k have "drop_expired s t (b_arrivals (c_budgets c i)) = []"
      by (auto simp: p(4) prunable_def split: if_splits)
    with p(2) [OF Some] have "b_arrivals (c_budgets c1 i) = []" by (simp add: c1_def)
    moreover have "recent (window s) (c_clock c) (b_arrivals (c_budgets c1 i)) = recent (window s) (c_clock c) (charges k c1)"
      using c1 Some by (simp add: rate_ok_def c1_def same)
    ultimately show ?thesis by (simp add: recent_def)
  qed
  have c1_same: "c_budgets (prune s t c) = c_budgets c1" "c_clock (prune s t c) = c_clock c1" "c_clock c = c_clock c1"
    by (simp_all add: c1_def same)
  show ?thesis
    using c1 some none unfolding rate_ok_def ch c1_same by blast
qed
section \<open>The steps keep the rates\<close>

lemma c_clock_update_budget: "(update_budget i f c)\<lparr>c_clock := t\<rparr> = update_budget i f (c\<lparr>c_clock := t\<rparr>)"
  by (simp add: update_budget_def)

lemma one_budget_each_same:
  "c_principals c' = c_principals c \<Longrightarrow> c_next c' = c_next c \<Longrightarrow> one_budget_each c' = one_budget_each c"
  by (simp add: one_budget_each_def)

text \<open>Change a budget and prune, at a time not before the clock.\<close>

lemma rate_ok_finish:
  assumes ok: "rate_ok s c" "counts_ok s c" "c_clock c \<le> t"
    and same: "c_principals c' = c_principals c" "c_next c' = c_next c" "c_clock c' = t" "c_charged c' = c_charged c"
    and arr: "\<And>i. b_arrivals (c_budgets c' i) \<in> {b_arrivals (c_budgets c i), drop_expired s t (b_arrivals (c_budgets c i))}"
  shows "rate_ok s (prune s t c')"
proof (rule rate_ok_prune)
  show "rate_ok s c'" by (rule rate_ok_change [OF rate_ok_time [OF ok(1,3)]]) (use same arr in simp_all)
  show "one_budget_each c'" using ok(2) one_budget_each_same [OF same(1,2)] by (simp add: counts_ok_def)
  show "t = c_clock c'" by (simp add: same)
qed

lemma rate_ok_arrive:
  assumes ok: "rate_ok s c" "counts_ok s c" and t: "c_clock c \<le> t"
  shows "rate_ok s (arrive s t key c)"
proof -
  define k where "k = budget_key s key"
  have tk: "rate_ok s (c\<lparr>c_clock := t\<rparr>)" by (rule rate_ok_time [OF ok(1) t])
  show ?thesis
  proof (cases "dget (c_principals c) k")
    case (Some i)
    show ?thesis
      by (rule rate_ok_change [OF tk])
        (use Some in \<open>simp_all add: arrive_def principal_def Let_def update_budget_def flip: k_def\<close>)
  next
    case None
    define i where "i = c_next c"
    define c' where "c' = arrive s t key c"
    have f: "c_principals c' = dset (c_principals c) k i" "c_clock c' = t" "c_charged c' = c_charged c"
      "c_budgets c' = (c_budgets c)(i := (new_budget s t)\<lparr>b_references := 1\<rparr>)"
      using None
      by (simp_all add: c'_def i_def arrive_def principal_def Let_def update_budget_def new_budget_def flip: k_def)
    have fresh: "j \<noteq> i" if "dget (c_principals c) k' = Some j" for k' j
      using ok(2) that by (auto simp: counts_ok_def one_budget_each_def i_def)
    have ch: "charges k' c' = charges k' c" for k' by (simp add: charges_def f)
    have "recent (window s) t (charges k c) = []" using tk None by (simp add: rate_ok_def)
    with tk fresh show ?thesis
      unfolding rate_ok_def c'_def [symmetric] ch
      by (auto simp: f dict_simps new_budget_def recent_def split: if_splits)
  qed
qed

lemma rate_ok_enter_charged:
  assumes ok: "rate_ok s c" "counts_ok s c" and v: "v \<in># c_visitors c" and t: "c_clock c \<le> t"
    and ch: "charged s t (c_budgets c (v_budget v))"
  shows "rate_ok s (enter s t v c)"
proof -
  define i where "i = v_budget v"
  define arr where "arr = b_arrivals (c_budgets c i)"
  define c' where "c' = enter s t v c"
  have f: "c_principals c' = c_principals c" "c_clock c' = t" "c_charged c' = c_charged c @ [(v_key v, t)]"
    "c_budgets c' j = (if j = i then (c_budgets c i)\<lparr>b_arrivals := drop_expired s t arr @ [t], b_last_used := t\<rparr>
                       else c_budgets c j)" for j
    using ch by (simp_all add: c'_def enter_def i_def arr_def)
  have chg: "charges k c' = (if k = v_key v then charges k c @ [t] else charges k c)" for k
    by (simp add: charges_def f)
  have key: "dget (c_principals c) (v_key v) = Some i" using ok(2) v by (auto simp: counts_ok_def i_def)
  have inj: "k = v_key v" if "dget (c_principals c) k = Some i" for k
    using ok(2) that key by (auto simp: counts_ok_def one_budget_each_def)
  have tk: "rate_ok s (c\<lparr>c_clock := t\<rparr>)" by (rule rate_ok_time [OF ok(1) t])
  have here: "sorted arr" "\<forall>a \<in> set arr. a \<le> t" "recent (window s) t arr = recent (window s) t (charges (v_key v) c)"
    "drop_expired s t arr = recent (window s) t arr"
    using tk key drop_expired_sorted by (auto simp: rate_ok_def arr_def)
  have log: "sorted (charges (v_key v) c)" "\<forall>a \<in> set (charges (v_key v) c). a \<le> t"
    "within_rate (window s) (principal_rate_limit s) (charges (v_key v) c)"
    using tk by (auto simp: rate_ok_def)
  have "length (recent (window s) t (charges (v_key v) c)) < principal_rate_limit s"
    using ch here(3,4) by (simp add: charged_def arr_def i_def)
  then have "length (recent (window s) t (charges (v_key v) c @ [t])) \<le> principal_rate_limit s"
    using recent_length_snoc [of "window s" t "charges (v_key v) c"] by simp
  with log have new_log: "sorted (charges (v_key v) c @ [t])" "\<forall>a \<in> set (charges (v_key v) c @ [t]). a \<le> t"
    "within_rate (window s) (principal_rate_limit s) (charges (v_key v) c @ [t])"
    by (auto simp: sorted_append within_rate_snoc)
  have new_arr: "sorted (recent (window s) t arr @ [t])" "\<forall>a \<in> set (recent (window s) t arr @ [t]). a \<le> t"
    using sorted_recent [OF here(1)] here(2) by (auto simp: sorted_append recent_def)
  have rr: "recent (window s) t (recent (window s) t arr @ [t]) = recent (window s) t (charges (v_key v) c @ [t])"
    using here(3) recent_recent [OF order_refl, of "window s" t arr] by (simp add: recent_def)
  have "rate_ok s c'"
    unfolding rate_ok_def
  proof (intro conjI allI impI)
    fix k j assume "dget (c_principals c') k = Some j"
    then have kj: "dget (c_principals c) k = Some j" by (simp add: f)
    have "sorted (b_arrivals (c_budgets c' j)) \<and> (\<forall>a \<in> set (b_arrivals (c_budgets c' j)). a \<le> c_clock c')
      \<and> recent (window s) (c_clock c') (b_arrivals (c_budgets c' j)) = recent (window s) (c_clock c') (charges k c')"
    proof (cases "j = i")
      case True
      with inj kj have "k = v_key v" by simp
      with True new_arr rr show ?thesis unfolding f(2) chg f(4) by (simp add: here(4))
    next
      case False
      with kj key have "k \<noteq> v_key v" by auto
      with False kj tk show ?thesis by (simp add: f chg rate_ok_def)
    qed
    then show "sorted (b_arrivals (c_budgets c' j))" "\<forall>a \<in> set (b_arrivals (c_budgets c' j)). a \<le> c_clock c'"
      "recent (window s) (c_clock c') (b_arrivals (c_budgets c' j)) = recent (window s) (c_clock c') (charges k c')" by blast+
  next
    fix k assume "dget (c_principals c') k = None"
    with key tk show "recent (window s) (c_clock c') (charges k c') = []" by (auto simp: f chg rate_ok_def)
  next
    fix k
    have "sorted (charges k c') \<and> (\<forall>a \<in> set (charges k c'). a \<le> c_clock c')
      \<and> within_rate (window s) (principal_rate_limit s) (charges k c')"
      using new_log tk unfolding f(2) chg by (simp add: rate_ok_def)
    then show "sorted (charges k c')" "\<forall>a \<in> set (charges k c'). a \<le> c_clock c'"
      "within_rate (window s) (principal_rate_limit s) (charges k c')" by blast+
  qed
  then show ?thesis by (simp add: c'_def)
qed

lemma rate_ok_enter:
  assumes ok: "rate_ok s c" "counts_ok s c" and v: "v \<in># c_visitors c" and t: "c_clock c \<le> t"
  shows "rate_ok s (enter s t v c)"
proof (cases "charged s t (c_budgets c (v_budget v))")
  case True
  then show ?thesis by (rule rate_ok_enter_charged [OF ok v t])
next
  case False
  show ?thesis unfolding enter_def if_not_P [OF False]
    by (rule rate_ok_finish [OF ok t]) (simp_all add: give_back_def)
qed

lemma rate_ok_others:
  assumes "rate_ok s c" "counts_ok s c" "c_clock c \<le> t"
  shows "rate_ok s (abandon_principal s t b v c)" "rate_ok s (abandon_global s t b v c)" "rate_ok s (leave s t v c)"
  unfolding abandon_principal_def abandon_global_def leave_def
  by (rule rate_ok_finish [OF assms]; simp add: give_back_def)+

lemma rate_ok_untimed:
  assumes "rate_ok s c"
  shows "rate_ok s (acquire_principal v c)" "rate_ok s (take_slot c)" "rate_ok s (free_slot c)"
  by (rule rate_ok_change [OF assms]; simp add: acquire_principal_def take_slot_def free_slot_def)+

lemma admitted_rates: "admitted s c \<Longrightarrow> rate_ok s c"
proof (induction rule: admitted.induct)
  case (step c c')
  have ok: "counts_ok s c" by (rule admitted_counts [OF step.hyps(1)])
  from step.hyps(2) show ?case
    by cases (use step.IH ok in \<open>auto intro: rate_ok_arrive rate_ok_enter rate_ok_others rate_ok_untimed\<close>)
qed (rule rate_ok_new)

section \<open>Properties of Admission\<close>

lemma standing_mono: "(\<And>v. v \<in># c_visitors c \<Longrightarrow> P v \<Longrightarrow> Q v) \<Longrightarrow> standing c P \<le> standing c Q"
  unfolding standing_def
proof (induction "c_visitors c" arbitrary: c)
  case empty
  then show ?case by simp
next
  case (add v M)
  define d where "d = c\<lparr>c_visitors := M\<rparr>"
  have "size (filter_mset P (c_visitors d)) \<le> size (filter_mset Q (c_visitors d))"
    by (rule add.hyps(1)) (use add.hyps(2) add.prems in \<open>auto simp: d_def simp flip: add.hyps(2)\<close>)
  moreover have "P v \<longrightarrow> Q v" using add.prems [of v] by (simp flip: add.hyps(2))
  ultimately show ?case by (auto simp: d_def simp flip: add.hyps(2))
qed

text \<open>
  C24: In every reachable state of the admission controller the counters are exact: \<open>active\<close> is the
  number of running requests and at most \<open>admission_limit\<close>, \<open>queued\<close> the number of waiting ones, and
  \<open>upstream_active\<close> the number of upstream operations, at most \<open>concurrency_limit\<close>. Nothing leaks:
  when no request and no operation is left, every semaphore, those of the principals too, is full
  again, every counter of work is zero and no budget is referenced.
\<close>

theorem admission_is_bounded:
  assumes "admitted s c"
  shows "c_active c = int (standing c (\<lambda>v. v_place v = Active)) \<and> c_active c \<le> int (admission_limit s)
    \<and> c_queued c = int (standing c (\<lambda>v. v_place v \<noteq> Active))
    \<and> c_upstream_active c = int (c_slots c) \<and> c_slots c \<le> concurrency_limit s
    \<and> (c_visitors c = {#} \<and> c_slots c = 0 \<longrightarrow>
         c_admission c = admission_limit s \<and> c_upstream c = concurrency_limit s
         \<and> c_active c = 0 \<and> c_queued c = 0 \<and> c_upstream_active c = 0
         \<and> list_all (\<lambda>(k, i). b_value (c_budgets c i) = principal_concurrency_limit s
              \<and> b_references (c_budgets c i) = 0) (c_principals c))"
proof -
  have ok: "counts_ok s c" by (rule admitted_counts [OF assms])
  have "list_all (\<lambda>(k, i). b_value (c_budgets c i) = principal_concurrency_limit s
              \<and> b_references (c_budgets c i) = 0) (c_principals c)" if "c_visitors c = {#}"
  proof -
    have "b_value (c_budgets c i) = principal_concurrency_limit s \<and> b_references (c_budgets c i) = 0"
      if ki: "(k, i) \<in> set (c_principals c)" for k i
    proof -
      have "dget (c_principals c) k = Some i" using ok ki by (simp add: counts_ok_def one_budget_each_def dget_in)
      with ok have "budget_counts s c i" by (auto simp: counts_ok_def)
      with \<open>c_visitors c = {#}\<close> show ?thesis by (simp add: budget_counts_def standing_def)
    qed
    then show ?thesis by (auto simp: list_all_iff)
  qed
  with counts_ok_gates [OF ok] show ?thesis by (auto simp: gate_counts_def standing_def)
qed

text \<open>Two requests arrive, of which one passes its principal's gate and runs.\<close>

definition sample_busy :: controller where
  "sample_busy =
     (let s = default_settings ''http://u''; c1 = arrive s 0 None (new_controller s);
          v = \<lparr>v_key = GLOBAL_BUDGET_KEY, v_budget = 0, v_place = Waiting_Principal\<rparr>;
          c2 = acquire_principal v c1
      in arrive s 2 None (enter s 1 (v\<lparr>v_place := Waiting_Global\<rparr>) c2))"

lemma sample_busy_admitted: "admitted (default_settings ''http://u'') sample_busy"
proof -
  let ?s = "default_settings ''http://u''"
  define v where "v = \<lparr>v_key = GLOBAL_BUDGET_KEY, v_budget = 0, v_place = Waiting_Principal\<rparr>"
  define c1 where "c1 = arrive ?s 0 None (new_controller ?s)"
  have c1: "c_visitors c1 = {#v#}" "b_value (c_budgets c1 0) = 4" "c_admission c1 = 16" "c_clock c1 = 0"
    by (simp_all add: c1_def arrive_def principal_def Let_def new_controller_def dget_def budget_key_def v_def
        new_budget_def update_budget_def default_settings_def)
  have "admitted ?s c1"
    unfolding c1_def by (rule admitted.step [OF admitted.start arrives]) (simp add: new_controller_def)
  moreover have "admission_step ?s c1 (acquire_principal v c1)" by (rule acquires) (simp_all add: c1 v_def)
  ultimately have a2: "admitted ?s (acquire_principal v c1)" by (rule admitted.step)
  have f: "c_visitors (acquire_principal v c1) = {#v\<lparr>v_place := Waiting_Global\<rparr>#}"
    "c_admission (acquire_principal v c1) = 16" "c_clock (acquire_principal v c1) = 0"
    by (simp_all add: acquire_principal_def c1)
  have "admission_step ?s (acquire_principal v c1) (enter ?s 1 (v\<lparr>v_place := Waiting_Global\<rparr>) (acquire_principal v c1))"
    by (rule enters) (simp_all add: f)
  with a2 have a3: "admitted ?s (enter ?s 1 (v\<lparr>v_place := Waiting_Global\<rparr>) (acquire_principal v c1))" by (rule admitted.step)
  have "c_clock (enter ?s 1 w c) \<le> 2" for w c
  proof (cases "charged ?s 1 (c_budgets c (v_budget w))")
    case True
    then show ?thesis by (simp add: enter_def)
  next
    case False
    have "c_clock (foldl (prune_one s t) d kis) = c_clock d" for s t d and kis :: "(string \<times> nat) list"
    proof (induction kis arbitrary: d)
      case (Cons ki kis)
      then show ?case using prune_one_effect(3) [of d s t "fst ki" "snd ki"] by (simp add: same_rest_def)
    qed simp
    with False show ?thesis by (simp add: enter_def prune_def)
  qed
  then have "admission_step ?s (enter ?s 1 (v\<lparr>v_place := Waiting_Global\<rparr>) (acquire_principal v c1)) sample_busy"
    unfolding sample_busy_def Let_def by (simp add: v_def c1_def arrives)
  with a3 show ?thesis by (rule admitted.step)
qed

theorem admission_is_bounded_witness:
  "c_active sample_busy \<le> 16 \<and> c_queued sample_busy = int (standing sample_busy (\<lambda>v. v_place v \<noteq> Active))"
  using admission_is_bounded [OF sample_busy_admitted] by (simp add: default_settings_def)

text \<open>
  C25: No principal ever has more requests past its own gate than \<open>principal_concurrency_limit\<close>, in
  any interleaving: pruning never removes a budget that a request still holds, so a key never has
  two semaphores at once.
\<close>

theorem principal_concurrency_bounded:
  assumes "admitted s c"
  shows "standing c (\<lambda>v. v_key v = k \<and> v_place v \<noteq> Waiting_Principal) \<le> principal_concurrency_limit s"
proof (cases "dget (c_principals c) k")
  case None
  have ok: "counts_ok s c" by (rule admitted_counts [OF assms])
  with None have "standing c (\<lambda>v. v_key v = k \<and> v_place v \<noteq> Waiting_Principal) \<le> standing c (\<lambda>_. False)"
    by (intro standing_mono) (auto simp: counts_ok_def)
  also have "\<dots> = 0" by (simp add: standing_def)
  finally show ?thesis by (rule order_trans) (rule le0)
next
  case (Some i)
  have ok: "counts_ok s c" by (rule admitted_counts [OF assms])
  have "standing c (\<lambda>v. v_key v = k \<and> v_place v \<noteq> Waiting_Principal)
      \<le> standing c (\<lambda>v. v_budget v = i \<and> v_place v \<noteq> Waiting_Principal)"
    using ok Some by (intro standing_mono) (auto simp: counts_ok_def)
  moreover have "budget_counts s c i" using ok Some by (auto simp: counts_ok_def)
  ultimately show ?thesis by (simp add: budget_counts_def)
qed

theorem principal_concurrency_bounded_witness:
  "standing sample_busy (\<lambda>v. v_key v = ''global'' \<and> v_place v \<noteq> Waiting_Principal) \<le> 4"
  using principal_concurrency_bounded [OF sample_busy_admitted, of "''global''"] by (simp add: default_settings_def)

text \<open>
  C26: Whatever window of \<open>principal_rate_window_seconds\<close> is laid over the history, it holds at most
  \<open>principal_rate_limit\<close> charged arrivals of a principal; a principal cannot gain arrivals by waiting
  until its budget is pruned and made again.
\<close>

theorem principal_rate_bounded:
  assumes "admitted s c"
  shows "length (filter (\<lambda>a. u - principal_rate_window_seconds s < a \<and> a \<le> u) (charges k c)) \<le> principal_rate_limit s"
  using admitted_rates [OF assms] by (intro within_rate_window) (auto simp: rate_ok_def)

theorem principal_rate_bounded_witness:
  "length (filter (\<lambda>a. 1 - 60 < a \<and> a \<le> (1 :: rat)) (charges ''global'' sample_busy)) \<le> 60"
  using principal_rate_bounded [OF sample_busy_admitted, of 1 "''global''"] by (simp add: default_settings_def)

text \<open>
  C27: No request is stuck behind a gate with room. In a reachable state a request that waits for
  its principal can pass as soon as fewer than \<open>principal_concurrency_limit\<close> requests of its key are
  past that gate, and one that waits for the global gate can pass as soon as fewer than
  \<open>admission_limit\<close> requests run.
\<close>

theorem admission_makes_progress:
  assumes "admitted s c" "v \<in># c_visitors c"
  shows "(v_place v = Waiting_Principal \<and>
       standing c (\<lambda>w. v_key w = v_key v \<and> v_place w \<noteq> Waiting_Principal) < principal_concurrency_limit s
     \<longrightarrow> admission_step s c (acquire_principal v c))
    \<and> (v_place v = Waiting_Global \<and> standing c (\<lambda>w. v_place w = Active) < admission_limit s
     \<longrightarrow> admission_step s c (enter s (c_clock c) v c))"
proof -
  have ok: "counts_ok s c" by (rule admitted_counts [OF assms(1)])
  have k: "dget (c_principals c) (v_key v) = Some (v_budget v)" using ok assms(2) by (auto simp: counts_ok_def)
  have "standing c (\<lambda>w. v_budget w = v_budget v \<and> v_place w \<noteq> Waiting_Principal)
      \<le> standing c (\<lambda>w. v_key w = v_key v \<and> v_place w \<noteq> Waiting_Principal)"
  proof (rule standing_mono)
    fix w assume w: "w \<in># c_visitors c" "v_budget w = v_budget v \<and> v_place w \<noteq> Waiting_Principal"
    with ok have "dget (c_principals c) (v_key w) = Some (v_budget v)" by (auto simp: counts_ok_def)
    with k ok have "v_key w = v_key v" by (auto simp: counts_ok_def one_budget_each_def)
    with w show "v_key w = v_key v \<and> v_place w \<noteq> Waiting_Principal" by simp
  qed
  then have "0 < b_value (c_budgets c (v_budget v))"
    if "standing c (\<lambda>w. v_key w = v_key v \<and> v_place w \<noteq> Waiting_Principal) < principal_concurrency_limit s"
    using that counts_ok_member [OF ok assms(2)] by (simp add: budget_counts_def)
  moreover have "0 < c_admission c" if "standing c (\<lambda>w. v_place w = Active) < admission_limit s"
    using that counts_ok_gates [OF ok] by (simp add: gate_counts_def)
  ultimately show ?thesis using assms(2) by (auto intro: acquires enters)
qed

theorem admission_makes_progress_witness:
  "\<exists>v \<in># c_visitors sample_busy. admission_step (default_settings ''http://u'') sample_busy (acquire_principal v sample_busy)"
proof -
  let ?s = "default_settings ''http://u''"
  define v where "v = \<lparr>v_key = GLOBAL_BUDGET_KEY, v_budget = 0, v_place = Waiting_Principal\<rparr>"
  have busy: "c_visitors sample_busy = {#v, v\<lparr>v_place := Active\<rparr>#}"
    by (simp add: sample_busy_def Let_def arrive_def acquire_principal_def enter_def charged_def principal_def
        new_controller_def new_budget_def budget_key_def update_budget_def drop_expired_def dget_def v_def
        move_def default_settings_def)
  have v: "v \<in># c_visitors sample_busy" by (simp add: busy)
  have "standing sample_busy (\<lambda>w. v_key w = v_key v \<and> v_place w \<noteq> Waiting_Principal) < principal_concurrency_limit ?s"
    by (simp add: standing_def busy v_def default_settings_def)
  with admission_makes_progress [OF sample_busy_admitted v] v show ?thesis by (auto simp: v_def)
qed

end
