(* ===== verification/Wire.thy ===== *)
theory Wire
  imports Json_Laws Sha256
begin

text \<open>
  Bytes on the wire: \<open>bytes.decode\<close> for UTF-8 and \<open>json.loads\<close> of a byte string. Strings of the
  model hold code points up to U+00FF; a text with others, or in an encoding other than UTF-8 that
  \<open>json.loads\<close> detects by its null bytes or byte order mark, is outside the model.
\<close>

type_synonym bytes = "int list"

datatype decoded = Decoded string | Undecodable | Other_Text

fun prepend :: "char \<Rightarrow> decoded \<Rightarrow> decoded" where
  "prepend c (Decoded s) = Decoded (c # s)"
| "prepend c d = d"

fun utf8_decode :: "bytes \<Rightarrow> decoded" where
  "utf8_decode [] = Decoded []"
| "utf8_decode (b # bs) =
     (if b < 128 then prepend (char_of b) (utf8_decode bs)
      else if b = 194 \<or> b = 195 then
        (case bs of [] \<Rightarrow> Undecodable
         | d # ds \<Rightarrow> (if 128 \<le> d \<and> d < 192 then prepend (char_of ((b - 192) * 64 + (d - 128))) (utf8_decode ds)
                     else Undecodable))
      else if 196 \<le> b \<and> b < 245 then Other_Text
      else Undecodable)"

text \<open>\<open>json.detect_encoding\<close>: whether the bytes are read as plain UTF-8.\<close>

definition detects_utf8 :: "bytes \<Rightarrow> bool" where
  "detects_utf8 bs \<longleftrightarrow> take 2 bs \<notin> {[254, 255], [255, 254]} \<and> take 3 bs \<noteq> [239, 187, 191]
     \<and> (if 4 \<le> length bs \<or> length bs = 2 then bs ! 0 \<noteq> 0 \<and> bs ! 1 \<noteq> 0 else True)"

text \<open>
  \<open>json.loads\<close> of bytes under a handler of \<open>JSONDecodeError\<close> and \<open>UnicodeDecodeError\<close>: \<open>None\<close> is
  a handled error; a \<open>ValueError\<close> of its own, for an integer with too many digits, is not.
\<close>

definition loads_bytes :: "bytes \<Rightarrow> json option result" where
  "loads_bytes bs =
     (if \<not> detects_utf8 bs then Inl OutsideModel
      else (case utf8_decode bs of
        Other_Text \<Rightarrow> Inl OutsideModel
      | Undecodable \<Rightarrow> Inr None
      | Decoded s \<Rightarrow> (case json_loads s of Inr v \<Rightarrow> Inr (Some v)
                     | Inl JSONDecodeError \<Rightarrow> Inr None | Inl e \<Rightarrow> Inl e)))"

lemma prepend_iff [simp]: "prepend c d = Decoded s \<longleftrightarrow> (\<exists>t. d = Decoded t \<and> s = c # t)"
  by (cases d) auto

lemma of_char_bounds: "(0 :: int) \<le> of_char c" "(of_char c :: int) < 256"
proof -
  have "(of_char c :: int) = int (of_char c)" by (rule of_nat_of_char [symmetric])
  moreover have "(of_char c :: nat) < 256" by simp
  ultimately show "(0 :: int) \<le> of_char c" "(of_char c :: int) < 256" by linarith+
qed

lemma utf8_decode_char: "utf8_decode (utf8_char c @ bs) = prepend c (utf8_decode bs)"
proof -
  define n :: int where "n = of_char c"
  have n: "0 \<le> n" "n < 256" "char_of n = c" using of_char_bounds [of c] by (simp_all add: n_def)
  show ?thesis
  proof (cases "n < 128")
    case True
    with n show ?thesis by (simp add: utf8_char_def Let_def flip: n_def)
  next
    case False
    then have "n div 64 = 2 \<or> n div 64 = 3" using n by linarith
    moreover have "(192 + n div 64 - 192) * 64 + (128 + n mod 64 - 128) = n" by simp
    moreover have "0 \<le> n mod 64" "n mod 64 < 64" by simp_all
    ultimately show ?thesis using False n(3) by (auto simp: utf8_char_def Let_def simp flip: n_def)
  qed
qed

lemma utf8_decode_utf8: "utf8_decode (utf8 s) = Decoded s"
  by (induction s) (simp_all add: utf8_def utf8_decode_char)

interpretation utf8_text: codec utf8 "\<lambda>bs. case utf8_decode bs of Decoded s \<Rightarrow> Inr s | _ \<Rightarrow> Inl ()" "\<lambda>s. True"
  by unfold_locales (simp add: utf8_decode_utf8)

lemma utf8_append [simp]: "utf8 (s @ t) = utf8 s @ utf8 t"
  by (simp add: utf8_def)

lemma utf8_newline: "10 \<in> set (utf8 s) \<longleftrightarrow> CHR 0x0A \<in> set s"
proof -
  have "10 \<in> set (utf8_char c) \<longleftrightarrow> c = CHR 0x0A" for c
  proof -
    have "(of_char c :: int) = 10 \<longleftrightarrow> c = CHR 0x0A"
      using of_char_eq_iff [of c "CHR 0x0A", where ?'a = int] by simp
    moreover have "(192 :: int) + of_char c div 64 \<noteq> 10" using of_char_bounds [of c] by linarith
    moreover have "(128 :: int) + of_char c mod 64 \<noteq> 10" by (smt (verit) pos_mod_sign)
    ultimately show ?thesis by (auto simp: utf8_char_def Let_def)
  qed
  then show ?thesis by (auto simp: utf8_def)
qed

end
