(* ===== verification/Streaming.thy ===== *)
theory Streaming
  imports Wire Capabilities
begin

text \<open>
  Validate-then-replay streaming (\<open>streaming.py\<close>): the downstream streaming controls are consumed,
  and an approved completion is replayed as server-sent events within a byte limit.
\<close>

section \<open>Controls\<close>

record replay_options =
  include_usage :: bool

definition prepare_replay_request :: "jobject \<Rightarrow> (jobject \<times> replay_options option) outcome" where
  "prepare_replay_request payload =
     (if get payload ''stream'' \<noteq> JBool True then Inr (payload, None)
      else (case get_or payload ''stream_options'' (JObj []) of
        JObj options \<Rightarrow>
          (case get_or options ''include_usage'' (JBool False) of
             JBool b \<Rightarrow> Inr (dpop (dpop payload ''stream'') ''stream_options'', Some \<lparr>include_usage = b\<rparr>)
           | _ \<Rightarrow> refuse 400 ''invalid_stream_options''
               ''stream_options.include_usage must be a JSON boolean when present.'')
      | _ \<Rightarrow> refuse 400 ''invalid_stream_options'' ''stream_options must be an object when present.''))"

section \<open>Chunks\<close>

definition malformed_completion :: "'a outcome" where
  "malformed_completion = refuse 502 ''upstream_malformed_completion'' ''The upstream completion is malformed.''"

definition response_too_large :: "'a outcome" where
  "response_too_large = refuse 502 ''upstream_response_too_large''
     ''The upstream response exceeds the configured response size limit.''"

definition chunk_base :: "jobject \<Rightarrow> jobject" where
  "chunk_base completion =
     foldl (\<lambda>event key. case dget completion key of None \<Rightarrow> event | Some v \<Rightarrow> dset event key v)
       [(''id'', get completion ''id''), (''object'', JStr ''chat.completion.chunk''),
        (''model'', get completion ''model'')]
       [''created'', ''system_fingerprint'', ''service_tier'', ''x-shiftedx-projection-v1'']"

definition chunk :: "jobject \<Rightarrow> json \<Rightarrow> jobject \<Rightarrow> json \<Rightarrow> jobject" where
  "chunk completion idx delta finish_reason =
     dset (chunk_base completion) ''choices''
       (JArr [JObj [(''index'', idx), (''delta'', JObj delta), (''finish_reason'', finish_reason)]])"

text \<open>\<open>{"index": i, **call}\<close>: a key of the call replaces the index but keeps its place.\<close>

definition indexed_call :: "nat \<Rightarrow> jobject \<Rightarrow> jobject" where
  "indexed_call i call = foldl (\<lambda>d kv. dset d (fst kv) (snd kv)) [(''index'', JInt (int i))] call"

fun as_object :: "json \<Rightarrow> jobject" where
  "as_object (JObj d) = d" | "as_object _ = []"

definition indexed_calls :: "json list \<Rightarrow> json" where
  "indexed_calls calls = JArr (map (\<lambda>(i, c). JObj (indexed_call i (as_object c))) (enumerate 0 calls))"

definition choice_delta :: "jobject \<Rightarrow> jobject outcome" where
  "choice_delta msg =
     (let base = filter (\<lambda>kv. fst kv \<notin> {''refusal'', ''tool_calls''} \<and> snd kv \<noteq> JNull) msg;
          finish = (\<lambda>d. Inr (if get msg ''refusal'' \<noteq> JNull then dset d ''refusal'' (get msg ''refusal'') else d))
      in case get msg ''tool_calls'' of
           JNull \<Rightarrow> finish base
         | JArr calls \<Rightarrow> (if list_all is_dict calls then finish (dset base ''tool_calls'' (indexed_calls calls))
                         else malformed_completion)
         | _ \<Rightarrow> malformed_completion)"

section \<open>Replay\<close>

definition event_text :: "jobject \<Rightarrow> string" where
  "event_text event = dumps False False (JObj event)"

definition frame :: "jobject \<Rightarrow> bytes" where
  "frame event = utf8 (''data: '' @ event_text event @ [CHR 0x0A, CHR 0x0A])"

definition done_frame :: bytes where
  "done_frame = utf8 (''data: [DONE]'' @ [CHR 0x0A, CHR 0x0A])"

record replay =
  rp_chunks :: "bytes list"
  rp_total :: nat

definition over :: "nat option \<Rightarrow> nat \<Rightarrow> bool" where
  "over limit n = (case limit of None \<Rightarrow> False | Some m \<Rightarrow> m < n)"

definition append_event :: "nat option \<Rightarrow> replay \<Rightarrow> jobject \<Rightarrow> replay outcome" where
  "append_event limit st event =
     (let c = frame event; total = rp_total st + length c in
      if over limit total then response_too_large
      else Inr \<lparr>rp_chunks = rp_chunks st @ [c], rp_total = total\<rparr>)"

definition replay_choice :: "jobject \<Rightarrow> nat option \<Rightarrow> replay \<Rightarrow> json \<Rightarrow> replay outcome" where
  "replay_choice completion limit st raw =
     (case raw of
        JObj choice \<Rightarrow>
          (case get choice ''message'' of
             JObj msg \<Rightarrow>
               (let idx = get choice ''index''; reason = get choice ''finish_reason'' in
                if \<not> is_int idx \<or> \<not> str_satisfies (\<lambda>s. s \<noteq> []) reason then malformed_completion
                else bind (choice_delta msg) (\<lambda>delta.
                     bind (append_event limit st (chunk completion idx delta JNull)) (\<lambda>st.
                       append_event limit st (chunk completion idx [] reason))))
           | _ \<Rightarrow> malformed_completion)
      | _ \<Rightarrow> malformed_completion)"

definition usage_events :: "jobject \<Rightarrow> replay_options \<Rightarrow> jobject list" where
  "usage_events completion options =
     (if include_usage options \<and> is_dict (get completion ''usage'')
      then [dset (dset (chunk_base completion) ''choices'' (JArr [])) ''usage'' (get completion ''usage'')]
      else [])"

definition replay_completion :: "jobject \<Rightarrow> replay_options \<Rightarrow> nat option \<Rightarrow> bytes list outcome" where
  "replay_completion completion options limit =
     (if \<not> str_satisfies (\<lambda>s. s \<noteq> []) (get completion ''id'')
         \<or> \<not> str_satisfies (\<lambda>s. s \<noteq> []) (get completion ''model'') then malformed_completion
      else (case get completion ''choices'' of
        JArr choices \<Rightarrow>
          (if choices = [] then malformed_completion
           else bind (run_steps (replay_choice completion limit) \<lparr>rp_chunks = [], rp_total = 0\<rparr> choices) (\<lambda>st.
                bind (run_steps (append_event limit) st (usage_events completion options)) (\<lambda>st.
                  if over limit (rp_total st + length done_frame) then response_too_large
                  else Inr (rp_chunks st @ [done_frame]))))
      | _ \<Rightarrow> malformed_completion))"

section \<open>What the client reads\<close>

text \<open>An event stream client: the field name and the blank line are cut off, the rest is JSON.\<close>

definition client_reads :: "bytes \<Rightarrow> json option" where
  "client_reads bs =
     (case utf8_decode bs of
        Decoded s \<Rightarrow>
          (if take 6 s = ''data: '' \<and> drop (length s - 2) s = [CHR 0x0A, CHR 0x0A]
           then (case json_loads (take (length s - 8) (drop 6 s)) of Inr v \<Rightarrow> Some v | Inl e \<Rightarrow> None)
           else None)
      | _ \<Rightarrow> None)"

lemma client_reads_frame: "json_ok False (JObj event) \<Longrightarrow> client_reads (frame event) = Some (JObj event)"
proof -
  assume "json_ok False (JObj event)"
  then have l: "json_loads (event_text event) = Inr (JObj event)"
    unfolding event_text_def json_loads_def by (rule json_text.dec_enc)
  define t where "t = event_text event"
  define s where "s = ''data: '' @ t @ [CHR 0x0A, CHR 0x0A]"
  have len: "length s = length t + 8" by (simp add: s_def)
  have "drop (length s - 2) s = drop (length t) (drop 6 s)" by (simp add: len drop_drop add.commute)
  then have "drop (length s - 2) s = [CHR 0x0A, CHR 0x0A]" unfolding s_def by simp
  moreover have "take (length s - 8) (drop 6 s) = t" unfolding len unfolding s_def by simp
  moreover have "take 6 s = ''data: ''" unfolding s_def by simp
  ultimately show ?thesis
    using l unfolding client_reads_def frame_def t_def [symmetric] s_def [symmetric] utf8_decode_utf8 by simp
qed

lemma dumps_no_newline: "CHR 0x0A \<notin> set (dumps False a v)"
  using printed_dumps [of a v] by (auto simp: printed_def)

lemma frame_newlines: "\<exists>body. frame event = body @ [10, 10] \<and> 10 \<notin> set body"
proof (intro exI conjI)
  show "frame event = utf8 (''data: '' @ event_text event) @ [10, 10]"
    by (simp add: frame_def utf8_def utf8_char_def Let_def)
  show "10 \<notin> set (utf8 (''data: '' @ event_text event))"
    using dumps_no_newline [of False "JObj event"] by (simp add: utf8_newline event_text_def del: dumps.simps)
qed
section \<open>What the events carry\<close>

lemma json_ok_obj: "json_ok b (JObj d) \<longleftrightarrow> dict_ok d \<and> (\<forall>k v. dget d k = Some v \<longrightarrow> json_ok b v)"
proof -
  have "(\<forall>kv \<in> set d. json_ok b (snd kv)) \<longleftrightarrow> (\<forall>k v. dget d k = Some v \<longrightarrow> json_ok b v)" if "dict_ok d"
    using that by (auto simp: dget_def dict_ok_def dkeys_def dest: map_of_SomeD)
  then show ?thesis by (auto simp: dict_ok_def dkeys_def)
qed

lemma json_ok_dset: "json_ok b (JObj d) \<Longrightarrow> json_ok b v \<Longrightarrow> json_ok b (JObj (dset d k v))"
  by (simp add: json_ok_obj dict_simps del: json_ok.simps)

lemma json_ok_get: "json_ok b (JObj d) \<Longrightarrow> json_ok b (get d k)"
  by (auto simp: json_ok_obj get_def get_or_def split: option.split simp del: json_ok.simps(4))

lemma json_ok_filter: "json_ok b (JObj d) \<Longrightarrow> json_ok b (JObj (filter P d))"
  by (auto simp: distinct_map_filter)

lemma json_ok_foldl:
  "json_ok b (JObj d) \<Longrightarrow> \<forall>kv \<in> set kvs. json_ok b (snd kv) \<Longrightarrow>
     json_ok b (JObj (foldl (\<lambda>d kv. dset d (fst kv) (snd kv)) d kvs))"
proof (induction kvs arbitrary: d)
  case (Cons kv kvs)
  then have "json_ok b (JObj (dset d (fst kv) (snd kv)))" by (intro json_ok_dset) simp_all
  with Cons show ?case by simp
qed simp

lemma chunk_base_ok: "json_ok b (JObj c) \<Longrightarrow> json_ok b (JObj (chunk_base c))"
proof -
  assume ok: "json_ok b (JObj c)"
  have s: "json_ok b (JObj (case dget c k of None \<Rightarrow> d | Some v \<Rightarrow> dset d k v))" if "json_ok b (JObj d)" for k d
  proof (cases "dget c k")
    case (Some v)
    with ok have "json_ok b v" by (simp add: json_ok_obj del: json_ok.simps)
    with Some that show ?thesis by (simp add: json_ok_dset del: json_ok.simps)
  qed (use that in simp)
  have "json_ok b (JObj [(''id'', get c ''id''), (''object'', JStr ''chat.completion.chunk''), (''model'', get c ''model'')])"
    using json_ok_get [OF ok] by simp
  then show ?thesis unfolding chunk_base_def foldl.simps by (intro s)
qed

lemma chunk_ok: "json_ok b (JObj c) \<Longrightarrow> json_ok b i \<Longrightarrow> json_ok b (JObj d) \<Longrightarrow> json_ok b r \<Longrightarrow>
    json_ok b (JObj (chunk c i d r))"
  unfolding chunk_def by (intro json_ok_dset chunk_base_ok) simp_all

lemma dget_Cons: "dget (kv # kvs) k = (if fst kv = k then Some (snd kv) else dget kvs k)"
  by (cases kv) (simp add: dget_def)

lemma dget_foldl: "dict_ok kvs \<Longrightarrow> dget (foldl (\<lambda>d kv. dset d (fst kv) (snd kv)) d kvs) k
    = (case dget kvs k of None \<Rightarrow> dget d k | Some v \<Rightarrow> Some v)"
proof (induction kvs arbitrary: d)
  case (Cons kv kvs)
  obtain k' v' where kv: "kv = (k', v')" by (cases kv)
  from Cons.prems have "dict_ok kvs" "dget kvs k' = None"
    by (auto simp: kv dict_ok_def dkeys_def dget_def map_of_eq_None_iff)
  with Cons.IH [of "dset d k' v'"] show ?case by (auto simp: kv dget_Cons dget_dset split: option.split)
qed (simp add: dget_def)

lemma dget_filter: "dict_ok d \<Longrightarrow> dget (filter P d) k = (case dget d k of Some v \<Rightarrow> if P (k, v) then Some v else None | None \<Rightarrow> None)"
proof (induction d)
  case (Cons kv d)
  obtain k' v where kv: "kv = (k', v)" by (cases kv)
  from Cons.prems have "dict_ok d" "dget d k' = None"
    by (auto simp: kv dict_ok_def dkeys_def dget_def map_of_eq_None_iff)
  with Cons.IH show ?case by (auto simp: kv dget_def)
qed (simp add: dget_def)

text \<open>The delta says what the message says, with an index added to every call.\<close>

definition same_call :: "nat \<Rightarrow> json \<Rightarrow> json \<Rightarrow> bool" where
  "same_call i c c' \<longleftrightarrow> (\<exists>call call'. c = JObj call \<and> c' = JObj call'
     \<and> (\<forall>k. dget call' k = (if k = ''index'' \<and> dget call k = None then Some (JInt (int i)) else dget call k)))"

definition same_message :: "jobject \<Rightarrow> jobject \<Rightarrow> bool" where
  "same_message msg delta \<longleftrightarrow> (\<forall>k. k \<noteq> ''tool_calls'' \<longrightarrow> get delta k = get msg k)
     \<and> (case get msg ''tool_calls'' of
          JArr calls \<Rightarrow> (\<exists>calls'. get delta ''tool_calls'' = JArr calls' \<and> length calls' = length calls
             \<and> (\<forall>i < length calls. same_call i (calls ! i) (calls' ! i)))
        | v \<Rightarrow> v = JNull \<and> get delta ''tool_calls'' = JNull)"

lemma indexed_call_same: "dict_ok call \<Longrightarrow> same_call i (JObj call) (JObj (indexed_call i call))"
  by (auto simp: same_call_def indexed_call_def dget_foldl split: option.split) (auto simp: dget_def)

lemma choice_delta_laws:
  assumes "choice_delta msg = Inr delta" and ok: "json_ok False (JObj msg)"
    and few: "\<And>calls. get msg ''tool_calls'' = JArr calls \<Longrightarrow> length calls < 10 ^ int_digit_limit"
  shows "same_message msg delta" "json_ok False (JObj delta)"
proof -
  define base where "base = filter (\<lambda>kv. fst kv \<notin> {''refusal'', ''tool_calls''} \<and> snd kv \<noteq> JNull) msg"
  define fin where "fin = (\<lambda>d. if get msg ''refusal'' \<noteq> JNull then dset d ''refusal'' (get msg ''refusal'') else d)"
  have dm: "dict_ok msg" using ok by (simp add: json_ok_obj del: json_ok.simps)
  have base_ok: "json_ok False (JObj base)" unfolding base_def by (rule json_ok_filter [OF ok])
  have gb: "get base k = (if k \<in> {''refusal'', ''tool_calls''} then JNull else get msg k)" for k
    by (auto simp: base_def get_def get_or_def dget_filter [OF dm] split: option.split)
  have gfin: "get (fin d) k = (if k = ''refusal'' \<and> get msg ''refusal'' \<noteq> JNull then get msg ''refusal'' else get d k)" for d k
    by (auto simp: fin_def get_def get_or_def dget_dset)
  have fin_ok: "json_ok False (JObj (fin d))" if "json_ok False (JObj d)" for d
    using that json_ok_get [OF ok] unfolding fin_def by (auto intro: json_ok_dset simp del: json_ok.simps)
  have "choice_delta msg = (case get msg ''tool_calls'' of JNull \<Rightarrow> Inr (fin base)
      | JArr calls \<Rightarrow> (if list_all is_dict calls then Inr (fin (dset base ''tool_calls'' (indexed_calls calls)))
                        else malformed_completion)
      | _ \<Rightarrow> malformed_completion)"
    unfolding choice_delta_def Let_def base_def fin_def by (rule refl)
  with assms(1) consider (none) "get msg ''tool_calls'' = JNull" "delta = fin base"
    | (calls) calls where "get msg ''tool_calls'' = JArr calls" "list_all is_dict calls"
        "delta = fin (dset base ''tool_calls'' (indexed_calls calls))"
    by (auto simp: malformed_completion_def split: json.splits if_splits)
  then have "same_message msg delta \<and> json_ok False (JObj delta)"
  proof cases
    case none
    with fin_ok [OF base_ok] show ?thesis by (auto simp: same_message_def gfin gb simp del: json_ok.simps)
  next
    case calls
    have call: "\<exists>call. calls ! i = JObj call \<and> json_ok False (JObj call)" if "i < length calls" for i
    proof -
      from calls(2) that obtain call where c: "calls ! i = JObj call"
        by (metis is_dict.elims(2) list_all_length)
      have "json_ok False (JArr calls)" using json_ok_get [OF ok, of "''tool_calls''"] calls(1) by simp
      then have "json_ok False (JObj call)" using c that by (metis json_ok.simps(3) nth_mem)
      with c show ?thesis by blast
    qed
    have "same_call i (calls ! i) (JObj (indexed_call i (as_object (calls ! i))))" if "i < length calls" for i
      using call [OF that] indexed_call_same by (auto simp: json_ok_obj simp del: json_ok.simps)
    moreover have "get (dset base ''tool_calls'' v) k = (if k = ''tool_calls'' then v else get base k)" for v k
      by (simp add: get_def get_or_def dget_dset)
    ultimately have "same_message msg delta"
      using calls(1,3) by (auto simp: same_message_def gfin gb indexed_calls_def nth_enumerate_eq)
    moreover have "json_ok False (JObj (indexed_call i (as_object c)))" if "(i, c) \<in> set (enumerate 0 calls)" for i c
    proof -
      from that have "i < length calls" "c = calls ! i" by (auto simp: in_set_enumerate_eq)
      with call [of i] obtain d where d: "c = JObj d" "json_ok False (JObj d)" by blast
      have "length (dec_digits i) \<le> int_digit_limit"
        using few [OF calls(1)] \<open>i < length calls\<close>
        by (intro length_dec_digits_bound) (rule less_trans)
      with d show ?thesis unfolding indexed_call_def by (intro json_ok_foldl) simp_all
    qed
    then have "json_ok False (indexed_calls calls)" by (auto simp: indexed_calls_def simp del: json_ok.simps(4))
    ultimately show ?thesis using fin_ok [OF json_ok_dset [OF base_ok]] calls(3) by blast
  qed
  then show "same_message msg delta" "json_ok False (JObj delta)" by blast+
qed

definition few_calls :: "jobject \<Rightarrow> bool" where
  "few_calls completion \<longleftrightarrow> (\<forall>choices choice msg calls. get completion ''choices'' = JArr choices
     \<longrightarrow> JObj choice \<in> set choices \<longrightarrow> get choice ''message'' = JObj msg
     \<longrightarrow> get msg ''tool_calls'' = JArr calls \<longrightarrow> length calls < 10 ^ int_digit_limit)"

text \<open>A choice is carried by two events: all of its message, then its finish reason.\<close>

definition carries :: "jobject \<Rightarrow> json \<Rightarrow> jobject list \<Rightarrow> bool" where
  "carries completion raw events \<longleftrightarrow> (\<exists>choice msg delta. raw = JObj choice \<and> get choice ''message'' = JObj msg
     \<and> same_message msg delta
     \<and> events = [chunk completion (get choice ''index'') delta JNull,
                 chunk completion (get choice ''index'') [] (get choice ''finish_reason'')])"

definition replayed :: "nat option \<Rightarrow> jobject list \<Rightarrow> replay \<Rightarrow> bool" where
  "replayed limit events st \<longleftrightarrow> rp_chunks st = map frame events \<and> rp_total st = sum_list (map length (rp_chunks st))
     \<and> list_all (\<lambda>e. json_ok False (JObj e)) events"

lemma append_event_Inr:
  assumes "append_event limit st event = Inr st'" "replayed limit events st" "json_ok False (JObj event)"
  shows "replayed limit (events @ [event]) st'"
  using assms by (auto simp: append_event_def Let_def response_too_large_def replayed_def
      split: if_splits simp del: json_ok.simps)

lemma run_append_events:
  assumes "run_steps (append_event limit) st new = Inr st'" "replayed limit events st"
    and "\<forall>e \<in> set new. json_ok False (JObj e)"
  shows "replayed limit (events @ new) st'"
  using assms
proof (induction new arbitrary: st events)
  case (Cons e new)
  then obtain st1 where s: "append_event limit st e = Inr st1" "run_steps (append_event limit) st1 new = Inr st'"
    by (auto split: sum.splits)
  from append_event_Inr [OF s(1) Cons.prems(2)] Cons.prems(3) have "replayed limit (events @ [e]) st1"
    by (simp del: json_ok.simps)
  from Cons.IH [OF s(2) this] Cons.prems(3) show ?case by (simp del: json_ok.simps)
qed simp

lemma replay_choice_Inr:
  assumes r: "replay_choice completion limit st raw = Inr st'" "replayed limit events st"
    and ok: "json_ok False (JObj completion)" "json_ok False raw"
    and few: "\<And>choice msg calls. raw = JObj choice \<Longrightarrow> get choice ''message'' = JObj msg
      \<Longrightarrow> get msg ''tool_calls'' = JArr calls \<Longrightarrow> length calls < 10 ^ int_digit_limit"
  shows "\<exists>evs. carries completion raw evs \<and> replayed limit (events @ evs) st'"
proof -
  from r(1) obtain choice msg delta st1 where c: "raw = JObj choice" "get choice ''message'' = JObj msg"
    "choice_delta msg = Inr delta" "append_event limit st (chunk completion (get choice ''index'') delta JNull) = Inr st1"
    "append_event limit st1 (chunk completion (get choice ''index'') [] (get choice ''finish_reason'')) = Inr st'"
    by (auto simp: replay_choice_def Let_def malformed_completion_def bind_Inr_iff split: json.splits if_splits)
  have choice: "json_ok False (JObj choice)" using ok(2) c(1) by simp
  from json_ok_get [OF choice, of "''message''"] c(2) have msg: "json_ok False (JObj msg)" by simp
  note d = choice_delta_laws [OF c(3) msg few [OF c(1,2)]]
  have e: "json_ok False (JObj (chunk completion (get choice ''index'') delta JNull))"
    "json_ok False (JObj (chunk completion (get choice ''index'') [] (get choice ''finish_reason'')))"
    by (rule chunk_ok [OF ok(1) json_ok_get [OF choice] d(2)]; simp)
      (rule chunk_ok [OF ok(1) json_ok_get [OF choice] _ json_ok_get [OF choice]]; simp)
  from append_event_Inr [OF c(5) append_event_Inr [OF c(4) r(2) e(1)] e(2)] d(1) c(1,2) show ?thesis
    unfolding carries_def by auto
qed

lemma run_replay_choices:
  assumes "run_steps (replay_choice completion limit) st raws = Inr st'" "replayed limit events st"
    and "json_ok False (JObj completion)" "\<forall>raw \<in> set raws. json_ok False raw"
    and "\<And>choice msg calls. JObj choice \<in> set raws \<Longrightarrow> get choice ''message'' = JObj msg
      \<Longrightarrow> get msg ''tool_calls'' = JArr calls \<Longrightarrow> length calls < 10 ^ int_digit_limit"
  shows "\<exists>evss. list_all2 (carries completion) raws evss \<and> replayed limit (events @ concat evss) st'"
  using assms
proof (induction raws arbitrary: st events)
  case (Cons raw raws)
  then obtain st1 where s: "replay_choice completion limit st raw = Inr st1"
    "run_steps (replay_choice completion limit) st1 raws = Inr st'" by (auto split: sum.splits)
  from Cons.prems(4) have "json_ok False raw" by simp
  with replay_choice_Inr [OF s(1) Cons.prems(2,3)] Cons.prems(5) obtain evs where
    e: "carries completion raw evs" "replayed limit (events @ evs) st1" by (metis list.set_intros(1))
  from Cons.IH [OF s(2) e(2) Cons.prems(3)] Cons.prems(4,5) obtain evss where
    "list_all2 (carries completion) raws evss" "replayed limit ((events @ evs) @ concat evss) st'" by auto
  with e(1) show ?case by (intro exI [of _ "evs # evss"]) simp
qed (auto intro: exI [of _ "[]"])

section \<open>Properties of Streaming\<close>


definition sample_completion :: jobject where
  "sample_completion = [(''id'', JStr ''c''), (''model'', JStr ''m''), (''choices'', JArr [JObj
     [(''index'', JInt 0), (''message'', JObj [(''role'', JStr ''assistant''), (''content'', JStr ''hi'')]),
      (''finish_reason'', JStr ''stop'')]])]"


end
