(* ===== verification/Transport.thy ===== *)
theory Transport
  imports Wire Config
begin

text \<open>
  The bounded transport to the upstream (\<open>transport.py\<close>). The exchange over HTTP, the work of the
  HTTP client library, is a parameter: either no response at all, or a response with its status,
  its headers, the chunks of its body and, when the stream broke off, the reason.
\<close>

section \<open>Safe response metadata\<close>

datatype transport_exn = Timed_Out | Http_Error

record http_response =
  hr_status :: int
  hr_redirect :: bool
  hr_headers :: "string \<Rightarrow> string option"
  hr_chunks :: "bytes list"
  hr_broken :: "transport_exn option"

datatype exchange = No_Response transport_exn | Answered http_response

definition FORWARDED_REQUEST_HEADERS :: "string list" where
  "FORWARDED_REQUEST_HEADERS = [''x-request-id'']"

definition MAX_RETRY_AFTER_SECONDS :: nat where
  "MAX_RETRY_AFTER_SECONDS = 3600"

definition is_id_char :: "char \<Rightarrow> bool" where
  "is_id_char c \<longleftrightarrow> is_ascii_letter c \<or> is_digit c \<or> c \<in> {CHR ''.'', CHR ''_'', CHR ''-''}"

definition SAFE_REQUEST_ID_matches :: "string \<Rightarrow> bool" where
  "SAFE_REQUEST_ID_matches s \<longleftrightarrow> s \<noteq> [] \<and> length s \<le> 128
     \<and> (is_ascii_letter (hd s) \<or> is_digit (hd s)) \<and> list_all is_id_char (tl s)"

definition SAFE_ACCOUNTING_matches :: "string \<Rightarrow> bool" where
  "SAFE_ACCOUNTING_matches s =
     (let ds = takeWhile is_digit s in
      1 \<le> length ds \<and> length ds \<le> 12 \<and> drop (length ds) s \<in> {[], ''ms'', ''s'', ''m'', ''h''})"

definition SAFE_RETRY_AFTER_matches :: "string \<Rightarrow> bool" where
  "SAFE_RETRY_AFTER_matches s \<longleftrightarrow> 1 \<le> length s \<and> length s \<le> 4 \<and> list_all is_digit s"

text \<open>\<open>str.title\<close>: a letter is a capital exactly when no letter stands before it.\<close>

fun title :: "bool \<Rightarrow> string \<Rightarrow> string" where
  "title after_letter [] = []"
| "title after_letter (c # s) =
     (if is_ascii_letter c then (if after_letter then lower_char c else upper_char c) # title True s
      else c # title False s)"

definition RATE_HEADERS :: "string list" where
  "RATE_HEADERS = [''x-ratelimit-limit-requests'', ''x-ratelimit-remaining-requests'', ''x-ratelimit-reset-requests'']"

definition public_rate_header :: "string \<Rightarrow> string" where
  "public_rate_header name = ''X-Shiftedx-Upstream-'' @ title False (drop 2 name)"

definition safe_retry_after :: "(string \<Rightarrow> string option) \<Rightarrow> int \<Rightarrow> string option" where
  "safe_retry_after headers status =
     (if status \<noteq> 429 then None
      else (case headers ''retry-after'' of None \<Rightarrow> None
        | Some v \<Rightarrow> (if SAFE_RETRY_AFTER_matches v \<and> dec_value v \<le> MAX_RETRY_AFTER_SECONDS
                    then Some (dec_digits (dec_value v)) else None)))"

definition safe_request_id :: "(string \<Rightarrow> string option) \<Rightarrow> string option" where
  "safe_request_id headers =
     (case (case headers ''x-request-id'' of Some v \<Rightarrow> (if v = [] then headers ''openai-request-id'' else Some v)
            | None \<Rightarrow> headers ''openai-request-id'') of
        Some v \<Rightarrow> (if SAFE_REQUEST_ID_matches v then Some v else None)
      | None \<Rightarrow> None)"

definition safe_rate :: "(string \<Rightarrow> string option) \<Rightarrow> string \<Rightarrow> string option" where
  "safe_rate headers name =
     (case headers name of Some v \<Rightarrow> (if SAFE_ACCOUNTING_matches v then Some v else None) | None \<Rightarrow> None)"

fun present :: "(string \<times> string option) list \<Rightarrow> (string, string) dict" where
  "present [] = []"
| "present ((k, None) # kvs) = present kvs"
| "present ((k, Some v) # kvs) = (k, v) # present kvs"

definition safe_upstream_headers :: "(string \<Rightarrow> string option) \<Rightarrow> int \<Rightarrow> (string, string) dict" where
  "safe_upstream_headers headers status =
     present ((''Retry-After'', safe_retry_after headers status)
       # (''X-Shiftedx-Upstream-Request-ID'', safe_request_id headers)
       # map (\<lambda>name. (public_rate_header name, safe_rate headers name)) RATE_HEADERS)"

definition upstream_http_failure :: "http_response \<Rightarrow> proxy_error" where
  "upstream_http_failure r =
     (let st = hr_status r; hs = safe_upstream_headers (hr_headers r) st in
      if st = 400 then upstream_failure_with ''upstream_bad_request'' 400 hs
      else if st = 401 \<or> st = 403 then upstream_failure_with ''upstream_authentication_failed'' 502 hs
      else if st = 404 then upstream_failure_with ''upstream_not_found'' 502 hs
      else if st = 409 then upstream_failure_with ''upstream_conflict'' 409 hs
      else if st = 422 then upstream_failure_with ''upstream_unprocessable'' 422 hs
      else if st = 429 then upstream_failure_with ''upstream_rate_limited'' 429 hs
      else if 500 \<le> st \<or> hr_redirect r then upstream_failure_with ''upstream_server_error'' 502 hs
      else upstream_failure_with ''upstream_http_error'' 502 hs)"

section \<open>A request\<close>

text \<open>The headers sent upstream: only those forwarded, and the upstream credential.\<close>

definition upstream_headers :: "settings \<Rightarrow> (string, string) dict \<Rightarrow> (string, string) dict" where
  "upstream_headers s downstream =
     (let hs = filter (\<lambda>kv. lower (fst kv) \<in> set FORWARDED_REQUEST_HEADERS) downstream in
      case upstream_api_key s of
        None \<Rightarrow> hs | Some key \<Rightarrow> dset hs ''Authorization'' (''Bearer '' @ key))"

text \<open>The loop over the chunks; each is checked once it has been appended.\<close>

fun read_body :: "nat \<Rightarrow> bytes \<Rightarrow> bytes list \<Rightarrow> bytes outcome" where
  "read_body limit body [] = Inr body"
| "read_body limit body (c # cs) =
     (if limit < length (body @ c) then upstream_fails ''upstream_response_too_large''
      else read_body limit (body @ c) cs)"

definition transport_failure :: "transport_exn \<Rightarrow> 'a outcome" where
  "transport_failure e =
     (case e of Timed_Out \<Rightarrow> Inl (Proxy upstream_timeout)
      | Http_Error \<Rightarrow> upstream_fails ''upstream_connection_error'')"

definition receive :: "settings \<Rightarrow> exchange \<Rightarrow> bytes outcome" where
  "receive s ex =
     (case ex of
        No_Response e \<Rightarrow> transport_failure e
      | Answered r \<Rightarrow>
          (if hr_redirect r \<or> 400 \<le> hr_status r then Inl (Proxy (upstream_http_failure r))
           else bind (read_body (max_upstream_response_bytes s) [] (hr_chunks r)) (\<lambda>body.
             case hr_broken r of Some e \<Rightarrow> transport_failure e | None \<Rightarrow> Inr body)))"

definition request :: "settings \<Rightarrow> exchange \<Rightarrow> jobject outcome" where
  "request s ex =
     bind (receive s ex) (\<lambda>body.
       case loads_bytes body of
         Inl e \<Rightarrow> Inl (Unhandled e)
       | Inr (Some (JObj d)) \<Rightarrow> Inr d
       | Inr _ \<Rightarrow> upstream_fails ''upstream_malformed_json'')"

text \<open>The operations of the upstream: \<open>net\<close> answers a method, an endpoint, a payload and headers.\<close>

type_synonym network = "string \<Rightarrow> string \<Rightarrow> jobject option \<Rightarrow> (string, string) dict \<Rightarrow> exchange"

definition upstream_chat :: "settings \<Rightarrow> network \<Rightarrow> (string, string) dict \<Rightarrow> jobject \<Rightarrow> jobject outcome" where
  "upstream_chat s net headers payload =
     request s (net ''POST'' (upstream_url s ''chat/completions'') (Some payload) (upstream_headers s headers))"

definition upstream_models :: "settings \<Rightarrow> network \<Rightarrow> (string, string) dict \<Rightarrow> jobject outcome" where
  "upstream_models s net headers =
     request s (net ''GET'' (upstream_url s ''models'') None (upstream_headers s headers))"

definition upstream_combined_supported :: "settings \<Rightarrow> network \<Rightarrow> bool outcome" where
  "upstream_combined_supported s net =
     (case request s (net ''GET'' (upstream_url s ''mtplx/app/capabilities'') None (upstream_headers s [])) of
        Inr document \<Rightarrow> Inr (combined_tool_terminal_schema_supported (JObj document))
      | Inl (Proxy e) \<Rightarrow> Inr False
      | Inl (Unhandled e) \<Rightarrow> Inl (Unhandled e))"

definition upstream_ready :: "settings \<Rightarrow> network \<Rightarrow> bool outcome" where
  "upstream_ready s net =
     (case upstream_models s net [] of
        Inr _ \<Rightarrow> Inr True | Inl (Proxy e) \<Rightarrow> Inr False | Inl (Unhandled e) \<Rightarrow> Inl (Unhandled e))"

section \<open>Laws\<close>

lemma read_body_Inr: "read_body limit body cs = Inr b \<Longrightarrow> length body \<le> limit \<Longrightarrow> b = body @ concat cs \<and> length b \<le> limit"
  by (induction limit body cs rule: read_body.induct) (auto split: if_splits)

lemma read_body_Inl: "read_body limit body cs = Inl f \<Longrightarrow> f = Proxy (upstream_failure ''upstream_response_too_large'')"
  by (induction limit body cs rule: read_body.induct) (auto split: if_splits simp: upstream_fails_def)

lemma present_iff: "(k, v) \<in> set (present kvs) \<longleftrightarrow> (k, Some v) \<in> set kvs"
  by (induction kvs rule: present.induct) auto

text \<open>A header value that may be shown: short, and letters, digits and three marks only.\<close>

definition safe_text :: "string \<Rightarrow> bool" where
  "safe_text v \<longleftrightarrow> v \<noteq> [] \<and> length v \<le> 128 \<and> list_all is_id_char v"

lemma safe_request_id_text: "safe_request_id headers = Some v \<Longrightarrow> safe_text v"
  by (cases v) (auto simp: safe_request_id_def SAFE_REQUEST_ID_matches_def safe_text_def is_id_char_def
      split: option.splits if_splits)

lemma safe_rate_text: "safe_rate headers name = Some v \<Longrightarrow> safe_text v"
proof -
  assume "safe_rate headers name = Some v"
  then have m: "SAFE_ACCOUNTING_matches v" by (auto simp: safe_rate_def split: option.splits if_splits)
  define ds where "ds = takeWhile is_digit v"
  define u where "u = drop (length ds) v"
  have "v = ds @ u" by (metis append_eq_conv_conj ds_def takeWhile_eq_take u_def append_take_drop_id)
  moreover have "1 \<le> length ds" "length ds \<le> 12" "u \<in> {[], ''ms'', ''s'', ''m'', ''h''}"
    using m by (simp_all add: SAFE_ACCOUNTING_matches_def Let_def ds_def u_def)
  moreover have "list_all is_digit ds" by (auto simp: ds_def list_all_iff dest: set_takeWhileD)
  moreover have "list_all is_id_char ds" using calculation(5) by (auto simp: is_id_char_def list_all_iff)
  moreover have "length u \<le> 2 \<and> list_all is_id_char u"
  proof -
    have "list_all (\<lambda>u. length u \<le> 2 \<and> list_all is_id_char u) [[], ''ms'', ''s'', ''m'', ''h'']" by code_simp
    then show ?thesis using calculation(4) unfolding list_all_iff by (metis list.set)
  qed
  ultimately show ?thesis by (auto simp: safe_text_def)
qed

lemma safe_retry_text:
  assumes "safe_retry_after headers st = Some v"
  shows "safe_text v \<and> st = 429 \<and> (\<exists>n \<le> MAX_RETRY_AFTER_SECONDS. v = dec_digits n)"
proof -
  from assms obtain n where n: "st = 429" "n \<le> MAX_RETRY_AFTER_SECONDS" "v = dec_digits n"
    by (auto simp: safe_retry_after_def split: option.splits if_splits)
  have "length v \<le> 4" unfolding n(3)
    by (rule length_dec_digits) (use n(2) in \<open>simp_all add: MAX_RETRY_AFTER_SECONDS_def\<close>)
  moreover have "v \<noteq> []" unfolding n(3) by (subst dec_digits.simps) simp
  moreover have "list_all is_id_char v" unfolding n(3)
    by (auto simp: list_all_iff is_id_char_def dest: dec_digits_are_digits)
  ultimately show ?thesis using n by (auto simp: safe_text_def)
qed

definition PUBLIC_HEADERS :: "string list" where
  "PUBLIC_HEADERS = [''Retry-After'', ''X-Shiftedx-Upstream-Request-ID'',
     ''X-Shiftedx-Upstream-Ratelimit-Limit-Requests'', ''X-Shiftedx-Upstream-Ratelimit-Remaining-Requests'',
     ''X-Shiftedx-Upstream-Ratelimit-Reset-Requests'']"

lemma rate_headers_public: "name \<in> set RATE_HEADERS \<Longrightarrow> public_rate_header name \<in> set PUBLIC_HEADERS - {''Retry-After''}"
proof -
  have "map public_rate_header RATE_HEADERS = drop 2 PUBLIC_HEADERS" by code_simp
  then have "set (map public_rate_header RATE_HEADERS) = set (drop 2 PUBLIC_HEADERS)" by (rule arg_cong)
  moreover assume "name \<in> set RATE_HEADERS"
  ultimately have "public_rate_header name \<in> set (drop 2 PUBLIC_HEADERS)" by (metis image_eqI list.set_map)
  then show ?thesis by (auto simp: PUBLIC_HEADERS_def)
qed

lemma safe_upstream_headers_safe:
  assumes "(k, v) \<in> set (safe_upstream_headers headers st)"
  shows "k \<in> set PUBLIC_HEADERS \<and> safe_text v
    \<and> (k = ''Retry-After'' \<longrightarrow> st = 429 \<and> (\<exists>n \<le> MAX_RETRY_AFTER_SECONDS. v = dec_digits n))"
proof -
  from assms consider "k = ''Retry-After''" "safe_retry_after headers st = Some v"
    | "k = ''X-Shiftedx-Upstream-Request-ID''" "safe_request_id headers = Some v"
    | name where "name \<in> set RATE_HEADERS" "k = public_rate_header name" "safe_rate headers name = Some v"
    unfolding safe_upstream_headers_def present_iff by auto
  then show ?thesis
  proof cases
    case 1
    with safe_retry_text show ?thesis by (auto simp: PUBLIC_HEADERS_def)
  next
    case 2
    with safe_request_id_text show ?thesis by (simp add: PUBLIC_HEADERS_def)
  next
    case 3
    have "safe_text v" by (rule safe_rate_text [OF 3(3)])
    moreover have "k \<in> set PUBLIC_HEADERS - {''Retry-After''}" unfolding 3(2) by (rule rate_headers_public [OF 3(1)])
    ultimately show ?thesis by (simp only: Diff_iff singleton_iff) simp
  qed
qed

section \<open>Properties of the Transport\<close>

lemma transport_failure_Inl: "transport_failure e = Inl f \<longleftrightarrow>
    f = Proxy (case e of Timed_Out \<Rightarrow> upstream_timeout | Http_Error \<Rightarrow> upstream_failure ''upstream_connection_error'')"
  by (cases e) (auto simp: transport_failure_def upstream_fails_def)

lemma transport_failure_not_Inr [simp]: "transport_failure e \<noteq> Inr v"
  by (cases e) (simp_all add: transport_failure_def)

lemma receive_Inl:
  assumes "receive s ex = Inl f"
  obtains (plain) e where "f = Proxy e" "e = upstream_timeout
      \<or> (\<exists>cd\<in>{''upstream_connection_error'', ''upstream_response_too_large''}. e = upstream_failure cd)"
  | (answered) r where "f = Proxy (upstream_http_failure r)"
proof (cases ex)
  case (No_Response e)
  with assms plain show ?thesis by (cases e) (auto simp: receive_def transport_failure_Inl)
next
  case (Answered r)
  show ?thesis
  proof (cases "hr_redirect r \<or> 400 \<le> hr_status r")
    case True
    with assms Answered answered show ?thesis by (auto simp: receive_def)
  next
    case False
    with assms Answered plain show ?thesis
      by (cases "read_body (max_upstream_response_bytes s) [] (hr_chunks r)")
        (auto simp: receive_def transport_failure_Inl dest: read_body_Inl split: option.splits transport_exn.splits)
  qed
qed

lemma request_Inr:
  "request s ex = Inr d \<Longrightarrow> \<exists>body. receive s ex = Inr body \<and> loads_bytes body = Inr (Some (JObj d))"
proof (cases "receive s ex")
  case (Inr body)
  assume r: "request s ex = Inr d"
  with Inr obtain v where "loads_bytes body = Inr v" by (cases "loads_bytes body") (auto simp: request_def)
  with r Inr show ?thesis
    by (cases v) (auto simp: request_def upstream_fails_def split: json.splits)
qed (simp add: request_def)

lemma set_dset: "(k, v) \<in> set (dset d a w) \<Longrightarrow> (k, v) \<in> set d \<or> k = a \<and> v = w"
  by (induction d a w rule: dset.induct) (auto split: if_splits)

text \<open>
  The errors an upstream call can end with: the code, the status and the message, for a response with an
  error status or a redirect, and for the failures of the exchange itself.
\<close>

definition UNUSABLE :: string where "UNUSABLE = ''The configured upstream returned an unusable response.''"

definition STATUS_ERRORS :: "(string \<times> int \<times> string) list" where
  "STATUS_ERRORS =
     [(''upstream_bad_request'', 400, UNUSABLE), (''upstream_authentication_failed'', 502, UNUSABLE),
      (''upstream_not_found'', 502, UNUSABLE), (''upstream_conflict'', 409, UNUSABLE),
      (''upstream_unprocessable'', 422, UNUSABLE), (''upstream_rate_limited'', 429, UNUSABLE),
      (''upstream_server_error'', 502, UNUSABLE), (''upstream_http_error'', 502, UNUSABLE)]"

definition EXCHANGE_ERRORS :: "(string \<times> int \<times> string) list" where
  "EXCHANGE_ERRORS =
     [(''upstream_timeout'', 504, ''The configured upstream timed out.''), (''upstream_connection_error'', 502, UNUSABLE),
      (''upstream_response_too_large'', 502, UNUSABLE), (''upstream_malformed_json'', 502, UNUSABLE)]"

definition shown :: "proxy_error \<Rightarrow> string \<times> int \<times> string" where
  "shown e = (e_code e, e_status_code e, e_message e)"

lemma upstream_http_failure_safe:
  "shown (upstream_http_failure r) \<in> set STATUS_ERRORS"
  "e_headers (upstream_http_failure r) = safe_upstream_headers (hr_headers r) (hr_status r)"
  by (simp_all add: upstream_http_failure_def upstream_failure_with_def STATUS_ERRORS_def UNUSABLE_def shown_def Let_def)

lemma exchange_failure_safe:
  assumes "e = upstream_timeout \<or> (\<exists>cd\<in>{''upstream_connection_error'', ''upstream_response_too_large'',
      ''upstream_malformed_json''}. e = upstream_failure cd)"
  shows "shown e \<in> set EXCHANGE_ERRORS" "e_headers e = []"
proof -
  have t: "shown upstream_timeout = (''upstream_timeout'', 504, ''The configured upstream timed out.'')"
      "e_headers upstream_timeout = []"
    by (simp_all add: shown_def upstream_timeout_def proxy_err_def)
  have f: "shown (upstream_failure cd) = (cd, 502, UNUSABLE)" "e_headers (upstream_failure cd) = []" for cd
    by (simp_all add: shown_def upstream_failure_def upstream_failure_with_def UNUSABLE_def)
  from assms consider "e = upstream_timeout" | "e = upstream_failure ''upstream_connection_error''"
    | "e = upstream_failure ''upstream_response_too_large''" | "e = upstream_failure ''upstream_malformed_json''"
    by blast
  then show "shown e \<in> set EXCHANGE_ERRORS" "e_headers e = []"
    by (cases; simp add: EXCHANGE_ERRORS_def t f)+
qed

text \<open>
  C19: Nothing the upstream sends can leak through an error, but for the values of five vetted headers. The
  code, the status and the message of an error of an upstream call are one of twelve fixed triples; an error
  of the exchange itself (no answer in time, a broken or oversized one, one that is no JSON object) carries no
  header at all; and for an error status or a redirect the only headers are five named ones, each value at
  most 128 letters, digits, dots, dashes and underscores, with \<open>Retry-After\<close> a plain number of at most 3600
  seconds.
\<close>

theorem upstream_failures_are_safe:
  assumes "request s ex = Inl (Proxy e)"
  shows "(e_code e, e_status_code e, e_message e) \<in> set STATUS_ERRORS
      \<and> list_all (\<lambda>(k, v). k \<in> set PUBLIC_HEADERS \<and> safe_text v
          \<and> (k = ''Retry-After'' \<longrightarrow> (\<exists>n \<le> MAX_RETRY_AFTER_SECONDS. v = dec_digits n))) (e_headers e)
    \<or> (e_code e, e_status_code e, e_message e) \<in> set EXCHANGE_ERRORS \<and> e_headers e = []"
proof (cases "receive s ex")
  case (Inl f)
  with assms have f: "f = Proxy e" by (simp add: request_def)
  show ?thesis
  proof (cases rule: receive_Inl [OF Inl])
    case (1 e')
    with f have "e = upstream_timeout \<or> (\<exists>cd\<in>{''upstream_connection_error'', ''upstream_response_too_large'',
      ''upstream_malformed_json''}. e = upstream_failure cd)" by blast
    from exchange_failure_safe [OF this] show ?thesis by (simp add: shown_def)
  next
    case (2 r)
    with f have e: "e = upstream_http_failure r" by simp
    have "list_all (\<lambda>(k, v). k \<in> set PUBLIC_HEADERS \<and> safe_text v
      \<and> (k = ''Retry-After'' \<longrightarrow> (\<exists>n \<le> MAX_RETRY_AFTER_SECONDS. v = dec_digits n))) (e_headers e)"
      unfolding e upstream_http_failure_safe(2) list_all_iff using safe_upstream_headers_safe by fast
    moreover have "shown e \<in> set STATUS_ERRORS" unfolding e by (rule upstream_http_failure_safe(1))
    ultimately show ?thesis by (simp add: shown_def)
  qed
next
  case (Inr body)
  with assms have "e = upstream_failure ''upstream_malformed_json''"
    by (auto simp: request_def upstream_fails_def split: sum.splits option.splits json.splits)
  then have "e = upstream_timeout \<or> (\<exists>cd\<in>{''upstream_connection_error'', ''upstream_response_too_large'',
      ''upstream_malformed_json''}. e = upstream_failure cd)" by blast
  from exchange_failure_safe [OF this] show ?thesis by (simp add: shown_def)
qed

definition sample_answer :: http_response where
  "sample_answer = \<lparr>hr_status = 429, hr_redirect = False,
     hr_headers = (\<lambda>k. if k = ''retry-after'' then Some ''0030'' else if k = ''x-request-id'' then Some ''a b'' else None),
     hr_chunks = [], hr_broken = None\<rparr>"

theorem upstream_failures_are_safe_witness:
  "\<exists>e. request (default_settings ''http://u'') (Answered sample_answer) = Inl (Proxy e)
     \<and> e_headers e = [(''Retry-After'', ''30'')] \<and> e_code e = ''upstream_rate_limited''
     \<and> (e_code e, e_status_code e, e_message e) \<in> set STATUS_ERRORS"
proof -
  define e where "e = upstream_http_failure sample_answer"
  have e: "request (default_settings ''http://u'') (Answered sample_answer) = Inl (Proxy e)"
    by (simp add: request_def receive_def sample_answer_def e_def)
  have "e_headers e = [(''Retry-After'', ''30'')]" "e_code e = ''upstream_rate_limited''" unfolding e_def by code_simp+
  with e upstream_failures_are_safe [OF e] show ?thesis by auto
qed

text \<open>
  C20: A response is only used whole, within bounds and well formed: when an upstream call succeeds,
  the status was below 400 and no redirect, the stream did not break off, the chunks together are
  within \<open>max_upstream_response_bytes\<close>, and the result is the JSON object they spell.
\<close>

theorem accepted_response_is_bounded:
  assumes "request s ex = Inr d"
  shows "\<exists>r. ex = Answered r \<and> hr_status r < 400 \<and> \<not> hr_redirect r \<and> hr_broken r = None
    \<and> length (concat (hr_chunks r)) \<le> max_upstream_response_bytes s
    \<and> loads_bytes (concat (hr_chunks r)) = Inr (Some (JObj d))"
proof -
  from request_Inr [OF assms] obtain body where
    b: "receive s ex = Inr body" "loads_bytes body = Inr (Some (JObj d))" by blast
  from b(1) obtain r where r: "ex = Answered r" "hr_status r < 400" "\<not> hr_redirect r" "hr_broken r = None"
    "read_body (max_upstream_response_bytes s) [] (hr_chunks r) = Inr body"
    by (auto simp: receive_def bind_Inr_iff split: exchange.splits if_splits option.splits)
  from read_body_Inr [OF r(5)] r b(2) show ?thesis by auto
qed

theorem accepted_response_is_bounded_witness:
  "\<exists>d r. request (default_settings ''http://u'')
       (Answered (sample_answer\<lparr>hr_status := 200, hr_chunks := [[123], [125]]\<rparr>)) = Inr d
     \<and> loads_bytes [123, 125] = Inr (Some (JObj d))"
proof -
  have "loads_bytes [123, 125] = Inr (Some (JObj []))" by code_simp
  then have r: "request (default_settings ''http://u'')
       (Answered (sample_answer\<lparr>hr_status := 200, hr_chunks := [[123], [125]]\<rparr>)) = Inr []"
    by (simp add: request_def receive_def sample_answer_def default_settings_def)
  from accepted_response_is_bounded [OF r] r show ?thesis by auto
qed

text \<open>
  Of the client's headers only the request identifier reaches the upstream; the only
  credential sent is the configured upstream key, so the client's own key is never forwarded.
\<close>

theorem only_request_id_is_forwarded:
  "(k, v) \<in> set (upstream_headers s downstream) \<Longrightarrow>
     ((k, v) \<in> set downstream \<and> lower k = ''x-request-id'')
     \<or> (k = ''Authorization'' \<and> (\<exists>key. upstream_api_key s = Some key \<and> v = ''Bearer '' @ key))"
proof (cases "upstream_api_key s")
  case (Some key)
  assume "(k, v) \<in> set (upstream_headers s downstream)"
  with Some have "(k, v) \<in> set (filter (\<lambda>kv. lower (fst kv) \<in> set FORWARDED_REQUEST_HEADERS) downstream)
      \<or> k = ''Authorization'' \<and> v = ''Bearer '' @ key"
    by (intro set_dset) (simp add: upstream_headers_def)
  with Some show ?thesis by (auto simp: FORWARDED_REQUEST_HEADERS_def)
qed (simp add: upstream_headers_def FORWARDED_REQUEST_HEADERS_def)

end
