(* ===== verification/Api.thy ===== *)
theory Api
  imports Chat_Loop Streaming Transport Admission
begin

text \<open>
  The HTTP surface (\<open>api.py\<close>): authentication, the bounded body, the chat handler from the
  request to the reply, the error handler and the counters. Parameters stand for the environment:
  the outcome of admission, the chunks of the body, the upstream, the clock and the client's
  connection. Qualification timing, CORS and log lines are left out.
\<close>

section \<open>Counters\<close>

record counters =
  k_downstream_requests :: nat
  k_upstream_calls :: nat
  k_blocked_duplicates :: nat
  k_blocked_stalls :: nat
  k_correction_turns :: nat
  k_receipt_projections :: nat
  k_upstream_calls_avoided :: nat
  k_errors :: nat
  k_policy_extension_allows :: nat
  k_policy_extension_denials :: nat
  k_cache_namespace_rejections :: nat
  k_deadline_expiries :: nat
  k_cancellations :: nat
  k_phase_acquisition :: nat
  k_phase_finalization :: nat
  k_phase_schema_rejections :: nat
  k_stream_replays :: nat

definition observe_admitted_request :: "counters \<Rightarrow> counters" where
  "observe_admitted_request k = k\<lparr>k_downstream_requests := Suc (k_downstream_requests k)\<rparr>"

definition observe_upstream_attempt :: "capability_phase option \<Rightarrow> counters \<Rightarrow> counters" where
  "observe_upstream_attempt phase k =
     (let k = k\<lparr>k_upstream_calls := Suc (k_upstream_calls k)\<rparr> in
      case phase of None \<Rightarrow> k
      | Some Acquisition \<Rightarrow> k\<lparr>k_phase_acquisition := Suc (k_phase_acquisition k)\<rparr>
      | Some Finalization \<Rightarrow> k\<lparr>k_phase_finalization := Suc (k_phase_finalization k)\<rparr>)"

definition observe :: "chat_result \<Rightarrow> counters \<Rightarrow> counters" where
  "observe result k =
     (let t = cr_telemetry result in
      k\<lparr>k_blocked_duplicates := k_blocked_duplicates k + t_blocked_duplicates t,
        k_blocked_stalls := k_blocked_stalls k + t_blocked_stalls t,
        k_correction_turns := k_correction_turns k + t_corrections t,
        k_receipt_projections := k_receipt_projections k + t_receipt_projections t,
        k_upstream_calls_avoided := k_upstream_calls_avoided k + t_upstream_calls_avoided t,
        k_policy_extension_allows := k_policy_extension_allows k + t_policy_extensions_used t\<rparr>)"

definition observe_interventions :: "nat \<times> nat \<times> nat \<Rightarrow> counters \<Rightarrow> counters" where
  "observe_interventions counts k =
     (case counts of (corrections, duplicates, stalls) \<Rightarrow>
        k\<lparr>k_correction_turns := k_correction_turns k + corrections,
          k_blocked_duplicates := k_blocked_duplicates k + duplicates,
          k_blocked_stalls := k_blocked_stalls k + stalls\<rparr>)"

definition newline :: string where "newline = [CHR 0x0A]"

definition metric_text :: "string \<Rightarrow> string \<times> int \<Rightarrow> string" where
  "metric_text kind kv = ''# TYPE '' @ fst kv @ '' '' @ kind @ newline @ fst kv @ '' '' @ int_text (snd kv) @ newline"

definition counter_values :: "counters \<Rightarrow> controller \<Rightarrow> (string \<times> int) list" where
  "counter_values k c =
     [(''shiftedx_proxy_downstream_requests_total'', int (k_downstream_requests k)),
      (''shiftedx_proxy_upstream_calls_total'', int (k_upstream_calls k)),
      (''shiftedx_proxy_blocked_duplicates_total'', int (k_blocked_duplicates k)),
      (''shiftedx_proxy_blocked_stalls_total'', int (k_blocked_stalls k)),
      (''shiftedx_proxy_correction_turns_total'', int (k_correction_turns k)),
      (''shiftedx_proxy_receipt_projections_total'', int (k_receipt_projections k)),
      (''shiftedx_proxy_local_projection_upstream_calls_avoided_total'', int (k_upstream_calls_avoided k)),
      (''shiftedx_proxy_errors_total'', int (k_errors k)),
      (''shiftedx_proxy_policy_extension_allows_total'', int (k_policy_extension_allows k)),
      (''shiftedx_proxy_policy_extension_denials_total'', int (k_policy_extension_denials k)),
      (''shiftedx_proxy_cache_namespace_rejections_total'', int (k_cache_namespace_rejections k)),
      (''shiftedx_proxy_request_deadline_expiries_total'', int (k_deadline_expiries k)),
      (''shiftedx_proxy_downstream_cancellations_total'', int (k_cancellations k)),
      (''shiftedx_proxy_phase_acquisition_total'', int (k_phase_acquisition k)),
      (''shiftedx_proxy_phase_finalization_total'', int (k_phase_finalization k)),
      (''shiftedx_proxy_phase_schema_rejections_total'', int (k_phase_schema_rejections k)),
      (''shiftedx_proxy_stream_replays_total'', int (k_stream_replays k)),
      (''shiftedx_proxy_admission_rejections_total'', int (c_admission_rejections c)),
      (''shiftedx_proxy_principal_rate_rejections_total'', int (c_rate_rejections c))]"

definition render_metrics :: "counters \<Rightarrow> controller \<Rightarrow> string" where
  "render_metrics k c =
     concat (map (metric_text ''counter'') (counter_values k c))
     @ concat (map (metric_text ''gauge'')
         [(''shiftedx_proxy_downstream_active'', c_active c), (''shiftedx_proxy_downstream_queued'', c_queued c),
          (''shiftedx_proxy_upstream_active'', c_upstream_active c)])"

section \<open>Principals and identifiers\<close>

type_synonym headers = "string \<Rightarrow> string option"

record authenticated_principal =
  policy_extensions_allowed :: bool
  a_budget_key :: "string option"

definition authenticate :: "headers \<Rightarrow> settings \<Rightarrow> authenticated_principal outcome" where
  "authenticate headers s =
     (let supplied = (case headers ''authorization'' of None \<Rightarrow> [] | Some v \<Rightarrow> v);
          trusted = trusted_policy_extension_keys s in
      if \<exists>k \<in> trusted. supplied = ''Bearer '' @ k
      then Inr \<lparr>policy_extensions_allowed = True, a_budget_key = Some (principal_budget_key s supplied)\<rparr>
      else if proxy_api_key s = None \<and> trusted = {}
      then Inr \<lparr>policy_extensions_allowed = False, a_budget_key = None\<rparr>
      else (let expected = (case proxy_api_key s of None \<Rightarrow> [] | Some k \<Rightarrow> ''Bearer '' @ k) in
            if expected = [] \<or> supplied \<noteq> expected
            then refuse 401 ''authentication_failed'' ''A valid proxy bearer token is required.''
            else Inr \<lparr>policy_extensions_allowed = False, a_budget_key = Some (principal_budget_key s supplied)\<rparr>))"

definition new_correlation_id :: "headers \<Rightarrow> string \<Rightarrow> string" where
  "new_correlation_id headers uid =
     (case headers ''x-request-id'' of
        Some v \<Rightarrow> (if SAFE_REQUEST_ID_matches v then v else ''shiftedx-'' @ uid)
      | None \<Rightarrow> ''shiftedx-'' @ uid)"

definition forwarded_request_headers :: "string \<Rightarrow> (string, string) dict" where
  "forwarded_request_headers correlation_id = [(''x-request-id'', correlation_id)]"

section \<open>The request body\<close>

text \<open>\<open>int(text)\<close>: white space around, a sign, digits with single underscores between them.\<close>

fun digit_groups :: "string \<Rightarrow> bool" where
  "digit_groups [] = False"
| "digit_groups [c] = is_digit c"
| "digit_groups (c # d # s) = (is_digit c \<and> (if d = CHR ''_'' then digit_groups s else digit_groups (d # s)))"

definition py_int :: "string \<Rightarrow> int option" where
  "py_int text =
     (let t = strip text;
          negative = (t \<noteq> [] \<and> hd t = CHR ''-'');
          digits = (if t \<noteq> [] \<and> hd t \<in> {CHR ''-'', CHR ''+''} then tl t else t);
          ds = filter is_digit digits in
      if digit_groups digits \<and> length ds \<le> int_digit_limit
      then Some (if negative then - int (dec_value ds) else int (dec_value ds))
      else None)"

fun read_chunks :: "nat \<Rightarrow> nat \<Rightarrow> bytes \<Rightarrow> bytes list \<Rightarrow> bytes outcome" where
  "read_chunks limit received body [] = Inr body"
| "read_chunks limit received body (c # cs) =
     (if limit < received + length c
      then refuse 413 ''request_too_large'' ''Request body exceeds MAX_REQUEST_BYTES.''
      else read_chunks limit (received + length c) (body @ c) cs)"

definition downstream_disconnected :: proxy_error where
  "downstream_disconnected = proxy_err 499 ''downstream_disconnected'' ''The downstream client disconnected.''"

definition invalid_json :: "'a outcome" where
  "invalid_json = refuse 400 ''invalid_json'' ''Request body must be a JSON object.''"

definition deadline_exceeded :: proxy_error where
  "deadline_exceeded = proxy_err 504 ''request_deadline_exceeded'' ''The request exceeded its total time limit.''"

text \<open>Why no more than these chunks arrive: the client is gone, or the deadline has passed.\<close>

datatype body_cut = Client_Left | Deadline_Passed

definition cut_error :: "body_cut \<Rightarrow> proxy_error" where
  "cut_error ending = (case ending of Client_Left \<Rightarrow> downstream_disconnected | Deadline_Passed \<Rightarrow> deadline_exceeded)"

definition read_payload :: "headers \<Rightarrow> bytes list \<Rightarrow> body_cut option \<Rightarrow> settings \<Rightarrow> jobject outcome" where
  "read_payload headers chunks ending s =
     bind (case headers ''content-length'' of
             None \<Rightarrow> Inr ()
           | Some text \<Rightarrow>
               (case py_int text of
                  None \<Rightarrow> refuse 400 ''invalid_content_length'' ''Content-Length is invalid.''
                | Some n \<Rightarrow> if int (max_request_bytes s) < n
                            then refuse 413 ''request_too_large'' ''Request body exceeds MAX_REQUEST_BYTES.''
                            else Inr ())) (\<lambda>_.
     bind (read_chunks (max_request_bytes s) 0 [] chunks) (\<lambda>body.
       case ending of
         Some c \<Rightarrow> Inl (Proxy (cut_error c))
       | None \<Rightarrow>
           (case loads_bytes body of
              Inl e \<Rightarrow> Inl (Unhandled e)
            | Inr (Some (JObj d)) \<Rightarrow> Inr d
            | Inr _ \<Rightarrow> invalid_json)))"

section \<open>Replies\<close>

datatype reply_body = Json_Body json | Text_Body string | Event_Stream "bytes list"

record reply =
  p_status :: int
  p_body :: reply_body
  p_headers :: "(string, string) dict"

text \<open>How a handler ends: with a reply, an exception the framework answers, or a cancellation.\<close>

datatype ending = Replied reply | Failed exn | Cancelled

definition count_error :: "string \<Rightarrow> counters \<Rightarrow> counters" where
  "count_error code k =
     (let k = k\<lparr>k_errors := Suc (k_errors k)\<rparr>;
          k = (if code \<in> {''receipt_override_denied'', ''protected_role_override_denied'', ''harness_opt_out_denied''}
               then k\<lparr>k_policy_extension_denials := Suc (k_policy_extension_denials k)\<rparr> else k);
          k = (if code = ''untrusted_cache_namespace''
               then k\<lparr>k_cache_namespace_rejections := Suc (k_cache_namespace_rejections k)\<rparr> else k);
          k = (if code = ''unsupported_phase_split_schema''
               then k\<lparr>k_phase_schema_rejections := Suc (k_phase_schema_rejections k)\<rparr> else k);
          k = (if code = ''request_deadline_exceeded''
               then k\<lparr>k_deadline_expiries := Suc (k_deadline_expiries k)\<rparr> else k)
      in if code = ''downstream_disconnected'' then k\<lparr>k_cancellations := Suc (k_cancellations k)\<rparr> else k)"

definition error_reply :: "string \<Rightarrow> proxy_error \<Rightarrow> reply" where
  "error_reply correlation_id e =
     \<lparr>p_status = e_status_code e,
      p_body = Json_Body (JObj [(''error'', JObj [(''message'', JStr (e_message e)),
        (''type'', JStr ''shiftedx_proxy_error''), (''code'', JStr (e_code e))])]),
      p_headers = foldl (\<lambda>d kv. dset d (fst kv) (snd kv)) [(''X-Request-ID'', correlation_id)] (e_headers e)\<rparr>"

text \<open>\<open>proxy_error_handler\<close>, with the intervention counts of the request.\<close>

definition handle_error ::
  "string \<Rightarrow> nat \<times> nat \<times> nat \<Rightarrow> proxy_error \<Rightarrow> counters \<Rightarrow> ending \<times> counters" where
  "handle_error correlation_id counts e k =
     (Replied (error_reply correlation_id e), count_error (e_code e) (observe_interventions counts k))"

definition end_failure ::
  "string \<Rightarrow> nat \<times> nat \<times> nat \<Rightarrow> failure \<Rightarrow> counters \<Rightarrow> ending \<times> counters" where
  "end_failure correlation_id counts f k =
     (case f of Proxy e \<Rightarrow> handle_error correlation_id counts e k | Unhandled x \<Rightarrow> (Failed x, k))"

definition telemetry_headers :: "policy_telemetry \<Rightarrow> string \<Rightarrow> settings \<Rightarrow> (string, string) dict" where
  "telemetry_headers t wall s =
     (if t_degraded_state t then [(''X-Shiftedx-State'', ''degraded'')] else [])
     @ (if telemetry_enabled s then
          [(''X-Shiftedx-Harness-Profile'', t_profile t),
           (''X-Shiftedx-Blocked-Duplicates'', dec_digits (t_blocked_duplicates t)),
           (''X-Shiftedx-Blocked-Stalls'', dec_digits (t_blocked_stalls t)),
           (''X-Shiftedx-Corrections'', dec_digits (t_corrections t)),
           (''X-Shiftedx-Upstream-Calls'', dec_digits (t_upstream_calls t)),
           (''X-Shiftedx-Policy-Wall-Ms'', wall)] else [])"

section \<open>The chat handler\<close>

text \<open>The task of the service may be ended from outside, after some interventions and attempts.\<close>

datatype interruption_kind = Deadline_Expired | Client_Gone | Task_Cancelled

record interruption =
  i_kind :: interruption_kind
  i_counts :: "nat \<times> nat \<times> nat"
  i_phases :: "capability_phase option list"

text \<open>
  The environment of a request. \<open>e_gate\<close> is the outcome of admission (a deadline that passes there
  is its error); \<open>e_late\<close> says that the deadline has passed when the reply is ready.
\<close>

record environment =
  e_gate :: "unit outcome"
  e_chunks :: "bytes list"
  e_cut :: "body_cut option"
  e_upstream :: upstream
  e_probe :: "bool outcome"
  e_interruption :: "interruption option"
  e_late :: bool
  e_uid :: string
  e_created :: int
  e_wall :: string

definition check_opt_out :: "headers \<Rightarrow> settings \<Rightarrow> authenticated_principal \<Rightarrow> bool outcome" where
  "check_opt_out headers s p =
     (case headers ''x-shiftedx-harness'' of
        None \<Rightarrow> Inr False
      | Some v \<Rightarrow>
          (if lower (strip v) \<noteq> ''off''
           then refuse 400 ''invalid_harness_opt_out'' ''X-Shiftedx-Harness supports only off.''
           else if \<not> allow_harness_opt_out s
           then refuse 403 ''harness_opt_out_disabled'' ''Harness opt-out is disabled.''
           else if \<not> policy_extensions_allowed p
           then refuse 403 ''harness_opt_out_denied'' ''Harness opt-out is not authorized for this principal.''
           else Inr True))"

text \<open>What the handler passes to the service: the payload, the replay options, the opt-out.\<close>

definition chat_request ::
  "environment \<Rightarrow> headers \<Rightarrow> settings \<Rightarrow> authenticated_principal
   \<Rightarrow> (jobject \<times> replay_options option \<times> bool) outcome" where
  "chat_request env headers s p =
     bind (read_payload headers (e_chunks env) (e_cut env) s) (\<lambda>payload.
     bind (prepare_replay_request payload) (\<lambda>(payload, options).
     bind (check_opt_out headers s p) (\<lambda>opt_out. Inr (payload, options, opt_out))))"

definition run_service ::
  "environment \<Rightarrow> chat_service \<Rightarrow> authenticated_principal \<Rightarrow> jobject \<Rightarrow> bool \<Rightarrow> chat_result outcome \<times> run_log" where
  "run_service env cs p payload opt_out =
     complete cs (e_upstream env) (e_probe env) (e_uid env) (e_created env) payload
       (\<not> opt_out) (policy_extensions_allowed p) opt_out None"

text \<open>Attempts are counted once their slot is granted; a refused slot ends the request.\<close>

definition attempt_phases :: "chat_result outcome \<Rightarrow> run_log \<Rightarrow> capability_phase option list" where
  "attempt_phases out lg =
     (case out of
        Inl (Proxy e) \<Rightarrow> (if e_code e = ''upstream_concurrency_limited'' then butlast (map fst (lg_sent lg))
                          else map fst (lg_sent lg))
      | _ \<Rightarrow> map fst (lg_sent lg))"

definition observe_attempts :: "capability_phase option list \<Rightarrow> counters \<Rightarrow> counters" where
  "observe_attempts phases k = fold observe_upstream_attempt phases k"

definition interrupt :: "string \<Rightarrow> interruption \<Rightarrow> counters \<Rightarrow> ending \<times> counters" where
  "interrupt correlation_id i k =
     (let k = observe_attempts (i_phases i) k in
      case i_kind i of
        Deadline_Expired \<Rightarrow> handle_error correlation_id (i_counts i) deadline_exceeded k
      | Client_Gone \<Rightarrow> handle_error correlation_id (i_counts i) downstream_disconnected k
      | Task_Cancelled \<Rightarrow>
          (Cancelled, observe_interventions (i_counts i) (k\<lparr>k_cancellations := Suc (k_cancellations k)\<rparr>)))"

text \<open>The reply to a result of the service; with replay options it is a stream.\<close>

definition deliver ::
  "environment \<Rightarrow> settings \<Rightarrow> string \<Rightarrow> replay_options option \<Rightarrow> chat_result \<Rightarrow> reply outcome" where
  "deliver env s correlation_id options result =
     (let hs = dset (telemetry_headers (cr_telemetry result) (e_wall env) s) ''X-Request-ID'' correlation_id in
      bind (case options of
              None \<Rightarrow> Inr \<lparr>p_status = 200, p_body = Json_Body (JObj (cr_body result)), p_headers = hs\<rparr>
            | Some opts \<Rightarrow>
                bind (replay_completion (cr_body result) opts (Some (max_upstream_response_bytes s))) (\<lambda>frames.
                  Inr \<lparr>p_status = 200, p_body = Event_Stream frames,
                       p_headers = dset (dset hs ''Cache-Control'' ''no-cache'')
                         ''X-Shiftedx-Stream-Mode'' ''validate-then-replay''\<rparr>)) (\<lambda>r.
        if e_late env then Inl (Proxy deadline_exceeded) else Inr r))"

definition admitted_chat ::
  "environment \<Rightarrow> chat_service \<Rightarrow> headers \<Rightarrow> string \<Rightarrow> authenticated_principal \<Rightarrow> counters \<Rightarrow> ending \<times> counters" where
  "admitted_chat env cs headers cid p k =
     (let s = cs_settings cs in
      case chat_request env headers s p of
        Inl f \<Rightarrow> end_failure cid (0, 0, 0) f k
      | Inr (payload, options, opt_out) \<Rightarrow>
          (case e_interruption env of
             Some i \<Rightarrow> interrupt cid i k
           | None \<Rightarrow>
               (let (out, lg) = run_service env cs p payload opt_out;
                    k = observe_attempts (attempt_phases out lg) k
                in case out of
                     Inl f \<Rightarrow> end_failure cid (lg_counts lg) f k
                   | Inr result \<Rightarrow>
                       (case deliver env s cid options result of
                          Inl f \<Rightarrow> end_failure cid (lg_counts lg) f k
                        | Inr r \<Rightarrow> (Replied r, observe result k)))))"

definition chat_handler :: "environment \<Rightarrow> chat_service \<Rightarrow> headers \<Rightarrow> counters \<Rightarrow> ending \<times> counters" where
  "chat_handler env cs headers k =
     (let cid = new_correlation_id headers (e_uid env) in
      case authenticate headers (cs_settings cs) of
        Inl f \<Rightarrow> end_failure cid (0, 0, 0) f k
      | Inr p \<Rightarrow>
          (case e_gate env of
             Inl f \<Rightarrow> end_failure cid (0, 0, 0) f k
           | Inr _ \<Rightarrow> admitted_chat env cs headers cid p (observe_admitted_request k)))"

section \<open>The other handlers\<close>

definition models_handler ::
  "environment \<Rightarrow> settings \<Rightarrow> network \<Rightarrow> bool \<Rightarrow> headers \<Rightarrow> counters \<Rightarrow> ending \<times> counters" where
  "models_handler env s net granted headers k =
     (let cid = new_correlation_id headers (e_uid env);
          res = bind (authenticate headers s) (\<lambda>_. bind (e_gate env) (\<lambda>_.
                bind (upstream_slot s granted (upstream_models s net (forwarded_request_headers cid))) (\<lambda>v.
                  if e_late env then Inl (Proxy deadline_exceeded)
                  else Inr \<lparr>p_status = 200, p_body = Json_Body (JObj v), p_headers = [(''X-Request-ID'', cid)]\<rparr>)))
      in case res of Inl f \<Rightarrow> end_failure cid (0, 0, 0) f k | Inr r \<Rightarrow> (Replied r, k))"

definition metrics_handler :: "settings \<Rightarrow> string \<Rightarrow> headers \<Rightarrow> controller \<Rightarrow> counters \<Rightarrow> ending \<times> counters" where
  "metrics_handler s uid headers c k =
     (case bind (authenticate headers s) (\<lambda>_.
             if metrics_enabled s then Inr () else refuse 404 ''metrics_disabled'' ''Metrics are disabled.'') of
        Inl f \<Rightarrow> end_failure (new_correlation_id headers uid) (0, 0, 0) f k
      | Inr _ \<Rightarrow> (Replied \<lparr>p_status = 200, p_body = Text_Body (render_metrics k c), p_headers = []\<rparr>, k))"

definition readyz_reply :: "bool \<Rightarrow> reply" where
  "readyz_reply ready =
     (if ready then \<lparr>p_status = 200, p_body = Json_Body (JObj [(''status'', JStr ''ready'')]), p_headers = []\<rparr>
      else \<lparr>p_status = 503, p_body = Json_Body (JObj [(''error'', JObj
             [(''message'', JStr ''The configured upstream is not reachable.''),
              (''type'', JStr ''shiftedx_proxy_error''), (''code'', JStr ''upstream_not_ready'')])]), p_headers = []\<rparr>)"

section \<open>Delivery of a stream\<close>

text \<open>What comes of one \<open>send\<close>, and the outcome that is recorded, once, for the stream.\<close>

datatype send_result = Sent | Send_Timeout | Send_Cancelled | Send_OSError | Send_Failed

datatype replay_outcome = Succeeded | Stream_Cancelled | Stream_Deadline | Stream_Failed

fun stream_outcome :: "send_result list \<Rightarrow> replay_outcome" where
  "stream_outcome [] = Succeeded"
| "stream_outcome (r # rs) =
     (case r of Sent \<Rightarrow> stream_outcome rs | Send_Timeout \<Rightarrow> Stream_Deadline
      | Send_Cancelled \<Rightarrow> Stream_Cancelled | Send_OSError \<Rightarrow> Stream_Cancelled | Send_Failed \<Rightarrow> Stream_Failed)"

definition observe_replay_outcome :: "replay_outcome \<Rightarrow> counters \<Rightarrow> counters" where
  "observe_replay_outcome outcome k =
     (case outcome of
        Succeeded \<Rightarrow> k\<lparr>k_stream_replays := Suc (k_stream_replays k)\<rparr>
      | Stream_Cancelled \<Rightarrow> k\<lparr>k_cancellations := Suc (k_cancellations k)\<rparr>
      | Stream_Deadline \<Rightarrow> k\<lparr>k_deadline_expiries := Suc (k_deadline_expiries k), k_errors := Suc (k_errors k)\<rparr>
      | Stream_Failed \<Rightarrow> k\<lparr>k_errors := Suc (k_errors k)\<rparr>)"

text \<open>The messages: the start, a body for each frame, the empty last body.\<close>

definition stream_response :: "bytes list \<Rightarrow> (nat \<Rightarrow> send_result) \<Rightarrow> counters \<Rightarrow> bytes list \<times> counters" where
  "stream_response frames send k =
     (let results = map send [0..<length frames + 2];
          delivered = length (takeWhile (\<lambda>r. r = Sent) results)
      in (take (delivered - 1) frames, observe_replay_outcome (stream_outcome results) k))"

end
