(* ===== verification/Interventions.thy ===== *)
theory Interventions
  imports Chat_Properties
begin

text \<open>
  The interventions of a request, counted from outside: which proposed calls are repeats or stalls is
  decided by the harness rebuilt from the transcript, and a correction is an attempt that is retried
  without judging calls. The counters of the harness and the snapshots of the service agree with this
  count at every exit of the policy loop.
\<close>

section \<open>Counts\<close>

type_synonym counts = "nat \<times> nat \<times> nat"

fun add_counts :: "counts \<Rightarrow> counts \<Rightarrow> counts" where
  "add_counts (a, b, c) (x, y, z) = (a + x, b + y, c + z)"

lemma add_counts_zero [simp]: "add_counts c (0, 0, 0) = c" "add_counts (0, 0, 0) c = c"
  by (cases c; simp)+

lemma add_counts_assoc: "add_counts (add_counts a b) c = add_counts a (add_counts b c)"
  by (cases a; cases b; cases c) simp

section \<open>Proposed calls\<close>

text \<open>The call a proposal asks for, if it is one the client could execute.\<close>

definition asks :: "string set \<Rightarrow> json \<Rightarrow> (string \<times> jobject) option" where
  "asks denied raw =
     (case raw of
        JObj call \<Rightarrow>
          (case call_arguments call of
             Inr (n, a) \<Rightarrow> (if n \<in> denied then None else Some (n, a)) | Inl e \<Rightarrow> None)
      | _ \<Rightarrow> None)"

definition is_stall :: "string set \<Rightarrow> agent_harness \<Rightarrow> json \<Rightarrow> bool" where
  "is_stall denied h raw \<longleftrightarrow> (case asks denied raw of None \<Rightarrow> False | Some (n, a) \<Rightarrow> stall_blocks h n)"

definition is_repeat :: "string set \<Rightarrow> agent_harness \<Rightarrow> json \<Rightarrow> bool" where
  "is_repeat denied h raw \<longleftrightarrow>
     (case asks denied raw of None \<Rightarrow> False | Some (n, a) \<Rightarrow> \<not> stall_blocks h n \<and> duplicate h n a \<noteq> None)"

definition blocked_calls :: "string set \<Rightarrow> agent_harness \<Rightarrow> json list \<Rightarrow> counts" where
  "blocked_calls denied h calls =
     (0, length (filter (is_repeat denied h) calls), length (filter (is_stall denied h) calls))"

lemma same_judgement:
  assumes "same_ledger h h'"
  shows "is_stall denied h' = is_stall denied h" "is_repeat denied h' = is_repeat denied h"
    "blocked_calls denied h' calls = blocked_calls denied h calls"
proof -
  show "is_stall denied h' = is_stall denied h" "is_repeat denied h' = is_repeat denied h"
    by (simp_all add: fun_eq_iff is_stall_def is_repeat_def stall_same_ledger [OF assms] duplicate_same_ledger [OF assms]
        split: option.split)
  then show "blocked_calls denied h' calls = blocked_calls denied h calls" by (simp add: blocked_calls_def)
qed

lemma note_proposed_counts:
  assumes "note_proposed denied st (i, raw) = Inr st'"
  shows "intervention_counts (rj_harness st')
    = add_counts (intervention_counts (rj_harness st)) (blocked_calls denied (rj_harness st) [raw])"
proof (cases "asks denied raw")
  case None
  then have "\<exists>msg. st' = reject_call st i msg"
    using assms by (auto simp: note_proposed_def asks_def split: json.splits sum.splits prod.splits if_splits)
  with None show ?thesis
    by (auto simp: reject_call_def blocked_calls_def is_stall_def is_repeat_def intervention_counts_def)
next
  case (Some na)
  then obtain call n a where c: "raw = JObj call" "call_arguments call = Inr (n, a)" "n \<notin> denied" "na = (n, a)"
    by (auto simp: asks_def split: json.splits sum.splits prod.splits if_splits)
  with assms have st': "st' = harness_rejection st i n a" by (simp add: note_proposed_def)
  have j: "is_stall denied (rj_harness st) raw = stall_blocks (rj_harness st) n"
    "is_repeat denied (rj_harness st) raw = (\<not> stall_blocks (rj_harness st) n \<and> duplicate (rj_harness st) n a \<noteq> None)"
    by (simp_all add: is_stall_def is_repeat_def Some c(4))
  show ?thesis
  proof (cases rule: harness_rejection_cases [of st n i a])
    case (stall h msg)
    then have "intervention_counts h = add_counts (intervention_counts (rj_harness st)) (0, 0, 1)"
      by (auto simp: stalled_result_def intervention_counts_def)
    with stall(2,3) st' j show ?thesis by (simp add: blocked_calls_def)
  next
    case pass
    with st' j show ?thesis by (simp add: blocked_calls_def)
  next
    case (dup prior h msg)
    then have "intervention_counts h = add_counts (intervention_counts (rj_harness st)) (0, 1, 0)"
      by (auto simp: blocked_result_def intervention_counts_def Let_def)
    with dup(1,2,4) st' j show ?thesis by (simp add: blocked_calls_def)
  qed
qed

lemma blocked_calls_Cons:
  "blocked_calls denied h (raw # calls) = add_counts (blocked_calls denied h [raw]) (blocked_calls denied h calls)"
  by (simp add: blocked_calls_def)

lemma run_note_proposed_counts:
  assumes "run_steps (note_proposed denied) st (enumerate k calls) = Inr st'"
  shows "intervention_counts (rj_harness st')
    = add_counts (intervention_counts (rj_harness st)) (blocked_calls denied (rj_harness st) calls)"
  using assms
proof (induction calls arbitrary: k st)
  case Nil
  then show ?case by (simp add: blocked_calls_def)
next
  case (Cons raw calls)
  then obtain st1 where s: "note_proposed denied st (k, raw) = Inr st1"
    "run_steps (note_proposed denied) st1 (enumerate (Suc k) calls) = Inr st'"
    by (auto split: sum.splits)
  have "same_ledger (rj_harness st) (rj_harness st1)" using note_proposed_ledger [OF s(1)] by blast
  from same_judgement(3) [OF this, of denied calls] Cons.IH [OF s(2)] note_proposed_counts [OF s(1)] show ?case
    by (simp add: add_counts_assoc blocked_calls_Cons [of denied _ raw calls])
qed

lemma rejected_results_counts:
  assumes "rejected_results calls h denied = Inr (h', rej)"
  shows "intervention_counts h' = add_counts (intervention_counts h) (blocked_calls denied h calls)"
proof -
  from assms obtain st where st: "run_steps (note_proposed denied) \<lparr>rj_harness = h, rj_can_finalize = True, rj_rejected = []\<rparr>
      (enumerate 0 calls) = Inr st" and h': "intervention_counts h' = intervention_counts (rj_harness st)"
    by (auto simp: rejected_results_def bind_Inr_iff intervention_counts_def)
  from run_note_proposed_counts [OF st] h' show ?thesis by simp
qed

section \<open>Attempts\<close>

text \<open>
  What an attempt adds, by its response, its phase and whether another one follows: the blocked calls where calls
  are judged, otherwise one correction if it is retried.
\<close>

definition made_at ::
  "string set \<Rightarrow> agent_harness \<Rightarrow> capability_phase option \<Rightarrow> jobject \<Rightarrow> bool \<Rightarrow> counts" where
  "made_at denied h phase response retried =
     (case response_message response of
        Inl f \<Rightarrow> (0, 0, 0)
      | Inr msg \<Rightarrow>
          (case get msg ''tool_calls'' of
             JArr calls \<Rightarrow>
               (if calls \<noteq> [] \<and> phase \<noteq> Some Finalization then blocked_calls denied h calls
                else (if retried then 1 else 0, 0, 0))
           | _ \<Rightarrow> (if retried then 1 else 0, 0, 0)))"

fun made_in_loop :: "chat_service \<Rightarrow> plan \<Rightarrow> upstream \<Rightarrow> agent_harness \<Rightarrow> nat \<Rightarrow> run \<Rightarrow> counts" where
  "made_in_loop cs pl up h 0 st = (0, 0, 0)"
| "made_in_loop cs pl up h (Suc n) st =
     (case up (rn_calls st) (attempt_payload pl st (attempt_phase pl st)) of
        Inl f \<Rightarrow> (0, 0, 0)
      | Inr response \<Rightarrow>
          (case chat_attempt cs pl up st of
             Finished out st' \<Rightarrow> made_at (cs_denied_tools cs) h (attempt_phase pl st) response False
           | Retry st' \<Rightarrow> add_counts (made_at (cs_denied_tools cs) h (attempt_phase pl st) response True)
               (made_in_loop cs pl up h n st')))"

definition counted :: "agent_harness \<Rightarrow> run \<Rightarrow> bool" where
  "counted h st \<longleftrightarrow> same_ledger h (rn_harness st) \<and> rn_counts st = intervention_counts (rn_harness st)"

lemma correct_with_counts:
  "rn_counts (correct_with ms i st) = add_counts (intervention_counts (rn_harness st)) (1, 0, 0)"
  by (simp add: correct_with_def correction_def intervention_counts_def snapshot_def)

lemma correct_with_counted: "counted h st \<Longrightarrow> counted h (correct_with ms i st)"
  using correct_with_fields(5,7) by (auto simp: counted_def intro: same_ledger_trans)

lemma handle_calls_counts:
  assumes "counted h st" "response_message response = Inr msg" "get msg ''tool_calls'' = JArr calls" "calls \<noteq> []"
  shows "handle_calls cs st response msg calls = Retry st' \<Longrightarrow>
      counted h st' \<and> rn_counts st' = add_counts (rn_counts st) (made_at (cs_denied_tools cs) h (rn_phase st) response True)"
    and "handle_calls cs st response msg calls = Finished r st' \<Longrightarrow> \<forall>e. r \<noteq> Inl (Unhandled e) \<Longrightarrow>
      rn_counts st' = add_counts (rn_counts st) (made_at (cs_denied_tools cs) h (rn_phase st) response False)"
proof -
  have c: "same_ledger h (rn_harness st)" "rn_counts st = intervention_counts (rn_harness st)"
    using assms(1) by (simp_all add: counted_def)
  have m: "made_at (cs_denied_tools cs) h (rn_phase st) response b =
      (if rn_phase st \<noteq> Some Finalization then blocked_calls (cs_denied_tools cs) h calls else (if b then 1 else 0, 0, 0))" for b
    by (simp add: made_at_def assms(2-4))
  have rej: "same_ledger h h'" "intervention_counts h' = add_counts (rn_counts st) (blocked_calls (cs_denied_tools cs) h calls)"
    if "rejected_results calls (rn_harness st) (cs_denied_tools cs) = Inr (h', rej)" for h' rej
    using rejected_results_laws [OF that] rejected_results_counts [OF that] c same_judgement(3) [OF c(1)]
    by (auto intro: same_ledger_trans)
  show "handle_calls cs st response msg calls = Retry st' \<Longrightarrow>
      counted h st' \<and> rn_counts st' = add_counts (rn_counts st) (made_at (cs_denied_tools cs) h (rn_phase st) response True)"
    using correct_with_counted [OF assms(1)] c(2) rej
    by (auto simp: handle_calls_def m correct_with_counts Let_def counted_def split: if_splits sum.splits prod.splits)
  show "handle_calls cs st response msg calls = Finished r st' \<Longrightarrow> \<forall>e. r \<noteq> Inl (Unhandled e) \<Longrightarrow>
      rn_counts st' = add_counts (rn_counts st) (made_at (cs_denied_tools cs) h (rn_phase st) response False)"
    using c(2) rej by (auto simp: handle_calls_def m Let_def split: if_splits sum.splits prod.splits)
qed

lemma handle_response_counts:
  assumes "counted h st"
  shows "handle_response cs st response = Retry st' \<Longrightarrow>
      counted h st' \<and> rn_counts st' = add_counts (rn_counts st) (made_at (cs_denied_tools cs) h (rn_phase st) response True)"
    and "handle_response cs st response = Finished r st' \<Longrightarrow> \<forall>e. r \<noteq> Inl (Unhandled e) \<Longrightarrow>
      rn_counts st' = add_counts (rn_counts st) (made_at (cs_denied_tools cs) h (rn_phase st) response False)"
proof -
  have terminal: "handle_terminal cs st response msg = Retry u \<Longrightarrow>
      counted h u \<and> rn_counts u = add_counts (rn_counts st) (1, 0, 0)"
    "handle_terminal cs st response msg = Finished r u \<Longrightarrow> rn_counts u = rn_counts st" for msg u
    using assms correct_with_counted [OF assms]
    by (auto simp: handle_terminal_def correct_with_counts counted_def split: if_splits sum.splits prod.splits option.splits)
  have no_calls: "made_at (cs_denied_tools cs) h (rn_phase st) response b = (if b then 1 else 0, 0, 0)"
    if "response_message response = Inr msg" "\<not> truthy (get msg ''tool_calls'')" for msg b
    using that by (auto simp: made_at_def split: json.splits)
  have calls: "v = JArr cs' \<Longrightarrow> truthy v \<Longrightarrow> cs' \<noteq> []" for v cs' by auto
  show "handle_response cs st response = Retry st' \<Longrightarrow>
      counted h st' \<and> rn_counts st' = add_counts (rn_counts st) (made_at (cs_denied_tools cs) h (rn_phase st) response True)"
    using handle_calls_counts(1) [OF assms _ _ calls] terminal(1) no_calls
    by (auto simp: handle_response_def split: sum.splits json.splits if_splits)
  show "handle_response cs st response = Finished r st' \<Longrightarrow> \<forall>e. r \<noteq> Inl (Unhandled e) \<Longrightarrow>
      rn_counts st' = add_counts (rn_counts st) (made_at (cs_denied_tools cs) h (rn_phase st) response False)"
    using handle_calls_counts(2) [OF assms _ _ calls] terminal(2) no_calls
    by (auto simp: handle_response_def made_at_def split: sum.splits json.splits if_splits)
qed

section \<open>The loop\<close>

lemma attempts_counts:
  assumes "counted h st" "attempts (chat_attempt cs pl up) retry_exhausted n st = (r, st')" "\<forall>e. r \<noteq> Inl (Unhandled e)"
  shows "rn_counts st' = add_counts (rn_counts st) (made_in_loop cs pl up h n st)"
  using assms
proof (induction n arbitrary: st)
  case 0
  then show ?case by simp
next
  case (Suc n)
  define phase where "phase = attempt_phase pl st"
  define st1 where "st1 = st\<lparr>rn_phase := phase, rn_sent := rn_sent st @ [(phase, attempt_payload pl st phase)],
    rn_calls := Suc (rn_calls st)\<rparr>"
  have ok: "counted h st1" "rn_counts st1 = rn_counts st" "rn_phase st1 = phase"
    using Suc.prems(1) by (simp_all add: counted_def st1_def)
  show ?case
  proof (cases "up (rn_calls st) (attempt_payload pl st phase)")
    case (Inl f)
    then have "chat_attempt cs pl up st = Finished (Inl f)
        (st\<lparr>rn_phase := phase, rn_sent := rn_sent st @ [(phase, attempt_payload pl st phase)]\<rparr>)"
      by (simp add: chat_attempt_def Let_def phase_def)
    with Suc.prems(2) have "rn_counts st' = rn_counts st" by (simp only: attempts.simps attempt_result.case) auto
    moreover have "made_in_loop cs pl up h (Suc n) st = (0, 0, 0)" using Inl by (simp add: phase_def)
    ultimately show ?thesis by simp
  next
    case (Inr response)
    then have step: "chat_attempt cs pl up st = handle_response cs st1 response"
      by (simp add: chat_attempt_def Let_def st1_def phase_def)
    show ?thesis
    proof (cases "handle_response cs st1 response")
      case (Finished out u)
      with Suc.prems(2,3) step handle_response_counts(2) [OF ok(1) Finished] Inr ok show ?thesis
        by (simp add: phase_def)
    next
      case (Retry u)
      note u = handle_response_counts(1) [OF ok(1) Retry]
      from Suc.prems(2) step Retry have "attempts (chat_attempt cs pl up) retry_exhausted n u = (r, st')" by simp
      from Suc.IH [OF _ this Suc.prems(3)] u step Retry Inr ok show ?thesis
        by (simp add: phase_def add_counts_assoc)
    qed
  qed
qed

text \<open>The rebuilt harness starts without interventions.\<close>

lemma record_status_counts: "intervention_counts (fst (record_status h n a st)) = intervention_counts h"
  by (simp add: record_status_def note_failures_def note_mutation_def intervention_counts_def Let_def)

lemma run_record_counts:
  "run_steps record_step h es = Inr h' \<Longrightarrow> intervention_counts h' = intervention_counts h"
proof (induction es arbitrary: h)
  case (Cons e es)
  obtain n a t where e: "e = (n, a, t)" by (cases e)
  from Cons.prems obtain h1 where h1: "record_step h e = Inr h1" "run_steps record_step h1 es = Inr h'"
    by (auto split: sum.splits)
  from h1(1) obtain st r where "record_status h n a st = (h1, r)"
    unfolding e by (auto simp: record_step_def record_result_Inr split: sum.splits prod.splits)
  with record_status_counts [of h n a st] Cons.IH [OF h1(2)] show ?case by simp
qed simp

lemma rebuild_request_counts:
  assumes "rebuild_request cs pl = Inr rc"
  shows "intervention_counts (r_harness rc) = (0, 0, 0)"
proof -
  from assms have "reconstruct (JArr (messages_of pl)) (available_tools_of pl) (pl_roles pl) (pl_contract pl)
      (requires_receipt cs pl) = Inr rc" by (simp add: rebuild_request_def)
  from reconstruct_Inr [OF this] obtain rb h0 es where "rc = finish_rebuild rb"
    "intervention_counts h0 = (0, 0, 0)" "run_steps record_step h0 es = Inr (rb_harness rb)"
    unfolding rebuilt_def by (metis (no_types, lifting) intervention_counts_def new_harness_def agent_harness.select_convs(11,12,15))
  then show ?thesis by (auto simp: finish_rebuild_def Let_def dest: run_record_counts)
qed

lemma chat_loop_counts:
  assumes "rebuild_request cs pl = Inr rc" "chat_loop cs pl up (start_run pl rc) = (r, st)" "\<forall>e. r \<noteq> Inl (Unhandled e)"
  shows "rn_counts st = made_in_loop cs pl up (r_harness rc) (max_upstream_calls (cs_settings cs)) (start_run pl rc)"
proof -
  have start: "counted (r_harness rc) (start_run pl rc)" "rn_counts (start_run pl rc) = (0, 0, 0)" "rn_calls (start_run pl rc) = 0"
    using rebuild_request_counts [OF assms(1)] by (simp_all add: counted_def start_run_def)
  from attempts_counts [OF start(1) _ assms(3), of cs pl up "max_upstream_calls (cs_settings cs)" st] assms(2) start(2,3)
  show ?thesis by (simp add: chat_loop_def attempt_loop_def)
qed

section \<open>Requests\<close>

text \<open>The interventions of a whole request: those of its policy loop, if it gets there.\<close>

definition made_by_request ::
  "chat_service \<Rightarrow> upstream \<Rightarrow> bool outcome \<Rightarrow> jobject \<Rightarrow> bool \<Rightarrow> bool \<Rightarrow> bool \<Rightarrow> counts" where
  "made_by_request cs up probe payload enabled allowed trusted =
     (case bind (gate_request cs payload enabled allowed None) (\<lambda>_. make_plan cs payload allowed trusted) of
        Inl f \<Rightarrow> (0, 0, 0)
      | Inr pl \<Rightarrow>
          (if \<not> enabled \<or> pl_combined pl \<and> probe \<noteq> Inr True then (0, 0, 0)
           else (case rebuild_request cs pl of
               Inl e \<Rightarrow> (0, 0, 0)
             | Inr rc \<Rightarrow>
                 (if project_latest_if_current (messages_of pl) rc \<noteq> Inr None then (0, 0, 0)
                  else made_in_loop cs pl up (r_harness rc) (max_upstream_calls (cs_settings cs)) (start_run pl rc)))))"

lemma complete_with_harness_counts:
  assumes "complete_with_harness cs pl up uid created = (out, lg)" "\<forall>e. out \<noteq> Inl (Unhandled e)"
  shows "lg_counts lg = (case rebuild_request cs pl of Inl e \<Rightarrow> (0, 0, 0)
     | Inr rc \<Rightarrow> (if project_latest_if_current (messages_of pl) rc \<noteq> Inr None then (0, 0, 0)
         else made_in_loop cs pl up (r_harness rc) (max_upstream_calls (cs_settings cs)) (start_run pl rc)))"
proof (cases "rebuild_request cs pl")
  case (Inl e)
  with assms(1) show ?thesis by (cases e) (auto simp: complete_with_harness_def quiet_def)
next
  case (Inr rc)
  note zero = rebuild_request_counts [OF Inr]
  show ?thesis
  proof (cases "project_latest_if_current (messages_of pl) rc = Inr None")
    case False
    with assms(1) Inr zero show ?thesis
      by (auto simp: complete_with_harness_def log_of_def start_run_def Let_def split: sum.splits option.splits)
  next
    case True
    obtain r st where l: "chat_loop cs pl up (start_run pl rc) = (r, st)" by fastforce
    with assms(1) Inr True have out: "lg = log_of st" "out = bind r (\<lambda>body. Inr \<lparr>cr_body = body,
       cr_telemetry = telemetry (rn_harness st) (rn_calls st) rc 0 0 (pl_extension_used pl)\<rparr>)"
      by (auto simp: complete_with_harness_def Let_def)
    with assms(2) have "\<forall>e. r \<noteq> Inl (Unhandled e)" by (cases r) auto
    from chat_loop_counts [OF Inr l this] out(1) Inr True show ?thesis by (simp add: log_of_def)
  qed
qed

lemma complete_counts:
  assumes "complete cs up probe uid created payload enabled allowed trusted None = (out, lg)" "\<forall>e. out \<noteq> Inl (Unhandled e)"
  shows "lg_counts lg = made_by_request cs up probe payload enabled allowed trusted"
proof (cases "bind (gate_request cs payload enabled allowed None) (\<lambda>_. make_plan cs payload allowed trusted)")
  case (Inl f)
  with assms(1) show ?thesis by (auto simp: complete_def made_by_request_def quiet_def)
next
  case (Inr pl)
  show ?thesis
  proof (cases "pl_combined pl \<and> probe \<noteq> Inr True")
    case True
    with assms(1) Inr show ?thesis
      by (cases probe) (auto simp: complete_def made_by_request_def quiet_def split: bool.splits)
  next
    case False
    then have c: "(if pl_combined pl then probe else Inr True) = Inr True" by auto
    have run: "complete cs up probe uid created payload enabled allowed trusted None
        = (if enabled then complete_with_harness cs pl up uid created else complete_without_harness cs pl up)"
      unfolding complete_def Inr sum.case c by simp
    show ?thesis
    proof (cases enabled)
      case off: False
      with run assms(1) have "complete_without_harness cs pl up = (out, lg)" by simp
      with off show ?thesis unfolding made_by_request_def Inr by (auto dest: off_counts)
    next
      case True
      with run assms(1) have "complete_with_harness cs pl up uid created = (out, lg)" by simp
      from complete_with_harness_counts [OF this assms(2)] True False show ?thesis
        unfolding made_by_request_def Inr by (simp add: if_not_P [OF False])
    qed
  qed
qed

end
