(* ===== verification/Api_Properties.thy ===== *)
theory Api_Properties
  imports Api Interventions
begin

text \<open>
  The properties of the HTTP surface: who is trusted, how much is read, what an ordinary client can
  obtain, and that the interventions of the harness reach the counters exactly once.
\<close>

section \<open>Trust\<close>

definition presents :: "headers \<Rightarrow> string \<Rightarrow> bool" where
  "presents headers key \<longleftrightarrow> headers ''authorization'' = Some (''Bearer '' @ key)"

lemma supplied_bearer:
  "(case headers ''authorization'' of None \<Rightarrow> [] | Some v \<Rightarrow> v) = ''Bearer '' @ k \<longleftrightarrow> presents headers k"
  by (auto simp: presents_def split: option.splits)

lemma authenticate_cases:
  "authenticate headers s =
     (if \<exists>k \<in> trusted_policy_extension_keys s. presents headers k
      then Inr \<lparr>policy_extensions_allowed = True,
                a_budget_key = Some (principal_budget_key s (the (headers ''authorization'')))\<rparr>
      else if proxy_api_key s = None \<and> trusted_policy_extension_keys s = {}
      then Inr \<lparr>policy_extensions_allowed = False, a_budget_key = None\<rparr>
      else if \<exists>k. proxy_api_key s = Some k \<and> presents headers k
      then Inr \<lparr>policy_extensions_allowed = False,
                a_budget_key = Some (principal_budget_key s (the (headers ''authorization'')))\<rparr>
      else refuse 401 ''authentication_failed'' ''A valid proxy bearer token is required.'')"
proof -
  have the: "presents headers k \<Longrightarrow> (case headers ''authorization'' of None \<Rightarrow> [] | Some v \<Rightarrow> v)
      = the (headers ''authorization'')" for k by (simp add: presents_def)
  have out: "(let expected = (case proxy_api_key s of None \<Rightarrow> [] | Some k \<Rightarrow> ''Bearer '' @ k) in
      expected = [] \<or> (case headers ''authorization'' of None \<Rightarrow> [] | Some v \<Rightarrow> v) \<noteq> expected)
    \<longleftrightarrow> \<not> (\<exists>k. proxy_api_key s = Some k \<and> presents headers k)"
    using supplied_bearer [of headers] by (auto simp: Let_def split: option.splits)
  show ?thesis
    unfolding authenticate_def Let_def supplied_bearer out [unfolded Let_def] by (auto simp: the)
qed

text \<open>
  Under validated settings a request is trusted with policy extensions exactly when it bears one
  of the trusted keys; it is served without trust when it bears the proxy key, or when no key at all
  is configured; any other request is refused with 401. The proxy key itself is never trusted.
\<close>

theorem trust_follows_the_key:
  assumes "make_settings s0 = Inr s"
  shows "(case authenticate headers s of
      Inr p \<Rightarrow> (if \<exists>k \<in> trusted_policy_extension_keys s. presents headers k
               then policy_extensions_allowed p \<and> (\<forall>k. proxy_api_key s = Some k \<longrightarrow> \<not> presents headers k)
               else \<not> policy_extensions_allowed p
                 \<and> (proxy_api_key s = None \<and> trusted_policy_extension_keys s = {}
                    \<or> (\<exists>k. proxy_api_key s = Some k \<and> presents headers k)))
    | Inl f \<Rightarrow> f = Proxy (proxy_err 401 ''authentication_failed'' ''A valid proxy bearer token is required.'')
        \<and> \<not> (\<exists>k \<in> trusted_policy_extension_keys s. presents headers k)
        \<and> \<not> (\<exists>k. proxy_api_key s = Some k \<and> presents headers k))"
proof -
  have "\<forall>k. proxy_api_key s = Some k \<longrightarrow> k \<notin> trusted_policy_extension_keys s"
    using make_settings_Inr(2) [OF assms] by (auto simp: validate_production_profile_def split: if_splits)
  moreover have "presents headers k \<Longrightarrow> presents headers k' \<Longrightarrow> k = k'" for k k' by (simp add: presents_def)
  ultimately show ?thesis
    unfolding authenticate_cases by (auto simp: refuse_def)
qed

section \<open>Bounds of the request\<close>

lemma read_chunks_Inr:
  "read_chunks limit received body cs = Inr b \<Longrightarrow> received \<le> limit \<Longrightarrow>
     b = body @ concat cs \<and> received + length (concat cs) \<le> limit"
  by (induction limit received body cs rule: read_chunks.induct) (auto split: if_splits)

lemma read_chunks_too_long:
  "received \<le> limit \<Longrightarrow> limit < received + length (concat cs) \<Longrightarrow>
     read_chunks limit received body cs = refuse 413 ''request_too_large'' ''Request body exceeds MAX_REQUEST_BYTES.''"
  by (induction limit received body cs rule: read_chunks.induct) auto

text \<open>The declared length, where there is one, is an integer within the bound.\<close>

definition length_declared_ok :: "headers \<Rightarrow> settings \<Rightarrow> bool" where
  "length_declared_ok headers s \<longleftrightarrow>
     (\<forall>text. headers ''content-length'' = Some text \<longrightarrow> (\<exists>n. py_int text = Some n \<and> n \<le> int (max_request_bytes s)))"

text \<open>
  C22: A request body is only used whole, within \<open>max_request_bytes\<close> and as the JSON object it spells. A
  declared length that is no integer, or beyond the bound, is refused with its own error whatever the body
  is and however its transfer ends, even where reading it would have failed otherwise: the decision does not
  rest on the body. A body that grows beyond the bound is refused whatever its length was declared to be and
  however its transfer would have ended.
\<close>

theorem request_body_is_bounded:
  "(read_payload headers chunks ending s = Inr d \<longrightarrow>
      ending = None \<and> length (concat chunks) \<le> max_request_bytes s
      \<and> loads_bytes (concat chunks) = Inr (Some (JObj d)) \<and> length_declared_ok headers s)
   \<and> (headers ''content-length'' = Some text \<and> py_int text = None \<longrightarrow>
      read_payload headers chunks ending s = refuse 400 ''invalid_content_length'' ''Content-Length is invalid.'')
   \<and> (headers ''content-length'' = Some text \<and> py_int text = Some n \<and> int (max_request_bytes s) < n \<longrightarrow>
      read_payload headers chunks ending s
        = refuse 413 ''request_too_large'' ''Request body exceeds MAX_REQUEST_BYTES.'')
   \<and> (length_declared_ok headers s \<and> max_request_bytes s < length (concat chunks) \<longrightarrow>
      read_payload headers chunks ending s
        = refuse 413 ''request_too_large'' ''Request body exceeds MAX_REQUEST_BYTES.'')"
proof (intro conjI impI)
  assume "read_payload headers chunks ending s = Inr d"
  then obtain body where b: "read_chunks (max_request_bytes s) 0 [] chunks = Inr body" "ending = None"
    and len: "length_declared_ok headers s"
    and v: "(case loads_bytes body of Inl e \<Rightarrow> Inl (Unhandled e) | Inr (Some (JObj d)) \<Rightarrow> Inr d | Inr _ \<Rightarrow> invalid_json) = Inr d"
    by (auto simp: read_payload_def length_declared_ok_def bind_Inr_iff split: option.splits if_splits)
  from v have "loads_bytes body = Inr (Some (JObj d))"
    by (cases "loads_bytes body") (auto simp: invalid_json_def split: option.splits json.splits)
  with b len read_chunks_Inr [OF b(1)] show "ending = None" "length (concat chunks) \<le> max_request_bytes s"
    "loads_bytes (concat chunks) = Inr (Some (JObj d))" "length_declared_ok headers s" by simp_all
next
  assume "length_declared_ok headers s \<and> max_request_bytes s < length (concat chunks)"
  then show "read_payload headers chunks ending s
      = refuse 413 ''request_too_large'' ''Request body exceeds MAX_REQUEST_BYTES.''"
    using read_chunks_too_long [of 0 "max_request_bytes s" chunks "[]"]
    by (auto simp: read_payload_def length_declared_ok_def refuse_def split: option.splits)
qed (simp_all add: read_payload_def refuse_def)

theorem request_body_is_bounded_witness:
  "\<exists>d. read_payload (\<lambda>h. if h = ''content-length'' then Some '' 0_2 '' else None) [[123], [125]] None
       (default_settings ''http://u'') = Inr d \<and> loads_bytes [123, 125] = Inr (Some (JObj d))
     \<and> read_payload (\<lambda>h. if h = ''content-length'' then Some ''two'' else None) [[123]] (Some Client_Left)
          (default_settings ''http://u'') = refuse 400 ''invalid_content_length'' ''Content-Length is invalid.''"
proof -
  have l: "loads_bytes [123, 125] = Inr (Some (JObj []))" "py_int '' 0_2 '' = Some 2" "py_int ''two'' = None" by code_simp+
  then have r: "read_payload (\<lambda>h. if h = ''content-length'' then Some '' 0_2 '' else None) [[123], [125]] None
       (default_settings ''http://u'') = Inr []"
    by (simp add: read_payload_def default_settings_def)
  have "loads_bytes (concat [[123], [125]]) = Inr (Some (JObj []))" using request_body_is_bounded r by blast
  moreover have "read_payload (\<lambda>h. if h = ''content-length'' then Some ''two'' else None) [[123]] (Some Client_Left)
      (default_settings ''http://u'') = refuse 400 ''invalid_content_length'' ''Content-Length is invalid.''"
    using request_body_is_bounded [of "\<lambda>h. if h = ''content-length'' then Some ''two'' else None" "[[123]]" "Some Client_Left"
      "default_settings ''http://u''" undefined "''two''"] l(3) by simp
  ultimately show ?thesis using r by simp
qed

section \<open>Interventions\<close>

definition interventions :: "counters \<Rightarrow> nat \<times> nat \<times> nat" where
  "interventions k = (k_correction_turns k, k_blocked_duplicates k, k_blocked_stalls k)"

text \<open>
  The interventions of a request: those its policy loop makes, counted from the responses, or those the task had
  made when it was ended from outside.
\<close>

definition noted_interventions :: "environment \<Rightarrow> chat_service \<Rightarrow> headers \<Rightarrow> counts" where
  "noted_interventions env cs headers =
     (case bind (authenticate headers (cs_settings cs)) (\<lambda>p. bind (e_gate env) (\<lambda>_.
              bind (chat_request env headers (cs_settings cs) p) (\<lambda>(payload, options, opt_out). Inr (p, payload, opt_out)))) of
        Inl f \<Rightarrow> (0, 0, 0)
      | Inr (p, payload, opt_out) \<Rightarrow>
          (case e_interruption env of Some i \<Rightarrow> i_counts i
           | None \<Rightarrow> made_by_request cs (e_upstream env) (e_probe env) payload (\<not> opt_out)
               (policy_extensions_allowed p) opt_out))"

lemma interventions_observe:
  "interventions (observe_admitted_request k) = interventions k"
  "interventions (observe_attempts phases k) = interventions k"
  "interventions (observe_interventions c k) = add_counts (interventions k) c"
  "interventions (count_error code k) = interventions k"
  "interventions (k\<lparr>k_cancellations := n\<rparr>) = interventions k"
  "interventions (observe res k) = add_counts (interventions k)
     (t_corrections (cr_telemetry res), t_blocked_duplicates (cr_telemetry res), t_blocked_stalls (cr_telemetry res))"
proof -
  have "interventions (observe_upstream_attempt ph k) = interventions k" for ph k
    by (simp add: observe_upstream_attempt_def interventions_def Let_def split: option.split capability_phase.split)
  then show "interventions (observe_attempts phases k) = interventions k"
    unfolding observe_attempts_def by (induction phases arbitrary: k) auto
qed (simp_all add: observe_admitted_request_def observe_interventions_def count_error_def observe_def
      interventions_def Let_def split: prod.split)

lemma end_failure_interventions:
  "end_failure cid counts f k = (r, k') \<Longrightarrow> \<forall>x. r \<noteq> Failed x \<Longrightarrow> interventions k' = add_counts (interventions k) counts"
  by (cases f) (auto simp: end_failure_def handle_error_def interventions_observe)

lemma admitted_chat_interventions:
  assumes r: "admitted_chat env cs headers cid p k = (r, k')" "\<forall>x. r \<noteq> Failed x"
    and req: "chat_request env headers (cs_settings cs) p = Inr (payload, options, opt_out)"
  shows "interventions k' = add_counts (interventions k)
    (case e_interruption env of Some i \<Rightarrow> i_counts i
     | None \<Rightarrow> made_by_request cs (e_upstream env) (e_probe env) payload (\<not> opt_out) (policy_extensions_allowed p) opt_out)"
proof (cases "e_interruption env")
  case (Some i)
  with r req show ?thesis
    by (auto simp: admitted_chat_def interrupt_def handle_error_def Let_def interventions_observe
        split: interruption_kind.splits)
next
  case None
  obtain out lg where run: "run_service env cs p payload opt_out = (out, lg)" by fastforce
  have "out \<noteq> Inl (Unhandled e)" for e
    using r req None run by (auto simp: admitted_chat_def end_failure_def Let_def)
  then have counts: "lg_counts lg = made_by_request cs (e_upstream env) (e_probe env) payload (\<not> opt_out)
      (policy_extensions_allowed p) opt_out"
    using complete_counts run unfolding run_service_def by blast
  define k1 where "k1 = observe_attempts (attempt_phases out lg) k"
  have k1: "interventions k1 = interventions k" by (simp add: k1_def interventions_observe)
  show ?thesis
  proof (cases out)
    case (Inl f)
    with r req None run have "end_failure cid (lg_counts lg) f k1 = (r, k')"
      by (simp add: admitted_chat_def Let_def k1_def)
    from end_failure_interventions [OF this r(2)] k1 None counts show ?thesis by simp
  next
    case (Inr res)
    show ?thesis
    proof (cases "deliver env (cs_settings cs) cid options res")
      case d: (Inl f)
      with Inr r req None run have "end_failure cid (lg_counts lg) f k1 = (r, k')"
        by (simp add: admitted_chat_def Let_def k1_def)
      from end_failure_interventions [OF this r(2)] k1 None counts show ?thesis by simp
    next
      case d: (Inr reply)
      with Inr r req None run have "k' = observe res k1" by (simp add: admitted_chat_def Let_def k1_def)
      moreover from Inr run have "lg_counts lg = (t_corrections (cr_telemetry res),
          t_blocked_duplicates (cr_telemetry res), t_blocked_stalls (cr_telemetry res))"
        unfolding run_service_def using delivered_counts by blast
      ultimately show ?thesis using k1 None counts by (simp add: interventions_observe)
    qed
  qed
qed

text \<open>
  C23: Every intervention reaches the counters exactly once. Whether the request is answered, refused, late or out of
  retries, what is added to the counters is the number of interventions its policy loop made, counted from the
  responses of the upstream: every proposed call that repeats a receipt, every one that the stall rule blocks, and one
  correction for each attempt that was retried without judging calls. When the deadline, the client or the framework
  ends the task from outside, it is what the task had made by then. Only an exception outside the proxy's own errors,
  which no handler sees, can lose them.
\<close>

theorem interventions_counted_once:
  assumes "chat_handler env cs headers k = (r, k')" "\<forall>x. r \<noteq> Failed x"
  shows "interventions k' = add_counts (interventions k) (noted_interventions env cs headers)"
proof (cases "authenticate headers (cs_settings cs)")
  case (Inl f)
  with assms show ?thesis
    by (auto simp: chat_handler_def Let_def noted_interventions_def dest: end_failure_interventions)
next
  case (Inr p)
  show ?thesis
  proof (cases "e_gate env")
    case g: (Inl f)
    with Inr assms show ?thesis
      by (auto simp: chat_handler_def Let_def noted_interventions_def dest: end_failure_interventions)
  next
    case g: (Inr u)
    from assms(1) Inr g have a: "admitted_chat env cs headers (new_correlation_id headers (e_uid env)) p
        (observe_admitted_request k) = (r, k')" by (simp add: chat_handler_def Let_def)
    show ?thesis
    proof (cases "chat_request env headers (cs_settings cs) p")
      case q: (Inl f)
      with a have "end_failure (new_correlation_id headers (e_uid env)) (0, 0, 0) f (observe_admitted_request k) = (r, k')"
        by (simp add: admitted_chat_def Let_def)
      from end_failure_interventions [OF this assms(2)] Inr g q show ?thesis
        by (simp add: noted_interventions_def interventions_observe)
    next
      case q: (Inr pq)
      obtain payload options opt_out where pq: "pq = (payload, options, opt_out)" by (cases pq)
      from admitted_chat_interventions [OF a assms(2) q [unfolded pq]] Inr g q pq show ?thesis
        by (simp add: noted_interventions_def interventions_observe)
    qed
  qed
qed

section \<open>The ordinary client\<close>

text \<open>
  C21: A principal that is not trusted cannot leave the harness, shrink its evidence requirement or
  have its roles or tools changed: any reply it gets that is no error is a result of the service
  run with the harness on and without policy extensions, delivered as it is or as its replay.
\<close>

theorem ordinary_client_keeps_the_harness:
  assumes "chat_handler env cs headers k = (Replied r, k')"
    and "authenticate headers (cs_settings cs) = Inr p" "\<not> policy_extensions_allowed p"
    and "\<And>e. r \<noteq> error_reply (new_correlation_id headers (e_uid env)) e"
  shows "headers ''x-shiftedx-harness'' = None
    \<and> (\<exists>payload options res lg. complete cs (e_upstream env) (e_probe env) (e_uid env) (e_created env) payload
          True False False None = (Inr res, lg)
        \<and> deliver env (cs_settings cs) (new_correlation_id headers (e_uid env)) options res = Inr r)"
proof -
  define cid where "cid = new_correlation_id headers (e_uid env)"
  have no_error: "end_failure cid counts f k1 \<noteq> (Replied r, k')" for counts f k1
    using assms(4) by (cases f) (auto simp: end_failure_def handle_error_def cid_def)
  from assms(1,2) no_error have gate: "e_gate env = Inr ()"
    by (cases "e_gate env") (auto simp: chat_handler_def Let_def simp flip: cid_def)
  with assms(1,2) have a: "admitted_chat env cs headers cid p (observe_admitted_request k) = (Replied r, k')"
    by (simp add: chat_handler_def Let_def cid_def)
  with no_error obtain payload options opt_out where
    q: "chat_request env headers (cs_settings cs) p = Inr (payload, options, opt_out)"
    by (cases "chat_request env headers (cs_settings cs) p") (auto simp: admitted_chat_def Let_def)
  from q assms(3) have h: "headers ''x-shiftedx-harness'' = None" "\<not> opt_out"
    by (auto simp: chat_request_def check_opt_out_def bind_Inr_iff split: option.splits if_splits)
  have i: "e_interruption env = None"
  proof (rule ccontr)
    assume "e_interruption env \<noteq> None"
    with a q assms(4) [of deadline_exceeded] assms(4) [of downstream_disconnected] show False
      by (auto simp: admitted_chat_def Let_def interrupt_def handle_error_def cid_def split: interruption_kind.splits)
  qed
  obtain out lg where run: "run_service env cs p payload opt_out = (out, lg)" by fastforce
  with a q i no_error obtain res where res: "out = Inr res"
    by (cases out) (auto simp: admitted_chat_def Let_def)
  with a q i run no_error have "deliver env (cs_settings cs) cid options res = Inr r"
    by (cases "deliver env (cs_settings cs) cid options res") (auto simp: admitted_chat_def Let_def)
  with run res h assms(3) show ?thesis by (auto simp: run_service_def cid_def)
qed

text \<open>The sample request as bytes, from a client that configured no key.\<close>

definition sample_environment :: environment where
  "sample_environment = \<lparr>e_gate = Inr (), e_chunks = [[123, 34, 109, 111, 100, 101, 108, 34, 58, 34, 109, 34, 44, 34, 109, 101, 115, 115, 97, 103, 101, 115, 34, 58, 91, 123, 34, 114, 111, 108, 101, 34, 58, 34, 117, 115, 101, 114, 34, 44, 34, 99, 111, 110, 116, 101, 110, 116, 34, 58, 34, 104, 105, 34, 125, 93, 125]], e_cut = None,
     e_upstream = (\<lambda>n p. Inr sample_response), e_probe = Inr True, e_interruption = None, e_late = False,
     e_uid = ''u'', e_created = 0, e_wall = ''1.000''\<rparr>"

lemma sample_chat_request:
  "chat_request sample_environment (\<lambda>_. None) (cs_settings sample_service) p = Inr (sample_payload, None, False)"
proof -
  have b: "loads_bytes (concat (e_chunks sample_environment)) = Inr (Some (JObj sample_payload))" by code_simp
  have "length (concat (e_chunks sample_environment)) \<le> 2000000" by (simp add: sample_environment_def)
  then have "read_chunks 2000000 0 [] (e_chunks sample_environment) = Inr (concat (e_chunks sample_environment))"
    by (simp add: sample_environment_def)
  with b have "read_payload (\<lambda>_. None) (e_chunks sample_environment) None (cs_settings sample_service) = Inr sample_payload"
    by (simp add: read_payload_def sample_service_def default_settings_def)
  moreover have "get sample_payload ''stream'' = JNull" by (simp add: sample_payload_def get_def get_or_def dget_def)
  ultimately show ?thesis
    by (simp add: chat_request_def sample_environment_def prepare_replay_request_def check_opt_out_def)
qed

lemma sample_chat:
  "\<exists>r k'. chat_handler sample_environment sample_service (\<lambda>_. None) k = (Replied r, k') \<and> p_status r = 200
     \<and> p_body r = Json_Body (JObj (dpop sample_response ''x-shiftedx-projection-v1''))"
proof -
  let ?p = "\<lparr>policy_extensions_allowed = False, a_budget_key = None\<rparr>"
  have auth: "authenticate (\<lambda>_. None) (cs_settings sample_service) = Inr ?p"
    by (simp add: authenticate_cases presents_def sample_service_def default_settings_def trusted_policy_extension_keys_def)
  from sample_complete [of "''u''" 0] obtain res lg where c:
    "complete sample_service (\<lambda>n p. Inr sample_response) (Inr True) ''u'' 0 sample_payload True False False None = (Inr res, lg)"
    "cr_body res = dpop sample_response ''x-shiftedx-projection-v1''" by blast
  then have run: "run_service sample_environment sample_service ?p sample_payload False = (Inr res, lg)"
    by (simp add: run_service_def sample_environment_def)
  have "e_gate sample_environment = Inr ()" "e_interruption sample_environment = None" "\<not> e_late sample_environment"
    by (simp_all add: sample_environment_def)
  with auth run sample_chat_request [of ?p] c(2) show ?thesis
    by (simp add: chat_handler_def admitted_chat_def Let_def deliver_def)
qed

lemma error_reply_body: "p_body (error_reply cid e) = Json_Body (JObj [(''error'', JObj [(''message'', JStr (e_message e)),
        (''type'', JStr ''shiftedx_proxy_error''), (''code'', JStr (e_code e))])])"
  by (simp add: error_reply_def)

definition no_counts :: counters where
  "no_counts = \<lparr>k_downstream_requests = 0, k_upstream_calls = 0, k_blocked_duplicates = 0, k_blocked_stalls = 0,
     k_correction_turns = 0, k_receipt_projections = 0, k_upstream_calls_avoided = 0, k_errors = 0,
     k_policy_extension_allows = 0, k_policy_extension_denials = 0, k_cache_namespace_rejections = 0,
     k_deadline_expiries = 0, k_cancellations = 0, k_phase_acquisition = 0, k_phase_finalization = 0,
     k_phase_schema_rejections = 0, k_stream_replays = 0\<rparr>"

theorem interventions_counted_once_witness:
  "\<exists>r k'. chat_handler sample_environment sample_service (\<lambda>_. None) no_counts = (Replied r, k')
     \<and> interventions k' = add_counts (interventions no_counts) (noted_interventions sample_environment sample_service (\<lambda>_. None))"
proof -
  from sample_chat [of no_counts] obtain r k' where c:
    "chat_handler sample_environment sample_service (\<lambda>_. None) no_counts = (Replied r, k')" by blast
  from interventions_counted_once [OF c] c show ?thesis by simp
qed

theorem ordinary_client_keeps_the_harness_witness:
  "\<exists>r k' payload res lg. chat_handler sample_environment sample_service (\<lambda>_. None) no_counts = (Replied r, k')
     \<and> complete sample_service (e_upstream sample_environment) (e_probe sample_environment) (e_uid sample_environment)
         (e_created sample_environment) payload True False False None = (Inr res, lg)"
proof -
  from sample_chat [of no_counts] obtain r k' where c:
    "chat_handler sample_environment sample_service (\<lambda>_. None) no_counts = (Replied r, k')"
    "p_body r = Json_Body (JObj (dpop sample_response ''x-shiftedx-projection-v1''))" by blast
  have auth: "authenticate (\<lambda>_. None) (cs_settings sample_service) = Inr \<lparr>policy_extensions_allowed = False, a_budget_key = None\<rparr>"
    by (simp add: authenticate_cases presents_def sample_service_def default_settings_def trusted_policy_extension_keys_def)
  have "dget (dpop sample_response ''x-shiftedx-projection-v1'') ''error'' = None"
    by (simp add: dget_dpop) (simp add: sample_response_def dget_def)
  note gone = this
  have "r \<noteq> error_reply cid e" for cid e
  proof
    assume "r = error_reply cid e"
    then have "dpop sample_response ''x-shiftedx-projection-v1'' = [(''error'', JObj [(''message'', JStr (e_message e)),
        (''type'', JStr ''shiftedx_proxy_error''), (''code'', JStr (e_code e))])]"
      using c(2) by (simp only: error_reply_body reply_body.inject json.inject)
    from arg_cong [OF this, of "\<lambda>d. dget d ''error''"] gone show False by (simp add: dget_def [of "[_]"])
  qed
  from ordinary_client_keeps_the_harness [OF c(1) auth _ this] c(1) show ?thesis by auto
qed

end
