(* ===== verification/Campaign_V2.thy ===== *)
theory Campaign_V2
  imports Json Complex_Main
begin

text \<open>
  The aggregate evaluator of the second qualification contract
  (\<open>qualification_campaign_v2.py\<close>). Records arrive typed, so the \<open>isinstance\<close> tests have no
  counterpart; a failure is its code. A \<open>Decimal\<close> is a rational or not finite, and its arithmetic
  rounds to 28 digits, half to even, as the default context does; its exponent range is not
  modelled.
\<close>

section \<open>Decimals\<close>

definition round_half_even :: "rat \<Rightarrow> int" where
  "round_half_even y =
     (let f = \<lfloor>y\<rfloor>; r = y - of_int f in
      if r < 1 / 2 then f else if 1 / 2 < r then f + 1 else if even f then f else f + 1)"

text \<open>The power of ten of the first digit of a positive number.\<close>

definition first_place :: "rat \<Rightarrow> int" where
  "first_place x =
     (let (n, d) = quotient_of x;
          k = int (length (dec_digits (nat n))) - int (length (dec_digits (nat d)))
      in if power_int 10 k \<le> x then k else k - 1)"

definition dec28 :: "rat \<Rightarrow> rat" where
  "dec28 x =
     (if x = 0 then 0
      else (let e = first_place \<bar>x\<bar> - 27 in of_int (round_half_even (x / power_int 10 e)) * power_int 10 e))"

datatype decimal = Finite rat | Not_Finite

definition positive_finite_decimal :: "decimal \<Rightarrow> bool" where
  "positive_finite_decimal v = (case v of Finite x \<Rightarrow> 0 < x | Not_Finite \<Rightarrow> False)"

fun magnitude :: "decimal \<Rightarrow> rat" where
  "magnitude (Finite x) = x"
| "magnitude Not_Finite = 0"

section \<open>Records\<close>

definition LANES :: "string list" where "LANES = [''cold'', ''warm-prefix'']"
definition CASE_COUNT :: nat where "CASE_COUNT = 30"
definition REPLICATES_PER_LANE :: nat where "REPLICATES_PER_LANE = 4"
definition CONDITIONAL_MIN_BOTH_VALID_ROWS :: int where "CONDITIONAL_MIN_BOTH_VALID_ROWS = 22"
definition QUALITY_SAFETY_NONINFERIORITY_PPM :: int where "QUALITY_SAFETY_NONINFERIORITY_PPM = -50000"
definition QUALITY_EFFICACY_BENEFIT_PPM :: int where "QUALITY_EFFICACY_BENEFIT_PPM = 100000"
definition MIN_QUALITY_NONINFERIOR_REPLICATES :: nat where "MIN_QUALITY_NONINFERIOR_REPLICATES = 3"
definition MCNEMAR_ALPHA_PPM :: int where "MCNEMAR_ALPHA_PPM = 25000"
definition TIME_POOLED_MAX_RATIO_PPM :: int where "TIME_POOLED_MAX_RATIO_PPM = 800000"
definition TIME_LANE_MAX_RATIO_PPM :: int where "TIME_LANE_MAX_RATIO_PPM = 900000"
definition TIME_REPLICATE_MAX_RATIO_PPM :: int where "TIME_REPLICATE_MAX_RATIO_PPM = 900000"
definition MIN_TIME_PASSING_REPLICATES :: nat where "MIN_TIME_PASSING_REPLICATES = 3"
definition CONDITIONAL_MAX_P95_RATIO_PPM :: int where "CONDITIONAL_MAX_P95_RATIO_PPM = 1250000"

record outcome_record =
  o_case :: int
  o_lane :: string
  o_replicate :: int
  o_arm :: string
  o_passed :: bool
  o_wall :: decimal
  o_deadline :: decimal
  o_critical :: bool

type_synonym 'a checked = "string + 'a"
type_synonym row_key = "string \<times> int \<times> int"
type_synonym row_pair = "outcome_record \<times> outcome_record"

definition validate_record :: "outcome_record \<Rightarrow> unit checked" where
  "validate_record r =
     (if o_case r < 1 \<or> int CASE_COUNT < o_case r \<or> o_lane r \<notin> set LANES
         \<or> o_replicate r < 1 \<or> int REPLICATES_PER_LANE < o_replicate r
         \<or> o_arm r \<notin> {''direct'', ''proxy''}
         \<or> \<not> positive_finite_decimal (o_wall r) \<or> \<not> positive_finite_decimal (o_deadline r)
         \<or> (o_passed r \<and> magnitude (o_deadline r) < magnitude (o_wall r))
      then Inl ''qualification_v2_row_invalid'' else Inr ())"

definition row_key_of :: "outcome_record \<Rightarrow> row_key" where
  "row_key_of r = (o_lane r, o_replicate r, o_case r)"

text \<open>The loop over the records: the arms by row, and the deadline of every case.\<close>

type_synonym collected = "(row_key, (string, outcome_record) dict) dict \<times> (int, decimal) dict"

definition collect :: "collected \<Rightarrow> outcome_record \<Rightarrow> collected checked" where
  "collect st r =
     bind (validate_record r) (\<lambda>_.
       let (raw, deadlines) = st;
           arms = (case dget raw (row_key_of r) of None \<Rightarrow> [] | Some a \<Rightarrow> a) in
       if dhas arms (o_arm r) then Inl ''qualification_v2_duplicate_row''
       else (let raw = dset raw (row_key_of r) (dset arms (o_arm r) r);
                 prior = (case dget deadlines (o_case r) of None \<Rightarrow> o_deadline r | Some d \<Rightarrow> d) in
             if prior \<noteq> o_deadline r then Inl ''qualification_v2_pair_mismatch''
             else Inr (raw, dset deadlines (o_case r) prior)))"

definition select_pair :: "(row_key, (string, outcome_record) dict) dict \<Rightarrow> row_key \<Rightarrow> row_pair checked" where
  "select_pair raw key =
     (case dget raw key of
        None \<Rightarrow> Inl ''qualification_v2_evidence_incomplete''
      | Some arms \<Rightarrow>
          (case (dget arms ''direct'', dget arms ''proxy'') of
             (Some d, Some p) \<Rightarrow>
               (if set (dkeys arms) \<noteq> {''direct'', ''proxy''} then Inl ''qualification_v2_evidence_incomplete''
                else if o_deadline d \<noteq> o_deadline p then Inl ''qualification_v2_pair_mismatch''
                else Inr (d, p))
           | _ \<Rightarrow> Inl ''qualification_v2_evidence_incomplete''))"

definition ROW_KEYS :: "row_key list" where
  "ROW_KEYS = concat (map (\<lambda>lane. concat (map (\<lambda>replicate.
       map (\<lambda>ordinal. (lane, replicate, ordinal)) [1..int CASE_COUNT])
     [1..int REPLICATES_PER_LANE])) LANES)"

fun traverse :: "('a \<Rightarrow> 'x + 'b) \<Rightarrow> 'a list \<Rightarrow> 'x + 'b list" where
  "traverse f [] = Inr []"
| "traverse f (x # xs) = bind (f x) (\<lambda>y. bind (traverse f xs) (\<lambda>ys. Inr (y # ys)))"

definition validate_and_pair :: "outcome_record list \<Rightarrow> (row_key \<times> row_pair) list checked" where
  "validate_and_pair records =
     (if length records \<noteq> CASE_COUNT * length LANES * REPLICATES_PER_LANE * 2
      then Inl ''qualification_v2_evidence_incomplete''
      else bind (run_steps collect ([], []) records) (\<lambda>(raw, deadlines).
             traverse (\<lambda>key. bind (select_pair raw key) (\<lambda>pair. Inr (key, pair))) ROW_KEYS))"

section \<open>Summaries\<close>

definition p95 :: "rat list \<Rightarrow> rat option" where
  "p95 values = (if values = [] then None else Some (sort values ! ((length values - 1) * 95 div 100)))"

definition percentile :: "rat list \<Rightarrow> nat \<Rightarrow> rat checked" where
  "percentile values ppm =
     (if values = [] then Inl ''qualification_v2_internal_invalid''
      else Inr (sort values ! ((length values - 1) * ppm div 1000000)))"

definition ratio_ppm :: "rat option \<Rightarrow> rat option \<Rightarrow> int option" where
  "ratio_ppm numerator denominator =
     (case (numerator, denominator) of
        (Some n, Some d) \<Rightarrow> (if d \<le> 0 then None else Some \<lceil>dec28 (dec28 (n * 1000000) / d)\<rceil>)
      | _ \<Rightarrow> None)"

definition mean_microseconds :: "rat \<Rightarrow> nat \<Rightarrow> int" where
  "mean_microseconds loss count = \<lceil>dec28 (dec28 (loss * 1000000) / of_nat count)\<rceil>"

definition microseconds :: "rat option \<Rightarrow> int option" where
  "microseconds v = map_option (\<lambda>x. \<lceil>dec28 (x * 1000000)\<rceil>) v"

definition signed_rate_ppm :: "int \<Rightarrow> int \<Rightarrow> int" where
  "signed_rate_ppm numerator denominator = numerator * 1000000 div denominator"

definition penalized :: "outcome_record \<Rightarrow> rat" where
  "penalized r = magnitude (if o_passed r then o_wall r else o_deadline r)"

text \<open>\<open>total += value\<close> over the rows.\<close>

definition decimal_sum :: "rat list \<Rightarrow> rat" where
  "decimal_sum values = foldl (\<lambda>acc v. dec28 (acc + v)) 0 values"

definition count_pairs :: "(row_pair \<Rightarrow> bool) \<Rightarrow> row_pair list \<Rightarrow> int" where
  "count_pairs P pairs = int (length (filter P pairs))"

record summary =
  q_row_count :: int
  q_direct_valid :: int
  q_proxy_valid :: int
  q_delta_ppm :: int
  q_direct_only :: int
  q_proxy_only :: int
  q_proxy_only_critical :: int
  q_both_valid :: int
  q_direct_p95_us :: "int option"
  q_proxy_p95_us :: "int option"
  q_p95_ratio_ppm :: "int option"
  q_direct_mean_us :: int
  q_proxy_mean_us :: int
  q_mean_ratio_ppm :: "int option"
  q_direct_percentiles :: "int list"
  q_proxy_percentiles :: "int list"
  q_direct_loss :: rat
  q_proxy_loss :: rat

definition penalized_percentiles :: "rat list \<Rightarrow> int list checked" where
  "penalized_percentiles values =
     traverse (\<lambda>ppm. bind (percentile values ppm) (\<lambda>v. Inr (the (microseconds (Some v)))))
       [500000, 950000, 990000]"

definition summarize_pairs :: "row_pair list \<Rightarrow> summary checked" where
  "summarize_pairs pairs =
     (if pairs = [] then Inl ''qualification_v2_evidence_incomplete''
      else
        (let direct_walls = map (penalized \<circ> fst) pairs; proxy_walls = map (penalized \<circ> snd) pairs;
             both = filter (\<lambda>(d, p). o_passed d \<and> o_passed p) pairs;
             direct_p95 = p95 (map (\<lambda>(d, p). magnitude (o_wall d)) both);
             proxy_p95 = p95 (map (\<lambda>(d, p). magnitude (o_wall p)) both);
             direct_valid = count_pairs (\<lambda>(d, p). o_passed d) pairs;
             proxy_valid = count_pairs (\<lambda>(d, p). o_passed p) pairs;
             direct_loss = decimal_sum direct_walls; proxy_loss = decimal_sum proxy_walls
         in bind (penalized_percentiles direct_walls) (\<lambda>direct_percentiles.
            bind (penalized_percentiles proxy_walls) (\<lambda>proxy_percentiles.
              Inr \<lparr>q_row_count = int (length pairs), q_direct_valid = direct_valid, q_proxy_valid = proxy_valid,
                q_delta_ppm = signed_rate_ppm (proxy_valid - direct_valid) (int (length pairs)),
                q_direct_only = count_pairs (\<lambda>(d, p). o_passed d \<and> \<not> o_passed p) pairs,
                q_proxy_only = count_pairs (\<lambda>(d, p). o_passed p \<and> \<not> o_passed d) pairs,
                q_proxy_only_critical = count_pairs (\<lambda>(d, p). o_critical p \<and> \<not> o_critical d) pairs,
                q_both_valid = int (length both),
                q_direct_p95_us = microseconds direct_p95, q_proxy_p95_us = microseconds proxy_p95,
                q_p95_ratio_ppm = ratio_ppm proxy_p95 direct_p95,
                q_direct_mean_us = mean_microseconds direct_loss (length pairs),
                q_proxy_mean_us = mean_microseconds proxy_loss (length pairs),
                q_mean_ratio_ppm = ratio_ppm (Some proxy_loss) (Some direct_loss),
                q_direct_percentiles = direct_percentiles, q_proxy_percentiles = proxy_percentiles,
                q_direct_loss = direct_loss, q_proxy_loss = proxy_loss\<rparr>))))"

section \<open>Gates\<close>

definition quality_delta_at_least :: "summary \<Rightarrow> int \<Rightarrow> bool" where
  "quality_delta_at_least q ppm \<longleftrightarrow> ppm * q_row_count q \<le> (q_proxy_valid q - q_direct_valid q) * 1000000"

definition ratio_at_most :: "summary \<Rightarrow> int \<Rightarrow> bool" where
  "ratio_at_most q ppm \<longleftrightarrow> dec28 (q_proxy_loss q * 1000000) \<le> dec28 (q_direct_loss q * of_int ppm)"

definition conditional_status :: "summary \<Rightarrow> string checked" where
  "conditional_status q =
     (if q_both_valid q < CONDITIONAL_MIN_BOTH_VALID_ROWS then Inr ''unavailable''
      else (case q_p95_ratio_ppm q of
        None \<Rightarrow> Inl ''qualification_v2_internal_invalid''
      | Some ratio \<Rightarrow> Inr (if ratio \<le> CONDITIONAL_MAX_P95_RATIO_PPM then ''passed'' else ''failed'')))"

definition overall_conditional_status :: "string list \<Rightarrow> string checked" where
  "overall_conditional_status states =
     (if ''unavailable'' \<in> set states then Inr ''unavailable''
      else if ''failed'' \<in> set states then Inr ''failed''
      else if list_all (\<lambda>v. v = ''passed'') states then Inr ''passed''
      else Inl ''qualification_v2_internal_invalid'')"

record mcnemar_test =
  m_proxy_only :: int
  m_direct_only :: int
  m_discordant :: int
  m_numerator :: int
  m_denominator :: int

definition exact_one_sided_mcnemar :: "int \<Rightarrow> int \<Rightarrow> mcnemar_test checked" where
  "exact_one_sided_mcnemar proxy_only direct_only =
     (if proxy_only < 0 \<or> direct_only < 0 then Inl ''qualification_v2_internal_invalid''
      else (let n = nat (proxy_only + direct_only) in
        Inr \<lparr>m_proxy_only = proxy_only, m_direct_only = direct_only, m_discordant = int n,
             m_numerator = int (sum_list (map (\<lambda>v. n choose v) [nat proxy_only..<Suc n])),
             m_denominator = 2 ^ n\<rparr>))"

definition mcnemar_supports_proxy_benefit :: "mcnemar_test \<Rightarrow> int \<Rightarrow> bool" where
  "mcnemar_supports_proxy_benefit m alpha_ppm \<longleftrightarrow> m_numerator m * 1000000 < m_denominator m * alpha_ppm"

section \<open>Evaluation\<close>

text \<open>The summaries of one lane: of the lane, and of its replicates in order.\<close>

record lane_evaluation =
  l_summary :: summary
  l_replicates :: "summary list"
  l_conditional :: string

definition lane_pairs :: "(row_key \<times> row_pair) list \<Rightarrow> string \<Rightarrow> row_pair list" where
  "lane_pairs matched lane = map snd (filter (\<lambda>(k, _). fst k = lane) matched)"

definition replicate_pairs :: "(row_key \<times> row_pair) list \<Rightarrow> string \<Rightarrow> int \<Rightarrow> row_pair list" where
  "replicate_pairs matched lane n = map snd (filter (\<lambda>(k, _). fst k = lane \<and> fst (snd k) = n) matched)"

definition evaluate_lane :: "(row_key \<times> row_pair) list \<Rightarrow> string \<Rightarrow> lane_evaluation checked" where
  "evaluate_lane matched lane =
     bind (summarize_pairs (lane_pairs matched lane)) (\<lambda>whole.
     bind (conditional_status whole) (\<lambda>status.
     bind (traverse (\<lambda>n. summarize_pairs (replicate_pairs matched lane n)) [1..int REPLICATES_PER_LANE]) (\<lambda>reps.
       Inr \<lparr>l_summary = whole, l_replicates = reps, l_conditional = status\<rparr>)))"

definition quality_wins :: "lane_evaluation \<Rightarrow> nat" where
  "quality_wins l = length (filter (\<lambda>q. quality_delta_at_least q 0) (l_replicates l))"

definition time_wins :: "lane_evaluation \<Rightarrow> nat" where
  "time_wins l = length (filter (\<lambda>q. ratio_at_most q TIME_REPLICATE_MAX_RATIO_PPM) (l_replicates l))"

record evaluation =
  ev_pooled :: summary
  ev_lanes :: "lane_evaluation list"
  ev_mcnemar :: mcnemar_test
  ev_conditional :: string

definition evaluate_matched :: "(row_key \<times> row_pair) list \<Rightarrow> evaluation checked" where
  "evaluate_matched matched =
     bind (summarize_pairs (map snd matched)) (\<lambda>pooled.
     bind (traverse (evaluate_lane matched) LANES) (\<lambda>lanes.
     bind (exact_one_sided_mcnemar (q_proxy_only pooled) (q_direct_only pooled)) (\<lambda>mcnemar.
     bind (overall_conditional_status (map l_conditional lanes)) (\<lambda>status.
       Inr \<lparr>ev_pooled = pooled, ev_lanes = lanes, ev_mcnemar = mcnemar, ev_conditional = status\<rparr>))))"

definition quality_safety :: "evaluation \<Rightarrow> bool" where
  "quality_safety ev \<longleftrightarrow> q_proxy_only_critical (ev_pooled ev) = 0
     \<and> quality_delta_at_least (ev_pooled ev) QUALITY_SAFETY_NONINFERIORITY_PPM
     \<and> list_all (\<lambda>l. quality_delta_at_least (l_summary l) QUALITY_SAFETY_NONINFERIORITY_PPM) (ev_lanes ev)"

definition quality_efficacy :: "evaluation \<Rightarrow> bool" where
  "quality_efficacy ev \<longleftrightarrow> quality_delta_at_least (ev_pooled ev) QUALITY_EFFICACY_BENEFIT_PPM
     \<and> list_all (\<lambda>l. quality_delta_at_least (l_summary l) 0) (ev_lanes ev)
     \<and> list_all (\<lambda>l. MIN_QUALITY_NONINFERIOR_REPLICATES \<le> quality_wins l) (ev_lanes ev)
     \<and> mcnemar_supports_proxy_benefit (ev_mcnemar ev) MCNEMAR_ALPHA_PPM"

definition unconditional_time :: "evaluation \<Rightarrow> bool" where
  "unconditional_time ev \<longleftrightarrow> ratio_at_most (ev_pooled ev) TIME_POOLED_MAX_RATIO_PPM
     \<and> list_all (\<lambda>l. ratio_at_most (l_summary l) TIME_LANE_MAX_RATIO_PPM) (ev_lanes ev)
     \<and> list_all (\<lambda>l. MIN_TIME_PASSING_REPLICATES \<le> time_wins l) (ev_lanes ev)"

definition promotion_passed :: "evaluation \<Rightarrow> bool" where
  "promotion_passed ev \<longleftrightarrow> quality_safety ev \<and> quality_efficacy ev \<and> unconditional_time ev"

section \<open>The report\<close>

fun opt_int :: "int option \<Rightarrow> json" where
  "opt_int None = JNull"
| "opt_int (Some i) = JInt i"

definition percentile_fields :: "string \<Rightarrow> int list \<Rightarrow> jobject" where
  "percentile_fields arm values =
     zip (map (\<lambda>p. arm @ ''_penalized_'' @ p @ ''_wall_us'') [''p50'', ''p95'', ''p99'']) (map JInt values)"

text \<open>Every field but the two exact losses.\<close>

definition public_summary :: "summary \<Rightarrow> json" where
  "public_summary q = JObj
     ([(''row_count'', JInt (q_row_count q)), (''direct_valid_count'', JInt (q_direct_valid q)),
       (''proxy_valid_count'', JInt (q_proxy_valid q)), (''success_delta_ppm'', JInt (q_delta_ppm q)),
       (''direct_only_success_count'', JInt (q_direct_only q)), (''proxy_only_success_count'', JInt (q_proxy_only q)),
       (''proxy_only_critical_integrity_violation_count'', JInt (q_proxy_only_critical q)),
       (''both_valid_count'', JInt (q_both_valid q)),
       (''conditional_direct_p95_wall_us'', opt_int (q_direct_p95_us q)),
       (''conditional_proxy_p95_wall_us'', opt_int (q_proxy_p95_us q)),
       (''conditional_proxy_to_direct_p95_ratio_ppm'', opt_int (q_p95_ratio_ppm q)),
       (''direct_penalized_mean_wall_us'', JInt (q_direct_mean_us q)),
       (''proxy_penalized_mean_wall_us'', JInt (q_proxy_mean_us q)),
       (''proxy_to_direct_penalized_mean_ratio_ppm'', opt_int (q_mean_ratio_ppm q))]
      @ percentile_fields ''direct'' (q_direct_percentiles q) @ percentile_fields ''proxy'' (q_proxy_percentiles q))"

definition contract_v2 :: json where
  "contract_v2 = JObj
     [(''case_count'', JInt (int CASE_COUNT)), (''lanes'', JArr (map JStr LANES)),
      (''replicates_per_lane'', JInt (int REPLICATES_PER_LANE)),
      (''arm_order_per_replicate'', JArr [JStr ''direct'', JStr ''proxy'']),
      (''quality_safety_noninferiority_ppm'', JInt QUALITY_SAFETY_NONINFERIORITY_PPM),
      (''quality_efficacy_benefit_ppm'', JInt QUALITY_EFFICACY_BENEFIT_PPM),
      (''min_quality_noninferior_replicates'', JInt (int MIN_QUALITY_NONINFERIOR_REPLICATES)),
      (''mcnemar_alpha_ppm'', JInt MCNEMAR_ALPHA_PPM),
      (''time_pooled_max_ratio_ppm'', JInt TIME_POOLED_MAX_RATIO_PPM),
      (''time_lane_max_ratio_ppm'', JInt TIME_LANE_MAX_RATIO_PPM),
      (''time_replicate_max_ratio_ppm'', JInt TIME_REPLICATE_MAX_RATIO_PPM),
      (''min_time_passing_replicates'', JInt (int MIN_TIME_PASSING_REPLICATES)),
      (''conditional_min_both_valid_rows'', JInt CONDITIONAL_MIN_BOTH_VALID_ROWS),
      (''conditional_max_p95_ratio_ppm'', JInt CONDITIONAL_MAX_P95_RATIO_PPM)]"

definition by_lane :: "evaluation \<Rightarrow> (lane_evaluation \<Rightarrow> json) \<Rightarrow> json" where
  "by_lane ev f = JObj (zip LANES (map f (ev_lanes ev)))"

definition by_replicate :: "lane_evaluation \<Rightarrow> (summary \<Rightarrow> json) \<Rightarrow> json" where
  "by_replicate l f = JObj (map (\<lambda>(n, q). (dec_digits n, f q)) (enumerate 1 (l_replicates l)))"

definition mcnemar_fields :: "mcnemar_test \<Rightarrow> jobject" where
  "mcnemar_fields m =
     [(''proxy_only_success_count'', JInt (m_proxy_only m)), (''direct_only_success_count'', JInt (m_direct_only m)),
      (''discordant_pair_count'', JInt (m_discordant m)), (''one_sided_tail_numerator'', JInt (m_numerator m)),
      (''one_sided_tail_denominator'', JInt (m_denominator m)),
      (''supports_proxy_benefit'', JBool (mcnemar_supports_proxy_benefit m MCNEMAR_ALPHA_PPM))]"

definition gate_fields :: "evaluation \<Rightarrow> jobject" where
  "gate_fields ev =
     [(''quality_safety'', JBool (quality_safety ev)), (''quality_efficacy'', JBool (quality_efficacy ev)),
      (''unconditional_time_to_valid'', JBool (unconditional_time ev)),
      (''conditional_latency_diagnostic'', JStr (ev_conditional ev)),
      (''promotion_passed'', JBool (promotion_passed ev))]"

definition report_v2 :: "evaluation \<Rightarrow> jobject" where
  "report_v2 ev =
     [(''schema_version'', JStr ''2.0''), (''row_count_per_arm'', JInt (q_row_count (ev_pooled ev))),
      (''contract'', contract_v2), (''case_count'', JInt (int CASE_COUNT)), (''lane_count'', JInt (int (length LANES))),
      (''replicates_per_lane'', JInt (int REPLICATES_PER_LANE)), (''pooled'', public_summary (ev_pooled ev)),
      (''lanes'', by_lane ev (\<lambda>l. public_summary (l_summary l))),
      (''replicates'', by_lane ev (\<lambda>l. by_replicate l public_summary)),
      (''mcnemar'', JObj (mcnemar_fields (ev_mcnemar ev))), (''gates'', JObj (gate_fields ev)),
      (''conditional_latency'', JObj [(''status'', JStr (ev_conditional ev)),
         (''lanes'', by_lane ev (\<lambda>l. JStr (l_conditional l)))]),
      (''gate_details'', JObj
        [(''quality'', JObj
           [(''lane_pass'', by_lane ev (\<lambda>l. JBool (quality_delta_at_least (l_summary l) 0))),
            (''replicate_pass'', by_lane ev (\<lambda>l. by_replicate l (\<lambda>q. JBool (quality_delta_at_least q 0)))),
            (''passing_replicate_count_by_lane'', by_lane ev (\<lambda>l. JInt (int (quality_wins l))))]),
         (''time_to_valid'', JObj
           [(''lane_pass'', by_lane ev (\<lambda>l. JBool (ratio_at_most (l_summary l) TIME_LANE_MAX_RATIO_PPM))),
            (''replicate_pass'', by_lane ev (\<lambda>l. by_replicate l (\<lambda>q. JBool (ratio_at_most q TIME_REPLICATE_MAX_RATIO_PPM)))),
            (''passing_replicate_count_by_lane'', by_lane ev (\<lambda>l. JInt (int (time_wins l))))])])]"

definition evaluate_qualification_v2 :: "outcome_record list \<Rightarrow> jobject checked" where
  "evaluate_qualification_v2 records =
     bind (validate_and_pair records) (\<lambda>matched. bind (evaluate_matched matched) (\<lambda>ev. Inr (report_v2 ev)))"

end
