(* ===== verification/Campaign_V2_Laws.thy ===== *)
theory Campaign_V2_Laws
  imports Campaign_V2 Json_Laws "HOL-Library.Multiset"
begin

text \<open>
  The laws of the second qualification contract: which evidence is evaluated, that its order does not
  matter, and what a promotion says of the records.
\<close>

text \<open>What complete evidence is: valid records, one for every row and arm, and one deadline per case.\<close>

definition slot :: "outcome_record \<Rightarrow> row_key \<times> string" where
  "slot r = (row_key_of r, o_arm r)"

definition consistent :: "outcome_record list \<Rightarrow> bool" where
  "consistent rs \<longleftrightarrow> (\<forall>r\<in>set rs. validate_record r = Inr ()) \<and> distinct (map slot rs)
     \<and> (\<forall>r\<in>set rs. \<forall>s\<in>set rs. o_case r = o_case s \<longrightarrow> o_deadline r = o_deadline s)"

definition complete_cohort :: "outcome_record list \<Rightarrow> bool" where
  "complete_cohort rs \<longleftrightarrow> consistent rs
     \<and> (\<forall>key\<in>set ROW_KEYS. \<forall>arm\<in>{''direct'', ''proxy''}. \<exists>r\<in>set rs. slot r = (key, arm))"

section \<open>Collection\<close>

text \<open>What the two dictionaries say of the records read so far.\<close>

definition found :: "(row_key, (string, outcome_record) dict) dict \<Rightarrow> row_key \<Rightarrow> string \<Rightarrow> outcome_record option" where
  "found raw key arm = (case dget raw key of None \<Rightarrow> None | Some arms \<Rightarrow> dget arms arm)"

definition collects :: "outcome_record list \<Rightarrow> collected \<Rightarrow> bool" where
  "collects rs st \<longleftrightarrow>
     (\<forall>key arm. found (fst st) key arm = find (\<lambda>r. slot r = (key, arm)) rs)
     \<and> (\<forall>c. dget (snd st) c = map_option o_deadline (find (\<lambda>r. o_case r = c) rs))"

lemma find_snoc: "find P (xs @ [x]) = (case find P xs of None \<Rightarrow> if P x then Some x else None | Some y \<Rightarrow> Some y)"
  by (induction xs) auto

lemma find_None: "find P xs = None \<longleftrightarrow> (\<forall>x\<in>set xs. \<not> P x)"
  by (auto simp: find_None_iff)

lemma find_SomeD: "find P xs = Some x \<Longrightarrow> x \<in> set xs \<and> P x"
  by (auto simp: find_Some_iff)

lemma collects_Nil: "collects [] ([], [])"
  by (simp add: collects_def found_def dget_def)

lemma found_dset:
  "found (dset raw key (dset (case dget raw key of None \<Rightarrow> [] | Some a \<Rightarrow> a) arm r)) key' arm'
     = (if key' = key \<and> arm' = arm then Some r else found raw key' arm')"
  by (auto simp: found_def dget_dset split: option.splits) (simp_all add: dget_def)

lemma dhas_found: "dhas (case dget raw key of None \<Rightarrow> [] | Some a \<Rightarrow> a) arm \<longleftrightarrow> found raw key arm \<noteq> None"
  by (cases "dget raw key") (simp_all add: found_def dhas_dget, simp add: dget_def)

text \<open>The record a case is first met in.\<close>

abbreviation first_of_case :: "outcome_record list \<Rightarrow> int \<Rightarrow> outcome_record option" where
  "first_of_case rs c \<equiv> find (\<lambda>s. o_case s = c) rs"

lemma collect_step:
  assumes c: "collects rs st"
  shows "collect st r = Inr st' \<Longrightarrow> validate_record r = Inr () \<and> (\<forall>s\<in>set rs. slot s \<noteq> slot r)
       \<and> (\<forall>s. first_of_case rs (o_case r) = Some s \<longrightarrow> o_deadline s = o_deadline r)"
    and "collect st r = Inr st' \<Longrightarrow> collects (rs @ [r]) st'"
    and "validate_record r = Inr () \<Longrightarrow> \<forall>s\<in>set rs. slot s \<noteq> slot r \<Longrightarrow>
         \<forall>s. first_of_case rs (o_case r) = Some s \<longrightarrow> o_deadline s = o_deadline r \<Longrightarrow> \<exists>st'. collect st r = Inr st'"
proof -
  obtain raw dl where st: "st = (raw, dl)" by fastforce
  have F: "found raw key arm = find (\<lambda>r. slot r = (key, arm)) rs" for key arm
    using c unfolding collects_def st fst_conv by blast
  have D: "dget dl k = map_option o_deadline (first_of_case rs k)" for k
    using c by (simp add: collects_def st)
  have dup: "dhas (case dget raw (row_key_of r) of None \<Rightarrow> [] | Some a \<Rightarrow> a) (o_arm r) \<longleftrightarrow> (\<exists>s\<in>set rs. slot s = slot r)"
    unfolding dhas_found F find_None by (auto simp: slot_def)
  let ?arms = "case dget raw (row_key_of r) of None \<Rightarrow> [] | Some a \<Rightarrow> a"
  let ?prior = "case first_of_case rs (o_case r) of None \<Rightarrow> o_deadline r | Some s \<Rightarrow> o_deadline s"
  have prior: "(case dget dl (o_case r) of None \<Rightarrow> o_deadline r | Some d \<Rightarrow> d) = ?prior"
    unfolding D by (cases "first_of_case rs (o_case r)") simp_all
  have step: "collect st r = bind (validate_record r) (\<lambda>_.
      if \<exists>s\<in>set rs. slot s = slot r then Inl ''qualification_v2_duplicate_row''
      else if ?prior \<noteq> o_deadline r then Inl ''qualification_v2_pair_mismatch''
      else Inr (dset raw (row_key_of r) (dset ?arms (o_arm r) r), dset dl (o_case r) ?prior))"
    unfolding collect_def st split Let_def prior dup ..
  have mis: "?prior \<noteq> o_deadline r \<longleftrightarrow> (\<exists>s. first_of_case rs (o_case r) = Some s \<and> o_deadline s \<noteq> o_deadline r)"
    by (cases "first_of_case rs (o_case r)") simp_all
  show "validate_record r = Inr () \<and> (\<forall>s\<in>set rs. slot s \<noteq> slot r)
       \<and> (\<forall>s. first_of_case rs (o_case r) = Some s \<longrightarrow> o_deadline s = o_deadline r)" if "collect st r = Inr st'"
  proof -
    from that have "validate_record r = Inr ()" unfolding step by (auto simp: bind_Inr_iff)
    moreover from that have "\<not> (\<exists>s\<in>set rs. slot s = slot r)" "\<not> ?prior \<noteq> o_deadline r"
      unfolding step by (auto simp: bind_Inr_iff split: if_splits)
    ultimately show ?thesis unfolding mis by blast
  qed
  show "\<exists>st'. collect st r = Inr st'" if "validate_record r = Inr ()" "\<forall>s\<in>set rs. slot s \<noteq> slot r"
      "\<forall>s. first_of_case rs (o_case r) = Some s \<longrightarrow> o_deadline s = o_deadline r"
  proof -
    from that(3) have p: "?prior = o_deadline r" using mis by blast
    from that(2) have nd: "(\<exists>s\<in>set rs. slot s = slot r) = False" by blast
    show ?thesis unfolding step that(1) nd p by simp
  qed
  show "collects (rs @ [r]) st'" if "collect st r = Inr st'"
  proof -
    from that have nd: "\<not> (\<exists>s\<in>set rs. slot s = slot r)" and p: "?prior = o_deadline r"
      and st': "st' = (dset raw (row_key_of r) (dset ?arms (o_arm r) r), dset dl (o_case r) (o_deadline r))"
      unfolding step by (auto simp: bind_Inr_iff split: if_splits)
    have "found (fst st') key arm = find (\<lambda>r. slot r = (key, arm)) (rs @ [r])" for key arm
    proof (cases "slot r = (key, arm)")
      case True
      with nd have "find (\<lambda>r. slot r = (key, arm)) rs = None" by (simp add: find_None)
      with True show ?thesis by (simp add: st' found_dset find_snoc slot_def)
    next
      case False
      then show ?thesis using F [of key arm]
        by (auto simp: st' found_dset find_snoc slot_def split: option.split)
    qed
    moreover have "dget (snd st') k = map_option o_deadline (first_of_case (rs @ [r]) k)" for k
      using p by (auto simp: st' dget_dset D find_snoc split: option.splits)
    ultimately show ?thesis unfolding collects_def by blast
  qed
qed

lemma consistent_snoc:
  "consistent (rs @ [r]) \<longleftrightarrow> consistent rs \<and> validate_record r = Inr () \<and> (\<forall>s\<in>set rs. slot s \<noteq> slot r)
     \<and> (\<forall>s. first_of_case rs (o_case r) = Some s \<longrightarrow> o_deadline s = o_deadline r)" (is "?l \<longleftrightarrow> ?r")
proof
  assume l: ?l
  have "o_deadline s = o_deadline r" if "first_of_case rs (o_case r) = Some s" for s
    using that l by (auto simp: consistent_def find_Some_iff)
  moreover from l have "slot r \<notin> slot ` set rs" by (simp add: consistent_def)
  then have "slot s \<noteq> slot r" if "s \<in> set rs" for s
    using imageI [OF that, of slot] by (elim contrapos_nn) simp
  moreover from l have "consistent rs" "validate_record r = Inr ()"
    unfolding consistent_def map_append set_append distinct_append by (blast, simp)
  ultimately show ?r by blast
next
  assume r: ?r
  have one: "o_deadline s = o_deadline r" if "s \<in> set rs" "o_case s = o_case r" for s
  proof -
    from that obtain f where f: "first_of_case rs (o_case r) = Some f"
      using find_None [of "\<lambda>s. o_case s = o_case r" rs] by (cases "first_of_case rs (o_case r)") auto
    then have "f \<in> set rs" "o_case f = o_case r" by (auto simp: find_Some_iff)
    with that r have "o_deadline s = o_deadline f" unfolding consistent_def by metis
    with f r show ?thesis by simp
  qed
  from r have "slot r \<notin> slot ` set rs" by auto
  then have d: "distinct (map slot (rs @ [r]))" using r unfolding consistent_def by simp
  have dl: "o_deadline a = o_deadline b" if "a \<in> set (rs @ [r])" "b \<in> set (rs @ [r])" "o_case a = o_case b" for a b
  proof -
    from that consider "a \<in> set rs" "b \<in> set rs" | "a \<in> set rs" "b = r" | "a = r" "b \<in> set rs" | "a = r" "b = r" by auto
    then show ?thesis
    proof cases
      case 1
      with r that(3) show ?thesis unfolding consistent_def by blast
    qed (use one that(3) in auto)
  qed
  from r have v: "\<forall>a\<in>set (rs @ [r]). validate_record a = Inr ()" unfolding consistent_def by auto
  show ?l unfolding consistent_def using v d dl by blast
qed

lemma collect_run:
  "run_steps collect ([], []) rs = Inr st \<Longrightarrow> consistent rs \<and> collects rs st"
proof (induction rs arbitrary: st rule: rev_induct)
  case Nil
  then show ?case by (auto simp: collects_Nil consistent_def)
next
  case (snoc r rs)
  then obtain st0 where 0: "run_steps collect ([], []) rs = Inr st0" "collect st0 r = Inr st"
    by (auto simp: run_steps_snoc split: sum.splits)
  with snoc.IH have IH: "consistent rs" "collects rs st0" by auto
  from IH(1) collect_step(1) [OF IH(2) 0(2)] have "consistent (rs @ [r])" unfolding consistent_snoc by blast
  with collect_step(2) [OF IH(2) 0(2)] show ?case by blast
qed

lemma collect_runs: "consistent rs \<Longrightarrow> \<exists>st. run_steps collect ([], []) rs = Inr st"
proof (induction rs rule: rev_induct)
  case (snoc r rs)
  then obtain st0 where 0: "run_steps collect ([], []) rs = Inr st0" by (auto simp: consistent_snoc)
  from snoc.prems have "\<exists>st. collect st0 r = Inr st"
    unfolding consistent_snoc by (intro collect_step(3) [OF conjunct2 [OF collect_run [OF 0]]]) blast+
  with 0 show ?case by (auto simp: run_steps_snoc)
qed simp

section \<open>Pairing\<close>

definition row_at :: "outcome_record list \<Rightarrow> row_key \<Rightarrow> string \<Rightarrow> outcome_record" where
  "row_at rs key arm = the (find (\<lambda>r. slot r = (key, arm)) rs)"

definition matched_of :: "outcome_record list \<Rightarrow> (row_key \<times> row_pair) list" where
  "matched_of rs = map (\<lambda>key. (key, row_at rs key ''direct'', row_at rs key ''proxy'')) ROW_KEYS"

lemma traverse_iff: "traverse f xs = Inr ys \<longleftrightarrow> list_all2 (\<lambda>x y. f x = Inr y) xs ys"
  by (induction xs arbitrary: ys) (auto simp: bind_Inr_iff list_all2_Cons1)

lemma traverse_map: "(\<And>x. x \<in> set xs \<Longrightarrow> f x = Inr (g x)) \<Longrightarrow> traverse f xs = Inr (map g xs)"
  by (induction xs) simp_all

lemma valid_arm: "validate_record r = Inr () \<Longrightarrow> o_arm r \<in> {''direct'', ''proxy''}"
  by (auto simp: validate_record_def split: if_splits)

lemma valid_key: "validate_record r = Inr () \<Longrightarrow> row_key_of r \<in> set LANES \<times> {1..int REPLICATES_PER_LANE} \<times> {1..int CASE_COUNT}"
  by (auto simp: validate_record_def row_key_of_def split: if_splits)

lemma row_keys: "set ROW_KEYS = set LANES \<times> {1..int REPLICATES_PER_LANE} \<times> {1..int CASE_COUNT}"
  by (auto simp: ROW_KEYS_def)

lemma row_at_slot: "\<exists>r\<in>set rs. slot r = (key, arm) \<Longrightarrow> row_at rs key arm \<in> set rs \<and> slot (row_at rs key arm) = (key, arm)"
proof -
  assume "\<exists>r\<in>set rs. slot r = (key, arm)"
  then obtain r where r: "find (\<lambda>r. slot r = (key, arm)) rs = Some r"
    using find_None [of "\<lambda>r. slot r = (key, arm)" rs] by fast
  then have "r \<in> set rs \<and> slot r = (key, arm)" by (auto simp: find_Some_iff)
  with r show ?thesis by (simp add: row_at_def)
qed

lemma select_pair_iff:
  assumes "consistent rs" "collects rs (raw, dl)"
  shows "select_pair raw key = Inr pair \<longleftrightarrow>
    (\<forall>arm\<in>{''direct'', ''proxy''}. \<exists>r\<in>set rs. slot r = (key, arm))
    \<and> pair = (row_at rs key ''direct'', row_at rs key ''proxy'')" (is "?l \<longleftrightarrow> ?r")
proof -
  have F: "found raw key arm = find (\<lambda>r. slot r = (key, arm)) rs" for arm
    using assms(2) unfolding collects_def fst_conv by blast
  have ex: "(\<exists>r\<in>set rs. slot r = (key, arm)) \<longleftrightarrow> found raw key arm \<noteq> None" for arm
    unfolding F find_None by blast
  have at: "row_at rs key arm = the (found raw key arm)" for arm
    by (simp add: row_at_def F)
  show ?thesis
  proof (cases "dget raw key")
    case None
    then show ?thesis unfolding ex by (auto simp: select_pair_def found_def)
  next
    case (Some arms)
    have fa: "found raw key arm = dget arms arm" for arm by (simp add: found_def Some)
    have keys: "set (dkeys arms) = {''direct'', ''proxy''}" if "dget arms ''direct'' \<noteq> None" "dget arms ''proxy'' \<noteq> None"
    proof -
      have "k \<in> {''direct'', ''proxy''}" if k: "k \<in> set (dkeys arms)" for k
      proof -
        from k have "found raw key k \<noteq> None" by (simp add: fa dkeys_dget)
        with ex obtain r where "r \<in> set rs" "slot r = (key, k)" by blast
        with assms(1) valid_arm [of r] show ?thesis by (auto simp: consistent_def slot_def)
      qed
      moreover from that have "{''direct'', ''proxy''} \<subseteq> set (dkeys arms)" by (simp add: dkeys_dget)
      ultimately show ?thesis by blast
    qed
    have dl: "o_deadline d = o_deadline p" if "dget arms ''direct'' = Some d" "dget arms ''proxy'' = Some p" for d p
    proof -
      have hit: "r \<in> set rs \<and> slot r = (key, a)" if "dget arms a = Some r" for a r
        using find_SomeD [of "\<lambda>r. slot r = (key, a)" rs r] that unfolding F [symmetric] fa by blast
      from hit [OF that(1)] hit [OF that(2)] have "d \<in> set rs" "p \<in> set rs" "o_case d = o_case p"
        by (auto simp: slot_def row_key_of_def)
      with assms(1) show ?thesis unfolding consistent_def by blast
    qed
    show ?thesis
    proof (cases "dget arms ''direct'' \<noteq> None \<and> dget arms ''proxy'' \<noteq> None")
      case True
      then obtain d p where dp: "dget arms ''direct'' = Some d" "dget arms ''proxy'' = Some p" by blast
      from True have k: "set (dkeys arms) = {''direct'', ''proxy''}" using keys by blast
      have "select_pair raw key = Inr (d, p)"
        unfolding select_pair_def Some dp option.case prod.case k dl [OF dp] by simp
      then show ?thesis unfolding ex at fa by (auto simp: dp)
    next
      case False
      then have "select_pair raw key = Inl ''qualification_v2_evidence_incomplete''"
        by (cases "dget arms ''direct''"; cases "dget arms ''proxy''") (simp_all add: select_pair_def Some)
      with False show ?thesis unfolding ex fa by auto
    qed
  qed
qed

lemma complete_length:
  assumes "complete_cohort rs"
  shows "length rs = CASE_COUNT * length LANES * REPLICATES_PER_LANE * 2"
proof -
  have sub: "slot ` set rs = set ROW_KEYS \<times> {''direct'', ''proxy''}"
  proof
    show "slot ` set rs \<subseteq> set ROW_KEYS \<times> {''direct'', ''proxy''}"
    proof
      fix x assume "x \<in> slot ` set rs"
      then obtain r where r: "r \<in> set rs" "x = (row_key_of r, o_arm r)" unfolding slot_def by blast
      with assms have "validate_record r = Inr ()" unfolding complete_cohort_def consistent_def by blast
      from valid_key [OF this] valid_arm [OF this] show "x \<in> set ROW_KEYS \<times> {''direct'', ''proxy''}"
        unfolding r(2) row_keys mem_Sigma_iff by (intro conjI)
    qed
    show "set ROW_KEYS \<times> {''direct'', ''proxy''} \<subseteq> slot ` set rs"
    proof (rule subrelI)
      fix key arm assume k: "(key, arm) \<in> set ROW_KEYS \<times> {''direct'', ''proxy''}"
      with assms obtain r where r: "r \<in> set rs" "slot r = (key, arm)" unfolding complete_cohort_def by blast
      from imageI [OF r(1), of slot] show "(key, arm) \<in> slot ` set rs" unfolding r(2) .
    qed
  qed
  have "length rs = card (slot ` set rs)"
    using assms distinct_card [of "map slot rs"] by (simp add: complete_cohort_def consistent_def)
  also have "\<dots> = 480"
    unfolding sub row_keys by (simp add: card_cartesian_product LANES_def REPLICATES_PER_LANE_def CASE_COUNT_def)
  finally show ?thesis by (simp add: LANES_def REPLICATES_PER_LANE_def CASE_COUNT_def)
qed

lemma validate_and_pair_iff: "validate_and_pair rs = Inr m \<longleftrightarrow> complete_cohort rs \<and> m = matched_of rs"
proof
  assume v: "validate_and_pair rs = Inr m"
  then obtain raw dl where r: "run_steps collect ([], []) rs = Inr (raw, dl)"
    and t: "traverse (\<lambda>key. bind (select_pair raw key) (\<lambda>pair. Inr (key, pair))) ROW_KEYS = Inr m"
    unfolding validate_and_pair_def by (auto simp: bind_Inr_iff split: if_splits)
  from collect_run [OF r] have cc: "consistent rs" "collects rs (raw, dl)" by blast+
  have el: "list_all2 (\<lambda>key y. (\<forall>arm\<in>{''direct'', ''proxy''}. \<exists>r\<in>set rs. slot r = (key, arm))
      \<and> y = (key, row_at rs key ''direct'', row_at rs key ''proxy'')) ROW_KEYS m"
    using t unfolding traverse_iff bind_Inr_iff select_pair_iff [OF cc]
    by (rule list_all2_mono) blast
  then have "list_all (\<lambda>key. \<forall>arm\<in>{''direct'', ''proxy''}. \<exists>r\<in>set rs. slot r = (key, arm)) ROW_KEYS"
    unfolding list_all_length list_all2_conv_all_nth by blast
  then have "complete_cohort rs" using cc(1) by (simp add: complete_cohort_def list_all_iff)
  moreover have "m = matched_of rs"
    using el unfolding matched_of_def list_all2_conv_all_nth by (intro nth_equalityI) simp_all
  ultimately show "complete_cohort rs \<and> m = matched_of rs" by blast
next
  assume a: "complete_cohort rs \<and> m = matched_of rs"
  then have c: "consistent rs" by (simp add: complete_cohort_def)
  from collect_runs [OF c] obtain raw dl where r: "run_steps collect ([], []) rs = Inr (raw, dl)" by fastforce
  with collect_run have cc: "collects rs (raw, dl)" by blast
  have "traverse (\<lambda>key. bind (select_pair raw key) (\<lambda>pair. Inr (key, pair))) ROW_KEYS = Inr (matched_of rs)"
    unfolding matched_of_def
  proof (rule traverse_map)
    fix key assume "key \<in> set ROW_KEYS"
    with a have "select_pair raw key = Inr (row_at rs key ''direct'', row_at rs key ''proxy'')"
      unfolding select_pair_iff [OF c cc] complete_cohort_def by blast
    then show "bind (select_pair raw key) (\<lambda>pair. Inr (key, pair)) = Inr (key, row_at rs key ''direct'', row_at rs key ''proxy'')"
      by simp
  qed
  with a r complete_length [of rs] show "validate_and_pair rs = Inr m" by (simp add: validate_and_pair_def)
qed

section \<open>Summaries of complete evidence\<close>

text \<open>The records of one arm are the records at the rows.\<close>

lemma length_row_keys: "length ROW_KEYS = 240"
  by (simp add: ROW_KEYS_def length_concat LANES_def REPLICATES_PER_LANE_def CASE_COUNT_def o_def sum_list_triv)

lemma distinct_row_keys: "distinct ROW_KEYS"
proof (rule card_distinct)
  have "card (set ROW_KEYS) = 240"
    unfolding row_keys by (simp add: card_cartesian_product LANES_def REPLICATES_PER_LANE_def CASE_COUNT_def)
  then show "card (set ROW_KEYS) = length ROW_KEYS" by (simp add: length_row_keys)
qed

lemma slot_unique:
  assumes "consistent rs" "r \<in> set rs" "s \<in> set rs" "slot r = slot s"
  shows "r = s"
  using assms by (metis consistent_def distinct_map inj_onD)

lemma complete_row:
  assumes "complete_cohort rs" "key \<in> set ROW_KEYS" "arm \<in> {''direct'', ''proxy''}"
  shows "row_at rs key arm \<in> set rs \<and> row_key_of (row_at rs key arm) = key \<and> o_arm (row_at rs key arm) = arm"
proof -
  from assms have "\<exists>r\<in>set rs. slot r = (key, arm)" unfolding complete_cohort_def by blast
  from row_at_slot [OF this] show ?thesis by (simp add: slot_def)
qed

lemma complete_record:
  assumes "complete_cohort rs" "r \<in> set rs"
  shows "row_key_of r \<in> set ROW_KEYS \<and> o_arm r \<in> {''direct'', ''proxy''} \<and> row_at rs (row_key_of r) (o_arm r) = r"
proof -
  from assms have c: "consistent rs" and v: "validate_record r = Inr ()"
    unfolding complete_cohort_def consistent_def by blast+
  from assms(2) have "\<exists>s\<in>set rs. slot s = (row_key_of r, o_arm r)" unfolding slot_def by blast
  from row_at_slot [OF this] slot_unique [OF c _ assms(2)]
  have "row_at rs (row_key_of r) (o_arm r) = r" unfolding slot_def by blast
  with valid_key [OF v] valid_arm [OF v] show ?thesis unfolding row_keys by blast
qed

lemma arm_records:
  assumes c: "complete_cohort rs" and a: "arm \<in> {''direct'', ''proxy''}"
  shows "mset (filter (\<lambda>r. o_arm r = arm) rs) = mset (map (\<lambda>key. row_at rs key arm) ROW_KEYS)"
proof -
  have "distinct rs" using c unfolding complete_cohort_def consistent_def by (metis distinct_map)
  moreover have "inj_on (\<lambda>key. row_at rs key arm) (set ROW_KEYS)"
    by (rule inj_onI) (metis complete_row [OF c _ a])
  moreover have "set (filter (\<lambda>r. o_arm r = arm) rs) = (\<lambda>key. row_at rs key arm) ` set ROW_KEYS"
  proof (intro set_eqI iffI)
    fix r assume "r \<in> set (filter (\<lambda>r. o_arm r = arm) rs)"
    then have "r \<in> set rs" "o_arm r = arm" by simp_all
    with complete_record [OF c, of r] have "row_key_of r \<in> set ROW_KEYS" "r = row_at rs (row_key_of r) arm" by auto
    then show "r \<in> (\<lambda>key. row_at rs key arm) ` set ROW_KEYS" by (rule rev_image_eqI)
  next
    fix r assume "r \<in> (\<lambda>key. row_at rs key arm) ` set ROW_KEYS"
    then obtain key where k: "key \<in> set ROW_KEYS" "r = row_at rs key arm" by blast
    from complete_row [OF c k(1) a] show "r \<in> set (filter (\<lambda>r. o_arm r = arm) rs)" by (simp add: k(2))
  qed
  ultimately show ?thesis
    using distinct_row_keys by (intro set_eq_iff_mset_eq_distinct [THEN iffD1]) (simp_all add: distinct_map)
qed

lemma arm_count:
  assumes "complete_cohort rs" "arm \<in> {''direct'', ''proxy''}"
  shows "length (filter (\<lambda>r. o_arm r = arm \<and> P r) rs) = length (filter (\<lambda>key. P (row_at rs key arm)) ROW_KEYS)"
proof -
  have "length (filter (\<lambda>r. o_arm r = arm \<and> P r) rs) = size (filter_mset P (mset (filter (\<lambda>r. o_arm r = arm) rs)))"
    unfolding mset_filter [symmetric] size_mset filter_filter ..
  also have "\<dots> = length (filter P (map (\<lambda>key. row_at rs key arm) ROW_KEYS))"
    unfolding arm_records [OF assms] mset_filter [symmetric] size_mset ..
  finally show ?thesis by (simp add: filter_map o_def)
qed

lemma penalized_percentiles_total: "values \<noteq> [] \<Longrightarrow> \<exists>ps. penalized_percentiles values = Inr ps"
  by (simp add: penalized_percentiles_def percentile_def)

lemma summarize_total:
  assumes "pairs \<noteq> []"
  shows "\<exists>q. summarize_pairs pairs = Inr q"
proof -
  from assms obtain a b where "penalized_percentiles (map (penalized \<circ> fst) pairs) = Inr a"
    "penalized_percentiles (map (penalized \<circ> snd) pairs) = Inr b"
    using penalized_percentiles_total by (metis list.map_disc_iff)
  with assms show ?thesis by (simp add: summarize_pairs_def Let_def)
qed

lemma summarize_fields:
  assumes "summarize_pairs pairs = Inr q"
  shows "q_row_count q = int (length pairs)"
    "q_direct_valid q = count_pairs (\<lambda>(d, p). o_passed d) pairs"
    "q_proxy_valid q = count_pairs (\<lambda>(d, p). o_passed p) pairs"
    "q_direct_only q = count_pairs (\<lambda>(d, p). o_passed d \<and> \<not> o_passed p) pairs"
    "q_proxy_only q = count_pairs (\<lambda>(d, p). o_passed p \<and> \<not> o_passed d) pairs"
    "q_proxy_only_critical q = count_pairs (\<lambda>(d, p). o_critical p \<and> \<not> o_critical d) pairs"
    "q_both_valid q = count_pairs (\<lambda>(d, p). o_passed d \<and> o_passed p) pairs"
    "q_p95_ratio_ppm q = (let both = filter (\<lambda>(d, p). o_passed d \<and> o_passed p) pairs in
       ratio_ppm (p95 (map (\<lambda>(d, p). magnitude (o_wall p)) both)) (p95 (map (\<lambda>(d, p). magnitude (o_wall d)) both)))"
    "q_direct_loss q = decimal_sum (map (penalized \<circ> fst) pairs)"
    "q_proxy_loss q = decimal_sum (map (penalized \<circ> snd) pairs)"
  using assms unfolding summarize_pairs_def Let_def
  by (auto simp: bind_Inr_iff count_pairs_def split: if_splits)

lemma p95_Some: "xs \<noteq> [] \<Longrightarrow> \<exists>x\<in>set xs. p95 xs = Some x"
proof -
  assume ne: "xs \<noteq> []"
  then have "(length xs - 1) * 95 div 100 < length (sort xs)"
    by (cases xs) (simp_all add: div_less_iff_less_mult)
  from nth_mem [OF this] have "sort xs ! ((length xs - 1) * 95 div 100) \<in> set xs" by (simp only: set_sort)
  with ne show ?thesis unfolding p95_def by simp
qed

lemma conditional_total:
  assumes q: "summarize_pairs pairs = Inr q" and pos: "\<forall>(d, p)\<in>set pairs. 0 < magnitude (o_wall d)"
  shows "conditional_status q \<in> {Inr ''unavailable'', Inr ''passed'', Inr ''failed''}"
proof (cases "q_both_valid q < CONDITIONAL_MIN_BOTH_VALID_ROWS")
  case True
  then show ?thesis by (simp add: conditional_status_def)
next
  case False
  let ?both = "filter (\<lambda>(d, p). o_passed d \<and> o_passed p) pairs"
  from False have ne: "?both \<noteq> []"
    unfolding summarize_fields(7) [OF q] count_pairs_def CONDITIONAL_MIN_BOTH_VALID_ROWS_def by (intro notI) simp
  obtain x where x: "p95 (map (\<lambda>(d, p). magnitude (o_wall p)) ?both) = Some x"
    using p95_Some [of "map (\<lambda>(d, p). magnitude (o_wall p)) ?both"] ne by auto
  obtain y where y: "p95 (map (\<lambda>(d, p). magnitude (o_wall d)) ?both) = Some y" "0 < y"
    using p95_Some [of "map (\<lambda>(d, p). magnitude (o_wall d)) ?both"] ne pos by fastforce
  from x y obtain r where r: "q_p95_ratio_ppm q = Some r"
    unfolding summarize_fields(8) [OF q] Let_def by (simp add: ratio_ppm_def)
  with False show ?thesis
    by (cases "r \<le> CONDITIONAL_MAX_P95_RATIO_PPM") (simp_all add: conditional_status_def)
qed

section \<open>Evaluation of complete evidence\<close>

definition pair_at :: "outcome_record list \<Rightarrow> row_key \<Rightarrow> row_pair" where
  "pair_at rs key = (row_at rs key ''direct'', row_at rs key ''proxy'')"

lemma pairs_of_rows:
  "map snd (matched_of rs) = map (pair_at rs) ROW_KEYS"
  "lane_pairs (matched_of rs) lane = map (pair_at rs) (filter (\<lambda>k. fst k = lane) ROW_KEYS)"
  "replicate_pairs (matched_of rs) lane n = map (pair_at rs) (filter (\<lambda>k. fst k = lane \<and> fst (snd k) = n) ROW_KEYS)"
  by (simp_all add: matched_of_def lane_pairs_def replicate_pairs_def pair_at_def filter_map o_def split_def)

lemma count_at: "count_pairs P (map (pair_at rs) ks) = int (length (filter (\<lambda>k. P (pair_at rs k)) ks))"
  by (simp add: count_pairs_def filter_map o_def)

lemma rows_exist:
  assumes "lane \<in> set LANES"
  shows "filter (\<lambda>k. fst k = lane) ROW_KEYS \<noteq> []"
    and "n \<in> {1..int REPLICATES_PER_LANE} \<Longrightarrow> filter (\<lambda>k. fst k = lane \<and> fst (snd k) = n) ROW_KEYS \<noteq> []"
proof -
  have k: "(lane, n, 1) \<in> set ROW_KEYS" if "n \<in> {1..int REPLICATES_PER_LANE}" for n
    using assms that by (simp add: row_keys CASE_COUNT_def)
  from k [of 1] show "filter (\<lambda>k. fst k = lane) ROW_KEYS \<noteq> []"
    by (fastforce simp: filter_empty_conv REPLICATES_PER_LANE_def)
  show "filter (\<lambda>k. fst k = lane \<and> fst (snd k) = n) ROW_KEYS \<noteq> []" if "n \<in> {1..int REPLICATES_PER_LANE}"
    using k [OF that] by (fastforce simp: filter_empty_conv)
qed

lemma complete_walls:
  assumes c: "complete_cohort rs" and "set ks \<subseteq> set ROW_KEYS"
  shows "\<forall>(d, p)\<in>set (map (pair_at rs) ks). 0 < magnitude (o_wall d)"
proof -
  have "0 < magnitude (o_wall (row_at rs key ''direct''))" if "key \<in> set ks" for key
  proof -
    from that assms have "row_at rs key ''direct'' \<in> set rs" using complete_row [OF c, of key "''direct''"] by blast
    with c have "validate_record (row_at rs key ''direct'') = Inr ()" unfolding complete_cohort_def consistent_def by blast
    then have "positive_finite_decimal (o_wall (row_at rs key ''direct''))"
      unfolding validate_record_def by (simp split: if_splits)
    then show ?thesis by (simp add: positive_finite_decimal_def split: decimal.splits)
  qed
  then show ?thesis by (simp add: pair_at_def)
qed

lemma evaluate_lane_total:
  assumes c: "complete_cohort rs" and l: "lane \<in> set LANES"
  shows "\<exists>le. evaluate_lane (matched_of rs) lane = Inr le \<and> l_conditional le \<in> {''unavailable'', ''passed'', ''failed''}"
proof -
  obtain q where q: "summarize_pairs (lane_pairs (matched_of rs) lane) = Inr q"
    using summarize_total rows_exist(1) [OF l] unfolding pairs_of_rows by fastforce
  have "conditional_status q \<in> {Inr ''unavailable'', Inr ''passed'', Inr ''failed''}"
    by (rule conditional_total [OF q]) (simp only: pairs_of_rows, rule complete_walls [OF c], auto)
  then obtain s where s: "conditional_status q = Inr s" "s \<in> {''unavailable'', ''passed'', ''failed''}" by blast
  have "\<forall>n\<in>set [1..int REPLICATES_PER_LANE]. \<exists>q. summarize_pairs (replicate_pairs (matched_of rs) lane n) = Inr q"
    using summarize_total rows_exist(2) [OF l] unfolding pairs_of_rows by fastforce
  then obtain g where "\<forall>n\<in>set [1..int REPLICATES_PER_LANE]. summarize_pairs (replicate_pairs (matched_of rs) lane n) = Inr (g n)"
    by metis
  then have "traverse (\<lambda>n. summarize_pairs (replicate_pairs (matched_of rs) lane n)) [1..int REPLICATES_PER_LANE]
      = Inr (map g [1..int REPLICATES_PER_LANE])"
    by (intro traverse_map) blast
  with q s show ?thesis by (simp add: evaluate_lane_def)
qed

lemma overall_total:
  "set states \<subseteq> {''unavailable'', ''passed'', ''failed''} \<Longrightarrow> \<exists>s. overall_conditional_status states = Inr s"
  unfolding overall_conditional_status_def list_all_iff by (cases "''unavailable'' \<in> set states"; cases "''failed'' \<in> set states") auto

lemma evaluate_matched_total:
  assumes c: "complete_cohort rs"
  shows "\<exists>ev. evaluate_matched (matched_of rs) = Inr ev"
proof -
  have "ROW_KEYS \<noteq> []" using rows_exist(1) [of "''cold''"] by (auto simp: LANES_def)
  then obtain q where q: "summarize_pairs (map snd (matched_of rs)) = Inr q"
    using summarize_total unfolding pairs_of_rows by fastforce
  from evaluate_lane_total [OF c] obtain g where g: "\<And>lane. lane \<in> set LANES \<Longrightarrow>
      evaluate_lane (matched_of rs) lane = Inr (g lane) \<and> l_conditional (g lane) \<in> {''unavailable'', ''passed'', ''failed''}"
    by metis
  then have t: "traverse (evaluate_lane (matched_of rs)) LANES = Inr (map g LANES)"
    by (intro traverse_map) blast
  have "set (map l_conditional (map g LANES)) \<subseteq> {''unavailable'', ''passed'', ''failed''}"
    using g by fastforce
  from overall_total [OF this] obtain s where s: "overall_conditional_status (map l_conditional (map g LANES)) = Inr s" by blast
  have "\<exists>m. exact_one_sided_mcnemar (q_proxy_only q) (q_direct_only q) = Inr m"
    by (simp add: exact_one_sided_mcnemar_def summarize_fields [OF q] count_pairs_def Let_def)
  with q t s show ?thesis unfolding evaluate_matched_def by (auto simp del: list.map)
qed

lemma evaluate_iff:
  "evaluate_qualification_v2 rs = Inr report \<longleftrightarrow>
     complete_cohort rs \<and> (\<exists>ev. evaluate_matched (matched_of rs) = Inr ev \<and> report = report_v2 ev)"
  unfolding evaluate_qualification_v2_def bind_Inr_iff validate_and_pair_iff by auto

lemma evaluate_total: "complete_cohort rs \<Longrightarrow> \<exists>report. evaluate_qualification_v2 rs = Inr report"
  using evaluate_iff evaluate_matched_total by blast

section \<open>The order of the records\<close>

lemma complete_permutation:
  assumes "mset xs = mset ys" "complete_cohort xs"
  shows "complete_cohort ys" and "matched_of ys = matched_of xs"
proof -
  from assms(1) have s: "set xs = set ys" by (rule mset_eq_setD)
  from assms(1) have "mset (map slot xs) = mset (map slot ys)" by simp
  then have "distinct (map slot xs) \<longleftrightarrow> distinct (map slot ys)" by (rule mset_eq_imp_distinct_iff)
  then show cy: "complete_cohort ys" using assms(2) unfolding complete_cohort_def consistent_def s by iprover
  have "row_at ys key arm = row_at xs key arm" if "key \<in> set ROW_KEYS" "arm \<in> {''direct'', ''proxy''}" for key arm
  proof (rule slot_unique)
    show "consistent xs" using assms(2) by (simp add: complete_cohort_def)
    show "row_at ys key arm \<in> set xs" using complete_row [OF cy that] s by simp
    show "row_at xs key arm \<in> set xs" using complete_row [OF assms(2) that] by simp
    show "slot (row_at ys key arm) = slot (row_at xs key arm)"
      using complete_row [OF cy that] complete_row [OF assms(2) that] by (simp add: slot_def)
  qed
  then show "matched_of ys = matched_of xs" by (simp add: matched_of_def)
qed

section \<open>What a promotion says\<close>

definition passes :: "outcome_record list \<Rightarrow> (row_key \<Rightarrow> bool) \<Rightarrow> string \<Rightarrow> nat" where
  "passes rs K arm = length (filter (\<lambda>r. o_arm r = arm \<and> K (row_key_of r) \<and> o_passed r) rs)"

text \<open>The rows that one arm passed and the other did not.\<close>

definition won_alone :: "outcome_record list \<Rightarrow> string \<Rightarrow> string \<Rightarrow> nat" where
  "won_alone rs winner loser =
     length (filter (\<lambda>r. o_arm r = winner \<and> o_passed r
       \<and> list_ex (\<lambda>s. slot s = (row_key_of r, loser) \<and> \<not> o_passed s) rs) rs)"

definition gate_of :: "jobject \<Rightarrow> string \<Rightarrow> json option" where
  "gate_of report name = (case dget report ''gates'' of Some (JObj g) \<Rightarrow> dget g name | _ \<Rightarrow> None)"

lemma gate_promotion: "gate_of (report_v2 ev) ''promotion_passed'' = Some (JBool (promotion_passed ev))"
  by (simp add: gate_of_def report_v2_def gate_fields_def dget_def)

lemma passes_rows:
  assumes c: "complete_cohort rs" and a: "arm \<in> {''direct'', ''proxy''}"
  shows "passes rs K arm = length (filter (\<lambda>k. o_passed (row_at rs k arm)) (filter K ROW_KEYS))"
proof -
  have "filter (\<lambda>k. K (row_key_of (row_at rs k arm)) \<and> o_passed (row_at rs k arm)) ROW_KEYS
      = filter (\<lambda>k. K k \<and> o_passed (row_at rs k arm)) ROW_KEYS"
    using complete_row [OF c _ a] by (intro filter_cong) simp_all
  then show ?thesis
    unfolding passes_def arm_count [OF c a, of "\<lambda>r. K (row_key_of r) \<and> o_passed r"] by (simp add: conj_commute)
qed

lemma won_alone_rows:
  assumes c: "complete_cohort rs" and w: "winner \<in> {''direct'', ''proxy''}" and l: "loser \<in> {''direct'', ''proxy''}"
  shows "won_alone rs winner loser
     = length (filter (\<lambda>k. o_passed (row_at rs k winner) \<and> \<not> o_passed (row_at rs k loser)) ROW_KEYS)"
proof -
  have cs: "consistent rs" using c by (simp add: complete_cohort_def)
  have "list_ex (\<lambda>s. slot s = (row_key_of (row_at rs k winner), loser) \<and> \<not> o_passed s) rs \<longleftrightarrow> \<not> o_passed (row_at rs k loser)"
    if k: "k \<in> set ROW_KEYS" for k
  proof -
    from complete_row [OF c k w] have rk: "row_key_of (row_at rs k winner) = k" by blast
    from complete_row [OF c k l] have m: "row_at rs k loser \<in> set rs" and s: "slot (row_at rs k loser) = (k, loser)"
      by (simp_all add: slot_def)
    have "s = row_at rs k loser" if "s \<in> set rs" "slot s = (k, loser)" for s
      using slot_unique [OF cs that(1) m] that(2) s by simp
    then show ?thesis unfolding rk list_ex_iff using m s by blast
  qed
  then have "filter (\<lambda>k. o_passed (row_at rs k winner)
        \<and> list_ex (\<lambda>s. slot s = (row_key_of (row_at rs k winner), loser) \<and> \<not> o_passed s) rs) ROW_KEYS
      = filter (\<lambda>k. o_passed (row_at rs k winner) \<and> \<not> o_passed (row_at rs k loser)) ROW_KEYS"
    by (intro filter_cong) simp_all
  then show ?thesis unfolding won_alone_def
    arm_count [OF c w, of "\<lambda>r. o_passed r \<and> list_ex (\<lambda>s. slot s = (row_key_of r, loser) \<and> \<not> o_passed s) rs"] by simp
qed

lemma valid_rows:
  assumes c: "complete_cohort rs" and q: "summarize_pairs (map (pair_at rs) (filter K ROW_KEYS)) = Inr q"
  shows "q_direct_valid q = int (passes rs K ''direct'')" "q_proxy_valid q = int (passes rs K ''proxy'')"
  unfolding summarize_fields(2,3) [OF q] count_at
  by (simp_all add: passes_rows [OF c] pair_at_def)

lemma noninferior_rows:
  assumes c: "complete_cohort rs" and q: "summarize_pairs (map (pair_at rs) (filter K ROW_KEYS)) = Inr q"
  shows "quality_delta_at_least q 0 \<longleftrightarrow> passes rs K ''direct'' \<le> passes rs K ''proxy''"
  by (simp add: quality_delta_at_least_def valid_rows [OF c q])

text \<open>The tail is the number of the subsets of the discordant rows that have at least that many elements.\<close>

lemma tail_counts_subsets:
  "sum_list (map (\<lambda>v. n choose v) [k..<Suc n]) = card {S. S \<subseteq> {..<n} \<and> k \<le> card S}"
proof -
  have "{S. S \<subseteq> {..<n} \<and> k \<le> card S} = (\<Union>v\<in>{k..<Suc n}. {S. S \<subseteq> {..<n} \<and> card S = v})"
    using card_mono [of "{..<n}"] by (auto simp: less_Suc_eq_le)
  also have "card \<dots> = (\<Sum>v\<in>{k..<Suc n}. card {S. S \<subseteq> {..<n} \<and> card S = v})"
    by (rule card_UN_disjoint) auto
  also have "\<dots> = (\<Sum>v\<in>{k..<Suc n}. n choose v)"
    by (rule sum.cong) (simp_all add: n_subsets)
  finally show ?thesis by (simp add: interv_sum_list_conv_sum_set_nat del: upt_Suc)
qed

lemma traverse_all:
  assumes "traverse f xs = Inr ys" "list_all P ys" "x \<in> set xs"
  shows "\<exists>y. f x = Inr y \<and> P y"
  using assms unfolding traverse_iff by (induction xs ys rule: list_all2_induct) auto

lemma quality_wins_rows:
  assumes c: "complete_cohort rs" and e: "evaluate_lane (matched_of rs) lane = Inr le"
  shows "quality_wins le = card {n \<in> {1..int REPLICATES_PER_LANE}.
     passes rs (\<lambda>k. fst k = lane \<and> fst (snd k) = n) ''direct'' \<le> passes rs (\<lambda>k. fst k = lane \<and> fst (snd k) = n) ''proxy''}"
proof -
  let ?K = "\<lambda>n k. fst k = lane \<and> fst (snd k) = n"
  let ?W = "\<lambda>n. passes rs (?K n) ''direct'' \<le> passes rs (?K n) ''proxy''"
  from e have "traverse (\<lambda>n. summarize_pairs (replicate_pairs (matched_of rs) lane n)) [1..int REPLICATES_PER_LANE]
      = Inr (l_replicates le)"
    unfolding evaluate_lane_def by (auto simp: bind_Inr_iff)
  then have "list_all2 (\<lambda>n q. quality_delta_at_least q 0 \<longleftrightarrow> ?W n) [1..int REPLICATES_PER_LANE] (l_replicates le)"
    unfolding traverse_iff by (rule list_all2_mono) (simp add: pairs_of_rows noninferior_rows [OF c])
  then have "length (filter (\<lambda>q. quality_delta_at_least q 0) (l_replicates le)) = length (filter ?W [1..int REPLICATES_PER_LANE])"
    by (induction rule: list_all2_induct) auto
  also have "\<dots> = card (set (filter ?W [1..int REPLICATES_PER_LANE]))"
    by (rule distinct_card [symmetric]) simp
  finally show ?thesis by (simp add: quality_wins_def)
qed

lemma mcnemar_exact:
  assumes "exact_one_sided_mcnemar (int a) (int b) = Inr m"
  shows "m_numerator m = int (card {S. S \<subseteq> {..<a + b} \<and> a \<le> card S})" "m_denominator m = 2 ^ (a + b)"
proof -
  from assms have "m = \<lparr>m_proxy_only = int a, m_direct_only = int b, m_discordant = int a + int b,
      m_numerator = int (sum_list (map (\<lambda>v. (a + b) choose v) [a..<Suc (a + b)])), m_denominator = 2 ^ (a + b)\<rparr>"
    by (simp add: exact_one_sided_mcnemar_def Let_def nat_int_add del: upt_Suc)
  then show "m_numerator m = int (card {S. S \<subseteq> {..<a + b} \<and> a \<le> card S})" "m_denominator m = 2 ^ (a + b)"
    unfolding tail_counts_subsets by simp_all
qed

text \<open>The pooled gates over the records.\<close>

lemma safety_rows:
  assumes c: "complete_cohort rs" and q: "summarize_pairs (map (pair_at rs) ROW_KEYS) = Inr q"
    and safe: "q_proxy_only_critical q = 0"
    and p: "p \<in> set rs" "o_arm p = ''proxy''" "o_critical p"
  shows "\<exists>d\<in>set rs. slot d = (row_key_of p, ''direct'') \<and> o_critical d"
proof -
  from complete_record [OF c p(1)] p(2)
  have k: "row_key_of p \<in> set ROW_KEYS" "row_at rs (row_key_of p) ''proxy'' = p" by auto
  have "\<not> (o_critical (row_at rs k ''proxy'') \<and> \<not> o_critical (row_at rs k ''direct''))" if "k \<in> set ROW_KEYS" for k
    using safe that unfolding summarize_fields(6) [OF q] count_at by (simp add: pair_at_def filter_empty_conv)
  from this [OF k(1)] p(3) k(2) have "o_critical (row_at rs (row_key_of p) ''direct'')" by simp
  with complete_row [OF c k(1), of "''direct''"] show ?thesis unfolding slot_def by blast
qed

lemma benefit_rows:
  assumes c: "complete_cohort rs" and q: "summarize_pairs (map (pair_at rs) (filter (\<lambda>_. True) ROW_KEYS)) = Inr q"
  shows "quality_delta_at_least q QUALITY_EFFICACY_BENEFIT_PPM
    \<longleftrightarrow> passes rs (\<lambda>_. True) ''direct'' + 24 \<le> passes rs (\<lambda>_. True) ''proxy''"
proof -
  have "quality_delta_at_least q QUALITY_EFFICACY_BENEFIT_PPM \<longleftrightarrow>
      100000 * int 240 \<le> (int (passes rs (\<lambda>_. True) ''proxy'') - int (passes rs (\<lambda>_. True) ''direct'')) * 1000000"
    unfolding quality_delta_at_least_def valid_rows [OF c q] summarize_fields(1) [OF q]
    by (simp add: length_row_keys QUALITY_EFFICACY_BENEFIT_PPM_def)
  moreover have "100000 * int 240 \<le> (int y - int x) * 1000000 \<longleftrightarrow> x + 24 \<le> y" for x y
  proof -
    have "100000 * int 240 = 24 * 1000000" by simp
    then show ?thesis unfolding mult_le_cancel_right by auto
  qed
  ultimately show ?thesis by (simp only:)
qed

lemma significance_rows:
  assumes c: "complete_cohort rs" and q: "summarize_pairs (map (pair_at rs) ROW_KEYS) = Inr q"
    and m: "exact_one_sided_mcnemar (q_proxy_only q) (q_direct_only q) = Inr m"
    and s: "mcnemar_supports_proxy_benefit m MCNEMAR_ALPHA_PPM"
    and a: "a = won_alone rs ''proxy'' ''direct''" and b: "b = won_alone rs ''direct'' ''proxy''"
  shows "card {S. S \<subseteq> {..<a + b} \<and> a \<le> card S} * 40 < 2 ^ (a + b)"
proof -
  have "q_proxy_only q = int a" "q_direct_only q = int b"
    unfolding a b summarize_fields(4,5) [OF q] count_at by (simp_all add: won_alone_rows [OF c] pair_at_def)
  with m have "exact_one_sided_mcnemar (int a) (int b) = Inr m" by simp
  from mcnemar_exact [OF this] s have "int (card {S. S \<subseteq> {..<a + b} \<and> a \<le> card S} * 40) < int (2 ^ (a + b))"
    by (simp add: mcnemar_supports_proxy_benefit_def MCNEMAR_ALPHA_PPM_def)
  then show ?thesis unfolding of_nat_less_iff .
qed

section \<open>A sample cohort\<close>

text \<open>The proxy passes every row in a second, the direct arm none within its ten.\<close>

definition sample_record :: "row_key \<Rightarrow> string \<Rightarrow> outcome_record" where
  "sample_record key arm = \<lparr>o_case = snd (snd key), o_lane = fst key, o_replicate = fst (snd key), o_arm = arm,
     o_passed = (arm = ''proxy''), o_wall = Finite 1, o_deadline = Finite 10, o_critical = False\<rparr>"

definition sample_cohort :: "outcome_record list" where
  "sample_cohort = concat (map (\<lambda>key. [sample_record key ''direct'', sample_record key ''proxy'']) ROW_KEYS)"

lemma slot_sample: "slot (sample_record key arm) = (key, arm)"
  by (simp add: slot_def row_key_of_def sample_record_def)

lemma in_sample: "r \<in> set sample_cohort \<longleftrightarrow> (\<exists>key\<in>set ROW_KEYS. \<exists>arm\<in>{''direct'', ''proxy''}. r = sample_record key arm)"
  by (auto simp: sample_cohort_def)

lemma complete_sample: "complete_cohort sample_cohort"
proof -
  have "validate_record (sample_record key arm) = Inr ()"
    if "key \<in> set ROW_KEYS" "arm \<in> {''direct'', ''proxy''}" for key arm
    using that by (auto simp: validate_record_def sample_record_def row_keys positive_finite_decimal_def)
  then have v: "\<forall>r\<in>set sample_cohort. validate_record r = Inr ()" by (metis in_sample)
  have s: "slot ` set sample_cohort = set ROW_KEYS \<times> {''direct'', ''proxy''}"
  proof -
    have "slot ` set sample_cohort = (\<Union>key\<in>set ROW_KEYS. {(key, ''direct''), (key, ''proxy'')})"
      by (simp add: sample_cohort_def image_UN slot_sample)
    then show ?thesis by auto
  qed
  have "length sample_cohort = 2 * length ROW_KEYS"
    by (simp add: sample_cohort_def length_concat o_def sum_list_triv)
  also have "\<dots> = card (slot ` set sample_cohort)"
    unfolding s by (simp add: card_cartesian_product distinct_card [OF distinct_row_keys])
  finally have d: "distinct (map slot sample_cohort)" by (intro card_distinct) simp
  have "\<exists>r\<in>set sample_cohort. slot r = (key, arm)" if "key \<in> set ROW_KEYS" "arm \<in> {''direct'', ''proxy''}" for key arm
  proof
    show "slot (sample_record key arm) = (key, arm)" by (rule slot_sample)
    show "sample_record key arm \<in> set sample_cohort" unfolding in_sample
      by (rule bexI [OF bexI [OF refl that(2)] that(1)])
  qed
  moreover have "o_deadline r = Finite 10" if "r \<in> set sample_cohort" for r
    using that unfolding in_sample by (auto simp: sample_record_def)
  then have "\<forall>r\<in>set sample_cohort. \<forall>s\<in>set sample_cohort. o_case r = o_case s \<longrightarrow> o_deadline r = o_deadline s"
    by simp
  ultimately show ?thesis using v d unfolding complete_cohort_def consistent_def by blast
qed

lemma row_sample:
  assumes "key \<in> set ROW_KEYS" "arm \<in> {''direct'', ''proxy''}"
  shows "row_at sample_cohort key arm = sample_record key arm"
proof (rule slot_unique)
  show "consistent sample_cohort" using complete_sample by (simp add: complete_cohort_def)
  show "row_at sample_cohort key arm \<in> set sample_cohort" using complete_row [OF complete_sample assms] by blast
  show "sample_record key arm \<in> set sample_cohort" using assms unfolding in_sample by blast
  show "slot (row_at sample_cohort key arm) = slot (sample_record key arm)"
    using complete_row [OF complete_sample assms] by (simp add: slot_def slot_sample row_key_of_def sample_record_def)
qed

text \<open>Small integers are not rounded.\<close>

lemma dec28_nat:
  assumes "n < 10 ^ 28"
  shows "dec28 (of_nat n) = of_nat n"
proof (cases "n = 0")
  case False
  define e where "e = first_place (of_nat n) - 27"
  have "quotient_of (of_nat n) = (int n, 1)"
    using quotient_of_int [of "int n"] by (simp add: Rat.of_int_def)
  then have "first_place (of_nat n) \<le> int (length (dec_digits n)) - 1"
    by (simp add: first_place_def Let_def dec_digits.simps [of "Suc 0"])
  moreover have "length (dec_digits n) \<le> 28"
    using length_dec_digits [of n 28] assms by simp
  ultimately have "e \<le> 0" by (simp add: e_def)
  then obtain k where k: "e = - int k" using nonpos_int_cases by blast
  have "of_nat n / power_int (10::rat) e = of_int (int n * 10 ^ k)"
    by (simp add: k power_int_minus field_simps)
  moreover have "round_half_even (of_int z) = z" for z
    by (simp add: round_half_even_def)
  ultimately have "dec28 (of_nat n) = of_int (int n * 10 ^ k) * power_int 10 e"
    using False unfolding dec28_def e_def [symmetric] Let_def by (simp only: abs_of_nat e_def [symmetric] of_nat_eq_0_iff if_False)
  then show ?thesis by (simp add: k power_int_minus field_simps)
qed (simp add: dec28_def)

text \<open>Its summaries and gates.\<close>

lemma decimal_sum_replicate: "n * c < 10 ^ 28 \<Longrightarrow> decimal_sum (replicate n (of_nat c)) = of_nat (n * c)"
proof (induction n)
  case 0
  then show ?case by (simp add: decimal_sum_def)
next
  case (Suc n)
  have "replicate (Suc n) (of_nat c :: rat) = replicate n (of_nat c) @ [of_nat c]"
    by (simp add: replicate_append_same)
  with Suc have "decimal_sum (replicate (Suc n) (of_nat c)) = dec28 (of_nat (n * c) + of_nat c)"
    by (simp only: decimal_sum_def foldl_append foldl.simps) simp
  also have "\<dots> = of_nat (Suc n * c)"
    using dec28_nat [OF Suc.prems] by (simp add: add.commute)
  finally show ?case .
qed

lemma sample_pairs:
  "set ks \<subseteq> set ROW_KEYS \<Longrightarrow> map (pair_at sample_cohort) ks
     = map (\<lambda>k. (sample_record k ''direct'', sample_record k ''proxy'')) ks"
  by (auto simp: pair_at_def row_sample)

lemma sample_summary:
  assumes ks: "set ks \<subseteq> set ROW_KEYS" and n: "length ks \<le> 240"
    and q: "summarize_pairs (map (pair_at sample_cohort) ks) = Inr q"
  shows "q_direct_valid q = 0" "q_proxy_valid q = int (length ks)" "q_row_count q = int (length ks)"
    "q_direct_only q = 0" "q_proxy_only q = int (length ks)" "q_proxy_only_critical q = 0"
    "ratio_at_most q 800000" "ratio_at_most q 900000"
proof -
  note q = q [unfolded sample_pairs [OF ks]]
  show "q_direct_valid q = 0" "q_proxy_valid q = int (length ks)" "q_row_count q = int (length ks)"
    "q_direct_only q = 0" "q_proxy_only q = int (length ks)" "q_proxy_only_critical q = 0"
    unfolding summarize_fields [OF q] count_pairs_def by (simp_all add: filter_map o_def sample_record_def)
  have "q_direct_loss q = decimal_sum (replicate (length ks) (of_nat 10))"
    "q_proxy_loss q = decimal_sum (replicate (length ks) (of_nat 1))"
    unfolding summarize_fields [OF q] by (simp_all add: o_def sample_record_def penalized_def map_replicate_const)
  then have l: "q_direct_loss q = of_nat (length ks * 10)" "q_proxy_loss q = of_nat (length ks)"
    using n decimal_sum_replicate [of "length ks" 10] decimal_sum_replicate [of "length ks" 1] by simp_all
  have "ratio_at_most q (int p)" if p: "100000 \<le> p" "p < 1000000" for p
  proof -
    have "length ks * 10 * p \<le> 240 * 10 * 1000000" using n p by (intro mult_mono) simp_all
    then have "dec28 (of_nat (length ks * 10 * p)) = of_nat (length ks * 10 * p)"
      by (intro dec28_nat) simp
    moreover have "dec28 (of_nat (length ks * 1000000)) = of_nat (length ks * 1000000)"
      using n by (intro dec28_nat) simp
    moreover have "rat_of_nat (length ks * 1000000) \<le> rat_of_nat (length ks * 10 * p)"
      unfolding of_nat_le_iff using p by simp
    moreover have "q_proxy_loss q * 1000000 = of_nat (length ks * 1000000)"
      "q_direct_loss q * of_int (int p) = of_nat (length ks * 10 * p)" by (simp_all add: l)
    ultimately show ?thesis unfolding ratio_at_most_def by (simp only:)
  qed
  from this [of 800000] this [of 900000] show "ratio_at_most q 800000" "ratio_at_most q 900000" by simp_all
qed

lemma sample_noninferior:
  assumes "q_direct_valid q = 0" "q_proxy_valid q = int n" "q_row_count q = int n" "t \<le> 1000000"
  shows "quality_delta_at_least q t"
  using assms mult_right_mono [of t 1000000 "int n"] by (simp add: quality_delta_at_least_def mult.commute)

lemma sample_lane:
  assumes lane: "lane \<in> set LANES" and e: "evaluate_lane (matched_of sample_cohort) lane = Inr le"
  shows "quality_delta_at_least (l_summary le) t \<or> 1000000 < t" "ratio_at_most (l_summary le) 900000"
    "quality_wins le = 4" "time_wins le = 4"
proof -
  have len: "length (filter K ROW_KEYS) \<le> 240" for K
    using length_filter_le [of K ROW_KEYS] length_row_keys by simp
  from e have s: "summarize_pairs (map (pair_at sample_cohort) (filter (\<lambda>k. fst k = lane) ROW_KEYS)) = Inr (l_summary le)"
    and r: "traverse (\<lambda>n. summarize_pairs (replicate_pairs (matched_of sample_cohort) lane n)) [1..int REPLICATES_PER_LANE]
      = Inr (l_replicates le)"
    unfolding evaluate_lane_def pairs_of_rows by (auto simp: bind_Inr_iff)
  note w = sample_summary [OF filter_is_subset len s]
  show "quality_delta_at_least (l_summary le) t \<or> 1000000 < t" "ratio_at_most (l_summary le) 900000"
    using sample_noninferior [OF w(1-3), of t] w(8) by auto
  have all: "list_all (\<lambda>q. quality_delta_at_least q 0 \<and> ratio_at_most q 900000) (l_replicates le)"
    unfolding list_all_length
  proof (intro allI impI)
    fix i assume "i < length (l_replicates le)"
    with r have "summarize_pairs (map (pair_at sample_cohort)
        (filter (\<lambda>k. fst k = lane \<and> fst (snd k) = [1..int REPLICATES_PER_LANE] ! i) ROW_KEYS)) = Inr (l_replicates le ! i)"
      unfolding traverse_iff list_all2_conv_all_nth pairs_of_rows by simp
    note w = sample_summary [OF filter_is_subset len this]
    show "quality_delta_at_least (l_replicates le ! i) 0 \<and> ratio_at_most (l_replicates le ! i) 900000"
      using sample_noninferior [OF w(1-3), of 0] w(8) by simp
  qed
  moreover have "length (l_replicates le) = 4"
    using r unfolding traverse_iff by (auto dest!: list_all2_lengthD simp: REPLICATES_PER_LANE_def)
  ultimately show "quality_wins le = 4" "time_wins le = 4"
    unfolding quality_wins_def time_wins_def TIME_REPLICATE_MAX_RATIO_PPM_def by (simp_all add: list_all_iff)
qed

lemma promotion_sample:
  "\<exists>report. evaluate_qualification_v2 sample_cohort = Inr report
     \<and> gate_of report ''promotion_passed'' = Some (JBool True)"
proof -
  obtain ev where e: "evaluate_matched (matched_of sample_cohort) = Inr ev"
    using evaluate_matched_total [OF complete_sample] by blast
  then have q: "summarize_pairs (map (pair_at sample_cohort) ROW_KEYS) = Inr (ev_pooled ev)"
    and l: "traverse (evaluate_lane (matched_of sample_cohort)) LANES = Inr (ev_lanes ev)"
    and m: "exact_one_sided_mcnemar (q_proxy_only (ev_pooled ev)) (q_direct_only (ev_pooled ev)) = Inr (ev_mcnemar ev)"
    unfolding evaluate_matched_def pairs_of_rows by (auto simp: bind_Inr_iff)
  have "length ROW_KEYS \<le> 240" by (simp add: length_row_keys)
  note w = sample_summary [OF subset_refl this q]
  have lanes: "list_all (\<lambda>le. quality_delta_at_least (l_summary le) 0 \<and> quality_delta_at_least (l_summary le) (- 50000)
      \<and> ratio_at_most (l_summary le) 900000 \<and> quality_wins le = 4 \<and> time_wins le = 4) (ev_lanes ev)"
    unfolding list_all_length
  proof (intro allI impI)
    fix i assume i: "i < length (ev_lanes ev)"
    with l have e: "evaluate_lane (matched_of sample_cohort) (LANES ! i) = Inr (ev_lanes ev ! i)" "LANES ! i \<in> set LANES"
      unfolding traverse_iff list_all2_conv_all_nth by auto
    show "quality_delta_at_least (l_summary (ev_lanes ev ! i)) 0 \<and> quality_delta_at_least (l_summary (ev_lanes ev ! i)) (- 50000)
      \<and> ratio_at_most (l_summary (ev_lanes ev ! i)) 900000 \<and> quality_wins (ev_lanes ev ! i) = 4 \<and> time_wins (ev_lanes ev ! i) = 4"
      using sample_lane(1) [OF e(2,1), of 0] sample_lane(1) [OF e(2,1), of "- 50000"] sample_lane(2-4) [OF e(2,1)] by simp
  qed
  have "m_numerator (ev_mcnemar ev) = 1 \<and> m_denominator (ev_mcnemar ev) = 2 ^ 240"
    using m unfolding w(4,5) length_row_keys exact_one_sided_mcnemar_def Let_def
    by (simp del: upt_Suc add: upt_rec) (drule sym, simp)
  then have "mcnemar_supports_proxy_benefit (ev_mcnemar ev) MCNEMAR_ALPHA_PPM"
    by (simp add: mcnemar_supports_proxy_benefit_def MCNEMAR_ALPHA_PPM_def)
  moreover have "quality_delta_at_least (ev_pooled ev) (- 50000)" "quality_delta_at_least (ev_pooled ev) 100000"
    using sample_noninferior [OF w(1-3)] by simp_all
  ultimately have "promotion_passed ev"
    using lanes w(6,7) unfolding promotion_passed_def quality_safety_def quality_efficacy_def unconditional_time_def
    by (simp add: list_all_iff QUALITY_SAFETY_NONINFERIORITY_PPM_def QUALITY_EFFICACY_BENEFIT_PPM_def
        MIN_QUALITY_NONINFERIOR_REPLICATES_def TIME_POOLED_MAX_RATIO_PPM_def TIME_LANE_MAX_RATIO_PPM_def
        MIN_TIME_PASSING_REPLICATES_def)
  with e show ?thesis unfolding evaluate_iff using complete_sample gate_promotion by auto
qed

section \<open>Properties\<close>


text \<open>C29: The report does not depend on the order in which the records are supplied: any
  permutation of evaluated evidence gives the same report.\<close>

theorem evaluation_ignores_order:
  assumes "mset xs = mset ys" "evaluate_qualification_v2 xs = Inr report"
  shows "evaluate_qualification_v2 ys = Inr report"
  using assms complete_permutation [of xs ys] unfolding evaluate_iff by auto

lemma evaluation_ignores_order_witness:
  "\<exists>report. evaluate_qualification_v2 sample_cohort = Inr report \<and> evaluate_qualification_v2 (rev sample_cohort) = Inr report"
proof -
  obtain report where r: "evaluate_qualification_v2 sample_cohort = Inr report"
    using evaluate_total [OF complete_sample] by blast
  have "mset sample_cohort = mset (rev sample_cohort)" by simp
  from evaluation_ignores_order [OF this r] r show ?thesis by blast
qed

text \<open>C30: A promotion is earned. When the report promotes, the proxy had no critical integrity
  violation in a row where the direct arm had none; it passed at least 24 of the 240 rows more; in each
  lane it passed no fewer rows, and so in at least three of the lane's four replicates; and of the
  outcomes that fair coins could give the rows only one arm passed, fewer than one in forty favour the
  proxy in at least as many rows as it won (the one-sided McNemar test at 2.5 percent).\<close>

theorem promotion_is_earned:
  assumes "evaluate_qualification_v2 rs = Inr report"
    and "gate_of report ''promotion_passed'' = Some (JBool True)"
  shows "(\<forall>p\<in>set rs. o_arm p = ''proxy'' \<and> o_critical p \<longrightarrow> (\<exists>d\<in>set rs. slot d = (row_key_of p, ''direct'') \<and> o_critical d))
    \<and> passes rs (\<lambda>_. True) ''direct'' + 24 \<le> passes rs (\<lambda>_. True) ''proxy''
    \<and> (\<forall>lane\<in>set LANES. passes rs (\<lambda>k. fst k = lane) ''direct'' \<le> passes rs (\<lambda>k. fst k = lane) ''proxy''
         \<and> 3 \<le> card {n \<in> {1..int REPLICATES_PER_LANE}.
             passes rs (\<lambda>k. fst k = lane \<and> fst (snd k) = n) ''direct''
               \<le> passes rs (\<lambda>k. fst k = lane \<and> fst (snd k) = n) ''proxy''})
    \<and> (let a = won_alone rs ''proxy'' ''direct''; n = a + won_alone rs ''direct'' ''proxy''
        in card {S. S \<subseteq> {..<n} \<and> a \<le> card S} * 40 < 2 ^ n)"
proof -
  from assms(1) obtain ev where c: "complete_cohort rs" and e: "evaluate_matched (matched_of rs) = Inr ev"
    and r: "report = report_v2 ev" unfolding evaluate_iff by blast
  from assms(2) have "promotion_passed ev" unfolding r gate_promotion by simp
  then have safe: "quality_safety ev" and eff: "quality_efficacy ev" by (simp_all add: promotion_passed_def)
  from e have q: "summarize_pairs (map (pair_at rs) ROW_KEYS) = Inr (ev_pooled ev)"
    and l: "traverse (evaluate_lane (matched_of rs)) LANES = Inr (ev_lanes ev)"
    and m: "exact_one_sided_mcnemar (q_proxy_only (ev_pooled ev)) (q_direct_only (ev_pooled ev)) = Inr (ev_mcnemar ev)"
    unfolding evaluate_matched_def pairs_of_rows by (auto simp: bind_Inr_iff)
  have "\<exists>d\<in>set rs. slot d = (row_key_of p, ''direct'') \<and> o_critical d"
    if "p \<in> set rs" "o_arm p = ''proxy''" "o_critical p" for p
    using safe that by (intro safety_rows [OF c q]) (simp_all add: quality_safety_def)
  moreover have "passes rs (\<lambda>_. True) ''direct'' + 24 \<le> passes rs (\<lambda>_. True) ''proxy''"
    using eff q benefit_rows [OF c, of "ev_pooled ev"] by (simp add: quality_efficacy_def)
  moreover have "passes rs (\<lambda>k. fst k = lane) ''direct'' \<le> passes rs (\<lambda>k. fst k = lane) ''proxy''
      \<and> 3 \<le> card {n \<in> {1..int REPLICATES_PER_LANE}.
          passes rs (\<lambda>k. fst k = lane \<and> fst (snd k) = n) ''direct'' \<le> passes rs (\<lambda>k. fst k = lane \<and> fst (snd k) = n) ''proxy''}"
    if lane: "lane \<in> set LANES" for lane
  proof -
    from eff have "list_all (\<lambda>l. quality_delta_at_least (l_summary l) 0 \<and> MIN_QUALITY_NONINFERIOR_REPLICATES \<le> quality_wins l) (ev_lanes ev)"
      by (simp add: quality_efficacy_def list_all_iff)
    from traverse_all [OF l this lane] obtain le where le: "evaluate_lane (matched_of rs) lane = Inr le"
      and g: "quality_delta_at_least (l_summary le) 0" "MIN_QUALITY_NONINFERIOR_REPLICATES \<le> quality_wins le" by blast
    from le have s: "summarize_pairs (map (pair_at rs) (filter (\<lambda>k. fst k = lane) ROW_KEYS)) = Inr (l_summary le)"
      unfolding evaluate_lane_def pairs_of_rows by (auto simp: bind_Inr_iff)
    from g show ?thesis unfolding noninferior_rows [OF c s] quality_wins_rows [OF c le] MIN_QUALITY_NONINFERIOR_REPLICATES_def by simp
  qed
  moreover have "card {S. S \<subseteq> {..<a + b} \<and> a \<le> card S} * 40 < 2 ^ (a + b)"
    if "a = won_alone rs ''proxy'' ''direct''" "b = won_alone rs ''direct'' ''proxy''" for a b
    using eff that by (intro significance_rows [OF c q m]) (simp_all add: quality_efficacy_def)
  ultimately show ?thesis unfolding Let_def by blast
qed

lemma promotion_is_earned_witness:
  "passes sample_cohort (\<lambda>_. True) ''direct'' + 24 \<le> passes sample_cohort (\<lambda>_. True) ''proxy''"
proof -
  obtain report where "evaluate_qualification_v2 sample_cohort = Inr report"
    "gate_of report ''promotion_passed'' = Some (JBool True)"
    using promotion_sample by blast
  from promotion_is_earned [OF this] show ?thesis by blast
qed

end
