(* ===== verification/Reconciliation.thy ===== *)
theory Reconciliation
  imports Transcript Wire
begin

text \<open>
  The reconciliation of one supervised proxy run (\<open>qualification_reconciliation.py\<close>): the identity
  of a campaign slot, the request ledger and its bounded reader, the checks that compare the proxy's
  counters with what the observer and the runner saw, and the session that runs them once. The
  records carry the types the code annotates; the \<open>isinstance\<close> tests of the reader are in
  \<open>record_of_json\<close>. Files are parameters: the content read, or the refusal of the atomic writer.
\<close>

section \<open>Refusals\<close>

text \<open>\<open>ReconciliationFailure\<close> with its category, or an exception that is not handled.\<close>

datatype refusal = Reconciliation_Failure string | Escapes exn

definition category_char :: "char \<Rightarrow> bool" where
  "category_char c \<longleftrightarrow> (97 \<le> ord_of c \<and> ord_of c \<le> 122) \<or> is_digit c \<or> c = CHR ''_''"

definition safe_category :: "string \<Rightarrow> string" where
  "safe_category c = (if c \<noteq> [] \<and> list_all category_char c then c else ''reconciliation_internal'')"

definition fail_with :: "string \<Rightarrow> refusal + 'a" where
  "fail_with category = Inl (Reconciliation_Failure (safe_category category))"

definition sha256_char :: "char \<Rightarrow> bool" where
  "sha256_char c \<longleftrightarrow> is_digit c \<or> (97 \<le> ord_of c \<and> ord_of c \<le> 102)"

definition is_sha256 :: "string \<Rightarrow> bool" where
  "is_sha256 s \<longleftrightarrow> length s = 64 \<and> list_all sha256_char s"

section \<open>Identity of a slot\<close>

record slot_identity =
  ri_manifest :: string
  ri_campaign :: string
  ri_slot :: int
  ri_lane :: string
  ri_pair :: int
  ri_attestation :: string

record slot_context = slot_identity +
  rc_model_evidence :: string
  rc_observer_ledger :: string
  rc_request_ledger :: string
  rc_timing_ledger :: string

definition slot_limits :: "string \<Rightarrow> (int \<times> int) option" where
  "slot_limits version =
     (if version = ''v1'' then Some (6, 3) else if version = ''v2'' then Some (8, 4) else None)"

definition v2_slot :: "'a slot_identity_scheme \<Rightarrow> bool" where
  "v2_slot i \<longleftrightarrow>
     (1 \<le> ri_slot i \<and> ri_slot i \<le> 4 \<and> ri_lane i = ''cold'' \<and> ri_pair i = ri_slot i)
   \<or> (5 \<le> ri_slot i \<and> ri_slot i \<le> 8 \<and> ri_lane i = ''warm-prefix'' \<and> ri_pair i = ri_slot i - 4)"

definition validate_slot :: "string \<Rightarrow> 'a slot_identity_scheme \<Rightarrow> refusal + unit" where
  "validate_slot version i =
     (case slot_limits version of
        None \<Rightarrow> fail_with ''reconciliation_context_invalid''
      | Some (slot_limit, pair_limit) \<Rightarrow>
          if \<not> list_all is_sha256 [ri_manifest i, ri_campaign i, ri_attestation i]
             \<or> ri_slot i \<le> 0 \<or> slot_limit < ri_slot i
             \<or> ri_lane i \<notin> {''cold'', ''warm-prefix''}
             \<or> ri_pair i \<le> 0 \<or> pair_limit < ri_pair i
          then fail_with ''reconciliation_context_invalid''
          else if version = ''v2'' \<and> \<not> v2_slot i then fail_with ''reconciliation_context_invalid''
          else Inr ())"

definition validate_context :: "string \<Rightarrow> slot_context \<Rightarrow> refusal + unit" where
  "validate_context version c =
     bind (validate_slot version (slot_identity.truncate c)) (\<lambda>_.
       if list_all is_sha256 [rc_model_evidence c, rc_observer_ledger c, rc_request_ledger c, rc_timing_ledger c]
       then Inr () else fail_with ''reconciliation_context_invalid'')"

definition context_matches_identity :: "slot_context \<Rightarrow> slot_identity \<Rightarrow> bool" where
  "context_matches_identity c i \<longleftrightarrow>
     ri_manifest c = ri_manifest i \<and> ri_campaign c = ri_campaign i \<and> ri_slot c = ri_slot i
     \<and> ri_lane c = ri_lane i \<and> ri_pair c = ri_pair i \<and> ri_attestation c = ri_attestation i"

section \<open>Counters\<close>

definition METRIC_KEYS :: "string list" where
  "METRIC_KEYS = [''downstream_requests'', ''upstream_calls'', ''blocked_duplicates'', ''blocked_stalls'',
     ''correction_turns'', ''receipt_projections'', ''local_projection_upstream_calls_avoided'', ''errors'',
     ''deadline_expiries'', ''cancellations'', ''phase_acquisition'', ''phase_finalization'',
     ''phase_schema_rejections'', ''admission_rejections'', ''rate_rejections'']"

definition DERIVED_KEYS :: "string list" where
  "DERIVED_KEYS = [''request_count'', ''attempt_count'', ''successful_attempt_count'', ''failed_attempt_count'',
     ''acquisition_count'', ''finalization_count'', ''successful_corrections'', ''total_retry_attempts'',
     ''local_projection_count'', ''failed_request_count'', ''cancelled_request_count'',
     ''deadline_request_count'', ''prime_count'', ''model_completed_delta'']"

definition CHECK_KEYS :: "string list" where
  "CHECK_KEYS = [''identity'', ''zero_before'', ''request_sequences'', ''attempt_partition'', ''phase_counts'',
     ''downstream'', ''upstream'', ''corrections'', ''projections'', ''errors'', ''model_operations'']"

record metrics_snapshot =
  ms_downstream_requests :: int
  ms_upstream_calls :: int
  ms_blocked_duplicates :: int
  ms_blocked_stalls :: int
  ms_correction_turns :: int
  ms_receipt_projections :: int
  ms_calls_avoided :: int
  ms_errors :: int
  ms_deadline_expiries :: int
  ms_cancellations :: int
  ms_phase_acquisition :: int
  ms_phase_finalization :: int
  ms_phase_schema_rejections :: int
  ms_admission_rejections :: int
  ms_rate_rejections :: int

type_synonym numbers = "(string, int) dict"

definition to_dict :: "metrics_snapshot \<Rightarrow> numbers" where
  "to_dict m = zip METRIC_KEYS
     [ms_downstream_requests m, ms_upstream_calls m, ms_blocked_duplicates m, ms_blocked_stalls m,
      ms_correction_turns m, ms_receipt_projections m, ms_calls_avoided m, ms_errors m,
      ms_deadline_expiries m, ms_cancellations m, ms_phase_acquisition m, ms_phase_finalization m,
      ms_phase_schema_rejections m, ms_admission_rejections m, ms_rate_rejections m]"

text \<open>A subscript on a dictionary of numbers; the code only uses keys that are present.\<close>

definition num :: "numbers \<Rightarrow> string \<Rightarrow> int" where
  "num d k = (case dget d k of Some i \<Rightarrow> i | None \<Rightarrow> 0)"

text \<open>What a call of the metrics reader does.\<close>

datatype reading = Snapshot metrics_snapshot | Foreign_Value | Raised string | Broken

definition read_metrics :: "reading \<Rightarrow> refusal + metrics_snapshot" where
  "read_metrics r =
     (case r of
        Snapshot m \<Rightarrow> if list_ex (\<lambda>kv. snd kv < 0) (to_dict m) then fail_with ''reconciliation_metrics_invalid'' else Inr m
      | Foreign_Value \<Rightarrow> fail_with ''reconciliation_metrics_invalid''
      | Raised category \<Rightarrow> fail_with category
      | Broken \<Rightarrow> fail_with ''reconciliation_metrics_unavailable'')"

section \<open>Requests and observed attempts\<close>

record request_record =
  rq_sequence :: int
  rq_outcome :: string
  rq_local :: bool
  rq_start :: "int option"
  rq_end :: "int option"
  rq_attempts :: int
  rq_succeeded :: int
  rq_phases :: numbers
  rq_retries :: int
  rq_duplicates :: int
  rq_stalls :: int
  rq_corrections :: int
  rq_avoided :: int

record boundary_record =
  ob_sequence :: int
  ob_digest :: string
  ob_fields :: jobject
  ob_status :: "int option"

record operation_summary =
  os_completed :: int
  os_primes :: int

definition in_2xx :: "int option \<Rightarrow> bool" where
  "in_2xx status = (case status of None \<Rightarrow> False | Some s \<Rightarrow> 200 \<le> s \<and> s < 300)"

definition has_phase_keys :: "numbers \<Rightarrow> bool" where
  "has_phase_keys d \<longleftrightarrow> set (dkeys d) = {''acquisition'', ''finalization''}"

definition any_nonzero :: "numbers \<Rightarrow> bool" where
  "any_nonzero d = list_ex (\<lambda>kv. snd kv \<noteq> 0) d"

definition positive_or_none :: "int option \<Rightarrow> bool" where
  "positive_or_none v = (case v of None \<Rightarrow> True | Some i \<Rightarrow> 0 < i)"

definition valid_request_scalars :: "request_record \<Rightarrow> bool" where
  "valid_request_scalars r \<longleftrightarrow>
     rq_outcome r \<in> {''succeeded'', ''failed'', ''cancelled'', ''deadline''}
     \<and> has_phase_keys (rq_phases r) \<and> 0 < rq_sequence r
     \<and> (rq_start r = None) = (rq_end r = None) \<and> positive_or_none (rq_start r) \<and> positive_or_none (rq_end r)
     \<and> list_all (\<lambda>n. 0 \<le> n)
         ([rq_attempts r, rq_succeeded r, rq_retries r, rq_corrections r, rq_duplicates r, rq_stalls r, rq_avoided r]
           @ map snd (rq_phases r))
     \<and> rq_succeeded r \<le> rq_attempts r"

text \<open>What every local projection must say of itself.\<close>

definition projection_record :: "request_record \<Rightarrow> bool" where
  "projection_record r \<longleftrightarrow>
     rq_outcome r = ''succeeded'' \<and> rq_start r = None \<and> rq_end r = None \<and> rq_attempts r = 0 \<and> rq_succeeded r = 0
     \<and> rq_retries r = 0 \<and> rq_corrections r = 0 \<and> rq_duplicates r = 0 \<and> rq_stalls r = 0 \<and> rq_avoided r = 1
     \<and> \<not> any_nonzero (rq_phases r)"

definition valid_request_ledger_scalars :: "request_record \<Rightarrow> bool" where
  "valid_request_ledger_scalars r \<longleftrightarrow> valid_request_scalars r
     \<and> (if rq_local r then projection_record r else rq_avoided r = 0)"

definition request_sequences_match :: "request_record list \<Rightarrow> bool" where
  "request_sequences_match rs =
     list_all (\<lambda>(expected, r). 0 < rq_sequence r \<and> rq_sequence r = int expected) (enumerate 1 rs)"

text \<open>\<open>compatibility.get("phase")\<close>, where the fields have a compatibility mapping.\<close>

definition observed_phase :: "boundary_record \<Rightarrow> json option" where
  "observed_phase ob = (case get (ob_fields ob) ''compatibility'' of JObj c \<Rightarrow> Some (get c ''phase'') | _ \<Rightarrow> None)"

definition valid_observer :: "boundary_record \<Rightarrow> int \<Rightarrow> bool result" where
  "valid_observer ob expected =
     (if ob_sequence ob \<noteq> expected \<or> \<not> is_sha256 (ob_digest ob)
         \<or> (case ob_status ob of None \<Rightarrow> False | Some s \<Rightarrow> s < 100 \<or> 599 < s)
      then Inr False
      else (case observed_phase ob of
              None \<Rightarrow> Inr False
            | Some p \<Rightarrow> in_string_set p [''acquisition'', ''finalization'', ''terminal'']))"

fun observers_valid :: "int \<Rightarrow> boundary_record list \<Rightarrow> bool result" where
  "observers_valid expected [] = Inr True"
| "observers_valid expected (ob # obs) =
     bind (valid_observer ob expected) (\<lambda>ok. if ok then observers_valid (expected + 1) obs else Inr False)"

text \<open>\<open>observers[start - 1 : end]\<close> for a positive start.\<close>

definition attempt_slice :: "'a list \<Rightarrow> int \<Rightarrow> int \<Rightarrow> 'a list" where
  "attempt_slice xs start stop = take (nat (stop - (start - 1))) (drop (nat (start - 1)) xs)"

definition count_2xx :: "boundary_record list \<Rightarrow> int" where
  "count_2xx obs = int (length (filter (\<lambda>ob. in_2xx (ob_status ob)) obs))"

fun partition_from :: "boundary_record list \<Rightarrow> int \<Rightarrow> request_record list \<Rightarrow> bool" where
  "partition_from obs next_attempt [] = (next_attempt = int (length obs) + 1)"
| "partition_from obs next_attempt (r # rs) =
     (if \<not> valid_request_scalars r then False
      else if rq_local r then projection_record r \<and> partition_from obs next_attempt rs
      else if rq_avoided r \<noteq> 0 then False
      else if rq_attempts r = 0 then
        rq_start r = None \<and> rq_end r = None \<and> rq_succeeded r = 0 \<and> \<not> any_nonzero (rq_phases r)
        \<and> partition_from obs next_attempt rs
      else (case rq_end r of
          None \<Rightarrow> False
        | Some stop \<Rightarrow>
            (if rq_start r \<noteq> Some next_attempt \<or> stop \<le> 0 \<or> stop < next_attempt then False
             else (let selected = attempt_slice obs next_attempt stop in
                   int (length selected) = stop - next_attempt + 1 \<and> rq_attempts r = int (length selected)
                   \<and> rq_succeeded r = count_2xx selected \<and> partition_from obs (stop + 1) rs))))"

definition attempt_partition_matches :: "boundary_record list \<Rightarrow> request_record list \<Rightarrow> bool result" where
  "attempt_partition_matches obs rs =
     bind (observers_valid 1 obs) (\<lambda>ok. Inr (ok \<and> partition_from obs 1 rs))"

text \<open>The attempts of each phase among the selected ones; \<open>None\<close> for an unknown phase.\<close>

fun count_phases :: "boundary_record list \<Rightarrow> int \<Rightarrow> int \<Rightarrow> int \<Rightarrow> (int \<times> int \<times> int) option result" where
  "count_phases [] a f t = Inr (Some (a, f, t))"
| "count_phases (ob # obs) a f t =
     (let phase = (case observed_phase ob of None \<Rightarrow> JNull | Some p \<Rightarrow> p) in
      if phase = JStr ''terminal'' then count_phases obs a f (t + 1)
      else bind (in_string_set phase [''acquisition'', ''finalization'']) (\<lambda>known.
             if \<not> known then Inr None
             else if phase = JStr ''acquisition'' then count_phases obs (a + 1) f t
             else count_phases obs a (f + 1) t))"

definition phases_equal :: "numbers \<Rightarrow> int \<Rightarrow> int \<Rightarrow> bool" where
  "phases_equal d a f \<longleftrightarrow>
     has_phase_keys d \<and> dget d ''acquisition'' = Some a \<and> dget d ''finalization'' = Some f"

definition truth :: "bool \<Rightarrow> int" where
  "truth b = (if b then 1 else 0)"

text \<open>The attempts whose phases a request has to account for; \<open>None\<close> for an impossible interval.\<close>

definition selected_attempts :: "boundary_record list \<Rightarrow> request_record \<Rightarrow> boundary_record list option" where
  "selected_attempts obs r =
     (if rq_local r \<or> rq_attempts r = 0 then Some []
      else (case (rq_start r, rq_end r) of
          (Some start, Some stop) \<Rightarrow>
            (if start \<le> 0 \<or> stop \<le> 0 \<or> stop < start then None else Some (attempt_slice obs start stop))
        | _ \<Rightarrow> None))"

fun phase_counts_match :: "boundary_record list \<Rightarrow> request_record list \<Rightarrow> bool result" where
  "phase_counts_match obs [] = Inr True"
| "phase_counts_match obs (r # rs) =
     (if \<not> has_phase_keys (rq_phases r) then Inr False
      else
        (case selected_attempts obs r of
           None \<Rightarrow> Inr False
         | Some sel \<Rightarrow>
             bind (count_phases sel 0 0 0) (\<lambda>counts. case counts of
                 None \<Rightarrow> Inr False
               | Some (a, f, t) \<Rightarrow>
                   (if \<not> phases_equal (rq_phases r) a f
                       \<or> rq_retries r \<noteq> rq_attempts r - (truth (0 < a) + truth (0 < f) + truth (0 < t))
                    then Inr False else phase_counts_match obs rs))))"

section \<open>Derived totals and checks\<close>

definition phase_total :: "string \<Rightarrow> boundary_record list \<Rightarrow> int" where
  "phase_total phase obs = int (length (filter (\<lambda>ob. observed_phase ob = Some (JStr phase)) obs))"

definition outcome_total :: "string \<Rightarrow> request_record list \<Rightarrow> int" where
  "outcome_total outcome rs = int (length (filter (\<lambda>r. rq_outcome r = outcome) rs))"

definition sum_of :: "('a \<Rightarrow> int) \<Rightarrow> 'a list \<Rightarrow> int" where
  "sum_of f rs = sum_list (map f rs)"

definition derive :: "boundary_record list \<Rightarrow> request_record list \<Rightarrow> operation_summary \<Rightarrow> numbers" where
  "derive obs rs model =
     [(''request_count'', int (length rs)), (''attempt_count'', int (length obs)),
      (''successful_attempt_count'', count_2xx obs),
      (''failed_attempt_count'', int (length obs) - count_2xx obs),
      (''acquisition_count'', phase_total ''acquisition'' obs),
      (''finalization_count'', phase_total ''finalization'' obs),
      (''successful_corrections'', sum_of rq_corrections rs),
      (''total_retry_attempts'', sum_of rq_retries rs),
      (''local_projection_count'', sum_of (\<lambda>r. truth (rq_local r)) rs),
      (''failed_request_count'', outcome_total ''failed'' rs),
      (''cancelled_request_count'', outcome_total ''cancelled'' rs),
      (''deadline_request_count'', outcome_total ''deadline'' rs),
      (''prime_count'', os_primes model), (''model_completed_delta'', os_completed model)]"

definition input_failure_category ::
  "boundary_record list \<Rightarrow> request_record list \<Rightarrow> operation_summary \<Rightarrow> string option result" where
  "input_failure_category obs rs model =
     (if os_completed model < 0 \<or> os_primes model < 0 \<or> os_primes model \<notin> {0, 1}
      then Inr (Some ''reconciliation_model_summary_invalid'')
      else bind (observers_valid 1 obs) (\<lambda>ok.
        if \<not> ok then Inr (Some ''reconciliation_observer_record_invalid'')
        else if \<not> list_all valid_request_scalars rs then Inr (Some ''reconciliation_request_record_invalid'')
        else Inr None))"

type_synonym checks = "(string, bool) dict"

definition run_checks ::
  "slot_context \<Rightarrow> numbers \<Rightarrow> numbers \<Rightarrow> boundary_record list \<Rightarrow> request_record list \<Rightarrow> checks result" where
  "run_checks c deltas derived obs rs =
     bind (attempt_partition_matches obs rs) (\<lambda>partition.
     bind (phase_counts_match obs rs) (\<lambda>phases.
       Inr [(''identity'', True), (''zero_before'', True), (''request_sequences'', request_sequences_match rs),
        (''attempt_partition'', partition),
        (''phase_counts'', phases \<and> num deltas ''phase_acquisition'' = num derived ''acquisition_count''
           \<and> num deltas ''phase_finalization'' = num derived ''finalization_count''),
        (''downstream'', num deltas ''downstream_requests'' = num derived ''request_count''),
        (''upstream'', num deltas ''upstream_calls'' = num derived ''attempt_count''),
        (''corrections'', num deltas ''correction_turns'' = num derived ''successful_corrections''
           \<and> num deltas ''blocked_duplicates'' = sum_of rq_duplicates rs
           \<and> num deltas ''blocked_stalls'' = sum_of rq_stalls rs),
        (''projections'', num deltas ''receipt_projections'' = num deltas ''local_projection_upstream_calls_avoided''
           \<and> num deltas ''local_projection_upstream_calls_avoided'' = num derived ''local_projection_count''),
        (''errors'', num deltas ''errors'' = num derived ''failed_request_count''
             + num derived ''cancelled_request_count'' + num derived ''deadline_request_count''
           \<and> num deltas ''cancellations'' = num derived ''cancelled_request_count''
           \<and> num deltas ''deadline_expiries'' = num derived ''deadline_request_count''
           \<and> num deltas ''phase_schema_rejections'' = 0 \<and> num deltas ''admission_rejections'' = 0
           \<and> num deltas ''rate_rejections'' = 0),
        (''model_operations'', num derived ''prime_count'' = (if ri_lane c = ''warm-prefix'' then 1 else 0)
           \<and> num derived ''model_completed_delta''
               = num derived ''prime_count'' + num derived ''successful_attempt_count'')]))"

definition FAILED_CHECK :: "(string, string) dict" where
  "FAILED_CHECK =
     [(''identity'', ''reconciliation_identity_mismatch''), (''zero_before'', ''reconciliation_metrics_not_zero''),
      (''request_sequences'', ''reconciliation_request_sequences_mismatch''),
      (''attempt_partition'', ''reconciliation_attempt_partition_mismatch''),
      (''phase_counts'', ''reconciliation_phase_counts_mismatch''),
      (''downstream'', ''reconciliation_downstream_mismatch''), (''upstream'', ''reconciliation_upstream_mismatch''),
      (''corrections'', ''reconciliation_corrections_mismatch''),
      (''projections'', ''reconciliation_projections_mismatch''), (''errors'', ''reconciliation_errors_mismatch''),
      (''model_operations'', ''reconciliation_model_operations_mismatch'')]"

definition failed_check_category :: "checks \<Rightarrow> string option" where
  "failed_check_category cs =
     (case find (\<lambda>k. dget cs k \<noteq> Some True) CHECK_KEYS of None \<Rightarrow> None | Some k \<Rightarrow> dget FAILED_CHECK k)"

definition model_operation_total_available :: "boundary_record list \<Rightarrow> bool" where
  "model_operation_total_available obs = list_all (\<lambda>ob. in_2xx (ob_status ob)) obs"

section \<open>Canonical text\<close>

text \<open>
  \<open>json.dumps(value, ensure_ascii=False, sort_keys=True, separators=(",", ":"))\<close>; an integer with too
  many digits cannot be printed.
\<close>

fun printable :: "json \<Rightarrow> bool" where
  "printable (JInt i) = (length (dec_digits (nat \<bar>i\<bar>)) \<le> int_digit_limit)"
| "printable (JArr vs) = list_all printable vs"
| "printable (JObj kvs) = list_all (\<lambda>kv. printable (snd kv)) kvs"
| "printable v = True"

definition canonical_text :: "json \<Rightarrow> refusal + string" where
  "canonical_text v = (if printable v then Inr (dumps True False v) else Inl (Escapes (ValueError ''digits'')))"

definition canonical_sha256 :: "json \<Rightarrow> refusal + string" where
  "canonical_sha256 v = bind (canonical_text v) (\<lambda>t. Inr (sha256_hex t))"

text \<open>\<open>json.loads(line, object_pairs_hook=_unique_object)\<close> of bytes; the constants it would read occur in no accepted value.\<close>

definition unique_document :: "bytes \<Rightarrow> json result" where
  "unique_document bs =
     (if \<not> detects_utf8 bs then Inl OutsideModel
      else (case utf8_decode bs of
        Other_Text \<Rightarrow> Inl OutsideModel
      | Undecodable \<Rightarrow> Inl (ValueError ''unicode'')
      | Decoded s \<Rightarrow> loads_with True s))"

section \<open>The request ledger\<close>

definition MAX_PRIVATE_LEDGER_BYTES :: nat where "MAX_PRIVATE_LEDGER_BYTES = 1024 * 1024"
definition MAX_REQUEST_RECORDS :: nat where "MAX_REQUEST_RECORDS = 10000"

definition numbers_json :: "numbers \<Rightarrow> json" where
  "numbers_json d = JObj (map (\<lambda>(k, i). (k, JInt i)) d)"

fun int_or_null :: "int option \<Rightarrow> json" where
  "int_or_null None = JNull"
| "int_or_null (Some i) = JInt i"

definition request_accounting_record_payload :: "request_record \<Rightarrow> jobject" where
  "request_accounting_record_payload r =
     [(''sequence'', JInt (rq_sequence r)), (''outcome'', JStr (rq_outcome r)),
      (''local_projection'', JBool (rq_local r)),
      (''attempt_sequence_start'', int_or_null (rq_start r)), (''attempt_sequence_end'', int_or_null (rq_end r)),
      (''attempt_count'', JInt (rq_attempts r)), (''successful_attempt_count'', JInt (rq_succeeded r)),
      (''phase_counts'', numbers_json (rq_phases r)), (''retry_attempt_count'', JInt (rq_retries r)),
      (''correction_count'', JInt (rq_corrections r)), (''blocked_duplicate_count'', JInt (rq_duplicates r)),
      (''blocked_stall_count'', JInt (rq_stalls r)),
      (''avoided_immediate_upstream_calls'', JInt (rq_avoided r))]"

definition REQUEST_RECORD_KEYS :: "string list" where
  "REQUEST_RECORD_KEYS = [''sequence'', ''outcome'', ''local_projection'', ''attempt_sequence_start'',
     ''attempt_sequence_end'', ''attempt_count'', ''successful_attempt_count'', ''phase_counts'',
     ''retry_attempt_count'', ''correction_count'', ''blocked_duplicate_count'', ''blocked_stall_count'',
     ''avoided_immediate_upstream_calls'']"

text \<open>The values a record may hold; anything else fails \<open>_valid_request_scalars\<close>.\<close>

fun json_int :: "json \<Rightarrow> int option" where
  "json_int (JInt i) = Some i"
| "json_int _ = None"

fun json_int_or_null :: "json \<Rightarrow> int option option" where
  "json_int_or_null JNull = Some None"
| "json_int_or_null (JInt i) = Some (Some i)"
| "json_int_or_null _ = None"

fun json_numbers :: "(string \<times> json) list \<Rightarrow> numbers option" where
  "json_numbers [] = Some []"
| "json_numbers ((k, v) # kvs) =
     (case (json_int v, json_numbers kvs) of (Some i, Some d) \<Rightarrow> Some ((k, i) # d) | _ \<Rightarrow> None)"

definition record_of_json :: "jobject \<Rightarrow> request_record option" where
  "record_of_json v =
     (case (get v ''outcome'', get v ''local_projection'', get v ''phase_counts'') of
        (JStr outcome, JBool local, JObj phases) \<Rightarrow>
          (case (json_int_or_null (get v ''attempt_sequence_start''), json_int_or_null (get v ''attempt_sequence_end''),
                 json_numbers phases,
                 those (map (\<lambda>k. json_int (get v k))
                   [''sequence'', ''attempt_count'', ''successful_attempt_count'', ''retry_attempt_count'',
                    ''blocked_duplicate_count'', ''blocked_stall_count'', ''correction_count'',
                    ''avoided_immediate_upstream_calls''])) of
             (Some start, Some stop, Some d, Some [n, attempts, succeeded, retries, duplicates, stalls, corrections, avoided]) \<Rightarrow>
               Some \<lparr>rq_sequence = n, rq_outcome = outcome, rq_local = local, rq_start = start, rq_end = stop,
                 rq_attempts = attempts, rq_succeeded = succeeded, rq_phases = d, rq_retries = retries,
                 rq_duplicates = duplicates, rq_stalls = stalls, rq_corrections = corrections, rq_avoided = avoided\<rparr>
           | _ \<Rightarrow> None)
      | _ \<Rightarrow> None)"

text \<open>\<open>bytes.splitlines\<close>: a line ends at a line feed, a carriage return, or the two together.\<close>

function byte_lines :: "bytes \<Rightarrow> bytes \<Rightarrow> bytes list" where
  "byte_lines line [] = (if line = [] then [] else [line])"
| "byte_lines line (b # bs) =
     (if b = 10 then line # byte_lines [] bs
      else if b = 13 then line # byte_lines [] (if take 1 bs = [10] then drop 1 bs else bs)
      else byte_lines (line @ [b]) bs)"
  by pat_completeness auto
termination by (relation "measure (length \<circ> snd)") auto

definition ledger_line :: "bytes \<Rightarrow> request_record result" where
  "ledger_line line =
     bind (unique_document line) (\<lambda>v. case v of
         JObj kvs \<Rightarrow>
           (if set (dkeys kvs) \<noteq> set REQUEST_RECORD_KEYS then Inl (ValueError [])
            else (case record_of_json kvs of
                None \<Rightarrow> Inl (ValueError [])
              | Some r \<Rightarrow> (if valid_request_ledger_scalars r then Inr r else Inl (ValueError []))))
       | _ \<Rightarrow> Inl (ValueError []))"

fun ledger_lines :: "bytes list \<Rightarrow> request_record list result" where
  "ledger_lines [] = Inr []"
| "ledger_lines (l # ls) = bind (ledger_line l) (\<lambda>r. bind (ledger_lines ls) (\<lambda>rs. Inr (r # rs)))"

text \<open>The handlers of both readers; what the model leaves out is not handled.\<close>

definition handled_as :: "string \<Rightarrow> 'a result \<Rightarrow> refusal + 'a" where
  "handled_as category m =
     (case m of Inr v \<Rightarrow> Inr v
      | Inl OutsideModel \<Rightarrow> Inl (Escapes OutsideModel)
      | Inl _ \<Rightarrow> fail_with category)"

text \<open>A private file is refused, or read whole within the bound.\<close>

definition read_private_regular_file :: "bytes option \<Rightarrow> bytes result" where
  "read_private_regular_file file =
     (case file of None \<Rightarrow> Inl (ValueError ''file'')
      | Some bs \<Rightarrow> if MAX_PRIVATE_LEDGER_BYTES < length bs then Inl (ValueError ''file'') else Inr bs)"

definition parse_request_ledger :: "bytes \<Rightarrow> request_record list result" where
  "parse_request_ledger bs =
     (if bs = [] then Inr []
      else if last bs \<noteq> 10 then Inl (ValueError [])
      else (let ls = byte_lines [] bs in
        if MAX_REQUEST_RECORDS < length ls \<or> list_ex (\<lambda>l. l = []) ls then Inl (ValueError [])
        else bind (ledger_lines ls) (\<lambda>rs.
               if request_sequences_match rs then Inr rs else Inl (ValueError []))))"

definition read_request_accounting_ledger :: "bytes option \<Rightarrow> refusal + request_record list" where
  "read_request_accounting_ledger file =
     handled_as ''reconciliation_request_ledger_invalid'' (bind (read_private_regular_file file) parse_request_ledger)"

text \<open>The atomic writer answers with the category of its refusal, if any.\<close>

fun ledger_text :: "request_record list \<Rightarrow> refusal + bytes" where
  "ledger_text [] = Inr []"
| "ledger_text (r # rs) =
     bind (canonical_text (JObj (request_accounting_record_payload r))) (\<lambda>t.
     bind (ledger_text rs) (\<lambda>bs. Inr (utf8 t @ [10] @ bs)))"

definition write_request_accounting_ledger ::
  "(bytes \<Rightarrow> string option) \<Rightarrow> request_record list \<Rightarrow> refusal + bytes" where
  "write_request_accounting_ledger store rs =
     (if MAX_REQUEST_RECORDS < length rs \<or> \<not> request_sequences_match rs \<or> \<not> list_all valid_request_ledger_scalars rs
      then fail_with ''reconciliation_request_ledger_invalid''
      else bind (ledger_text rs) (\<lambda>payload.
             if MAX_PRIVATE_LEDGER_BYTES < length payload then fail_with ''reconciliation_request_ledger_invalid''
             else (case store payload of None \<Rightarrow> Inr payload | Some category \<Rightarrow> fail_with category)))"

section \<open>The artifact\<close>

text \<open>A status of passed has no failure category.\<close>

definition artifact_fields ::
  "slot_context \<Rightarrow> string option \<Rightarrow> string \<Rightarrow> json \<Rightarrow> numbers \<Rightarrow> numbers \<Rightarrow> checks \<Rightarrow> jobject" where
  "artifact_fields c failure before_hash after_hash deltas derived cs =
     [(''schema_version'', JStr ''2.0''), (''record_type'', JStr ''qualification_proxy_reconciliation''),
      (''status'', JStr (if failure = None then ''passed'' else ''failed'')),
      (''failure_category'', case failure of None \<Rightarrow> JNull | Some f \<Rightarrow> JStr f),
      (''run_manifest_sha256'', JStr (ri_manifest c)), (''campaign_id_sha256'', JStr (ri_campaign c)),
      (''slot_ordinal'', JInt (ri_slot c)), (''cache_lane'', JStr (ri_lane c)), (''pair_index'', JInt (ri_pair c)),
      (''attestation_sha256'', JStr (ri_attestation c)), (''model_evidence_sha256'', JStr (rc_model_evidence c)),
      (''observer_ledger_sha256'', JStr (rc_observer_ledger c)),
      (''request_ledger_sha256'', JStr (rc_request_ledger c)),
      (''timing_ledger_sha256'', JStr (rc_timing_ledger c)), (''before_metrics_sha256'', JStr before_hash),
      (''after_metrics_sha256'', after_hash),
      (''deltas'', JObj (map (\<lambda>k. (k, JInt (num deltas k))) METRIC_KEYS)),
      (''derived'', JObj (map (\<lambda>k. (k, JInt (num derived k))) DERIVED_KEYS)),
      (''checks'', JObj (map (\<lambda>k. (k, JBool (dget cs k = Some True))) CHECK_KEYS))]"

definition artifact_record ::
  "slot_context \<Rightarrow> string option \<Rightarrow> metrics_snapshot \<Rightarrow> metrics_snapshot option \<Rightarrow> numbers \<Rightarrow> numbers \<Rightarrow> checks
     \<Rightarrow> refusal + jobject" where
  "artifact_record c failure before after deltas derived cs =
     bind (canonical_sha256 (numbers_json (to_dict before))) (\<lambda>before_hash.
     bind (case after of None \<Rightarrow> Inr JNull
           | Some a \<Rightarrow> bind (canonical_sha256 (numbers_json (to_dict a))) (\<lambda>h. Inr (JStr h))) (\<lambda>after_hash.
       Inr (artifact_fields c failure before_hash after_hash deltas derived cs)))"

definition ARTIFACT_KEYS :: "string list" where
  "ARTIFACT_KEYS = [''schema_version'', ''record_type'', ''status'', ''failure_category'', ''run_manifest_sha256'',
     ''campaign_id_sha256'', ''slot_ordinal'', ''cache_lane'', ''pair_index'', ''attestation_sha256'',
     ''model_evidence_sha256'', ''observer_ledger_sha256'', ''request_ledger_sha256'', ''timing_ledger_sha256'',
     ''before_metrics_sha256'', ''after_metrics_sha256'', ''deltas'', ''derived'', ''checks'']"

definition all_values :: "(json \<Rightarrow> bool) \<Rightarrow> string list \<Rightarrow> json \<Rightarrow> bool" where
  "all_values P keys v = (case v of JObj d \<Rightarrow> set (dkeys d) = set keys \<and> list_all (\<lambda>kv. P (snd kv)) d | _ \<Rightarrow> False)"

definition nonnegative_int :: "json \<Rightarrow> bool" where
  "nonnegative_int v = (case v of JInt i \<Rightarrow> 0 \<le> i | _ \<Rightarrow> False)"

definition sha256_value :: "json \<Rightarrow> bool" where
  "sha256_value v = (case v of JStr s \<Rightarrow> is_sha256 s | _ \<Rightarrow> False)"

definition valid_passed_artifact :: "json \<Rightarrow> slot_context \<Rightarrow> bool" where
  "valid_passed_artifact document c =
     (case document of
        JObj v \<Rightarrow>
          set (dkeys v) = set ARTIFACT_KEYS
          \<and> get v ''schema_version'' = JStr ''2.0'' \<and> get v ''record_type'' = JStr ''qualification_proxy_reconciliation''
          \<and> get v ''status'' = JStr ''passed'' \<and> get v ''failure_category'' = JNull
          \<and> get v ''run_manifest_sha256'' = JStr (ri_manifest c) \<and> get v ''campaign_id_sha256'' = JStr (ri_campaign c)
          \<and> get v ''slot_ordinal'' = JInt (ri_slot c) \<and> get v ''cache_lane'' = JStr (ri_lane c)
          \<and> get v ''pair_index'' = JInt (ri_pair c) \<and> get v ''attestation_sha256'' = JStr (ri_attestation c)
          \<and> get v ''model_evidence_sha256'' = JStr (rc_model_evidence c)
          \<and> get v ''observer_ledger_sha256'' = JStr (rc_observer_ledger c)
          \<and> get v ''request_ledger_sha256'' = JStr (rc_request_ledger c)
          \<and> get v ''timing_ledger_sha256'' = JStr (rc_timing_ledger c)
          \<and> sha256_value (get v ''before_metrics_sha256'') \<and> sha256_value (get v ''after_metrics_sha256'')
          \<and> all_values nonnegative_int METRIC_KEYS (get v ''deltas'')
          \<and> all_values nonnegative_int DERIVED_KEYS (get v ''derived'')
          \<and> all_values (\<lambda>item. item = JBool True) CHECK_KEYS (get v ''checks'')
      | _ \<Rightarrow> False)"

text \<open>A missing or ill-typed field, or a context that does not validate, gives no context.\<close>

definition artifact_context :: "string \<Rightarrow> json \<Rightarrow> slot_context option" where
  "artifact_context version document =
     (case document of
        JObj v \<Rightarrow>
          (case (those (map (\<lambda>k. case get v k of JStr s \<Rightarrow> Some s | _ \<Rightarrow> None)
                   [''run_manifest_sha256'', ''campaign_id_sha256'', ''cache_lane'', ''attestation_sha256'',
                    ''model_evidence_sha256'', ''observer_ledger_sha256'', ''request_ledger_sha256'', ''timing_ledger_sha256'']),
                 json_int (get v ''slot_ordinal''), json_int (get v ''pair_index'')) of
             (Some [manifest, campaign, lane, attestation, model, observer, requests, timing], Some slot, Some pair) \<Rightarrow>
               (let c = \<lparr>ri_manifest = manifest, ri_campaign = campaign, ri_slot = slot, ri_lane = lane,
                      ri_pair = pair, ri_attestation = attestation, rc_model_evidence = model,
                      rc_observer_ledger = observer, rc_request_ledger = requests, rc_timing_ledger = timing\<rparr>
                in case validate_context version c of Inr () \<Rightarrow> Some c | Inl _ \<Rightarrow> None)
           | _ \<Rightarrow> None)
      | _ \<Rightarrow> None)"

text \<open>The loaded identity: the hash of the file and the context it commits to.\<close>

definition load_passed_proxy_reconciliation ::
  "bytes option \<Rightarrow> slot_context option \<Rightarrow> string \<Rightarrow> refusal + (string \<times> slot_context)" where
  "load_passed_proxy_reconciliation file expected version =
     bind (case expected of None \<Rightarrow> Inr ()
           | Some c \<Rightarrow> (case validate_context version c of Inr u \<Rightarrow> Inr u
                       | Inl _ \<Rightarrow> fail_with ''reconciliation_artifact_invalid'')) (\<lambda>_.
     bind (handled_as ''reconciliation_artifact_invalid'' (bind (read_private_regular_file file) (\<lambda>bs.
             bind (unique_document bs) (\<lambda>v. Inr (bs, v))))) (\<lambda>(bs, document).
       case artifact_context version document of
         None \<Rightarrow> fail_with ''reconciliation_artifact_invalid''
       | Some actual \<Rightarrow>
           (if \<not> valid_passed_artifact document actual then fail_with ''reconciliation_artifact_invalid''
            else if (case expected of None \<Rightarrow> False | Some c \<Rightarrow> actual \<noteq> c)
            then fail_with ''reconciliation_artifact_invalid''
            else Inr (hexdigest (sha256 bs), actual))))"

section \<open>The session\<close>

record session =
  ps_identity :: slot_identity
  ps_before :: metrics_snapshot
  ps_version :: string
  ps_completed :: bool

definition begin_session :: "slot_identity \<Rightarrow> reading \<Rightarrow> string \<Rightarrow> refusal + session" where
  "begin_session i reader version =
     bind (validate_slot version i) (\<lambda>_.
     bind (read_metrics reader) (\<lambda>before.
       if list_ex (\<lambda>kv. snd kv \<noteq> 0) (to_dict before) then fail_with ''reconciliation_metrics_not_zero''
       else Inr \<lparr>ps_identity = i, ps_before = before, ps_version = version, ps_completed = False\<rparr>))"

text \<open>
  What a completion leaves behind: the artifact, when one was written, and its hash or the refusal.
  A failed reconciliation writes its artifact before it raises.
\<close>

record completion =
  cp_artifact :: "jobject option"
  cp_result :: "refusal + string"

definition refused :: "refusal \<Rightarrow> completion" where
  "refused e = \<lparr>cp_artifact = None, cp_result = Inl e\<rparr>"

definition write_artifact :: "(bytes \<Rightarrow> string option) \<Rightarrow> (refusal + jobject) \<Rightarrow> string option \<Rightarrow> completion" where
  "write_artifact store artifact failure =
     (case artifact of
        Inl e \<Rightarrow> refused e
      | Inr a \<Rightarrow>
          (case canonical_text (JObj a) of
             Inl e \<Rightarrow> refused e
           | Inr t \<Rightarrow>
               (let payload = utf8 (t @ [CHR 0x0A]) in
                case store payload of
                  Some category \<Rightarrow> refused (Reconciliation_Failure (safe_category category))
                | None \<Rightarrow>
                    \<lparr>cp_artifact = Some a,
                     cp_result = (case failure of
                        Some category \<Rightarrow> fail_with category
                      | None \<Rightarrow> Inr (hexdigest (sha256 payload)))\<rparr>)))"

definition zero_numbers :: "string list \<Rightarrow> numbers" where
  "zero_numbers keys = map (\<lambda>k. (k, 0)) keys"

definition opening_checks :: checks where
  "opening_checks = map (\<lambda>k. (k, k \<in> {''identity'', ''zero_before''})) CHECK_KEYS"

definition metric_deltas :: "metrics_snapshot \<Rightarrow> metrics_snapshot \<Rightarrow> numbers" where
  "metric_deltas before after = map (\<lambda>k. (k, num (to_dict after) k - num (to_dict before) k)) METRIC_KEYS"

definition reconcile ::
  "(bytes \<Rightarrow> string option) \<Rightarrow> session \<Rightarrow> slot_context \<Rightarrow> metrics_snapshot \<Rightarrow> boundary_record list
     \<Rightarrow> request_record list \<Rightarrow> operation_summary \<Rightarrow> completion" where
  "reconcile store s c after obs rs model =
     (let before = ps_before s; deltas = metric_deltas before after in
      if list_ex (\<lambda>kv. snd kv < 0) deltas then
        (let f = Some ''reconciliation_metrics_decreased'' in
         write_artifact store
           (artifact_record c f before (Some after) deltas (derive obs rs model) opening_checks) f)
      else
        (case input_failure_category obs rs model of
           Inl e \<Rightarrow> refused (Escapes e)
         | Inr (Some category) \<Rightarrow>
             write_artifact store
               (artifact_record c (Some category) before (Some after) deltas (zero_numbers DERIVED_KEYS) opening_checks)
               (Some category)
         | Inr None \<Rightarrow>
             (let derived = derive obs rs model in
              case run_checks c deltas derived obs rs of
                Inl e \<Rightarrow> refused (Escapes e)
              | Inr cs \<Rightarrow>
                  (let available = model_operation_total_available obs;
                       cs' = (if available then cs else dset cs ''model_operations'' False);
                       failure = (if available then failed_check_category cs
                                  else Some ''model_operation_total_unavailable'')
                   in write_artifact store
                        (artifact_record c failure before (Some after) deltas derived cs') failure))))"

definition complete_session ::
  "(bytes \<Rightarrow> string option) \<Rightarrow> session \<Rightarrow> slot_context \<Rightarrow> reading \<Rightarrow> boundary_record list
     \<Rightarrow> request_record list \<Rightarrow> operation_summary \<Rightarrow> session \<times> completion" where
  "complete_session store s c reader obs rs model =
     (if ps_completed s then (s, refused (Reconciliation_Failure ''reconciliation_complete_once''))
      else (s\<lparr>ps_completed := True\<rparr>,
        case validate_context (ps_version s) c of
          Inl e \<Rightarrow> refused e
        | Inr _ \<Rightarrow>
            (if \<not> context_matches_identity c (ps_identity s)
             then refused (Reconciliation_Failure ''reconciliation_context_invalid'')
             else (case read_metrics reader of
                 Inl (Reconciliation_Failure category) \<Rightarrow>
                   write_artifact store
                     (artifact_record c (Some category) (ps_before s) None (zero_numbers METRIC_KEYS)
                       (derive obs rs model) opening_checks) (Some category)
               | Inl e \<Rightarrow> refused e
               | Inr after \<Rightarrow> reconcile store s c after obs rs model))))"

end
