(* ===== verification/Reconciliation_Laws.thy ===== *)
theory Reconciliation_Laws
  imports Reconciliation Transcript_Laws "HOL-Library.Multiset"
begin

text \<open>
  The laws of the reconciliation: what the checks of a passed run establish, the round trip of the
  request ledger, and that the artifact of a passed run is one the loader accepts.
\<close>

section \<open>The partition of the attempts\<close>

text \<open>The attempts a request claims.\<close>

definition attempts_of :: "boundary_record list \<Rightarrow> request_record \<Rightarrow> boundary_record list" where
  "attempts_of obs r = (case (rq_start r, rq_end r) of (Some a, Some b) \<Rightarrow> attempt_slice obs a b | _ \<Rightarrow> [])"

definition accounted :: "boundary_record list \<Rightarrow> request_record \<Rightarrow> bool" where
  "accounted obs r \<longleftrightarrow> rq_attempts r = int (length (attempts_of obs r))
     \<and> rq_succeeded r = count_2xx (attempts_of obs r)
     \<and> (if rq_local r then projection_record r else rq_avoided r = 0)
     \<and> (rq_attempts r = 0 \<longrightarrow> rq_start r = None \<and> rq_end r = None)"

lemma slice_drop:
  assumes "1 \<le> start" "start \<le> stop" "int (length (attempt_slice xs start stop)) = stop - start + 1"
  shows "attempt_slice xs start stop @ drop (nat stop) xs = drop (nat (start - 1)) xs" "stop \<le> int (length xs)"
proof -
  have n: "nat (stop - (start - 1)) + nat (start - 1) = nat stop" using assms(1,2) by linarith
  show "attempt_slice xs start stop @ drop (nat stop) xs = drop (nat (start - 1)) xs"
    unfolding attempt_slice_def n [symmetric] drop_drop [symmetric] by (rule append_take_drop_id)
  show "stop \<le> int (length xs)" using assms by (simp add: attempt_slice_def min_def split: if_splits)
qed

lemma partition_from_attempts:
  assumes "partition_from obs n rs" "1 \<le> n" "n \<le> int (length obs) + 1"
  shows "concat (map (attempts_of obs) rs) = drop (nat (n - 1)) obs \<and> list_all (accounted obs) rs"
  using assms
proof (induction rs arbitrary: n)
  case Nil
  then show ?case by simp
next
  case (Cons r rs)
  from Cons.prems(1) have v: "valid_request_scalars r" by (simp split: if_splits)
  show ?case
  proof (cases "rq_local r \<or> rq_attempts r = 0")
    case True
    with Cons.prems(1) v have "rq_start r = None" "rq_end r = None" "partition_from obs n rs"
      "rq_attempts r = 0" "rq_succeeded r = 0" "if rq_local r then projection_record r else rq_avoided r = 0"
      by (auto simp: projection_record_def split: if_splits)
    with Cons.IH [OF _ Cons.prems(2,3)] show ?thesis by (simp add: attempts_of_def accounted_def count_2xx_def)
  next
    case False
    with Cons.prems(1) v obtain stop where e: "rq_end r = Some stop" "rq_start r = Some n" "n \<le> stop" "rq_avoided r = 0"
      and s: "int (length (attempt_slice obs n stop)) = stop - n + 1" "rq_attempts r = int (length (attempt_slice obs n stop))"
        "rq_succeeded r = count_2xx (attempt_slice obs n stop)"
      and rest: "partition_from obs (stop + 1) rs"
      by (auto simp: Let_def split: if_splits option.splits)
    note d = slice_drop [OF Cons.prems(2) e(3) s(1)]
    have a: "attempts_of obs r = attempt_slice obs n stop" by (simp add: attempts_of_def e)
    have "concat (map (attempts_of obs) rs) = drop (nat stop) obs \<and> list_all (accounted obs) rs"
      using Cons.IH [OF rest] d(2) Cons.prems(2) e(3) by simp
    moreover have "accounted obs r" using False e(4) s by (simp add: a accounted_def)
    ultimately show ?thesis using d(1) by (simp add: a)
  qed
qed

lemma partition_attempts:
  assumes "attempt_partition_matches obs rs = Inr True"
  shows "concat (map (attempts_of obs) rs) = obs" "list_all (accounted obs) rs"
  using assms partition_from_attempts [of obs 1 rs] by (auto simp: attempt_partition_matches_def bind_Inr_iff)

section \<open>The phases\<close>

lemma count_phases_totals:
  "count_phases obs a f t = Inr (Some (a', f', t')) \<Longrightarrow>
     a' = a + phase_total ''acquisition'' obs \<and> f' = f + phase_total ''finalization'' obs
     \<and> t' = t + phase_total ''terminal'' obs"
proof (induction obs a f t rule: count_phases.induct)
  case (1 a f t)
  then show ?case by (simp add: phase_total_def)
next
  case (2 ob obs a f t)
  show ?case
  proof (cases "observed_phase ob")
    case None
    with 2(4) show ?thesis by simp
  next
    case (Some p)
    show ?thesis
    proof (cases "p = JStr ''terminal''")
      case True
      with Some 2 show ?thesis by (simp add: phase_total_def)
    next
      case False
      with Some 2(4) obtain s where s: "p = JStr s" "s \<in> {''acquisition'', ''finalization''}"
        by (cases p) (auto simp: bind_Inr_iff split: if_splits)
      then show ?thesis
      proof (cases "s = ''acquisition''")
        case True
        with Some False s 2 show ?thesis by (simp add: phase_total_def)
      next
        case sf: False
        with s(2) have "s = ''finalization''" by simp
        with Some False s 2 show ?thesis by (simp add: phase_total_def)
      qed
    qed
  qed
qed

definition phases_accounted :: "boundary_record list \<Rightarrow> request_record \<Rightarrow> bool" where
  "phases_accounted obs r \<longleftrightarrow>
     dget (rq_phases r) ''acquisition'' = Some (phase_total ''acquisition'' (attempts_of obs r))
     \<and> dget (rq_phases r) ''finalization'' = Some (phase_total ''finalization'' (attempts_of obs r))
     \<and> rq_retries r = rq_attempts r - int (card {p \<in> {''acquisition'', ''finalization'', ''terminal''}.
           0 < phase_total p (attempts_of obs r)})"

lemma truth_card:
  assumes "distinct [x, y, z]"
  shows "truth (P x) + truth (P y) + truth (P z) = int (card {p \<in> {x, y, z}. P p})"
proof -
  have "{p \<in> {x, y, z}. P p}
      = (if P x then {x} else {}) \<union> (if P y then {y} else {}) \<union> (if P z then {z} else {})" by auto
  with assms show ?thesis by (auto simp: truth_def card_insert_if)
qed

lemma accounted_selected:
  assumes "accounted obs r"
  shows "selected_attempts obs r = None \<or> selected_attempts obs r = Some (attempts_of obs r)"
proof (cases "rq_local r \<or> rq_attempts r = 0")
  case True
  with assms have "rq_start r = None" by (auto simp: accounted_def projection_record_def)
  with True show ?thesis by (simp add: selected_attempts_def attempts_of_def)
next
  case False
  then show ?thesis by (auto simp: selected_attempts_def attempts_of_def split: option.splits)
qed

lemma phases_match:
  assumes "phase_counts_match obs rs = Inr True" "list_all (accounted obs) rs"
  shows "list_all (phases_accounted obs) rs"
  using assms
proof (induction rs)
  case (Cons r rs)
  let ?sel = "attempts_of obs r"
  have "accounted obs r" using Cons.prems(2) by simp
  then have sel: "selected_attempts obs r = None \<or> selected_attempts obs r = Some ?sel" by (rule accounted_selected)
  with Cons.prems(1) have sel: "selected_attempts obs r = Some ?sel" by (auto split: if_splits)
  with Cons.prems(1) obtain counts where "count_phases ?sel 0 0 0 = Inr counts" and counts: "counts \<noteq> None"
    by (auto simp: bind_Inr_iff split: if_splits option.splits)
  then obtain a f t where c: "count_phases ?sel 0 0 0 = Inr (Some (a, f, t))" by auto
  with Cons.prems(1) sel have p: "phases_equal (rq_phases r) a f"
      "rq_retries r = rq_attempts r - (truth (0 < a) + truth (0 < f) + truth (0 < t))"
      "phase_counts_match obs rs = Inr True"
    by (simp_all split: if_splits)
  from count_phases_totals [OF c] p(1,2)
  have "phases_accounted obs r"
    using truth_card [of "''acquisition''" "''finalization''" "''terminal''" "\<lambda>p. 0 < phase_total p ?sel"]
    by (simp add: phases_accounted_def phases_equal_def)
  with Cons.IH p(3) Cons.prems(2) show ?case by simp
qed simp

section \<open>A passed session\<close>

lemma write_artifact_Inr:
  assumes "cp_result (write_artifact store artifact failure) = Inr h"
  shows "failure = None \<and> (\<exists>a t. artifact = Inr a \<and> canonical_text (JObj a) = Inr t \<and> store (utf8 (t @ [CHR 0x0A])) = None
     \<and> h = hexdigest (sha256 (utf8 (t @ [CHR 0x0A])))
     \<and> cp_artifact (write_artifact store artifact failure) = Some a)"
proof -
  have "cp_result (refused e) \<noteq> Inr h" for e by (simp add: refused_def)
  with assms obtain a where a: "artifact = Inr a"
    unfolding write_artifact_def by (cases artifact) auto
  with assms obtain t where t: "canonical_text (JObj a) = Inr t"
    unfolding write_artifact_def by (cases "canonical_text (JObj a)") (auto simp: refused_def)
  with assms a have s: "store (utf8 (t @ [CHR 0x0A])) = None"
    unfolding write_artifact_def by (cases "store (utf8 (t @ [CHR 0x0A]))") (auto simp: refused_def Let_def)
  from assms a t s show ?thesis
    unfolding write_artifact_def by (cases failure) (auto simp: fail_with_def Let_def)
qed

lemma write_artifact_refused: "cp_result (write_artifact store artifact (Some f)) \<noteq> Inr h"
  using write_artifact_Inr by blast

text \<open>What a completion that returns has been through.\<close>

definition passes_with ::
  "session \<Rightarrow> slot_context \<Rightarrow> reading \<Rightarrow> boundary_record list \<Rightarrow> request_record list \<Rightarrow> operation_summary
     \<Rightarrow> metrics_snapshot \<Rightarrow> checks \<Rightarrow> bool" where
  "passes_with s c reader obs rs model after cs \<longleftrightarrow>
     validate_context (ps_version s) c = Inr () \<and> context_matches_identity c (ps_identity s)
     \<and> reader = Snapshot after \<and> list_all (\<lambda>kv. 0 \<le> snd kv) (to_dict after)
     \<and> list_all (\<lambda>kv. 0 \<le> snd kv) (metric_deltas (ps_before s) after)
     \<and> input_failure_category obs rs model = Inr None
     \<and> run_checks c (metric_deltas (ps_before s) after) (derive obs rs model) obs rs = Inr cs
     \<and> model_operation_total_available obs \<and> failed_check_category cs = None"

lemma reconcile_Inr:
  assumes "cp_result (reconcile store s c after obs rs model) = Inr h"
  shows "\<exists>cs. list_all (\<lambda>kv. 0 \<le> snd kv) (metric_deltas (ps_before s) after)
     \<and> input_failure_category obs rs model = Inr None
     \<and> run_checks c (metric_deltas (ps_before s) after) (derive obs rs model) obs rs = Inr cs
     \<and> model_operation_total_available obs \<and> failed_check_category cs = None
     \<and> reconcile store s c after obs rs model = write_artifact store (artifact_record c None (ps_before s) (Some after)
         (metric_deltas (ps_before s) after) (derive obs rs model) cs) None"
proof -
  let ?d = "metric_deltas (ps_before s) after"
  have nr: "cp_result (refused e) \<noteq> Inr h" for e by (simp add: refused_def)
  have neg: "\<not> list_ex (\<lambda>kv. snd kv < 0) ?d"
  proof
    assume "list_ex (\<lambda>kv. snd kv < 0) ?d"
    with assms write_artifact_refused show False by (simp add: reconcile_def Let_def)
  qed
  then have d: "list_all (\<lambda>kv. 0 \<le> snd kv) ?d" by (auto simp: list_ex_iff list_all_iff)
  have i: "input_failure_category obs rs model = Inr None"
    using assms neg nr write_artifact_refused
    unfolding reconcile_def Let_def by (auto split: sum.splits option.splits)
  obtain cs where cs: "run_checks c ?d (derive obs rs model) obs rs = Inr cs"
    using assms neg nr unfolding reconcile_def Let_def i by (auto split: sum.splits)
  have av: "model_operation_total_available obs"
    using assms neg write_artifact_refused unfolding reconcile_def Let_def i cs by (auto split: if_splits)
  have r: "reconcile store s c after obs rs model
      = write_artifact store (artifact_record c (failed_check_category cs) (ps_before s) (Some after) ?d
          (derive obs rs model) cs) (failed_check_category cs)"
    using neg av unfolding reconcile_def Let_def i cs by simp
  with assms write_artifact_Inr have f: "failed_check_category cs = None" by metis
  from d i cs av f r show ?thesis by (intro exI [of _ cs]) simp
qed

lemma complete_Inr:
  assumes "cp_result (snd (complete_session store s c reader obs rs model)) = Inr h"
  shows "\<exists>after cs a t. \<not> ps_completed s \<and> passes_with s c reader obs rs model after cs
     \<and> artifact_record c None (ps_before s) (Some after) (metric_deltas (ps_before s) after) (derive obs rs model) cs = Inr a
     \<and> canonical_text (JObj a) = Inr t \<and> store (utf8 (t @ [CHR 0x0A])) = None
     \<and> h = hexdigest (sha256 (utf8 (t @ [CHR 0x0A])))
     \<and> cp_artifact (snd (complete_session store s c reader obs rs model)) = Some a"
proof -
  have nr: "cp_result (refused e) \<noteq> Inr h" for e by (simp add: refused_def)
  have nc: "\<not> ps_completed s" using assms nr by (auto simp: complete_session_def)
  have v: "validate_context (ps_version s) c = Inr ()"
    using assms nc nr by (auto simp: complete_session_def split: sum.splits)
  have m: "context_matches_identity c (ps_identity s)"
    using assms nc nr v by (auto simp: complete_session_def split: if_splits)
  obtain after where a: "read_metrics reader = Inr after"
    using assms nc nr v m write_artifact_refused
    by (cases "read_metrics reader") (auto simp: complete_session_def split: refusal.splits)
  then have sn: "reader = Snapshot after" "list_all (\<lambda>kv. 0 \<le> snd kv) (to_dict after)"
    unfolding read_metrics_def by (auto simp: fail_with_def list_ex_iff list_all_iff split: reading.splits if_splits)
  have r: "snd (complete_session store s c reader obs rs model) = reconcile store s c after obs rs model"
    using nc v m a by (simp add: complete_session_def)
  from reconcile_Inr [OF assms [unfolded r]] obtain cs where
    p: "passes_with s c reader obs rs model after cs"
    and w: "reconcile store s c after obs rs model = write_artifact store (artifact_record c None (ps_before s) (Some after)
         (metric_deltas (ps_before s) after) (derive obs rs model) cs) None"
    using v m sn unfolding passes_with_def by blast
  from write_artifact_Inr [OF assms [unfolded r w]] nc p show ?thesis unfolding r w by blast
qed

section \<open>What the checks say\<close>

lemma dget_member: "dict_ok d \<Longrightarrow> (k, v) \<in> set d \<Longrightarrow> dget d k = Some v"
  by (simp add: dict_ok_def dkeys_def dget_def)

lemma checks_keys: "run_checks c deltas derived obs rs = Inr cs \<Longrightarrow> dkeys cs = CHECK_KEYS"
  by (auto simp: run_checks_def bind_Inr_iff dkeys_def CHECK_KEYS_def)

lemma checked_keys:
  assumes "run_checks c deltas derived obs rs = Inr cs" "failed_check_category cs = None"
  shows "\<forall>k\<in>set CHECK_KEYS. dget cs k = Some True"
proof -
  have "dget FAILED_CHECK k \<noteq> None" if "k \<in> set CHECK_KEYS" for k
    using that unfolding dkeys_dget [symmetric] by (simp add: dkeys_def FAILED_CHECK_def CHECK_KEYS_def)
  then have F: "dget FAILED_CHECK k \<noteq> None" if "find P CHECK_KEYS = Some k" for P k
    using that nth_mem by (fastforce simp: find_Some_iff)
  have "find (\<lambda>k. dget cs k \<noteq> Some True) CHECK_KEYS = None"
  proof (cases "find (\<lambda>k. dget cs k \<noteq> Some True) CHECK_KEYS")
    case (Some k)
    with F [OF Some] assms(2) show ?thesis by (simp add: failed_check_category_def)
  qed
  then show ?thesis by (auto simp: find_None_iff)
qed

lemma all_checks:
  assumes "run_checks c deltas derived obs rs = Inr cs" "failed_check_category cs = None"
  shows "list_all snd cs"
proof -
  note k = checks_keys [OF assms(1)]
  have a: "\<forall>k\<in>set (dkeys cs). dget cs k = Some True" unfolding k by (rule checked_keys [OF assms])
  have o: "dict_ok cs" unfolding dict_ok_def k by (simp add: CHECK_KEYS_def)
  have "snd kv" if m: "kv \<in> set cs" for kv
  proof -
    from m have "fst kv \<in> set (dkeys cs)" by (simp add: dkeys_def)
    with a have "dget cs (fst kv) = Some True" by blast
    with dget_member [OF o, of "fst kv" "snd kv"] m show ?thesis by simp
  qed
  then show ?thesis by (simp add: list_all_iff)
qed

lemma num_derive:
  "num (derive obs rs model) ''request_count'' = int (length rs)"
  "num (derive obs rs model) ''attempt_count'' = int (length obs)"
  "num (derive obs rs model) ''successful_attempt_count'' = count_2xx obs"
  "num (derive obs rs model) ''acquisition_count'' = phase_total ''acquisition'' obs"
  "num (derive obs rs model) ''finalization_count'' = phase_total ''finalization'' obs"
  "num (derive obs rs model) ''successful_corrections'' = sum_of rq_corrections rs"
  "num (derive obs rs model) ''local_projection_count'' = sum_of (\<lambda>r. truth (rq_local r)) rs"
  "num (derive obs rs model) ''failed_request_count'' = outcome_total ''failed'' rs"
  "num (derive obs rs model) ''cancelled_request_count'' = outcome_total ''cancelled'' rs"
  "num (derive obs rs model) ''deadline_request_count'' = outcome_total ''deadline'' rs"
  "num (derive obs rs model) ''prime_count'' = os_primes model"
  "num (derive obs rs model) ''model_completed_delta'' = os_completed model"
  by (simp_all add: num_def dget_def derive_def)

lemma num_deltas:
  assumes "k \<in> set METRIC_KEYS"
  shows "num (metric_deltas before after) k = num (to_dict after) k - num (to_dict before) k"
proof -
  have "map_of (map (\<lambda>k. (k, f k)) ks) k = (if k \<in> set ks then Some (f k) else None)" for f :: "string \<Rightarrow> int" and ks
    by (induction ks) auto
  with assms have "dget (metric_deltas before after) k = Some (num (to_dict after) k - num (to_dict before) k)"
    by (simp add: metric_deltas_def dget_def)
  then show ?thesis by (simp add: num_def [of "metric_deltas before after"])
qed

lemma complete_passes:
  assumes "\<not> ps_completed s" "passes_with s c reader obs rs model after cs"
    and "artifact_record c None (ps_before s) (Some after) (metric_deltas (ps_before s) after) (derive obs rs model) cs = Inr a"
    and "canonical_text (JObj a) = Inr t" "store (utf8 (t @ [CHR 0x0A])) = None"
  shows "snd (complete_session store s c reader obs rs model)
    = \<lparr>cp_artifact = Some a, cp_result = Inr (hexdigest (sha256 (utf8 (t @ [CHR 0x0A]))))\<rparr>"
proof -
  from assms(2) have n: "read_metrics reader = Inr after" "\<not> list_ex (\<lambda>kv. snd kv < 0) (metric_deltas (ps_before s) after)"
    unfolding passes_with_def read_metrics_def by (auto simp: list_ex_iff list_all_iff)
  with assms show ?thesis
    unfolding passes_with_def by (simp add: complete_session_def reconcile_def write_artifact_def Let_def)
qed

lemma zero_session:
  assumes "begin_session i r version = Inr s"
  shows "\<not> ps_completed s" "ps_identity s = i" "ps_version s = version" "num (to_dict (ps_before s)) k = 0"
proof -
  from assms obtain before where b: "s = \<lparr>ps_identity = i, ps_before = before, ps_version = version, ps_completed = False\<rparr>"
    "list_all (\<lambda>kv. snd kv = 0) (to_dict before)"
    unfolding begin_session_def by (auto simp: bind_Inr_iff fail_with_def list_ex_iff list_all_iff split: if_splits)
  show "\<not> ps_completed s" "ps_identity s = i" "ps_version s = version" by (simp_all add: b)
  have "i = 0" if "dget (to_dict before) k = Some i" for i
    using that b(2) map_of_SomeD [of "to_dict before" k i] by (fastforce simp: dget_def list_all_iff)
  then show "num (to_dict (ps_before s)) k = 0" by (simp add: b num_def split: option.split)
qed

lemma num_metrics:
  "num (to_dict m) ''downstream_requests'' = ms_downstream_requests m"
  "num (to_dict m) ''upstream_calls'' = ms_upstream_calls m"
  "num (to_dict m) ''blocked_duplicates'' = ms_blocked_duplicates m"
  "num (to_dict m) ''blocked_stalls'' = ms_blocked_stalls m"
  "num (to_dict m) ''correction_turns'' = ms_correction_turns m"
  "num (to_dict m) ''receipt_projections'' = ms_receipt_projections m"
  "num (to_dict m) ''local_projection_upstream_calls_avoided'' = ms_calls_avoided m"
  "num (to_dict m) ''errors'' = ms_errors m"
  "num (to_dict m) ''deadline_expiries'' = ms_deadline_expiries m"
  "num (to_dict m) ''cancellations'' = ms_cancellations m"
  "num (to_dict m) ''phase_acquisition'' = ms_phase_acquisition m"
  "num (to_dict m) ''phase_finalization'' = ms_phase_finalization m"
  "num (to_dict m) ''phase_schema_rejections'' = ms_phase_schema_rejections m"
  "num (to_dict m) ''admission_rejections'' = ms_admission_rejections m"
  "num (to_dict m) ''rate_rejections'' = ms_rate_rejections m"
  by (simp_all add: num_def to_dict_def dget_def METRIC_KEYS_def)

text \<open>The counters of the proxy agree with the two ledgers.\<close>

definition counters_agree :: "metrics_snapshot \<Rightarrow> boundary_record list \<Rightarrow> request_record list \<Rightarrow> bool" where
  "counters_agree m obs rs \<longleftrightarrow>
     ms_downstream_requests m = int (length rs) \<and> ms_upstream_calls m = int (length obs)
     \<and> ms_phase_acquisition m = phase_total ''acquisition'' obs
     \<and> ms_phase_finalization m = phase_total ''finalization'' obs
     \<and> ms_correction_turns m = sum_of rq_corrections rs
     \<and> ms_blocked_duplicates m = sum_of rq_duplicates rs \<and> ms_blocked_stalls m = sum_of rq_stalls rs
     \<and> ms_receipt_projections m = int (length (filter rq_local rs))
     \<and> ms_calls_avoided m = int (length (filter rq_local rs))
     \<and> ms_errors m = outcome_total ''failed'' rs + outcome_total ''cancelled'' rs + outcome_total ''deadline'' rs
     \<and> ms_cancellations m = outcome_total ''cancelled'' rs \<and> ms_deadline_expiries m = outcome_total ''deadline'' rs
     \<and> ms_phase_schema_rejections m = 0 \<and> ms_admission_rejections m = 0 \<and> ms_rate_rejections m = 0"

lemma sum_truth: "sum_of (\<lambda>r. truth (P r)) rs = int (length (filter P rs))"
  by (induction rs) (simp_all add: sum_of_def truth_def)

lemma all_2xx: "model_operation_total_available obs \<Longrightarrow> count_2xx obs = int (length obs)"
  by (induction obs) (simp_all add: model_operation_total_available_def count_2xx_def)

lemma checks_agree:
  assumes r: "run_checks c (metric_deltas before after) (derive obs rs model) obs rs = Inr cs" and a: "list_all snd cs"
    and z: "\<And>k. num (to_dict before) k = 0"
  shows "counters_agree after obs rs"
    "attempt_partition_matches obs rs = Inr True" "phase_counts_match obs rs = Inr True" "request_sequences_match rs"
    "os_primes model = (if ri_lane c = ''warm-prefix'' then 1 else 0)"
    "os_completed model = os_primes model + count_2xx obs"
proof -
  have d: "num (metric_deltas before after) k = num (to_dict after) k" if "k \<in> set METRIC_KEYS" for k
    using num_deltas [OF that] z by simp
  from r obtain p q where pq: "attempt_partition_matches obs rs = Inr p" "phase_counts_match obs rs = Inr q"
    unfolding run_checks_def by (auto simp: bind_Inr_iff)
  note e = r [unfolded run_checks_def pq bind_simps sum.inject, symmetric]
  note b = a [unfolded e list.pred_inject snd_conv]
  show "attempt_partition_matches obs rs = Inr True" "phase_counts_match obs rs = Inr True" "request_sequences_match rs"
    using b pq by simp_all
  show "os_primes model = (if ri_lane c = ''warm-prefix'' then 1 else 0)"
    "os_completed model = os_primes model + count_2xx obs"
    using b unfolding num_derive by simp_all
  have D: "num (metric_deltas before after) ''downstream_requests'' = ms_downstream_requests after"
    "num (metric_deltas before after) ''upstream_calls'' = ms_upstream_calls after"
    "num (metric_deltas before after) ''blocked_duplicates'' = ms_blocked_duplicates after"
    "num (metric_deltas before after) ''blocked_stalls'' = ms_blocked_stalls after"
    "num (metric_deltas before after) ''correction_turns'' = ms_correction_turns after"
    "num (metric_deltas before after) ''receipt_projections'' = ms_receipt_projections after"
    "num (metric_deltas before after) ''local_projection_upstream_calls_avoided'' = ms_calls_avoided after"
    "num (metric_deltas before after) ''errors'' = ms_errors after"
    "num (metric_deltas before after) ''deadline_expiries'' = ms_deadline_expiries after"
    "num (metric_deltas before after) ''cancellations'' = ms_cancellations after"
    "num (metric_deltas before after) ''phase_acquisition'' = ms_phase_acquisition after"
    "num (metric_deltas before after) ''phase_finalization'' = ms_phase_finalization after"
    "num (metric_deltas before after) ''phase_schema_rejections'' = ms_phase_schema_rejections after"
    "num (metric_deltas before after) ''admission_rejections'' = ms_admission_rejections after"
    "num (metric_deltas before after) ''rate_rejections'' = ms_rate_rejections after"
    unfolding num_metrics [symmetric] by (rule d, simp add: METRIC_KEYS_def)+
  show "counters_agree after obs rs"
    using b unfolding D num_derive sum_truth counters_agree_def by simp
qed

section \<open>A sample run\<close>

text \<open>One request that reached the model in both phases, and one local projection.\<close>

definition sample_context :: slot_context where
  "sample_context = (let h = replicate 64 (CHR ''a'') in
     \<lparr>ri_manifest = h, ri_campaign = h, ri_slot = 1, ri_lane = ''cold'', ri_pair = 1, ri_attestation = h,
      rc_model_evidence = h, rc_observer_ledger = h, rc_request_ledger = h, rc_timing_ledger = h\<rparr>)"

definition sample_attempt :: "int \<Rightarrow> string \<Rightarrow> boundary_record" where
  "sample_attempt n phase = \<lparr>ob_sequence = n, ob_digest = replicate 64 (CHR ''a''),
     ob_fields = [(''compatibility'', JObj [(''phase'', JStr phase)])], ob_status = Some 200\<rparr>"

definition sample_attempts :: "boundary_record list" where
  "sample_attempts = [sample_attempt 1 ''acquisition'', sample_attempt 2 ''finalization'']"

definition sample_requests :: "request_record list" where
  "sample_requests =
     [\<lparr>rq_sequence = 1, rq_outcome = ''succeeded'', rq_local = False, rq_start = Some 1, rq_end = Some 2,
       rq_attempts = 2, rq_succeeded = 2, rq_phases = [(''finalization'', 1), (''acquisition'', 1)], rq_retries = 0,
       rq_duplicates = 0, rq_stalls = 0, rq_corrections = 0, rq_avoided = 0\<rparr>,
      \<lparr>rq_sequence = 2, rq_outcome = ''succeeded'', rq_local = True, rq_start = None, rq_end = None,
       rq_attempts = 0, rq_succeeded = 0, rq_phases = [(''acquisition'', 0), (''finalization'', 0)], rq_retries = 0,
       rq_duplicates = 0, rq_stalls = 0, rq_corrections = 0, rq_avoided = 1\<rparr>]"

definition no_metrics :: metrics_snapshot where
  "no_metrics = \<lparr>ms_downstream_requests = 0, ms_upstream_calls = 0, ms_blocked_duplicates = 0, ms_blocked_stalls = 0,
     ms_correction_turns = 0, ms_receipt_projections = 0, ms_calls_avoided = 0, ms_errors = 0, ms_deadline_expiries = 0,
     ms_cancellations = 0, ms_phase_acquisition = 0, ms_phase_finalization = 0, ms_phase_schema_rejections = 0,
     ms_admission_rejections = 0, ms_rate_rejections = 0\<rparr>"

definition sample_metrics :: metrics_snapshot where
  "sample_metrics = no_metrics\<lparr>ms_downstream_requests := 2, ms_upstream_calls := 2, ms_receipt_projections := 1,
     ms_calls_avoided := 1, ms_phase_acquisition := 1, ms_phase_finalization := 1\<rparr>"

definition sample_session :: session where
  "sample_session = \<lparr>ps_identity = slot_identity.truncate sample_context, ps_before = no_metrics, ps_version = ''v2'',
     ps_completed = False\<rparr>"

lemma sample_sha256: "is_sha256 (replicate 64 (CHR ''a''))"
  by (simp add: is_sha256_def list_all_iff sha256_char_def is_digit_def)

lemma sample_begins: "begin_session (slot_identity.truncate sample_context) (Snapshot no_metrics) ''v2'' = Inr sample_session"
  by (simp add: begin_session_def validate_slot_def slot_limits_def sample_context_def Let_def slot_identity.defs
      sample_sha256 v2_slot_def read_metrics_def no_metrics_def to_dict_def METRIC_KEYS_def sample_session_def)

lemma sample_passes:
  "\<exists>cs. passes_with sample_session sample_context (Snapshot sample_metrics) sample_attempts sample_requests
     \<lparr>os_completed = 2, os_primes = 0\<rparr> sample_metrics cs \<and> list_all snd cs"
proof -
  have ov: "observers_valid 1 sample_attempts = Inr True"
    by (simp add: sample_attempts_def sample_attempt_def valid_observer_def sample_sha256 observed_phase_def get_def get_or_def dget_def)
  have sc: "list_all valid_request_scalars sample_requests"
    by (simp add: sample_requests_def valid_request_scalars_def has_phase_keys_def dkeys_def positive_or_none_def insert_commute)
  have pt: "attempt_partition_matches sample_attempts sample_requests = Inr True"
    using sc ov by (simp add: attempt_partition_matches_def sample_requests_def sample_attempts_def attempt_slice_def
        projection_record_def any_nonzero_def count_2xx_def sample_attempt_def in_2xx_def)
  have pc: "phase_counts_match sample_attempts sample_requests = Inr True"
    by (simp add: sample_requests_def sample_attempts_def has_phase_keys_def dkeys_def selected_attempts_def attempt_slice_def
        sample_attempt_def observed_phase_def get_def get_or_def dget_def phases_equal_def truth_def insert_commute)
  have ic: "input_failure_category sample_attempts sample_requests \<lparr>os_completed = 2, os_primes = 0\<rparr> = Inr None"
    using ov sc by (simp add: input_failure_category_def)
  have d: "num (metric_deltas no_metrics sample_metrics) k = num (to_dict sample_metrics) k" if "k \<in> set METRIC_KEYS" for k
    using num_deltas [OF that] zero_session(4) [OF sample_begins, of k] by (simp add: sample_session_def)
  have D: "list_all (\<lambda>k. num (metric_deltas no_metrics sample_metrics) k = num (to_dict sample_metrics) k) METRIC_KEYS"
    using d by (simp add: list_all_iff)
  note D = D [unfolded METRIC_KEYS_def list.pred_inject num_metrics]
  let ?rc = "run_checks sample_context (metric_deltas no_metrics sample_metrics)
      (derive sample_attempts sample_requests \<lparr>os_completed = 2, os_primes = 0\<rparr>) sample_attempts sample_requests"
  have rc: "?rc = Inr (map (\<lambda>k. (k, True)) CHECK_KEYS)"
    unfolding run_checks_def pt pc bind_simps num_derive CHECK_KEYS_def
    using D by (simp add: sample_metrics_def no_metrics_def sample_requests_def sample_attempts_def sample_attempt_def request_sequences_match_def
        phase_total_def observed_phase_def get_def get_or_def dget_def sum_of_def truth_def outcome_total_def
        sample_context_def Let_def count_2xx_def in_2xx_def)
  have nn: "list_all (\<lambda>kv. 0 \<le> snd kv) (metric_deltas no_metrics sample_metrics)"
    by (simp add: metric_deltas_def to_dict_def METRIC_KEYS_def num_def dget_def sample_metrics_def no_metrics_def)
  have fc: "failed_check_category (map (\<lambda>k. (k, True)) CHECK_KEYS) = None"
    by (simp add: failed_check_category_def CHECK_KEYS_def dget_def)
  have v: "validate_context ''v2'' sample_context = Inr ()"
    by (simp add: validate_context_def validate_slot_def slot_limits_def sample_context_def Let_def
        slot_identity.defs sample_sha256 v2_slot_def)
  have "passes_with sample_session sample_context (Snapshot sample_metrics) sample_attempts sample_requests
     \<lparr>os_completed = 2, os_primes = 0\<rparr> sample_metrics (map (\<lambda>k. (k, True)) CHECK_KEYS)"
    using v ic rc nn fc unfolding passes_with_def
    by (simp add: sample_session_def context_matches_identity_def slot_identity.defs to_dict_def METRIC_KEYS_def
        sample_metrics_def no_metrics_def model_operation_total_available_def sample_attempts_def sample_attempt_def in_2xx_def)
  then show ?thesis by (intro exI [of _ "map (\<lambda>k. (k, True)) CHECK_KEYS"]) (simp add: list_all_iff)
qed

section \<open>Text of the ledger\<close>

lemma utf8_bytes: "printed s \<Longrightarrow> b \<in> set (utf8 s) \<Longrightarrow> 32 \<le> b"
proof -
  assume "printed s" "b \<in> set (utf8 s)"
  then obtain c where c: "c \<in> set s" "b \<in> set (utf8_char c)" "32 \<le> ord_of c" by (auto simp: utf8_def printed_def)
  have "(of_char c :: int) = int (of_char c)" by (rule of_nat_of_char [symmetric])
  moreover have "0 \<le> (of_char c :: int) mod 64" by simp
  ultimately show ?thesis using c(2,3) of_char_bounds [of c]
    by (auto simp: utf8_char_def Let_def split: if_splits)
qed

lemma detects_object:
  assumes "\<forall>b\<in>set bs. 0 < b" "bs \<noteq> []" "hd bs = 123"
  shows "detects_utf8 bs"
proof -
  from assms(2,3) obtain r where r: "bs = 123 # r" by (cases bs) auto
  have "bs ! 1 \<noteq> 0" if "length bs = 2 \<or> 4 \<le> length bs"
    using assms(1) nth_mem [of 1 bs] that by fastforce
  then show ?thesis unfolding detects_utf8_def r by auto
qed

lemma dumps_object: "\<exists>t. dumps True a (JObj kvs) = CHR ''{'' # t"
  by (simp add: Let_def)

lemma loads_line:
  assumes "json_ok strict v" "delim t" "skip_ws t = []"
  shows "loads_with strict (dumps True a v @ t) = Inr (canon v)"
proof -
  let ?s = "dumps False a (canon v)"
  from assms(1) have "json_ok strict (canon v)" by (rule canon_ok)
  then have "scan_value (2 * length (?s @ t)) strict (?s @ t) = Inr (canon v, t)"
    using assms(2) by (intro reads_backD dumps_reads_back) simp_all
  moreover have "skip_ws (?s @ t) = ?s @ t"
    by (intro head_ok_skip_ws head_ok_append dumps_head)
  ultimately show ?thesis using assms(3) by (simp add: dumps_sorted loads_with_def)
qed

text \<open>A canonical object read back as bytes, with or without its line end.\<close>

lemma unique_document_object:
  assumes "json_ok True (JObj kvs)" "t = [] \<or> t = [CHR 0x0A]"
  shows "unique_document (utf8 (dumps True a (JObj kvs) @ t)) = Inr (canon (JObj kvs))"
proof -
  let ?s = "dumps True a (JObj kvs)"
  have p: "printed ?s" by (simp only: dumps_sorted printed_dumps)
  obtain u where u: "?s = CHR ''{'' # u" using dumps_object by blast
  have "detects_utf8 (utf8 (?s @ t))"
  proof (rule detects_object)
    have "0 < b" if "b \<in> set (utf8 ?s)" for b using utf8_bytes [OF p that] by simp
    then show "\<forall>b\<in>set (utf8 (?s @ t)). 0 < b"
      using assms(2) by (auto simp: utf8_def utf8_char_def Let_def)
    show "utf8 (?s @ t) \<noteq> []" "hd (utf8 (?s @ t)) = 123" unfolding u by (simp_all add: utf8_def utf8_char_def Let_def)
  qed
  moreover have "delim t" "skip_ws t = []" using assms(2) by (auto simp: delim_def skip_ws_def)
  ultimately show ?thesis
    using loads_line [OF assms(1), of t a] unfolding unique_document_def utf8_decode_utf8 by simp
qed

lemma byte_lines_line:
  assumes "\<forall>b\<in>set l. b \<noteq> 10 \<and> b \<noteq> 13"
  shows "byte_lines acc (l @ 10 # bs) = (acc @ l) # byte_lines [] bs"
  using assms by (induction l arbitrary: acc) simp_all

lemma byte_lines_concat:
  assumes "\<forall>l\<in>set ls. \<forall>b\<in>set l. b \<noteq> 10 \<and> b \<noteq> 13"
  shows "byte_lines [] (concat (map (\<lambda>l. l @ [10]) ls)) = ls"
  using assms by (induction ls) (simp_all add: byte_lines_line)

section \<open>The record of a line\<close>

definition sorted_phases :: "request_record \<Rightarrow> request_record" where
  "sorted_phases r = r\<lparr>rq_phases := sort_key fst (rq_phases r)\<rparr>"

definition ledger_row :: "request_record \<Rightarrow> string" where
  "ledger_row r = dumps True False (JObj (request_accounting_record_payload r))"

lemma get_canon:
  assumes "dict_ok kvs" "canon (JObj kvs) = JObj kvs'"
  shows "get kvs' k = canon (get kvs k)" "set (dkeys kvs') = set (dkeys kvs)"
proof -
  let ?m = "map (\<lambda>kv. (fst kv, canon (snd kv))) kvs"
  have k: "kvs' = sort_key fst ?m" using assms(2) by (simp add: case_prod_unfold)
  have d: "distinct (map fst ?m)" using assms(1) by (simp add: dict_ok_def dkeys_def o_def)
  have "map_of kvs' = map_of ?m"
    unfolding k using d
    by (subst map_of_inject_set) (simp_all add: distinct_keys_sort del: distinct_map map_map set_map)
  moreover have "map_of ?m = map_option canon \<circ> map_of kvs"
    by (induction kvs) (auto simp: fun_eq_iff)
  ultimately show "get kvs' k = canon (get kvs k)"
    by (cases "map_of kvs k") (simp_all add: get_def get_or_def dget_def)
  show "set (dkeys kvs') = set (dkeys kvs)" by (force simp: k dkeys_def)
qed

lemma canon_numbers: "canon (numbers_json d) = numbers_json (sort_key fst d)"
  using sort_key_map [of JInt d] by (simp add: numbers_json_def case_prod_unfold o_def)

lemma json_numbers_map: "json_numbers (map (\<lambda>(k, i). (k, JInt i)) d) = Some d"
  by (induction d) auto

lemma json_int_or_null_eq: "json_int_or_null (canon (int_or_null v)) = Some v"
  by (cases v) simp_all

lemma payload_ok:
  assumes "printable (JObj (request_accounting_record_payload r))" "dict_ok (rq_phases r)"
  shows "json_ok True (JObj (request_accounting_record_payload r))"
proof -
  have p: "json_ok True (int_or_null v)" if "printable (int_or_null v)" for v
    using that by (cases v) simp_all
  have "json_ok True (numbers_json (rq_phases r))"
    using assms by (force simp: request_accounting_record_payload_def numbers_json_def dict_ok_def dkeys_def
        list_all_iff case_prod_unfold o_def)
  with assms(1) p show ?thesis by (simp add: request_accounting_record_payload_def del: int_or_null.simps)
qed

lemma payload_dict: "dict_ok (request_accounting_record_payload r)"
  "dkeys (request_accounting_record_payload r) = REQUEST_RECORD_KEYS"
  by (simp_all add: dict_ok_def dkeys_def request_accounting_record_payload_def REQUEST_RECORD_KEYS_def)

lemma payload_get:
  "get (request_accounting_record_payload r) ''sequence'' = JInt (rq_sequence r)"
  "get (request_accounting_record_payload r) ''outcome'' = JStr (rq_outcome r)"
  "get (request_accounting_record_payload r) ''local_projection'' = JBool (rq_local r)"
  "get (request_accounting_record_payload r) ''attempt_sequence_start'' = int_or_null (rq_start r)"
  "get (request_accounting_record_payload r) ''attempt_sequence_end'' = int_or_null (rq_end r)"
  "get (request_accounting_record_payload r) ''attempt_count'' = JInt (rq_attempts r)"
  "get (request_accounting_record_payload r) ''successful_attempt_count'' = JInt (rq_succeeded r)"
  "get (request_accounting_record_payload r) ''phase_counts'' = numbers_json (rq_phases r)"
  "get (request_accounting_record_payload r) ''retry_attempt_count'' = JInt (rq_retries r)"
  "get (request_accounting_record_payload r) ''correction_count'' = JInt (rq_corrections r)"
  "get (request_accounting_record_payload r) ''blocked_duplicate_count'' = JInt (rq_duplicates r)"
  "get (request_accounting_record_payload r) ''blocked_stall_count'' = JInt (rq_stalls r)"
  "get (request_accounting_record_payload r) ''avoided_immediate_upstream_calls'' = JInt (rq_avoided r)"
  by (simp_all add: request_accounting_record_payload_def get_def get_or_def dget_def)

lemma record_round_trip:
  assumes "canon (JObj (request_accounting_record_payload r)) = JObj kvs"
  shows "record_of_json kvs = Some (sorted_phases r)" "set (dkeys kvs) = set REQUEST_RECORD_KEYS"
proof -
  note g = get_canon [OF payload_dict(1) assms]
  show "set (dkeys kvs) = set REQUEST_RECORD_KEYS" using g(2) payload_dict(2) by simp
  have n: "canon (numbers_json (rq_phases r)) = JObj (map (\<lambda>(k, i). (k, JInt i)) (sort_key fst (rq_phases r)))"
    unfolding canon_numbers by (simp add: numbers_json_def)
  show "record_of_json kvs = Some (sorted_phases r)"
    unfolding record_of_json_def list.map g(1) payload_get n
    by (simp add: json_numbers_map json_int_or_null_eq sorted_phases_def)
qed

lemma sorted_phases_valid: "valid_request_ledger_scalars (sorted_phases r) = valid_request_ledger_scalars r"
proof -
  have "has_phase_keys (sort_key fst d) = has_phase_keys d" "any_nonzero (sort_key fst d) = any_nonzero d" for d
    by (simp_all add: has_phase_keys_def dkeys_def any_nonzero_def list_ex_iff)
  then show ?thesis
    by (simp add: valid_request_ledger_scalars_def valid_request_scalars_def projection_record_def sorted_phases_def list_all_iff)
qed

lemma sequences_iff: "request_sequences_match rs \<longleftrightarrow> (\<forall>i<length rs. rq_sequence (rs ! i) = 1 + int i)"
  by (auto simp: request_sequences_match_def list_all_length nth_enumerate_eq)

lemma ledger_line_row:
  assumes "printable (JObj (request_accounting_record_payload r))" "dict_ok (rq_phases r)" "valid_request_ledger_scalars r"
  shows "ledger_line (utf8 (ledger_row r)) = Inr (sorted_phases r)"
proof -
  obtain kvs where k: "canon (JObj (request_accounting_record_payload r)) = JObj kvs" by simp
  have "unique_document (utf8 (ledger_row r)) = Inr (JObj kvs)"
    using unique_document_object [OF payload_ok [OF assms(1,2)], of "[]"] unfolding ledger_row_def k by simp
  with record_round_trip [OF k] assms(3) show ?thesis by (simp add: ledger_line_def sorted_phases_valid)
qed

lemma ledger_text_rows:
  "ledger_text rs = Inr bs \<Longrightarrow> list_all (\<lambda>r. printable (JObj (request_accounting_record_payload r))) rs
     \<and> bs = concat (map (\<lambda>l. l @ [10]) (map (utf8 \<circ> ledger_row) rs))"
proof (induction rs arbitrary: bs)
  case (Cons r rs)
  then show ?case
    by (auto simp: bind_Inr_iff canonical_text_def ledger_row_def simp del: printable.simps dumps.simps split: if_splits)
qed simp

lemma ledger_lines_rows:
  "list_all (\<lambda>r. ledger_line (row r) = Inr (f r)) rs \<Longrightarrow> ledger_lines (map row rs) = Inr (map f rs)"
  by (induction rs) simp_all

section \<open>The artifact of a passed run\<close>

lemma be_bytes_range: "b \<in> set (be_bytes n v) \<Longrightarrow> 0 \<le> b \<and> b < 256"
  by (induction n v rule: be_bytes.induct) auto

lemma hexdigest_value: "is_sha256 (hexdigest (sha256 bs))"
proof -
  have "sha256_char (hex_char n)" if "0 \<le> n" "n < 16" for n :: int
  proof -
    have o: "int (ord_of (char_of m)) = m" if "0 \<le> m" "m < 256" for m :: int
      unfolding of_nat_of_char of_char_of using that by (simp add: take_bit_eq_mod)
    show ?thesis
    proof (cases "n < 10")
      case True
      with o [of "48 + n"] that show ?thesis by (simp add: hex_char_def sha256_char_def is_digit_def)
    next
      case False
      with o [of "87 + n"] that have "97 \<le> ord_of (char_of (87 + n))" "ord_of (char_of (87 + n)) \<le> 102" by linarith+
      with False show ?thesis by (simp add: hex_char_def sha256_char_def)
    qed
  qed
  moreover have "0 \<le> b \<and> b < 256" if "b \<in> set (sha256 bs)" for b bs
    using that be_bytes_range by (auto simp: sha256_def Let_def)
  then have "0 \<le> b div 16 \<and> b div 16 < 16 \<and> 0 \<le> b mod 16 \<and> b mod 16 < 16" if "b \<in> set (sha256 bs)" for b bs
  proof -
    have "0 \<le> b" "b < 256" using \<open>\<And>b bs. b \<in> set (sha256 bs) \<Longrightarrow> 0 \<le> b \<and> b < 256\<close> [OF that] by blast+
    then show ?thesis by simp linarith
  qed
  ultimately have "list_all sha256_char (hexdigest (sha256 bs))"
    unfolding hexdigest_def list_all_iff by auto
  moreover have "length (hexdigest (sha256 bs)) = 64" by simp
  ultimately show ?thesis by (simp add: is_sha256_def)
qed

lemma sha256_hex_value: "is_sha256 (sha256_hex s)"
  by (simp add: sha256_hex_def hexdigest_value)

lemma canon_table:
  assumes "\<And>k. k \<in> set keys \<Longrightarrow> canon (f k) = f k \<and> P (f k)"
  shows "all_values P keys (canon (JObj (map (\<lambda>k. (k, f k)) keys)))"
proof -
  have "map (\<lambda>(k, v). (k, canon v)) (map (\<lambda>k. (k, f k)) keys) = map (\<lambda>k. (k, f k)) keys"
    using assms by simp
  then have "canon (JObj (map (\<lambda>k. (k, f k)) keys)) = JObj (sort_key fst (map (\<lambda>k. (k, f k)) keys))"
    by (simp only: canon.simps)
  then show ?thesis using assms by (auto simp: all_values_def dkeys_def list_all_iff image_image)
qed

lemma json_ok_table:
  assumes "distinct keys" "\<And>k. k \<in> set keys \<Longrightarrow> json_ok True (f k)"
  shows "json_ok True (JObj (map (\<lambda>k. (k, f k)) keys))"
  using assms by (auto simp: o_def)

lemma keys_distinct: "distinct METRIC_KEYS" "distinct DERIVED_KEYS" "distinct CHECK_KEYS" "distinct ARTIFACT_KEYS"
  by (simp_all add: METRIC_KEYS_def DERIVED_KEYS_def CHECK_KEYS_def ARTIFACT_KEYS_def)

lemma artifact_gets:
  "get (artifact_fields c f b x deltas derived cs) ''schema_version'' = JStr ''2.0''"
  "get (artifact_fields c f b x deltas derived cs) ''record_type'' = JStr ''qualification_proxy_reconciliation''"
  "get (artifact_fields c f b x deltas derived cs) ''status'' = JStr (if f = None then ''passed'' else ''failed'')"
  "get (artifact_fields c f b x deltas derived cs) ''failure_category'' = (case f of None \<Rightarrow> JNull | Some v \<Rightarrow> JStr v)"
  "get (artifact_fields c f b x deltas derived cs) ''run_manifest_sha256'' = JStr (ri_manifest c)"
  "get (artifact_fields c f b x deltas derived cs) ''campaign_id_sha256'' = JStr (ri_campaign c)"
  "get (artifact_fields c f b x deltas derived cs) ''slot_ordinal'' = JInt (ri_slot c)"
  "get (artifact_fields c f b x deltas derived cs) ''cache_lane'' = JStr (ri_lane c)"
  "get (artifact_fields c f b x deltas derived cs) ''pair_index'' = JInt (ri_pair c)"
  "get (artifact_fields c f b x deltas derived cs) ''attestation_sha256'' = JStr (ri_attestation c)"
  "get (artifact_fields c f b x deltas derived cs) ''model_evidence_sha256'' = JStr (rc_model_evidence c)"
  "get (artifact_fields c f b x deltas derived cs) ''observer_ledger_sha256'' = JStr (rc_observer_ledger c)"
  "get (artifact_fields c f b x deltas derived cs) ''request_ledger_sha256'' = JStr (rc_request_ledger c)"
  "get (artifact_fields c f b x deltas derived cs) ''timing_ledger_sha256'' = JStr (rc_timing_ledger c)"
  "get (artifact_fields c f b x deltas derived cs) ''before_metrics_sha256'' = JStr b"
  "get (artifact_fields c f b x deltas derived cs) ''after_metrics_sha256'' = x"
  "get (artifact_fields c f b x deltas derived cs) ''deltas'' = JObj (map (\<lambda>k. (k, JInt (num deltas k))) METRIC_KEYS)"
  "get (artifact_fields c f b x deltas derived cs) ''derived'' = JObj (map (\<lambda>k. (k, JInt (num derived k))) DERIVED_KEYS)"
  "get (artifact_fields c f b x deltas derived cs) ''checks'' = JObj (map (\<lambda>k. (k, JBool (dget cs k = Some True))) CHECK_KEYS)"
  by (simp_all add: artifact_fields_def get_def get_or_def dget_def)

lemma artifact_keys: "dkeys (artifact_fields c f b x deltas derived cs) = ARTIFACT_KEYS"
  by (simp add: artifact_fields_def dkeys_def ARTIFACT_KEYS_def)

text \<open>What the printer accepts of an artifact, the reader accepts.\<close>

lemma artifact_ok:
  assumes "printable (JObj (artifact_fields c f b (JStr x) deltas derived cs))"
  shows "json_ok True (JObj (artifact_fields c f b (JStr x) deltas derived cs))"
proof -
  have d: "distinct (map fst (artifact_fields c f b (JStr x) deltas derived cs))"
    using artifact_keys [of c f b "JStr x" deltas derived cs] keys_distinct(4) by (simp add: dkeys_def)
  have t: "json_ok True (JObj (map (\<lambda>k. (k, g k)) keys))"
    if "printable (JObj (map (\<lambda>k. (k, g k)) keys))" "distinct keys" "\<And>k. printable (g k) \<Longrightarrow> json_ok True (g k)"
    for keys :: "string list" and g
    using that by (intro json_ok_table) (auto simp: list_all_iff)
  have "json_ok True (snd kv)" if "kv \<in> set (artifact_fields c f b (JStr x) deltas derived cs)" for kv
  proof -
    have p: "printable (snd kv)" using assms that by (simp add: list_all_iff)
    have pr: "printable v" if "(k, v) \<in> set (artifact_fields c f b (JStr x) deltas derived cs)" for k v
      using assms that by (force simp: list_all_iff)
    have "json_ok True (JObj (map (\<lambda>k. (k, JInt (num deltas k))) METRIC_KEYS))"
      by (rule t [OF pr [of "''deltas''"] keys_distinct(1)]) (simp_all add: artifact_fields_def)
    moreover have "json_ok True (JObj (map (\<lambda>k. (k, JInt (num derived k))) DERIVED_KEYS))"
      by (rule t [OF pr [of "''derived''"] keys_distinct(2)]) (simp_all add: artifact_fields_def)
    moreover have "json_ok True (JObj (map (\<lambda>k. (k, JBool (dget cs k = Some True))) CHECK_KEYS))"
      by (rule t [OF pr [of "''checks''"] keys_distinct(3)]) (simp_all add: artifact_fields_def)
    ultimately show ?thesis using that p unfolding artifact_fields_def
      by (auto simp del: json_ok.simps(4) printable.simps(3) split: option.splits if_splits)
  qed
  with d show ?thesis by simp
qed

section \<open>The length of printed text\<close>

fun text_bound :: "json \<Rightarrow> nat" where
  "text_bound JNull = 4"
| "text_bound (JBool b) = 5"
| "text_bound (JInt i) = Suc (length (dec_digits (nat \<bar>i\<bar>)))"
| "text_bound (JFloat f) = length (float_text f)"
| "text_bound (JStr s) = 2 + 6 * length s"
| "text_bound (JArr vs) = 2 + sum_list (map (\<lambda>v. Suc (text_bound v)) vs)"
| "text_bound (JObj kvs) = 2 + sum_list (map (\<lambda>kv. 4 + 6 * length (fst kv) + text_bound (snd kv)) kvs)"

lemma length_join: "length (join [c] xs) \<le> sum_list (map (\<lambda>x. Suc (length x)) xs)"
  by (induction "[c]" xs rule: join.induct) auto

lemma length_quote: "length (quote_string a s) \<le> 2 + 6 * length s"
proof -
  have "length (escape_char a c) \<le> 6" for c by (simp add: escape_char_def)
  then have "length (concat (map (escape_char a) s)) \<le> 6 * length s"
    by (induction s) (simp_all add: add_mono)
  then show ?thesis by (simp add: quote_string_def)
qed

lemma length_dumps: "length (dumps False a v) \<le> text_bound v"
proof (induction v)
  case (JStr s)
  then show ?case using length_quote [of a s] by simp
next
  case (JArr vs)
  have "length (join '','' (map (dumps False a) vs)) \<le> sum_list (map (\<lambda>v. Suc (length (dumps False a v))) vs)"
    using length_join [of _ "map (dumps False a) vs"] by (simp add: o_def)
  also have "\<dots> \<le> sum_list (map (\<lambda>v. Suc (text_bound v)) vs)"
    using JArr by (intro sum_list_mono) simp
  finally show ?case by simp
next
  case (JObj kvs)
  have "length (join '','' (map (\<lambda>(k, t). quote_string a k @ '':'' @ t) (map (\<lambda>(k, v). (k, dumps False a v)) kvs)))
      \<le> sum_list (map (\<lambda>kv. Suc (length (quote_string a (fst kv) @ '':'' @ dumps False a (snd kv)))) kvs)"
    using length_join [of _ "map (\<lambda>(k, t). quote_string a k @ '':'' @ t) (map (\<lambda>(k, v). (k, dumps False a v)) kvs)"]
    by (simp add: o_def case_prod_unfold)
  also have "\<dots> \<le> sum_list (map (\<lambda>kv. 4 + 6 * length (fst kv) + text_bound (snd kv)) kvs)"
  proof (rule sum_list_mono)
    fix kv assume kv: "kv \<in> set kvs"
    have "length (dumps False a (snd kv)) \<le> text_bound (snd kv)"
      by (rule JObj [OF kv]) (simp add: prod_set_simps snds.intros)
    with length_quote [of a "fst kv"]
    show "Suc (length (quote_string a (fst kv) @ '':'' @ dumps False a (snd kv))) \<le> 4 + 6 * length (fst kv) + text_bound (snd kv)"
      by simp
  qed
  finally show ?case by simp
qed (simp_all add: int_text_def)

lemma text_bound_canon: "text_bound (canon v) = text_bound v"
proof (induction v)
  case (JArr vs)
  then show ?case by (simp add: o_def cong: map_cong)
next
  case (JObj kvs)
  let ?f = "\<lambda>kv. 4 + 6 * length (fst kv) + text_bound (snd kv)"
  let ?m = "map (\<lambda>kv. (fst kv, canon (snd kv))) kvs"
  have "sum_list (map ?f (sort_key fst ?m)) = sum_list (map ?f ?m)"
    by (simp flip: sum_mset_sum_list del: map_map)
  also have "\<dots> = sum_list (map ?f kvs)"
  proof -
    have "text_bound (canon (snd kv)) = text_bound (snd kv)" if "kv \<in> set kvs" for kv
      using that by (rule JObj) (simp add: prod_set_simps snds.intros)
    then show ?thesis by (simp add: o_def cong: map_cong)
  qed
  finally show ?case by (simp add: case_prod_unfold)
qed simp_all

lemma length_utf8: "length (utf8 s) \<le> 2 * length s"
proof (induction s)
  case (Cons c s)
  have "length (utf8_char c) \<le> 2" by (simp add: utf8_char_def Let_def)
  with Cons show ?case unfolding utf8_def by simp
qed (simp add: utf8_def)

lemma length_table:
  assumes "\<And>k. k \<in> set keys \<Longrightarrow> text_bound (f k) \<le> b"
  shows "text_bound (JObj (map (\<lambda>k. (k, f k)) keys)) \<le> 2 + sum_list (map (\<lambda>k. 4 + 6 * length k) keys) + length keys * b"
  using assms
proof (induction keys)
  case (Cons k keys)
  have "text_bound (f k) \<le> b" by (rule Cons.prems) simp
  moreover have "text_bound (JObj (map (\<lambda>k. (k, f k)) keys)) \<le> 2 + sum_list (map (\<lambda>k. 4 + 6 * length k) keys) + length keys * b"
    by (rule Cons.IH) (rule Cons.prems, simp)
  ultimately show ?case by simp
qed simp

lemma text_bound_object:
  "text_bound (JObj []) = 2"
  "text_bound (JObj ((k, v) # kvs)) = 4 + 6 * length k + text_bound v + text_bound (JObj kvs)"
  by simp_all

text \<open>The artifact of a valid context is far below the bound of the reader.\<close>

lemma artifact_size:
  assumes v: "validate_context version c = Inr ()" and x: "length b = 64" "length x = 64"
    and p: "printable (JObj (artifact_fields c None b (JStr x) deltas derived cs))"
  shows "length (utf8 (dumps True False (JObj (artifact_fields c None b (JStr x) deltas derived cs)) @ [CHR 0x0A]))
    \<le> MAX_PRIVATE_LEDGER_BYTES"
proof -
  let ?a = "artifact_fields c None b (JStr x) deltas derived cs"
  have l: "length (ri_manifest c) = 64" "length (ri_campaign c) = 64" "length (ri_attestation c) = 64"
    "length (rc_model_evidence c) = 64" "length (rc_observer_ledger c) = 64" "length (rc_request_ledger c) = 64"
    "length (rc_timing_ledger c) = 64" "length (ri_lane c) \<le> 11"
    using v unfolding validate_context_def validate_slot_def
    by (auto simp: bind_Inr_iff fail_with_def is_sha256_def slot_identity.defs split: option.splits if_splits)
  have pr: "printable w" if "(k, w) \<in> set ?a" for k w
    using p that by (force simp: list_all_iff)
  have i: "text_bound (JInt n) \<le> 4301" if "printable (JInt n)" for n
    using that by (simp add: int_digit_limit_def)
  have slot: "text_bound (JInt (ri_slot c)) \<le> 4301" "text_bound (JInt (ri_pair c)) \<le> 4301"
    by (rule i, rule pr [of "''slot_ordinal''"], simp add: artifact_fields_def)
      (rule i, rule pr [of "''pair_index''"], simp add: artifact_fields_def)
  have "printable (JObj (map (\<lambda>k. (k, JInt (num deltas k))) METRIC_KEYS))"
    by (rule pr [of "''deltas''"]) (simp add: artifact_fields_def)
  then have d: "text_bound (JInt (num deltas k)) \<le> 4301" if "k \<in> set METRIC_KEYS" for k
    using that i by (simp add: list_all_iff del: printable.simps(1) text_bound.simps)
  have "printable (JObj (map (\<lambda>k. (k, JInt (num derived k))) DERIVED_KEYS))"
    by (rule pr [of "''derived''"]) (simp add: artifact_fields_def)
  then have v: "text_bound (JInt (num derived k)) \<le> 4301" if "k \<in> set DERIVED_KEYS" for k
    using that i by (simp add: list_all_iff del: printable.simps(1) text_bound.simps)
  have "text_bound (JObj (map (\<lambda>k. (k, JInt (num deltas k))) METRIC_KEYS))
      \<le> 2 + sum_list (map (\<lambda>k. 4 + 6 * length k) METRIC_KEYS) + length METRIC_KEYS * 4301"
    by (rule length_table) (rule d)
  also have "\<dots> \<le> 80000" by (simp add: METRIC_KEYS_def)
  finally have D: "text_bound (JObj (map (\<lambda>k. (k, JInt (num deltas k))) METRIC_KEYS)) \<le> 80000" .
  have "text_bound (JObj (map (\<lambda>k. (k, JInt (num derived k))) DERIVED_KEYS))
      \<le> 2 + sum_list (map (\<lambda>k. 4 + 6 * length k) DERIVED_KEYS) + length DERIVED_KEYS * 4301"
    by (rule length_table) (rule v)
  also have "\<dots> \<le> 80000" by (simp add: DERIVED_KEYS_def)
  finally have V: "text_bound (JObj (map (\<lambda>k. (k, JInt (num derived k))) DERIVED_KEYS)) \<le> 80000" .
  have "text_bound (JObj (map (\<lambda>k. (k, JBool (dget cs k = Some True))) CHECK_KEYS))
      \<le> 2 + sum_list (map (\<lambda>k. 4 + 6 * length k) CHECK_KEYS) + length CHECK_KEYS * 5"
    by (rule length_table) simp
  also have "\<dots> \<le> 80000" by (simp add: CHECK_KEYS_def)
  finally have C: "text_bound (JObj (map (\<lambda>k. (k, JBool (dget cs k = Some True))) CHECK_KEYS)) \<le> 80000" .
  from D V C have "text_bound (JObj ?a) \<le> 300000"
    using slot l x unfolding artifact_fields_def text_bound_object
    by (simp del: text_bound.simps(3,7))
  then have "length (dumps True False (JObj ?a)) \<le> 300000"
    using length_dumps [of False "canon (JObj ?a)"] text_bound_canon [of "JObj ?a"] by (simp only: dumps_sorted)
  then show ?thesis
    using length_utf8 [of "dumps True False (JObj ?a) @ [CHR 0x0A]"] by (simp add: MAX_PRIVATE_LEDGER_BYTES_def del: dumps.simps utf8_append)
qed

lemma derived_nonnegative:
  assumes "input_failure_category obs rs model = Inr None" "k \<in> set DERIVED_KEYS"
  shows "0 \<le> num (derive obs rs model) k"
proof -
  from assms(1) have m: "0 \<le> os_completed model" "0 \<le> os_primes model" and v: "list_all valid_request_scalars rs"
    unfolding input_failure_category_def by (auto simp: bind_Inr_iff split: if_splits)
  have "0 \<le> rq_corrections r \<and> 0 \<le> rq_retries r" if "r \<in> set rs" for r
    using v that by (simp add: list_all_iff valid_request_scalars_def)
  then have s: "0 \<le> sum_of rq_corrections rs" "0 \<le> sum_of rq_retries rs" "0 \<le> sum_of (\<lambda>r. truth (rq_local r)) rs"
    by (auto simp: sum_of_def truth_def intro!: sum_list_nonneg)
  have "count_2xx obs \<le> int (length obs)" by (simp add: count_2xx_def)
  then have "list_all (\<lambda>kv. 0 \<le> snd kv) (derive obs rs model)"
    using m s by (simp add: derive_def count_2xx_def phase_total_def outcome_total_def)
  then show ?thesis
    using map_of_SomeD [of "derive obs rs model" k]
    by (fastforce simp: num_def dget_def list_all_iff split: option.split)
qed

lemma deltas_nonnegative:
  assumes "list_all (\<lambda>kv. 0 \<le> snd kv) d"
  shows "0 \<le> num d k"
  using assms map_of_SomeD [of d k] by (fastforce simp: num_def dget_def list_all_iff split: option.split)

lemma accepted_context:
  assumes c: "canon (JObj (artifact_fields c f b x deltas derived cs)) = JObj v" and v: "validate_context version c = Inr ()"
  shows "artifact_context version (JObj v) = Some c"
proof -
  have o: "dict_ok (artifact_fields c f b x deltas derived cs)"
    unfolding dict_ok_def artifact_keys by (rule keys_distinct)
  have "those (map (\<lambda>k. case get v k of JStr s \<Rightarrow> Some s | _ \<Rightarrow> None)
      [''run_manifest_sha256'', ''campaign_id_sha256'', ''cache_lane'', ''attestation_sha256'',
       ''model_evidence_sha256'', ''observer_ledger_sha256'', ''request_ledger_sha256'', ''timing_ledger_sha256''])
    = Some [ri_manifest c, ri_campaign c, ri_lane c, ri_attestation c, rc_model_evidence c, rc_observer_ledger c,
        rc_request_ledger c, rc_timing_ledger c]"
    by (simp add: get_canon(1) [OF o c] artifact_gets)
  moreover have "json_int (get v ''slot_ordinal'') = Some (ri_slot c)" "json_int (get v ''pair_index'') = Some (ri_pair c)"
    unfolding get_canon(1) [OF o c] artifact_gets by simp_all
  moreover have e: "\<lparr>ri_manifest = ri_manifest c, ri_campaign = ri_campaign c, ri_slot = ri_slot c, ri_lane = ri_lane c,
      ri_pair = ri_pair c, ri_attestation = ri_attestation c, rc_model_evidence = rc_model_evidence c,
      rc_observer_ledger = rc_observer_ledger c, rc_request_ledger = rc_request_ledger c,
      rc_timing_ledger = rc_timing_ledger c\<rparr> = c" by (cases c) simp
  ultimately show ?thesis
    unfolding artifact_context_def by (simp only: json.case Let_def option.case list.case prod.case v e sum.case unit.case)
qed

lemma accepted_artifact:
  assumes c: "canon (JObj (artifact_fields c None (sha256_hex s) (JStr (sha256_hex t)) deltas derived cs)) = JObj v"
    and d: "\<And>k. 0 \<le> num deltas k" "\<And>k. k \<in> set DERIVED_KEYS \<Longrightarrow> 0 \<le> num derived k"
    and k: "\<forall>k\<in>set CHECK_KEYS. dget cs k = Some True"
  shows "valid_passed_artifact (JObj v) c"
proof -
  have o: "dict_ok (artifact_fields c None (sha256_hex s) (JStr (sha256_hex t)) deltas derived cs)"
    unfolding dict_ok_def artifact_keys by (rule keys_distinct)
  note g = get_canon [OF o c]
  have tables: "all_values nonnegative_int METRIC_KEYS (get v ''deltas'')"
    "all_values nonnegative_int DERIVED_KEYS (get v ''derived'')"
    "all_values (\<lambda>item. item = JBool True) CHECK_KEYS (get v ''checks'')"
    unfolding g(1) artifact_gets using d k by (intro canon_table; simp add: nonnegative_int_def)+
  have keys: "set (dkeys v) = set ARTIFACT_KEYS" using g(2) unfolding artifact_keys .
  show ?thesis
    unfolding valid_passed_artifact_def json.case using keys tables
    unfolding g(1) artifact_gets by (simp add: sha256_value_def sha256_hex_value)
qed

section \<open>Properties\<close>

text \<open>
  C31: A passed reconciliation accounts for everything the proxy did. When a session that began on zero
  counters completes, the requests' intervals cut the observed attempts into consecutive pieces that
  together are exactly what the observer saw; each request's counts, phases and retries are those of its
  own attempts and a local projection has none; every attempt succeeded; the counters of the proxy agree
  with both ledgers; and the model completed one operation per attempt, and the prime of a warm lane.
\<close>

theorem passed_run_is_accounted:
  assumes "begin_session i reader0 version = Inr s"
    and "cp_result (snd (complete_session store s c reader obs rs model)) = Inr h"
  shows "\<exists>after. reader = Snapshot after \<and> counters_agree after obs rs
    \<and> concat (map (attempts_of obs) rs) = obs \<and> list_all (accounted obs) rs \<and> list_all (phases_accounted obs) rs
    \<and> list_all (\<lambda>ob. in_2xx (ob_status ob)) obs
    \<and> os_primes model = (if ri_lane i = ''warm-prefix'' then 1 else 0)
    \<and> os_completed model = os_primes model + int (length obs)"
proof -
  note z = zero_session [OF assms(1)]
  from complete_Inr [OF assms(2)] obtain after cs where p: "passes_with s c reader obs rs model after cs" by blast
  then have r: "run_checks c (metric_deltas (ps_before s) after) (derive obs rs model) obs rs = Inr cs"
    and av: "model_operation_total_available obs" and f: "failed_check_category cs = None"
    and s: "reader = Snapshot after" and m: "ri_lane c = ri_lane i"
    using z(2) by (simp_all add: passes_with_def context_matches_identity_def)
  note k = checks_agree [OF r all_checks [OF r f] z(4)]
  have "list_all (phases_accounted obs) rs" by (rule phases_match [OF k(3) partition_attempts(2) [OF k(2)]])
  then show ?thesis
    using s k(1,5,6) partition_attempts [OF k(2)] av all_2xx [OF av] m
    by (simp add: model_operation_total_available_def)
qed

lemma small_printable: "0 \<le> i \<Longrightarrow> i < 10 \<Longrightarrow> printable (JInt i)"
proof -
  assume "0 \<le> i" "i < 10"
  then have "length (dec_digits (nat \<bar>i\<bar>)) = 1" by (subst dec_digits.simps) simp
  with int_digit_limit_pos show ?thesis by simp
qed

lemma small_numbers: "list_all (\<lambda>kv. 0 \<le> snd kv \<and> snd kv < 10) d \<Longrightarrow> printable (numbers_json d)"
  using small_printable by (auto simp: numbers_json_def list_all_iff simp del: printable.simps(1))

lemma sample_completes:
  "\<exists>h a. snd (complete_session (\<lambda>_. None) sample_session sample_context (Snapshot sample_metrics) sample_attempts
     sample_requests \<lparr>os_completed = 2, os_primes = 0\<rparr>) = \<lparr>cp_artifact = Some a, cp_result = Inr h\<rparr>"
proof -
  obtain cs where p: "passes_with sample_session sample_context (Snapshot sample_metrics) sample_attempts sample_requests
     \<lparr>os_completed = 2, os_primes = 0\<rparr> sample_metrics cs" using sample_passes by blast
  let ?d = "metric_deltas no_metrics sample_metrics"
  let ?v = "derive sample_attempts sample_requests \<lparr>os_completed = 2, os_primes = 0\<rparr>"
  have m: "printable (numbers_json (to_dict no_metrics))" "printable (numbers_json (to_dict sample_metrics))"
    by (rule small_numbers, simp add: to_dict_def METRIC_KEYS_def sample_metrics_def no_metrics_def)+
  then obtain a where a: "a = artifact_fields sample_context None (sha256_hex (dumps True False (numbers_json (to_dict no_metrics))))
      (JStr (sha256_hex (dumps True False (numbers_json (to_dict sample_metrics))))) ?d ?v cs"
    and r: "artifact_record sample_context None (ps_before sample_session) (Some sample_metrics)
      (metric_deltas (ps_before sample_session) sample_metrics) ?v cs = Inr a"
    by (simp add: artifact_record_def canonical_sha256_def canonical_text_def sample_session_def del: printable.simps dumps.simps)
  have n: "list_all (\<lambda>kv. 0 \<le> snd kv \<and> snd kv < 10) ?d" "list_all (\<lambda>kv. 0 \<le> snd kv \<and> snd kv < 10) ?v"
    by (simp_all add: metric_deltas_def to_dict_def METRIC_KEYS_def sample_metrics_def no_metrics_def num_def dget_def
        derive_def sample_attempts_def sample_attempt_def sample_requests_def count_2xx_def in_2xx_def phase_total_def
        observed_phase_def get_def get_or_def sum_of_def truth_def outcome_total_def)
  have "0 \<le> num d k \<and> num d k < 10" if "list_all (\<lambda>kv. 0 \<le> snd kv \<and> snd kv < 10) d" for d k
    using that map_of_SomeD [of d k] by (fastforce simp: num_def dget_def list_all_iff split: option.split)
  then have t: "printable (JInt (num ?d k))" "printable (JInt (num ?v k))" for k
    using n small_printable by blast+
  have "printable (JInt (ri_slot sample_context))" "printable (JInt (ri_pair sample_context))"
    by (rule small_printable; simp add: sample_context_def Let_def)+
  with t have "printable (JObj a)"
    unfolding a artifact_fields_def by (simp add: list_all_iff del: printable.simps(1))
  then obtain u where "canonical_text (JObj a) = Inr u" by (simp add: canonical_text_def del: printable.simps dumps.simps)
  from complete_passes [OF _ p r this] show ?thesis by (auto simp: sample_session_def)
qed

lemma passed_run_is_accounted_witness:
  "counters_agree sample_metrics sample_attempts sample_requests
   \<and> concat (map (attempts_of sample_attempts) sample_requests) = sample_attempts"
proof -
  obtain h a where "snd (complete_session (\<lambda>_. None) sample_session sample_context (Snapshot sample_metrics) sample_attempts
     sample_requests \<lparr>os_completed = 2, os_primes = 0\<rparr>) = \<lparr>cp_artifact = Some a, cp_result = Inr h\<rparr>"
    using sample_completes by blast
  then have "cp_result (snd (complete_session (\<lambda>_. None) sample_session sample_context (Snapshot sample_metrics) sample_attempts
     sample_requests \<lparr>os_completed = 2, os_primes = 0\<rparr>)) = Inr h" by simp
  from passed_run_is_accounted [OF sample_begins this] show ?thesis by auto
qed

text \<open>
  C32: The artifact a passed session writes is one the loader accepts: it is never too large, and
  reading back the file gives the hash the session returned and the context it was completed with.
\<close>

theorem passed_artifact_is_loaded:
  assumes "cp_result (snd (complete_session store s c reader obs rs model)) = Inr h"
    and "cp_artifact (snd (complete_session store s c reader obs rs model)) = Some a"
    and "file = utf8 (dumps True False (JObj a) @ [CHR 0x0A])"
  shows "load_passed_proxy_reconciliation (Some file) (Some c) (ps_version s) = Inr (h, c)"
proof -
  from complete_Inr [OF assms(1)] assms(2) obtain after cs t where p: "passes_with s c reader obs rs model after cs"
    and r: "artifact_record c None (ps_before s) (Some after) (metric_deltas (ps_before s) after) (derive obs rs model) cs = Inr a"
    and t: "canonical_text (JObj a) = Inr t" "h = hexdigest (sha256 (utf8 (t @ [CHR 0x0A])))"
    by auto
  from r obtain u w where a: "a = artifact_fields c None (sha256_hex u) (JStr (sha256_hex w))
      (metric_deltas (ps_before s) after) (derive obs rs model) cs"
    unfolding artifact_record_def canonical_sha256_def by (auto simp: bind_Inr_iff)
  from t have pr: "printable (JObj a)" and h: "h = hexdigest (sha256 file)"
    unfolding canonical_text_def assms(3)
    by (simp_all split: if_splits del: dumps.simps utf8_append printable.simps)
  from p have v: "validate_context (ps_version s) c = Inr ()"
    and d: "list_all (\<lambda>kv. 0 \<le> snd kv) (metric_deltas (ps_before s) after)"
    and i: "input_failure_category obs rs model = Inr None"
    and cs: "run_checks c (metric_deltas (ps_before s) after) (derive obs rs model) obs rs = Inr cs" "failed_check_category cs = None"
    by (simp_all add: passes_with_def)
  have k: "\<forall>k\<in>set CHECK_KEYS. dget cs k = Some True"
    using checked_keys [OF cs] .
  obtain doc where doc: "canon (JObj a) = JObj doc" by simp
  have "unique_document file = Inr (JObj doc)"
    unfolding assms(3) doc [symmetric] a
    by (rule unique_document_object [OF artifact_ok [OF pr [unfolded a]]]) simp
  moreover have "artifact_context (ps_version s) (JObj doc) = Some c"
    using accepted_context [OF doc [unfolded a] v] .
  moreover have "valid_passed_artifact (JObj doc) c"
    using accepted_artifact [OF doc [unfolded a] deltas_nonnegative [OF d] derived_nonnegative [OF i] k] .
  moreover have "\<not> MAX_PRIVATE_LEDGER_BYTES < length file"
    using artifact_size [OF v _ _ pr [unfolded a]] unfolding assms(3) a by simp
  ultimately show ?thesis
    using v by (simp add: load_passed_proxy_reconciliation_def handled_as_def read_private_regular_file_def h)
qed

lemma passed_artifact_is_loaded_witness:
  "\<exists>h file. load_passed_proxy_reconciliation (Some file) (Some sample_context) ''v2'' = Inr (h, sample_context)"
proof -
  obtain h a where "snd (complete_session (\<lambda>_. None) sample_session sample_context (Snapshot sample_metrics) sample_attempts
     sample_requests \<lparr>os_completed = 2, os_primes = 0\<rparr>) = \<lparr>cp_artifact = Some a, cp_result = Inr h\<rparr>"
    using sample_completes by blast
  then have "cp_result (snd (complete_session (\<lambda>_. None) sample_session sample_context (Snapshot sample_metrics) sample_attempts
     sample_requests \<lparr>os_completed = 2, os_primes = 0\<rparr>)) = Inr h"
    "cp_artifact (snd (complete_session (\<lambda>_. None) sample_session sample_context (Snapshot sample_metrics) sample_attempts
     sample_requests \<lparr>os_completed = 2, os_primes = 0\<rparr>)) = Some a" by simp_all
  from passed_artifact_is_loaded [OF this refl] show ?thesis unfolding sample_session_def session.simps by blast
qed

text \<open>
  C33: The request ledger survives its file. Whatever the writer accepted, the reader gives back
  record by record, with the phase counts in the order of their names.
\<close>

theorem request_ledger_round_trip:
  assumes w: "write_request_accounting_ledger store rs = Inr payload" and d: "list_all (\<lambda>r. dict_ok (rq_phases r)) rs"
  shows "read_request_accounting_ledger (Some payload) = Inr (map sorted_phases rs)"
proof -
  from w have n: "length rs \<le> MAX_REQUEST_RECORDS" and q: "request_sequences_match rs"
    and v: "list_all valid_request_ledger_scalars rs" and t: "ledger_text rs = Inr payload"
    and b: "length payload \<le> MAX_PRIVATE_LEDGER_BYTES"
    unfolding write_request_accounting_ledger_def
    by (auto simp: bind_Inr_iff fail_with_def split: if_splits option.splits)
  let ?rows = "map (utf8 \<circ> ledger_row) rs"
  from ledger_text_rows [OF t] have pr: "list_all (\<lambda>r. printable (JObj (request_accounting_record_payload r))) rs"
    and p: "payload = concat (map (\<lambda>l. l @ [10]) ?rows)" by blast+
  have row: "\<forall>b\<in>set (utf8 (ledger_row r)). b \<noteq> 10 \<and> b \<noteq> 13" "utf8 (ledger_row r) \<noteq> []" for r
  proof -
    have "printed (ledger_row r)" unfolding ledger_row_def dumps_sorted by (rule printed_dumps)
    then show "\<forall>b\<in>set (utf8 (ledger_row r)). b \<noteq> 10 \<and> b \<noteq> 13" using utf8_bytes by fastforce
    obtain u where "ledger_row r = CHR ''{'' # u" unfolding ledger_row_def using dumps_object by blast
    then show "utf8 (ledger_row r) \<noteq> []" by (simp add: utf8_def utf8_char_def Let_def)
  qed
  have ls: "byte_lines [] payload = ?rows" unfolding p by (rule byte_lines_concat) (use row in auto)
  have "list_all (\<lambda>r. ledger_line ((utf8 \<circ> ledger_row) r) = Inr (sorted_phases r)) rs"
    using pr d v ledger_line_row by (simp add: list_all_iff del: printable.simps)
  then have rl: "ledger_lines ?rows = Inr (map sorted_phases rs)" by (rule ledger_lines_rows)
  have "request_sequences_match (map sorted_phases rs)" using q by (simp add: sequences_iff sorted_phases_def)
  moreover have "last payload = 10" if "rs \<noteq> []"
    unfolding p using that by (cases rs rule: rev_cases) simp_all
  moreover have "payload = [] \<longleftrightarrow> rs = []" unfolding p by (cases rs) auto
  moreover have "\<not> list_ex (\<lambda>l. l = []) ?rows" using row(2) [THEN not_sym] by (auto simp: list_ex_iff)
  ultimately have "parse_request_ledger payload = Inr (map sorted_phases rs)"
    unfolding parse_request_ledger_def ls Let_def rl using n by (cases "rs = []") simp_all
  then show ?thesis using b by (simp add: read_request_accounting_ledger_def read_private_regular_file_def handled_as_def)
qed

lemma sample_ledger: "\<exists>payload. write_request_accounting_ledger (\<lambda>_. None) [hd (tl sample_requests)\<lparr>rq_sequence := 1\<rparr>] = Inr payload"
proof -
  let ?r = "hd (tl sample_requests)\<lparr>rq_sequence := 1\<rparr>"
  have n: "printable (JInt 0)" "printable (JInt 1)" by (rule small_printable; simp)+
  then have p: "printable (JObj (request_accounting_record_payload ?r))"
    by (simp add: sample_requests_def request_accounting_record_payload_def numbers_json_def del: printable.simps(1))
  let ?t = "dumps True False (JObj (request_accounting_record_payload ?r))"
  have b: "text_bound (JInt 0) = 2" "text_bound (JInt 1) = 2" by (simp_all add: dec_digits.simps [of 0] dec_digits.simps [of "Suc 0"])
  have "text_bound (JObj (request_accounting_record_payload ?r)) \<le> 5000"
    by (simp add: sample_requests_def request_accounting_record_payload_def numbers_json_def b del: text_bound.simps(3))
  then have "length ?t \<le> 5000"
    using length_dumps [of False "canon (JObj (request_accounting_record_payload ?r))"]
      text_bound_canon [of "JObj (request_accounting_record_payload ?r)"] by (simp only: dumps_sorted)
  then have "length (utf8 ?t) \<le> 10000" using length_utf8 [of ?t] by linarith
  moreover have "ledger_text [?r] = Inr (utf8 ?t @ [10])"
    using p by (simp add: canonical_text_def del: printable.simps dumps.simps)
  moreover have "valid_request_ledger_scalars ?r"
    by (simp add: sample_requests_def valid_request_ledger_scalars_def valid_request_scalars_def has_phase_keys_def
        dkeys_def positive_or_none_def projection_record_def any_nonzero_def)
  moreover have "request_sequences_match [?r]" by (simp add: request_sequences_match_def)
  ultimately show ?thesis
    by (simp add: write_request_accounting_ledger_def MAX_REQUEST_RECORDS_def MAX_PRIVATE_LEDGER_BYTES_def
        del: dumps.simps ledger_text.simps)
qed

lemma request_ledger_round_trip_witness:
  "\<exists>payload. write_request_accounting_ledger (\<lambda>_. None) [hd (tl sample_requests)\<lparr>rq_sequence := 1\<rparr>] = Inr payload
     \<and> read_request_accounting_ledger (Some payload) = Inr [sorted_phases (hd (tl sample_requests)\<lparr>rq_sequence := 1\<rparr>)]"
proof -
  obtain payload where w: "write_request_accounting_ledger (\<lambda>_. None) [hd (tl sample_requests)\<lparr>rq_sequence := 1\<rparr>] = Inr payload"
    using sample_ledger by blast
  have "list_all (\<lambda>r. dict_ok (rq_phases r)) [hd (tl sample_requests)\<lparr>rq_sequence := 1\<rparr>]"
    by (simp add: sample_requests_def dict_ok_def dkeys_def)
  from request_ledger_round_trip [OF w this] w show ?thesis by auto
qed

end
