(* ===== verification/Outcome.thy ===== *)
theory Outcome
  imports Reconciliation
begin

text \<open>
  The private artifacts a qualification stage leaves behind and their readers in
  \<open>qualification_contract.py\<close>: model evidence, the runtime attestation with its rollback identity,
  and the runtime outcome, which binds the exact bytes of the others. A file is the content that the
  private reader returns, or \<open>None\<close> where it refuses the file (missing, a link, another mode).
\<close>

section \<open>Failures and documents\<close>

text \<open>A qualification failure with its category, or an exception that is not handled.\<close>

datatype breach = Breach string | Leaves exn

definition refuse_as :: "string \<Rightarrow> breach + 'a" where
  "refuse_as category = Inl (Breach category)"

text \<open>A handler of \<open>ValueError\<close>, \<open>OSError\<close> and the decoding errors.\<close>

definition caught_as :: "string \<Rightarrow> 'a result \<Rightarrow> breach + 'a" where
  "caught_as category m =
     (case m of Inr v \<Rightarrow> Inr v
      | Inl e \<Rightarrow> if raises_value_error e then refuse_as category else Inl (Leaves e))"

definition leaving :: "'a result \<Rightarrow> breach + 'a" where
  "leaving m = (case m of Inr v \<Rightarrow> Inr v | Inl e \<Rightarrow> Inl (Leaves e))"

text \<open>
  \<open>json.loads(..., object_pairs_hook=_unique_json_object)\<close>. The constants \<open>NaN\<close> and \<open>Infinity\<close> are
  read as numbers there; a document with one of them is outside the model.
\<close>

definition no_constants :: "json result \<Rightarrow> json result" where
  "no_constants m = (case m of Inl (ValueError c) \<Rightarrow> if c = ''nonfinite'' then Inl OutsideModel else m | _ \<Rightarrow> m)"

definition unique_loads :: "bytes \<Rightarrow> json result" where
  "unique_loads bs = no_constants (unique_document bs)"

definition unique_loads_text :: "string \<Rightarrow> json result" where
  "unique_loads_text s = no_constants (loads_with True s)"

definition read_private :: "bytes option \<Rightarrow> bytes result" where
  "read_private file = (case file of None \<Rightarrow> Inl (ValueError ''file'') | Some bs \<Rightarrow> Inr bs)"

definition keys_are :: "string list \<Rightarrow> jobject \<Rightarrow> bool" where
  "keys_are keys d \<longleftrightarrow> set (dkeys d) = set keys"

definition bytes_sha256 :: "bytes \<Rightarrow> string" where
  "bytes_sha256 bs = hexdigest (sha256 bs)"

definition optional_sha256 :: "json \<Rightarrow> bool" where
  "optional_sha256 v \<longleftrightarrow> v = JNull \<or> sha256_value v"

definition all_checks :: "string list \<Rightarrow> json \<Rightarrow> bool" where
  "all_checks keys v = (case v of JObj d \<Rightarrow> keys_are keys d \<and> list_all (\<lambda>kv. snd kv = JBool True) d | _ \<Rightarrow> False)"

section \<open>Model evidence\<close>

record model_evidence =
  me_stage :: string
  me_manifest :: string
  me_identity :: string
  me_contract :: string
  me_instance :: string
  me_file :: string

definition valid_model_request_window :: "json \<Rightarrow> bool" where
  "valid_model_request_window v =
     (case v of
        JObj d \<Rightarrow> keys_are [''before'', ''after'', ''delta'', ''expected'', ''successful_measured''] d
          \<and> (case (get d ''before'', get d ''after'', get d ''delta'', get d ''expected'', get d ''successful_measured'') of
               (JInt before, JInt after, JInt delta, JInt expected, JInt successful) \<Rightarrow>
                 list_all (\<lambda>n. 0 \<le> n) [before, after, delta, expected, successful]
                 \<and> after - before = delta \<and> expected = delta \<and> successful \<le> expected
             | _ \<Rightarrow> False)
      | _ \<Rightarrow> False)"

definition valid_model_prime :: "json \<Rightarrow> bool" where
  "valid_model_prime v =
     (case v of
        JObj d \<Rightarrow> keys_are [''record_sha256'', ''count'', ''request_digest''] d
          \<and> (case get d ''count'' of
               JInt count \<Rightarrow> count \<in> {0, 1}
                 \<and> optional_sha256 (get d ''record_sha256'') \<and> optional_sha256 (get d ''request_digest'')
                 \<and> (if get d ''record_sha256'' \<noteq> JNull \<and> get d ''request_digest'' \<noteq> JNull then count = 1 else count = 0)
             | _ \<Rightarrow> False)
      | _ \<Rightarrow> False)"

definition valid_model_first_attempt :: "json \<Rightarrow> bool result" where
  "valid_model_first_attempt v =
     (case v of
        JObj d \<Rightarrow>
          (let status = get d ''status''; file = get d ''record_sha256'';
               counts = [get d ''prompt_tokens'', get d ''cached_tokens'', get d ''new_prefill_tokens'']
           in if \<not> keys_are [''record_sha256'', ''status'', ''measured_count'', ''successful_count'', ''prompt_tokens'',
                    ''cached_tokens'', ''new_prefill_tokens''] d then Inr False
              else (case (get d ''measured_count'', get d ''successful_count'') of
                  (JInt measured, JInt successful) \<Rightarrow>
                    (if measured < 0 \<or> successful < 0 \<or> measured < successful then Inr False
                     else bind (if status = JNull then Inr True else in_string_set status [''succeeded'', ''failed'']) (\<lambda>known.
                       Inr (known \<and> optional_sha256 file
                         \<and> list_all (\<lambda>item. item = JNull \<or> nonnegative_int item) counts
                         \<and> (if measured = 0 then status = JNull \<and> file = JNull \<and> list_all (\<lambda>item. item = JNull) counts
                            else status \<noteq> JNull \<and> file \<noteq> JNull \<and> list_all (\<lambda>item. item \<noteq> JNull) counts))))
                | _ \<Rightarrow> Inr False))
      | _ \<Rightarrow> Inr False)"

definition MODEL_EVIDENCE_KEYS :: "string list" where
  "MODEL_EVIDENCE_KEYS = [''schema_version'', ''record_type'', ''stage'', ''status'', ''failure_category'',
     ''run_manifest_sha256'', ''model_identity_sha256'', ''model_contract_sha256'', ''runtime_instance_sha256'',
     ''live_before_sha256'', ''live_after_sha256'', ''request_window'', ''prime'', ''first_attempt'', ''checks'']"

text \<open>The conditions up to the first attempt, in the order of the code, and those after it.\<close>

definition model_evidence_identity :: "jobject \<Rightarrow> string \<Rightarrow> string \<Rightarrow> string \<Rightarrow> string option \<Rightarrow> bool" where
  "model_evidence_identity d stage manifest identity contract \<longleftrightarrow>
     keys_are MODEL_EVIDENCE_KEYS d
     \<and> get d ''schema_version'' = JStr ''1.0'' \<and> get d ''record_type'' = JStr ''qualification_model_cache_evidence''
     \<and> get d ''stage'' = JStr stage \<and> get d ''status'' = JStr ''passed'' \<and> get d ''failure_category'' = JNull
     \<and> is_sha256 manifest \<and> get d ''run_manifest_sha256'' = JStr manifest
     \<and> is_sha256 identity \<and> get d ''model_identity_sha256'' = JStr identity
     \<and> sha256_value (get d ''model_contract_sha256'')
     \<and> (case contract of None \<Rightarrow> True | Some c \<Rightarrow> is_sha256 c \<and> get d ''model_contract_sha256'' = JStr c)
     \<and> sha256_value (get d ''runtime_instance_sha256'') \<and> sha256_value (get d ''live_before_sha256'')
     \<and> sha256_value (get d ''live_after_sha256'')
     \<and> valid_model_request_window (get d ''request_window'') \<and> valid_model_prime (get d ''prime'')"

fun text_of :: "json \<Rightarrow> string" where
  "text_of (JStr s) = s"
| "text_of _ = []"

definition load_model_evidence ::
  "bytes option \<Rightarrow> string \<Rightarrow> string \<Rightarrow> string \<Rightarrow> string option \<Rightarrow> breach + model_evidence" where
  "load_model_evidence file stage manifest identity contract =
     bind (caught_as ''model_evidence_invalid'' (bind (read_private file) (\<lambda>bs.
             bind (unique_loads bs) (\<lambda>v. Inr (bs, v))))) (\<lambda>(bs, document).
       case document of
         JObj d \<Rightarrow>
           (if \<not> model_evidence_identity d stage manifest identity contract then refuse_as ''model_evidence_invalid''
            else bind (leaving (valid_model_first_attempt (get d ''first_attempt''))) (\<lambda>ok.
              if \<not> ok \<or> \<not> all_checks [''contract'', ''live_before'', ''attempts'', ''request_window'', ''live_after'']
                   (get d ''checks'')
              then refuse_as ''model_evidence_invalid''
              else Inr \<lparr>me_stage = stage, me_manifest = manifest, me_identity = identity,
                     me_contract = text_of (get d ''model_contract_sha256''),
                     me_instance = text_of (get d ''runtime_instance_sha256''), me_file = bytes_sha256 bs\<rparr>))
       | _ \<Rightarrow> refuse_as ''model_evidence_invalid'')"

section \<open>Runtime outcomes\<close>

record runtime_outcome =
  ro_stage :: string
  ro_manifest :: string
  ro_attestation :: string
  ro_evidence :: string
  ro_ledger :: string
  ro_count :: int
  ro_reconciliation :: "string option"
  ro_campaign :: string
  ro_slot :: int
  ro_lane :: string
  ro_pair :: int
  ro_file :: string

text \<open>
  What the caller of \<open>load_runtime_outcome\<close> hands over, the files as their contents; the path of the
  reconciliation is optional, its content refused or not.
\<close>

record outcome_query =
  oq_stage :: string
  oq_manifest :: string
  oq_attestation :: "bytes option"
  oq_evidence :: "bytes option"
  oq_identity :: string
  oq_ledger :: "bytes option"
  oq_count :: int
  oq_contract :: "string option"
  oq_reconciliation :: "bytes option option"
  oq_campaign :: "string option"
  oq_slot :: "int option"
  oq_lane :: "string option"
  oq_pair :: "int option"
  oq_version :: string

definition position_of_stage :: "string \<Rightarrow> string \<Rightarrow> int \<Rightarrow> string \<Rightarrow> int \<Rightarrow> bool" where
  "position_of_stage stage version slot lane pair \<longleftrightarrow>
     (if stage = ''preflight'' then slot = 0 \<and> lane = ''preflight'' \<and> pair = 0
      else if version = ''v1'' \<and> lane = ''cold'' then slot \<in> {1, 2, 3} \<and> pair = slot
      else if version = ''v1'' \<and> lane = ''warm-prefix'' then slot \<in> {4, 5, 6} \<and> pair = slot - 3
      else if version = ''v2'' \<and> lane = ''cold'' then slot \<in> {1, 2, 3, 4} \<and> pair = slot
      else if version = ''v2'' \<and> lane = ''warm-prefix'' then slot \<in> {5, 6, 7, 8} \<and> pair = slot - 4
      else False)"

definition valid_outcome_campaign_identity :: "jobject \<Rightarrow> outcome_query \<Rightarrow> bool result" where
  "valid_outcome_campaign_identity d q =
     (case (get d ''campaign_id_sha256'', get d ''slot_ordinal'', get d ''pair_index'') of
        (JStr campaign, JInt slot, JInt pair) \<Rightarrow>
          (if \<not> is_sha256 campaign then Inr False
           else bind (in_string_set (get d ''cache_lane'') [''preflight'', ''cold'', ''warm-prefix'']) (\<lambda>known.
             if \<not> known then Inr False
             else (let lane = text_of (get d ''cache_lane'') in
               Inr (position_of_stage (oq_stage q) (oq_version q) slot lane pair
                 \<and> (if oq_campaign q = None \<and> oq_slot q = None \<and> oq_lane q = None \<and> oq_pair q = None then True
                    else oq_campaign q = Some campaign \<and> oq_slot q = Some slot \<and> oq_lane q = Some lane
                      \<and> oq_pair q = Some pair)))))
      | _ \<Rightarrow> Inr False)"

text \<open>Every exception of the reconciliation's loader is a refusal.\<close>

definition reconciliation_matches ::
  "refusal + (string \<times> slot_context) \<Rightarrow> json \<Rightarrow> outcome_query \<Rightarrow> string \<Rightarrow> string \<Rightarrow> bool result" where
  "reconciliation_matches loaded recorded q attestation evidence =
     (case loaded of
        Inl (Escapes OutsideModel) \<Rightarrow> Inl OutsideModel
      | Inl _ \<Rightarrow> Inr False
      | Inr (file, c) \<Rightarrow>
          Inr (JStr file = recorded \<and> ri_manifest c = oq_manifest q \<and> ri_attestation c = attestation
            \<and> rc_model_evidence c = evidence \<and> Some (ri_campaign c) = oq_campaign q \<and> Some (ri_slot c) = oq_slot q
            \<and> Some (ri_lane c) = oq_lane q \<and> Some (ri_pair c) = oq_pair q))"

definition valid_outcome_reconciliation :: "jobject \<Rightarrow> outcome_query \<Rightarrow> string \<Rightarrow> string \<Rightarrow> bool result" where
  "valid_outcome_reconciliation d q attestation evidence =
     (let recorded = get d ''proxy_reconciliation_sha256'' in
      if oq_stage q \<noteq> ''scored-proxy'' then Inr (oq_reconciliation q = None \<and> recorded = JNull)
      else (case oq_reconciliation q of
          None \<Rightarrow> Inr False
        | Some file \<Rightarrow>
            (if \<not> sha256_value recorded then Inr False
             else reconciliation_matches (load_passed_proxy_reconciliation file None (oq_version q)) recorded q
                    attestation evidence)))"

definition OUTCOME_KEYS :: "string list" where
  "OUTCOME_KEYS = [''schema_version'', ''record_type'', ''stage'', ''status'', ''action_exit_code'',
     ''failure_category'', ''run_manifest_sha256'', ''attestation_sha256'', ''model_evidence_sha256'',
     ''output_ledger_sha256'', ''output_record_count'', ''proxy_reconciliation_sha256'', ''campaign_id_sha256'',
     ''slot_ordinal'', ''cache_lane'', ''pair_index'']"

definition evidence_stage :: "string \<Rightarrow> string" where
  "evidence_stage stage =
     (if stage = ''preflight'' then ''preflight''
      else if stage = ''scored-direct'' then ''score-direct'' else ''score-proxy'')"

definition whole_lines :: "bytes \<Rightarrow> int \<Rightarrow> bool" where
  "whole_lines output count \<longleftrightarrow>
     output \<noteq> [] \<and> last output = 10 \<and> int (length (byte_lines [] output)) = count
     \<and> list_all (\<lambda>l. l \<noteq> []) (byte_lines [] output)"

text \<open>The conditions of the reader before the identity of the campaign and the reconciliation.\<close>

definition outcome_binds :: "jobject \<Rightarrow> json \<Rightarrow> outcome_query \<Rightarrow> string \<Rightarrow> model_evidence \<Rightarrow> bytes \<Rightarrow> bool" where
  "outcome_binds d attestation q attestation_hash evidence output \<longleftrightarrow>
     keys_are OUTCOME_KEYS d
     \<and> get d ''schema_version'' = JStr ''1.0'' \<and> get d ''record_type'' = JStr ''qualification_runtime_outcome''
     \<and> get d ''stage'' = JStr (oq_stage q) \<and> get d ''status'' = JStr ''passed''
     \<and> get d ''action_exit_code'' = JInt 0 \<and> get d ''failure_category'' = JNull
     \<and> is_sha256 (oq_manifest q) \<and> get d ''run_manifest_sha256'' = JStr (oq_manifest q)
     \<and> get d ''attestation_sha256'' = JStr attestation_hash
     \<and> get d ''model_evidence_sha256'' = JStr (me_file evidence)
     \<and> (case attestation of JObj a \<Rightarrow> get a ''model_identity_sha256'' = JStr (me_identity evidence) | _ \<Rightarrow> False)
     \<and> get d ''output_ledger_sha256'' = JStr (bytes_sha256 output)
     \<and> 0 < oq_count q \<and> get d ''output_record_count'' = JInt (oq_count q)
     \<and> whole_lines output (oq_count q)"

fun string_or_none :: "json \<Rightarrow> string option" where
  "string_or_none (JStr s) = Some s"
| "string_or_none _ = None"

fun int_of :: "json \<Rightarrow> int" where
  "int_of (JInt i) = i"
| "int_of _ = 0"

definition outcome_of :: "jobject \<Rightarrow> outcome_query \<Rightarrow> string \<Rightarrow> string \<Rightarrow> bytes \<Rightarrow> bytes \<Rightarrow> runtime_outcome" where
  "outcome_of d q attestation evidence output serialized =
     \<lparr>ro_stage = oq_stage q, ro_manifest = oq_manifest q, ro_attestation = attestation, ro_evidence = evidence,
      ro_ledger = bytes_sha256 output, ro_count = oq_count q,
      ro_reconciliation = string_or_none (get d ''proxy_reconciliation_sha256''),
      ro_campaign = text_of (get d ''campaign_id_sha256''), ro_slot = int_of (get d ''slot_ordinal''),
      ro_lane = text_of (get d ''cache_lane''), ro_pair = int_of (get d ''pair_index''),
      ro_file = bytes_sha256 serialized\<rparr>"

text \<open>The guarded part: the files and the model evidence; a failure of the evidence is caught as well.\<close>

definition recaught_as :: "string \<Rightarrow> breach + 'a \<Rightarrow> breach + 'a" where
  "recaught_as category m = (case m of Inl (Breach c) \<Rightarrow> refuse_as category | _ \<Rightarrow> m)"

definition load_outcome_files ::
  "bytes option \<Rightarrow> outcome_query \<Rightarrow> breach + bytes \<times> bytes \<times> model_evidence \<times> bytes \<times> json \<times> json" where
  "load_outcome_files file q =
     bind (caught_as ''runtime_outcome_invalid'' (bind (read_private file) (\<lambda>bs.
             bind (read_private (oq_attestation q)) (\<lambda>attestation. Inr (bs, attestation))))) (\<lambda>(bs, attestation).
     bind (recaught_as ''runtime_outcome_invalid''
             (load_model_evidence (oq_evidence q) (evidence_stage (oq_stage q)) (oq_manifest q) (oq_identity q)
               (oq_contract q))) (\<lambda>evidence.
     caught_as ''runtime_outcome_invalid'' (bind (read_private (oq_ledger q)) (\<lambda>output.
       bind (unique_loads attestation) (\<lambda>attested.
       bind (unique_loads bs) (\<lambda>document. Inr (bs, attestation, evidence, output, attested, document)))))))"

definition load_runtime_outcome :: "bytes option \<Rightarrow> outcome_query \<Rightarrow> breach + runtime_outcome" where
  "load_runtime_outcome file q =
     bind (load_outcome_files file q) (\<lambda>(bs, attestation, evidence, output, attested, document).
       case document of
         JObj d \<Rightarrow>
           (let attestation_hash = bytes_sha256 attestation in
            if \<not> outcome_binds d attested q attestation_hash evidence output then refuse_as ''runtime_outcome_invalid''
            else bind (leaving (valid_outcome_campaign_identity d q)) (\<lambda>campaign.
              if \<not> campaign then refuse_as ''runtime_outcome_invalid''
              else bind (leaving (valid_outcome_reconciliation d q attestation_hash (me_file evidence))) (\<lambda>ok.
                if \<not> ok then refuse_as ''runtime_outcome_invalid''
                else Inr (outcome_of d q attestation_hash (me_file evidence) output bs))))
       | _ \<Rightarrow> refuse_as ''runtime_outcome_invalid'')"

section \<open>Runtime attestation\<close>

record rollback_attestation =
  rl_reference :: string
  rl_digest :: string
  rl_commit :: string
  rl_workflow :: string
  rl_designation :: string
  rl_approval :: string

definition BENCHMARK_REVISION :: string where
  "BENCHMARK_REVISION = ''335e6694e4aec13e9370af8a993d8c8f14d7ffb5''"

text \<open>The regular expressions of the identities, each matched in full.\<close>

definition ascii_alnum :: "char \<Rightarrow> bool" where
  "ascii_alnum c \<longleftrightarrow> is_digit c \<or> (65 \<le> ord_of c \<and> ord_of c \<le> 90) \<or> (97 \<le> ord_of c \<and> ord_of c \<le> 122)"

definition is_image_digest :: "string \<Rightarrow> bool" where
  "is_image_digest s \<longleftrightarrow> starts_with ''sha256:'' s \<and> is_sha256 (drop 7 s)"

definition is_image_reference :: "string \<Rightarrow> bool" where
  "is_image_reference s \<longleftrightarrow>
     (case s of [] \<Rightarrow> False | c # cs \<Rightarrow> ascii_alnum c \<and> list_all (\<lambda>c. ascii_alnum c \<or> c \<in> set ''._/:@-'') cs)"

definition is_source_commit :: "string \<Rightarrow> bool" where
  "is_source_commit s \<longleftrightarrow> length s = 40 \<and> list_all sha256_char s"

definition is_path_name :: "string \<Rightarrow> bool" where
  "is_path_name s \<longleftrightarrow> s \<noteq> [] \<and> list_all (\<lambda>c. ascii_alnum c \<or> c \<in> set ''_.-'') s"

definition is_positive_number :: "string \<Rightarrow> bool" where
  "is_positive_number s \<longleftrightarrow> (case s of [] \<Rightarrow> False | c # cs \<Rightarrow> is_digit c \<and> c \<noteq> CHR ''0'' \<and> list_all is_digit cs)"

definition names_resource :: "string \<Rightarrow> string \<Rightarrow> string \<Rightarrow> string \<Rightarrow> bool" where
  "names_resource prefix kind item s \<longleftrightarrow>
     starts_with prefix s
     \<and> (case split_on (CHR ''/'') (drop (length prefix) s) of
          [owner, repository, k, i, n] \<Rightarrow> is_path_name owner \<and> is_path_name repository \<and> k = kind \<and> i = item
            \<and> is_positive_number n
        | _ \<Rightarrow> False)"

definition is_workflow_url :: "string \<Rightarrow> bool" where
  "is_workflow_url = names_resource ''https://github.com/'' ''actions'' ''runs''"

definition is_approval_evidence_url :: "string \<Rightarrow> bool" where
  "is_approval_evidence_url = names_resource ''https://api.github.com/repos/'' ''issues'' ''comments''"

definition parse_rollback_attestation :: "json \<Rightarrow> string option \<Rightarrow> rollback_attestation result" where
  "parse_rollback_attestation v candidate =
     (case v of
        JObj d \<Rightarrow>
          (case (keys_are [''reference'', ''digest'', ''source_commit'', ''workflow_url'', ''approval_designation'',
                   ''approval_evidence_url''] d,
                 get d ''reference'', get d ''digest'', get d ''source_commit'', get d ''workflow_url'',
                 get d ''approval_evidence_url'') of
             (True, JStr reference, JStr digest, JStr commit, JStr workflow, JStr approval) \<Rightarrow>
               (if is_image_reference reference \<and> is_image_digest digest
                   \<and> count_list reference (CHR ''@'') = 1 \<and> ends_with (''@'' @ digest) reference
                   \<and> Some digest \<noteq> candidate \<and> is_source_commit commit \<and> is_workflow_url workflow
                   \<and> get d ''approval_designation'' = JStr ''approved-predecessor''
                   \<and> is_approval_evidence_url approval
                then Inr \<lparr>rl_reference = reference, rl_digest = digest, rl_commit = commit, rl_workflow = workflow,
                       rl_designation = ''approved-predecessor'', rl_approval = approval\<rparr>
                else Inl (ValueError ''rollback''))
           | _ \<Rightarrow> Inl (ValueError ''rollback''))
      | _ \<Rightarrow> Inl (ValueError ''rollback''))"

record runtime_attestation =
  ra_stage :: string
  ra_commit :: string
  ra_image :: string
  ra_rollback :: rollback_attestation
  ra_manifest :: string
  ra_model :: string
  ra_order :: string
  ra_order_count :: int
  ra_identity :: string
  ra_contract :: string
  ra_instance :: string
  ra_checks :: json
  ra_file :: string

text \<open>\<open>_sha256\<close>: the hash of the canonical text; the values hashed here print.\<close>

definition json_sha256 :: "json \<Rightarrow> string" where
  "json_sha256 v = sha256_hex (dumps True False v)"

definition order_identity :: "json \<Rightarrow> string list \<Rightarrow> bool" where
  "order_identity v order =
     (case v of
        JObj d \<Rightarrow> keys_are [''sha256'', ''count''] d
          \<and> get d ''sha256'' = JStr (json_sha256 (JArr (map JStr order))) \<and> get d ''count'' = JInt (int (length order))
      | _ \<Rightarrow> False)"

definition ATTESTATION_KEYS :: "string list" where
  "ATTESTATION_KEYS = [''schema_version'', ''record_type'', ''status'', ''stage'', ''source_commit'', ''image_digest'',
     ''rollback'', ''run_manifest_sha256'', ''model_id_sha256'', ''benchmark_revision'', ''scenario_order'',
     ''model_identity_sha256'', ''runtime_contract_sha256'', ''runtime_instance_sha256'', ''checks'']"

definition attestation_binds ::
  "jobject \<Rightarrow> string \<Rightarrow> string \<Rightarrow> string \<Rightarrow> string \<Rightarrow> string \<Rightarrow> string list \<Rightarrow> bool" where
  "attestation_binds d stage commit digest manifest model order \<longleftrightarrow>
     keys_are ATTESTATION_KEYS d
     \<and> get d ''schema_version'' = JStr ''1.0'' \<and> get d ''record_type'' = JStr ''qualification_runtime_attestation''
     \<and> get d ''status'' = JStr ''passed'' \<and> get d ''stage'' = JStr stage
     \<and> is_source_commit commit \<and> get d ''source_commit'' = JStr commit
     \<and> is_image_digest digest \<and> get d ''image_digest'' = JStr digest
     \<and> is_sha256 manifest \<and> get d ''run_manifest_sha256'' = JStr manifest
     \<and> get d ''model_id_sha256'' = JStr (json_sha256 (JStr model))
     \<and> get d ''benchmark_revision'' = JStr BENCHMARK_REVISION
     \<and> order_identity (get d ''scenario_order'') order
     \<and> sha256_value (get d ''model_identity_sha256'') \<and> sha256_value (get d ''runtime_contract_sha256'')
     \<and> sha256_value (get d ''runtime_instance_sha256'')
     \<and> all_checks [''exact_image'', ''settings'', ''resources'', ''bind'', ''observer'', ''ready'',
          ''secret_roles_distinct'', ''rollback_binding''] (get d ''checks'')"

definition load_runtime_attestation ::
  "bytes option \<Rightarrow> string \<Rightarrow> string \<Rightarrow> string \<Rightarrow> string \<Rightarrow> string \<Rightarrow> string list \<Rightarrow> breach + runtime_attestation"
where
  "load_runtime_attestation file stage commit digest manifest model order =
     bind (caught_as ''runtime_attestation_invalid'' (bind (read_private file) (\<lambda>bs.
             bind (unique_loads bs) (\<lambda>v. Inr (bs, v))))) (\<lambda>(bs, document).
       case document of
         JObj d \<Rightarrow>
           (if \<not> attestation_binds d stage commit digest manifest model order
            then refuse_as ''runtime_attestation_invalid''
            else bind (caught_as ''runtime_attestation_invalid'' (parse_rollback_attestation (get d ''rollback'') (Some digest)))
              (\<lambda>rollback. Inr \<lparr>ra_stage = stage, ra_commit = commit, ra_image = digest, ra_rollback = rollback,
                 ra_manifest = manifest, ra_model = json_sha256 (JStr model), ra_order = json_sha256 (JArr (map JStr order)),
                 ra_order_count = int (length order), ra_identity = text_of (get d ''model_identity_sha256''),
                 ra_contract = text_of (get d ''runtime_contract_sha256''),
                 ra_instance = text_of (get d ''runtime_instance_sha256''), ra_checks = get d ''checks'',
                 ra_file = bytes_sha256 bs\<rparr>))
       | _ \<Rightarrow> refuse_as ''runtime_attestation_invalid'')"

end
