(* ===== verification/Evidence_V2.thy ===== *)
theory Evidence_V2
  imports Outcome Campaign_V2
begin

text \<open>
  The adapter of \<open>qualification_campaign_v2_evidence.py\<close>: it authenticates the two private scored
  ledgers of a slot against their runtime outcomes and turns their rows into the payload-free records
  that the evaluator of \<open>Campaign_V2\<close> reads. A row is a line of \<open>str.splitlines\<close>; its numbers are
  kept as exact decimals.
\<close>

section \<open>Lines and numbers\<close>

text \<open>The characters that end a line of \<open>str.splitlines\<close>; a carriage return takes a line feed with it.\<close>

definition ends_line :: "char \<Rightarrow> bool" where
  "ends_line c \<longleftrightarrow> (10 \<le> ord_of c \<and> ord_of c \<le> 13) \<or> (28 \<le> ord_of c \<and> ord_of c \<le> 30) \<or> ord_of c = 133"

function text_lines :: "string \<Rightarrow> string \<Rightarrow> string list" where
  "text_lines line [] = (if line = [] then [] else [line])"
| "text_lines line (c # cs) =
     (if c = CHR 0x0D then line # text_lines [] (if starts_with [CHR 0x0A] cs then drop 1 cs else cs)
      else if ends_line c then line # text_lines [] cs
      else text_lines (line @ [c]) cs)"
  by pat_completeness auto
termination by (relation "measure (length \<circ> snd)") auto

text \<open>
  \<open>int | Decimal\<close> under \<open>parse_float=Decimal\<close>: a number that is not a boolean. Exponents beyond
  the limits of \<open>decimal\<close> are not modelled.
\<close>

fun number_of :: "json \<Rightarrow> rat option" where
  "number_of (JInt i) = Some (of_int i)"
| "number_of (JFloat (FDec neg m e)) = Some ((if neg then - of_nat m else of_nat m) * power_int 10 e)"
| "number_of _ = None"

definition safe_id_char :: "char \<Rightarrow> bool" where
  "safe_id_char c \<longleftrightarrow> ascii_alnum c \<or> c \<in> set ''._-''"

definition is_safe_id :: "string \<Rightarrow> bool" where
  "is_safe_id s \<longleftrightarrow>
     (case s of [] \<Rightarrow> False | c # cs \<Rightarrow> ascii_alnum c \<and> list_all safe_id_char cs \<and> length cs \<le> 127)"

definition safe_id_value :: "json \<Rightarrow> bool" where
  "safe_id_value v = (case v of JStr s \<Rightarrow> is_safe_id s | _ \<Rightarrow> False)"

definition safe_names :: "json \<Rightarrow> bool" where
  "safe_names v = (case v of JArr vs \<Rightarrow> list_all safe_id_value vs | _ \<Rightarrow> False)"

definition names_of :: "json \<Rightarrow> string set" where
  "names_of v = (case v of JArr vs \<Rightarrow> text_of ` set vs | _ \<Rightarrow> {})"

text \<open>\<open>hashlib.sha256(json.dumps(value, separators=(",", ":")).encode()).hexdigest()\<close>\<close>

definition dumps_sha256 :: "json \<Rightarrow> string" where
  "dumps_sha256 v = sha256_hex (json_dumps v)"

section \<open>Commitments\<close>

record evidence_spec =
  es_manifest :: string
  es_campaign :: string
  es_order :: string
  es_critical :: "int list"
  es_critical_hash :: string
  es_lane :: string
  es_replicate :: int
  es_slot :: int
  es_pair :: int
  es_deadline :: decimal
  es_direct :: string

text \<open>One scored ledger; the files as their contents.\<close>

record scored_ledger =
  sl_arm :: string
  sl_ledger :: "bytes option"
  sl_outcome :: "bytes option"
  sl_outcome_hash :: string
  sl_attestation :: "bytes option"
  sl_evidence :: "bytes option"
  sl_identity :: string
  sl_reconciliation :: "bytes option option"
  sl_predecessor :: "string option"

definition invalid_evidence :: "breach + 'a" where
  "invalid_evidence = refuse_as ''qualification_v2_evidence_invalid''"

definition CRITICAL_SCENARIO_ORDINALS :: "int list" where "CRITICAL_SCENARIO_ORDINALS = [29, 30]"
definition SCENARIO_COUNT :: nat where "SCENARIO_COUNT = 30"
definition TIMING_EVIDENCE_MAX_BYTES :: nat where "TIMING_EVIDENCE_MAX_BYTES = 16 * 1024 * 1024"

definition validate_spec :: "evidence_spec \<Rightarrow> breach + unit" where
  "validate_spec s =
     (if \<not> list_all is_sha256 [es_manifest s, es_campaign s, es_order s, es_critical_hash s, es_direct s]
         \<or> es_critical s \<noteq> CRITICAL_SCENARIO_ORDINALS
         \<or> dumps_sha256 (JArr (map JInt (es_critical s))) \<noteq> es_critical_hash s
         \<or> es_lane s \<notin> {''cold'', ''warm-prefix''}
         \<or> \<not> (1 \<le> es_replicate s \<and> es_replicate s \<le> 4) \<or> es_replicate s \<noteq> es_pair s
         \<or> es_slot s \<le> 0 \<or> es_pair s \<le> 0
         \<or> (es_lane s = ''cold'' \<and> es_slot s \<noteq> es_replicate s)
         \<or> (es_lane s = ''warm-prefix'' \<and> es_slot s \<noteq> es_replicate s + 4)
         \<or> \<not> positive_finite_decimal (es_deadline s)
      then invalid_evidence else Inr ())"

section \<open>Authenticated rows\<close>

type_synonym rows = "(string, jobject) dict"

definition read_regular_file :: "nat \<Rightarrow> bytes option \<Rightarrow> bytes result" where
  "read_regular_file max_bytes file =
     (case file of None \<Rightarrow> Inl (ValueError ''file'')
      | Some bs \<Rightarrow> if max_bytes < length bs then Inl (ValueError ''file'') else Inr bs)"

definition scored_row :: "rows \<Rightarrow> string \<Rightarrow> breach + rows" where
  "scored_row rows line =
     (if line = [] then invalid_evidence
      else bind (caught_as ''qualification_v2_evidence_invalid'' (unique_loads_text line)) (\<lambda>v.
        case v of
          JObj row \<Rightarrow>
            (case get row ''case_id'' of
               JStr case_id \<Rightarrow>
                 (if is_safe_id case_id \<and> case_id \<notin> set (dkeys rows) then Inr (rows @ [(case_id, row)])
                  else invalid_evidence)
             | _ \<Rightarrow> invalid_evidence)
        | _ \<Rightarrow> invalid_evidence))"

definition decode_text :: "bytes \<Rightarrow> string result" where
  "decode_text bs =
     (case utf8_decode bs of Decoded s \<Rightarrow> Inr s | Undecodable \<Rightarrow> Inl (ValueError ''unicode'') | Other_Text \<Rightarrow> Inl OutsideModel)"

definition scored_rows :: "string \<Rightarrow> bytes \<Rightarrow> breach + rows" where
  "scored_rows order ledger =
     bind (caught_as ''qualification_v2_evidence_invalid'' (decode_text ledger)) (\<lambda>text.
     bind (run_steps scored_row [] (text_lines [] text)) (\<lambda>rows.
       if length rows \<noteq> SCENARIO_COUNT \<or> dumps_sha256 (JArr (map JStr (dkeys rows))) \<noteq> order
       then invalid_evidence else Inr rows))"

definition outcome_query_of :: "evidence_spec \<Rightarrow> scored_ledger \<Rightarrow> outcome_query" where
  "outcome_query_of s l =
     \<lparr>oq_stage = (if sl_arm l = ''direct'' then ''scored-direct'' else ''scored-proxy''),
      oq_manifest = es_manifest s, oq_attestation = sl_attestation l, oq_evidence = sl_evidence l,
      oq_identity = sl_identity l, oq_ledger = sl_ledger l, oq_count = int SCENARIO_COUNT, oq_contract = None,
      oq_reconciliation = sl_reconciliation l, oq_campaign = Some (es_campaign s), oq_slot = Some (es_slot s),
      oq_lane = Some (es_lane s), oq_pair = Some (es_pair s), oq_version = ''v2''\<rparr>"

definition predecessor_misplaced :: "scored_ledger \<Rightarrow> bool" where
  "predecessor_misplaced l \<longleftrightarrow>
     (sl_arm l = ''direct'' \<and> (sl_reconciliation l \<noteq> None \<or> sl_predecessor l \<noteq> None))
   \<or> (sl_arm l = ''proxy'' \<and> (sl_reconciliation l = None
        \<or> (case sl_predecessor l of None \<Rightarrow> True | Some p \<Rightarrow> \<not> is_sha256 p)))"

definition authenticated_rows :: "evidence_spec \<Rightarrow> scored_ledger \<Rightarrow> breach + (rows \<times> string)" where
  "authenticated_rows s l =
     (if predecessor_misplaced l then invalid_evidence
      else bind (caught_as ''qualification_v2_evidence_invalid''
               (read_regular_file TIMING_EVIDENCE_MAX_BYTES (sl_ledger l))) (\<lambda>ledger.
           bind (recaught_as ''qualification_v2_evidence_invalid''
               (load_runtime_outcome (sl_outcome l) (outcome_query_of s l))) (\<lambda>outcome.
             if ro_file outcome \<noteq> sl_outcome_hash l then invalid_evidence
             else bind (scored_rows (es_order s) ledger) (\<lambda>rows. Inr (rows, ro_file outcome)))))"

section \<open>Records\<close>

definition positive_number :: "json \<Rightarrow> bool" where
  "positive_number v = (case number_of v of Some x \<Rightarrow> 0 < x | None \<Rightarrow> False)"

definition member :: "json \<Rightarrow> string \<Rightarrow> json" where
  "member v k = (case v of JObj d \<Rightarrow> get d k | _ \<Rightarrow> JNull)"

definition outcome_of_row :: "evidence_spec \<Rightarrow> string \<Rightarrow> nat \<times> jobject \<Rightarrow> breach + outcome_record" where
  "outcome_of_row s arm = (\<lambda>(ordinal, row).
     let wall = member (get row ''telemetry'') ''wall_s'';
         tools = member (get row ''telemetry'') ''tool_calls'';
         forbidden = member (get row ''metadata'') ''forbidden_calls''
     in case (get row ''passed'', number_of wall) of
          (JBool passed, Some x) \<Rightarrow>
            (if positive_number wall \<and> safe_names tools \<and> safe_names forbidden then
               Inr \<lparr>o_case = int ordinal, o_lane = es_lane s, o_replicate = es_replicate s, o_arm = arm,
                 o_passed = passed, o_wall = Finite x, o_deadline = es_deadline s,
                 o_critical = int ordinal \<in> set (es_critical s) \<and> names_of tools \<inter> names_of forbidden \<noteq> {}\<rparr>
             else invalid_evidence)
        | _ \<Rightarrow> invalid_evidence)"

definition records_of :: "evidence_spec \<Rightarrow> string \<Rightarrow> rows \<Rightarrow> breach + outcome_record list" where
  "records_of s arm rows = traverse (outcome_of_row s arm) (enumerate 1 (map snd rows))"

definition arms_of :: "scored_ledger list \<Rightarrow> breach + (string, scored_ledger) dict" where
  "arms_of ledgers =
     bind (run_steps (\<lambda>arms l. if sl_arm l \<in> set (dkeys arms) then invalid_evidence
                               else Inr (arms @ [(sl_arm l, l)])) [] ledgers) (\<lambda>arms.
       if set (dkeys arms) = {''direct'', ''proxy''} then Inr arms else invalid_evidence)"

definition adapt_v2_scored_evidence :: "evidence_spec \<Rightarrow> scored_ledger list \<Rightarrow> breach + outcome_record list" where
  "adapt_v2_scored_evidence s ledgers =
     bind (validate_spec s) (\<lambda>_. bind (arms_of ledgers) (\<lambda>arms.
       case (dget arms ''direct'', dget arms ''proxy'') of
         (Some direct, Some proxy) \<Rightarrow>
           bind (authenticated_rows s direct) (\<lambda>(direct_rows, direct_hash).
             if direct_hash \<noteq> es_direct s \<or> sl_predecessor proxy \<noteq> Some direct_hash then invalid_evidence
             else bind (authenticated_rows s proxy) (\<lambda>(proxy_rows, _).
               bind (records_of s ''direct'' direct_rows) (\<lambda>ds.
               bind (records_of s ''proxy'' proxy_rows) (\<lambda>ps. Inr (ds @ ps)))))
       | _ \<Rightarrow> invalid_evidence))"

end
