(* ===== verification/Campaign.thy ===== *)
theory Campaign
  imports Evidence_V2 Projection
begin

text \<open>
  The campaign driver (\<open>qualification_campaign.py\<close>): it advances a frozen campaign by exactly one
  stage per call and keeps an append-only chain of event files, each with the hash of the one before
  and a head file that repeats its hash. The private directory is the record \<open>store\<close>; what a
  write does to the disk is a parameter, so that a call may fail or be cut off at any write. The
  stage runner, the readiness probe and the files they leave behind are parameters too (\<open>adapters\<close>),
  over a state of their own.
\<close>

section \<open>Slots, requests and results\<close>

record campaign_slot =
  cs_ordinal :: int
  cs_lane :: string
  cs_pair :: int
  cs_run :: string

record campaign_request =
  sq_manifest :: string
  sq_manifest_hash :: string
  sq_sequence :: nat
  sq_slot :: campaign_slot
  sq_stage :: string
  sq_dir :: string
  sq_outcome :: string

record stage_result =
  sr_status :: string
  sr_failure :: "string option"
  sr_path :: string
  sr_outcome :: string
  sr_instance :: "string option"
  sr_reconciliation :: "string option"
  sr_identity :: "string option"

record stage_inspection =
  si_state :: string
  si_result :: "stage_result option"

record readiness_result =
  rr_state :: string
  rr_instance :: "string option"

type_synonym position = "int \<times> string \<times> int"

record campaign_advance =
  av_kind :: string
  av_sequence :: "nat option"
  av_slot :: "position option"
  av_stage :: "string option"
  av_status :: "string option"
  av_failure :: "string option"
  av_event :: "string option"
  av_outcome :: "string option"

definition public_position :: "campaign_slot \<Rightarrow> position" where
  "public_position s = (cs_ordinal s, cs_lane s, cs_pair s)"

record campaign_spec =
  cg_manifest :: string
  cg_campaign :: string
  cg_preflight :: campaign_slot
  cg_slots :: "campaign_slot list"
  cg_families :: "string list"
  cg_case_count :: int
  cg_case_ids :: string
  cg_scenarios :: int
  cg_order :: string
  cg_version :: string
  cg_critical :: "int list"
  cg_deadline :: "rat option"

definition STAGES :: "string list" where "STAGES = [''preflight'', ''score-direct'', ''score-proxy'']"
definition METADATA_FILE_MAX_BYTES :: nat where "METADATA_FILE_MAX_BYTES = 1024 * 1024"

definition OUTCOME_NAMES :: "(string, string) dict" where
  "OUTCOME_NAMES = [(''preflight'', ''preflight-runtime-outcome.json''),
     (''score-direct'', ''scored-direct-runtime-outcome.json''),
     (''score-proxy'', ''scored-proxy-runtime-outcome.json'')]"

definition event_count :: "campaign_spec \<Rightarrow> nat" where
  "event_count spec = (if cg_version spec = ''v2'' then 17 else 13)"

definition is_failure_category :: "string \<Rightarrow> bool" where
  "is_failure_category s \<longleftrightarrow> 1 \<le> length s \<and> length s \<le> 64 \<and> list_all category_char s"

section \<open>The manifest\<close>

definition V1_KEYS :: "string list" where
  "V1_KEYS = [''campaign_id'', ''slots'', ''stage_order'', ''treatment_order'', ''model_instance_policy'',
     ''failure_policy'', ''policy_benefit_families'', ''policy_benefit_case_count'', ''policy_benefit_case_ids_sha256'']"

definition V2_KEYS :: "string list" where
  "V2_KEYS = [''campaign_version'', ''campaign_id'', ''slots'', ''stage_order'', ''treatment_order'',
     ''model_instance_policy'', ''failure_policy'', ''critical_scenario_ordinals'',
     ''critical_scenario_ordinals_sha256'', ''scenario_deadline_seconds'']"

definition campaign_version_of :: "jobject \<Rightarrow> string option" where
  "campaign_version_of c =
     (if keys_are V1_KEYS c then Some ''v1''
      else if keys_are V2_KEYS c \<and> get c ''campaign_version'' = JStr ''v2'' then Some ''v2'' else None)"

definition expected_pairs :: "string \<Rightarrow> (string \<times> int) list" where
  "expected_pairs version =
     (let pairs = (if version = ''v1'' then [1, 2, 3] else [1, 2, 3, 4]) in
      map (\<lambda>p. (''cold'', p)) pairs @ map (\<lambda>p. (''warm-prefix'', p)) pairs)"

text \<open>The conditions both versions share.\<close>

definition common_manifest :: "string \<Rightarrow> jobject \<Rightarrow> json \<Rightarrow> bool" where
  "common_manifest version c benchmark \<longleftrightarrow>
     safe_id_value (get c ''campaign_id'')
     \<and> get c ''stage_order'' = JArr (map JStr STAGES)
     \<and> get c ''treatment_order'' = JArr [JStr ''direct'', JStr ''proxy'']
     \<and> get c ''model_instance_policy'' = JStr ''fresh-per-scored-treatment''
     \<and> get c ''failure_policy'' = JStr ''terminal-no-rerun''
     \<and> (case get c ''slots'' of JArr raw \<Rightarrow> length raw = (if version = ''v1'' then 6 else 8) | _ \<Rightarrow> False)
     \<and> (case member benchmark ''scenario_count'' of
          JInt n \<Rightarrow> \<not> n < (case get c ''policy_benefit_case_count'' of
                             JInt k \<Rightarrow> k | JBool b \<Rightarrow> truth b | _ \<Rightarrow> 30)
                    \<and> (version = ''v2'' \<longrightarrow> n = 30)
        | _ \<Rightarrow> False)
     \<and> sha256_value (member benchmark ''scenario_order_sha256'')"

definition cohort_manifest :: "jobject \<Rightarrow> bool" where
  "cohort_manifest c \<longleftrightarrow>
     (case get c ''policy_benefit_families'' of
        JArr families \<Rightarrow> families \<noteq> [] \<and> list_all safe_id_value families \<and> distinct families
      | _ \<Rightarrow> False)
     \<and> (case get c ''policy_benefit_case_count'' of JInt k \<Rightarrow> 0 < k | _ \<Rightarrow> False)
     \<and> sha256_value (get c ''policy_benefit_case_ids_sha256'')"

definition scenarios_manifest :: "jobject \<Rightarrow> bool" where
  "scenarios_manifest c \<longleftrightarrow>
     get c ''critical_scenario_ordinals'' = JArr (map JInt CRITICAL_SCENARIO_ORDINALS)
     \<and> get c ''critical_scenario_ordinals_sha256'' = JStr (dumps_sha256 (JArr (map JInt CRITICAL_SCENARIO_ORDINALS)))
     \<and> get c ''scenario_deadline_seconds'' = JInt 600"

text \<open>
  The slots, in the frozen order of lanes and pairs. A pair index is compared with \<open>!=\<close>, which
  takes \<open>true\<close> and \<open>1.0\<close> for 1.
\<close>

fun load_slots :: "int \<Rightarrow> string list \<Rightarrow> (json \<times> string \<times> int) list \<Rightarrow> campaign_slot list option" where
  "load_slots ordinal run_ids [] = Some []"
| "load_slots ordinal run_ids ((raw, lane, pair) # rest) =
     (case raw of
        JObj d \<Rightarrow>
          (case get d ''run_id'' of
             JStr run \<Rightarrow>
               (if keys_are [''cache_lane'', ''pair_index'', ''run_id''] d
                   \<and> get d ''cache_lane'' = JStr lane \<and> py_eq (get d ''pair_index'') (JInt pair)
                   \<and> is_safe_id run \<and> run \<notin> set run_ids
                then map_option (\<lambda>slots.
                       \<lparr>cs_ordinal = ordinal, cs_lane = lane, cs_pair = pair, cs_run = run\<rparr> # slots)
                     (load_slots (ordinal + 1) (run # run_ids) rest)
                else None)
           | _ \<Rightarrow> None)
      | _ \<Rightarrow> None)"

fun items_of :: "json \<Rightarrow> json list" where
  "items_of (JArr vs) = vs"
| "items_of _ = []"

definition spec_of :: "bytes \<Rightarrow> string \<Rightarrow> jobject \<Rightarrow> json \<Rightarrow> campaign_slot list \<Rightarrow> campaign_spec" where
  "spec_of serialized version c benchmark slots =
     (let name = text_of (get c ''campaign_id'') in
      \<lparr>cg_manifest = bytes_sha256 serialized, cg_campaign = sha256_hex name,
       cg_preflight = \<lparr>cs_ordinal = 0, cs_lane = ''preflight'', cs_pair = 0, cs_run = name @ ''-preflight''\<rparr>,
       cg_slots = slots, cg_families = map text_of (items_of (get c ''policy_benefit_families'')),
       cg_case_count = int_of (get c ''policy_benefit_case_count''),
       cg_case_ids = text_of (get c ''policy_benefit_case_ids_sha256''),
       cg_scenarios = int_of (member benchmark ''scenario_count''),
       cg_order = text_of (member benchmark ''scenario_order_sha256''), cg_version = version,
       cg_critical = (if version = ''v2'' then CRITICAL_SCENARIO_ORDINALS else []),
       cg_deadline = (if version = ''v2'' then Some 600 else None)\<rparr>)"

definition invalid_manifest :: "breach + 'a" where
  "invalid_manifest = refuse_as ''campaign_manifest_invalid''"

definition load_campaign_spec :: "bytes option \<Rightarrow> breach + campaign_spec" where
  "load_campaign_spec file =
     bind (caught_as ''campaign_manifest_invalid'' (bind (read_regular_file METADATA_FILE_MAX_BYTES file) (\<lambda>bs.
             bind (unique_loads bs) (\<lambda>v. Inr (bs, v))))) (\<lambda>(bs, document).
       let runtime = member document ''qualification_runtime''; benchmark = member runtime ''benchmark'' in
       case member runtime ''campaign'' of
         JObj c \<Rightarrow>
           (case campaign_version_of c of
              None \<Rightarrow> invalid_manifest
            | Some version \<Rightarrow>
                (if \<not> common_manifest version c benchmark \<or> (version = ''v1'' \<and> \<not> cohort_manifest c) then invalid_manifest
                 else (case load_slots 1 [] (zip (items_of (get c ''slots'')) (expected_pairs version)) of
                     None \<Rightarrow> invalid_manifest
                   | Some slots \<Rightarrow>
                       (if version = ''v2'' \<and> \<not> scenarios_manifest c then invalid_manifest
                        else Inr (spec_of bs version c benchmark slots)))))
       | _ \<Rightarrow> invalid_manifest)"

section \<open>Files\<close>

text \<open>
  A directory entry is a private regular file with its bytes, or something the reader refuses. A
  location of the campaign directory is missing, a private directory, or anything else.
\<close>

datatype entry = Regular bytes | Irregular
type_synonym folder = "(string, entry) dict"
datatype location = No_Place | Private_Folder folder | Other_Place

record store =
  st_private :: bool
  st_lock :: bool
  st_events :: location
  st_heads :: location
  st_slots :: location
  st_files :: folder

fun contents :: "location \<Rightarrow> folder" where
  "contents (Private_Folder f) = f"
| "contents _ = []"

definition private_subdirectory :: "location \<Rightarrow> breach + location" where
  "private_subdirectory p =
     (case p of No_Place \<Rightarrow> Inr (Private_Folder []) | Private_Folder f \<Rightarrow> Inr p
      | Other_Place \<Rightarrow> refuse_as ''campaign_private_dir_invalid'')"

definition open_folders :: "store \<Rightarrow> store \<times> (breach + unit)" where
  "open_folders s =
     (case private_subdirectory (st_events s) of
        Inl e \<Rightarrow> (s, Inl e)
      | Inr events \<Rightarrow>
          (let s = s\<lparr>st_events := events\<rparr> in
           case private_subdirectory (st_heads s) of
             Inl e \<Rightarrow> (s, Inl e)
           | Inr heads \<Rightarrow>
               (let s = s\<lparr>st_heads := heads\<rparr> in
                case private_subdirectory (st_slots s) of
                  Inl e \<Rightarrow> (s, Inl e)
                | Inr slots \<Rightarrow> (s\<lparr>st_slots := slots\<rparr>, Inr ()))))"

definition entry_bytes :: "entry option \<Rightarrow> bytes option" where
  "entry_bytes e = (case e of Some (Regular bs) \<Rightarrow> Some bs | _ \<Rightarrow> None)"

definition read_entry :: "folder \<Rightarrow> string \<Rightarrow> bytes result" where
  "read_entry f name = read_regular_file METADATA_FILE_MAX_BYTES (entry_bytes (dget f name))"

text \<open>\<open>json.dumps(document, sort_keys=True, separators=(",", ":")) + "\n"\<close>, encoded\<close>

definition serialize :: "jobject \<Rightarrow> bytes" where
  "serialize d = utf8 (dumps True True (JObj d) @ [CHR 0x0A])"

text \<open>
  What the disk does with a new file: it is written, nothing is, or only a prefix of it is before
  the error (a prefix of the whole length stands for a failing \<open>fsync\<close>).
\<close>

datatype disk_effect = Completes | Fails | Tears nat
datatype target = Event nat | Head nat | Campaign_Outcome
type_synonym disk = "target \<Rightarrow> disk_effect"

definition atomic_write_no_clobber :: "disk_effect \<Rightarrow> folder \<Rightarrow> string \<Rightarrow> jobject \<Rightarrow> folder \<times> (breach + bytes)" where
  "atomic_write_no_clobber effect f name document =
     (let serialized = serialize document in
      if name \<in> set (dkeys f) then (f, refuse_as ''campaign_evidence_exists'')
      else (case effect of
          Completes \<Rightarrow> (dset f name (Regular serialized), Inr serialized)
        | Fails \<Rightarrow> (f, refuse_as ''campaign_evidence_write_failed'')
        | Tears n \<Rightarrow> (dset f name (Regular (take n serialized)), refuse_as ''campaign_evidence_write_failed'')))"

definition padded :: "nat \<Rightarrow> string \<Rightarrow> string" where
  "padded width digits = zeros (width - length digits) @ digits"

definition event_name :: "nat \<Rightarrow> string" where
  "event_name n = padded 4 (dec_digits n) @ ''.json''"

definition slot_directory_name :: "campaign_slot \<Rightarrow> string" where
  "slot_directory_name s =
     padded 2 (int_text (cs_ordinal s)) @ ''-'' @ cs_lane s @ ''-pair'' @ int_text (cs_pair s)"

definition below :: "string \<Rightarrow> string \<Rightarrow> string" where
  "below directory name = directory @ ''/'' @ name"

definition stage_request :: "campaign_spec \<Rightarrow> string \<Rightarrow> string \<Rightarrow> nat \<Rightarrow> breach + campaign_request" where
  "stage_request spec manifest slots_dir sequence =
     bind (if sequence = 1 then Inr (cg_preflight spec, ''preflight'')
           else if 2 \<le> sequence \<and> sequence \<le> event_count spec then
             (let offset = sequence - 2 in
              Inr (cg_slots spec ! (offset div 2), if offset mod 2 = 0 then ''score-direct'' else ''score-proxy''))
           else refuse_as ''campaign_event_chain_invalid'') (\<lambda>(slot, stage).
       let run_dir = below slots_dir (slot_directory_name slot) in
       Inr \<lparr>sq_manifest = manifest, sq_manifest_hash = cg_manifest spec, sq_sequence = sequence, sq_slot = slot,
         sq_stage = stage, sq_dir = run_dir,
         sq_outcome = below run_dir (case dget OUTCOME_NAMES stage of Some n \<Rightarrow> n | None \<Rightarrow> [])\<rparr>)"

section \<open>Adapters\<close>

text \<open>An answer of an adapter: a value, a value of another class, or an exception.\<close>

datatype 'a answer = Answers 'a | Foreign_Answer | Raises_Error

record 'w adapters =
  ad_inspect :: "'w \<Rightarrow> campaign_request \<Rightarrow> stage_inspection answer"
  ad_probe :: "'w \<Rightarrow> campaign_request \<Rightarrow> readiness_result answer"
  ad_prepare :: "'w \<Rightarrow> string \<Rightarrow> 'w option"
  ad_run :: "'w \<Rightarrow> campaign_request \<Rightarrow> 'w \<times> stage_result answer"
  ad_file :: "'w \<Rightarrow> string \<Rightarrow> bytes option"

definition answered :: "string \<Rightarrow> string \<Rightarrow> 'a answer \<Rightarrow> breach + 'a" where
  "answered raised foreign a =
     (case a of Answers v \<Rightarrow> Inr v | Foreign_Answer \<Rightarrow> refuse_as foreign | Raises_Error \<Rightarrow> refuse_as raised)"

definition inspect_stage :: "'w adapters \<Rightarrow> 'w \<Rightarrow> campaign_request \<Rightarrow> breach + stage_inspection" where
  "inspect_stage A w q =
     answered ''campaign_stage_inspection_failed'' ''campaign_stage_state_invalid'' (ad_inspect A w q)"

definition probe_readiness :: "'w adapters \<Rightarrow> 'w \<Rightarrow> campaign_request \<Rightarrow> breach + readiness_result" where
  "probe_readiness A w q =
     answered ''campaign_readiness_probe_failed'' ''campaign_model_instance_invalid'' (ad_probe A w q)"

definition run_stage :: "'w adapters \<Rightarrow> 'w \<Rightarrow> campaign_request \<Rightarrow> 'w \<times> (breach + stage_result)" where
  "run_stage A w q =
     (case ad_run A w q of (w', a) \<Rightarrow>
       (w', answered ''campaign_stage_runner_failed'' ''campaign_stage_outcome_invalid'' a))"

definition optional :: "('a \<Rightarrow> bool) \<Rightarrow> 'a option \<Rightarrow> bool" where
  "optional P v = (case v of None \<Rightarrow> True | Some x \<Rightarrow> P x)"

definition plausible_result :: "campaign_request \<Rightarrow> stage_result \<Rightarrow> bool" where
  "plausible_result q r \<longleftrightarrow>
     sr_status r \<in> {''passed'', ''failed'', ''interrupted''}
     \<and> (sr_status r = ''passed'') = (sr_failure r = None)
     \<and> optional is_failure_category (sr_failure r)
     \<and> sr_path r = sq_outcome q \<and> is_sha256 (sr_outcome r)
     \<and> optional is_sha256 (sr_instance r)
     \<and> (sr_status r = ''passed'' \<longrightarrow> sr_instance r \<noteq> None)
     \<and> optional is_sha256 (sr_reconciliation r)
     \<and> (sr_status r = ''passed'' \<longrightarrow> (sq_stage q = ''score-proxy'') = (sr_reconciliation r \<noteq> None))
     \<and> (sq_stage q \<noteq> ''score-proxy'' \<longrightarrow> sr_reconciliation r = None)"

definition validate_stage_result :: "'w adapters \<Rightarrow> 'w \<Rightarrow> campaign_request \<Rightarrow> stage_result \<Rightarrow> breach + unit" where
  "validate_stage_result A w q r =
     (if \<not> plausible_result q r then refuse_as ''campaign_stage_outcome_invalid''
      else bind (caught_as ''campaign_stage_outcome_invalid''
               (read_regular_file METADATA_FILE_MAX_BYTES (ad_file A w (sr_path r)))) (\<lambda>bs.
             if bytes_sha256 bs = sr_outcome r then Inr () else refuse_as ''campaign_stage_outcome_invalid''))"

section \<open>Event records\<close>

fun str_or_null :: "string option \<Rightarrow> json" where
  "str_or_null None = JNull"
| "str_or_null (Some s) = JStr s"

definition event_fields ::
  "campaign_spec \<Rightarrow> campaign_request \<Rightarrow> string \<Rightarrow> string option \<Rightarrow> string option \<Rightarrow> string option \<Rightarrow> string option
     \<Rightarrow> string option \<Rightarrow> jobject" where
  "event_fields spec q status failure outcome instance_hash reconciliation previous =
     [(''schema_version'', JStr ''1.0''), (''record_type'', JStr ''qualification_campaign_event''),
      (''campaign_manifest_sha256'', JStr (cg_manifest spec)), (''campaign_id_sha256'', JStr (cg_campaign spec)),
      (''sequence'', JInt (int (sq_sequence q))), (''slot_ordinal'', JInt (cs_ordinal (sq_slot q))),
      (''cache_lane'', JStr (cs_lane (sq_slot q))), (''pair_index'', JInt (cs_pair (sq_slot q))),
      (''stage'', JStr (sq_stage q)), (''status'', JStr status), (''failure_category'', str_or_null failure),
      (''runtime_outcome_sha256'', str_or_null outcome),
      (''model_runtime_instance_sha256'', str_or_null instance_hash),
      (''proxy_reconciliation_sha256'', str_or_null reconciliation),
      (''previous_event_sha256'', str_or_null previous)]"

definition v2_fields :: "json \<Rightarrow> string option \<Rightarrow> jobject" where
  "v2_fields predecessor identity =
     [(''direct_predecessor_runtime_outcome_sha256'', predecessor), (''model_identity_sha256'', str_or_null identity)]"

definition partial_event_record :: "campaign_spec \<Rightarrow> campaign_request \<Rightarrow> string option \<Rightarrow> jobject" where
  "partial_event_record spec q previous =
     event_fields spec q ''failed'' (Some ''campaign_partial_stage'') None None None previous
       @ (if cg_version spec = ''v2'' then v2_fields JNull None else [])"

definition event_record ::
  "campaign_spec \<Rightarrow> campaign_request \<Rightarrow> stage_result \<Rightarrow> string option \<Rightarrow> json \<Rightarrow> breach + jobject" where
  "event_record spec q r previous predecessor =
     (let d = event_fields spec q (sr_status r) (sr_failure r) (Some (sr_outcome r)) (sr_instance r)
                (sr_reconciliation r) previous in
      if cg_version spec \<noteq> ''v2'' then Inr d
      else if sq_stage q \<in> {''score-direct'', ''score-proxy''}
              \<and> (\<not> optional is_sha256 (sr_identity r) \<or> (sr_status r = ''passed'' \<and> sr_identity r = None))
      then refuse_as ''campaign_stage_outcome_invalid''
      else if sq_stage q = ''score-proxy'' \<and> \<not> sha256_value predecessor
      then refuse_as ''campaign_event_chain_invalid''
      else Inr (d @ v2_fields predecessor (sr_identity r)))"

section \<open>The chain of events\<close>

type_synonym event = "jobject \<times> string"

record chain =
  ch_events :: "event list"
  ch_used :: "string list"

definition previous_event :: "event list \<Rightarrow> string option" where
  "previous_event es = (if es = [] then None else Some (snd (last es)))"

definition predecessor_outcome :: "campaign_spec \<Rightarrow> campaign_request \<Rightarrow> event list \<Rightarrow> json" where
  "predecessor_outcome spec q es =
     (if cg_version spec = ''v2'' \<and> sq_stage q = ''score-proxy'' \<and> es \<noteq> []
      then get (fst (last es)) ''runtime_outcome_sha256'' else JNull)"

definition head_record :: "nat \<Rightarrow> string \<Rightarrow> jobject" where
  "head_record sequence digest =
     [(''schema_version'', JStr ''1.0''), (''record_type'', JStr ''qualification_campaign_event_head''),
      (''sequence'', JInt (int sequence)), (''event_sha256'', JStr digest)]"

definition broken_chain :: "breach + 'a" where
  "broken_chain = refuse_as ''campaign_event_chain_invalid''"

definition is_partial :: "jobject \<Rightarrow> bool" where
  "is_partial event \<longleftrightarrow> get event ''failure_category'' = JStr ''campaign_partial_stage''"

text \<open>The record the driver would have written for this event.\<close>

definition expected_event ::
  "'w adapters \<Rightarrow> 'w \<Rightarrow> campaign_spec \<Rightarrow> campaign_request \<Rightarrow> event list \<Rightarrow> jobject \<Rightarrow> breach + jobject" where
  "expected_event A w spec q es event =
     (if is_partial event then Inr (partial_event_record spec q (previous_event es))
      else bind (inspect_stage A w q) (\<lambda>inspection.
        case (si_state inspection = ''complete'', si_result inspection) of
          (True, Some r) \<Rightarrow>
            bind (validate_stage_result A w q r) (\<lambda>_.
              event_record spec q r (previous_event es) (predecessor_outcome spec q es))
        | _ \<Rightarrow> broken_chain))"

text \<open>The event of one file: parsed, compared with what is expected, and in its canonical form.\<close>

definition checked_event ::
  "'w adapters \<Rightarrow> 'w \<Rightarrow> campaign_spec \<Rightarrow> string \<Rightarrow> string \<Rightarrow> folder \<Rightarrow> event list \<Rightarrow> nat \<Rightarrow> breach + event" where
  "checked_event A w spec manifest slots_dir events es sequence =
     bind (caught_as ''campaign_event_chain_invalid'' (bind (read_entry events (event_name sequence)) (\<lambda>bs.
             bind (unique_loads bs) (\<lambda>v. Inr (bs, v))))) (\<lambda>(serialized, document).
     bind (stage_request spec manifest slots_dir sequence) (\<lambda>q.
       case document of
         JObj event \<Rightarrow>
           bind (expected_event A w spec q es event) (\<lambda>expected.
             if \<not> py_eq (JObj event) (JObj expected) \<or> serialized \<noteq> serialize event then broken_chain
             else Inr (event, bytes_sha256 serialized))
       | _ \<Rightarrow> broken_chain))"

text \<open>
  The head of an event is compared; the head of the last event is written when it is missing.
\<close>

definition check_head :: "disk \<Rightarrow> nat \<Rightarrow> folder \<Rightarrow> nat \<Rightarrow> string \<Rightarrow> folder \<times> (breach + unit)" where
  "check_head disk count heads sequence digest =
     (let head = head_record sequence digest; name = event_name sequence in
      if name \<in> set (dkeys heads) then
        (heads, bind (caught_as ''campaign_event_chain_invalid'' (bind (read_entry heads name) unique_loads)) (\<lambda>v.
                  if py_eq v (JObj head) then Inr () else broken_chain))
      else if sequence = count then
        (case atomic_write_no_clobber (disk (Head sequence)) heads name head of
           (heads', written) \<Rightarrow> (heads', bind written (\<lambda>_. Inr ())))
      else (heads, broken_chain))"

definition note_instance :: "string list \<Rightarrow> jobject \<Rightarrow> breach + string list" where
  "note_instance used event =
     (if is_partial event then Inr used
      else (case get event ''model_runtime_instance_sha256'' of
          JNull \<Rightarrow> Inr used
        | JStr i \<Rightarrow> if i \<in> set used then refuse_as ''campaign_model_instance_reused'' else Inr (used @ [i])
        | _ \<Rightarrow> refuse_as ''campaign_model_instance_reused''))"

definition load_event ::
  "'w adapters \<Rightarrow> 'w \<Rightarrow> disk \<Rightarrow> campaign_spec \<Rightarrow> string \<Rightarrow> string \<Rightarrow> folder \<Rightarrow> nat \<Rightarrow> folder \<Rightarrow> chain \<Rightarrow> nat
     \<Rightarrow> folder \<times> (breach + chain)" where
  "load_event A w disk spec manifest slots_dir events count heads ch sequence =
     (case checked_event A w spec manifest slots_dir events (ch_events ch) sequence of
        Inl e \<Rightarrow> (heads, Inl e)
      | Inr (event, digest) \<Rightarrow>
          (case check_head disk count heads sequence digest of
             (heads', Inl e) \<Rightarrow> (heads', Inl e)
           | (heads', Inr _) \<Rightarrow>
               (heads', bind (note_instance (ch_used ch) event) (\<lambda>used.
                  Inr \<lparr>ch_events = ch_events ch @ [(event, digest)], ch_used = used\<rparr>))))"

fun load_sequence ::
  "(folder \<Rightarrow> chain \<Rightarrow> nat \<Rightarrow> folder \<times> (breach + chain)) \<Rightarrow> folder \<Rightarrow> chain \<Rightarrow> nat list \<Rightarrow> folder \<times> (breach + chain)"
where
  "load_sequence step heads ch [] = (heads, Inr ch)"
| "load_sequence step heads ch (n # ns) =
     (case step heads ch n of (heads', Inl e) \<Rightarrow> (heads', Inl e)
      | (heads', Inr ch') \<Rightarrow> load_sequence step heads' ch' ns)"

definition expected_names :: "nat \<Rightarrow> string list" where
  "expected_names count = map event_name [1..<Suc count]"

definition names_in_order :: "campaign_spec \<Rightarrow> folder \<Rightarrow> folder \<Rightarrow> bool" where
  "names_in_order spec events heads \<longleftrightarrow>
     (let count = length events; names = expected_names count in
      sort (dkeys events) = names \<and> count \<le> event_count spec
      \<and> (sort (dkeys heads) = names \<or> sort (dkeys heads) = butlast names))"

definition load_events ::
  "'w adapters \<Rightarrow> 'w \<Rightarrow> disk \<Rightarrow> campaign_spec \<Rightarrow> string \<Rightarrow> string \<Rightarrow> folder \<Rightarrow> folder \<Rightarrow> folder \<times> (breach + chain)" where
  "load_events A w disk spec manifest slots_dir events heads =
     (if \<not> names_in_order spec events heads then (heads, broken_chain)
      else load_sequence (load_event A w disk spec manifest slots_dir events (length events)) heads
             \<lparr>ch_events = [], ch_used = []\<rparr> [1..<Suc (length events)])"

text \<open>The event file is written before its head.\<close>

definition write_event :: "disk \<Rightarrow> store \<Rightarrow> nat \<Rightarrow> jobject \<Rightarrow> store \<times> (breach + string)" where
  "write_event disk s sequence event =
     (case atomic_write_no_clobber (disk (Event sequence)) (contents (st_events s)) (event_name sequence) event of
        (events, Inl e) \<Rightarrow> (s\<lparr>st_events := Private_Folder events\<rparr>, Inl e)
      | (events, Inr serialized) \<Rightarrow>
          (let digest = bytes_sha256 serialized; s = s\<lparr>st_events := Private_Folder events\<rparr> in
           case atomic_write_no_clobber (disk (Head sequence)) (contents (st_heads s)) (event_name sequence)
                  (head_record sequence digest) of
             (heads, written) \<Rightarrow> (s\<lparr>st_heads := Private_Folder heads\<rparr>, bind written (\<lambda>_. Inr digest))))"

section \<open>The policy benefit gate\<close>

type_synonym cohort = "(string, string \<times> rat) dict"

text \<open>The identity of a scored row and its wall time; the row joins the cohort of its family.\<close>

definition benefit_row :: "campaign_spec \<Rightarrow> string list \<times> cohort \<Rightarrow> string \<Rightarrow> (string list \<times> cohort) result" where
  "benefit_row spec st line =
     (case st of (ids, rows) \<Rightarrow>
       if line = [] then Inl (ValueError ''blank row'')
       else bind (unique_loads_text line) (\<lambda>v. case v of
           JObj row \<Rightarrow>
             (case (get row ''case_id'', member (get row ''metadata'') ''agentic_family'', get row ''passed'',
                    number_of (member (get row ''telemetry'') ''wall_s'')) of
                (JStr case_id, JStr family, JBool passed, Some wall) \<Rightarrow>
                  (if \<not> is_safe_id case_id \<or> case_id \<in> set ids \<or> \<not> is_safe_id family \<or> wall \<le> 0
                   then Inl (ValueError ''scored row'')
                   else if family \<notin> set (cg_families spec) then Inr (ids @ [case_id], rows)
                   else if \<not> passed then Inl (ValueError ''invalid policy outcome'')
                   else Inr (ids @ [case_id], rows @ [(case_id, family, wall)]))
              | _ \<Rightarrow> Inl (ValueError ''scored row''))
         | _ \<Rightarrow> Inl (ValueError ''row is not object'')))"

definition scored_ledger_outcome :: "jobject \<Rightarrow> bytes \<Rightarrow> string \<Rightarrow> campaign_slot \<Rightarrow> campaign_spec \<Rightarrow> bool" where
  "scored_ledger_outcome d ledger stage slot spec \<longleftrightarrow>
     keys_are OUTCOME_KEYS d
     \<and> get d ''schema_version'' = JStr ''1.0'' \<and> get d ''record_type'' = JStr ''qualification_runtime_outcome''
     \<and> get d ''stage'' = JStr stage \<and> get d ''status'' = JStr ''passed''
     \<and> get d ''action_exit_code'' = JInt 0 \<and> get d ''failure_category'' = JNull
     \<and> get d ''output_ledger_sha256'' = JStr (bytes_sha256 ledger)
     \<and> get d ''output_record_count'' = JInt (cg_scenarios spec)
     \<and> get d ''campaign_id_sha256'' = JStr (cg_campaign spec)
     \<and> py_eq (get d ''slot_ordinal'') (JInt (cs_ordinal slot)) \<and> get d ''cache_lane'' = JStr (cs_lane slot)
     \<and> py_eq (get d ''pair_index'') (JInt (cs_pair slot))"

definition validate_scored_ledger_outcome ::
  "bytes option \<Rightarrow> json \<Rightarrow> bytes \<Rightarrow> string \<Rightarrow> campaign_slot \<Rightarrow> campaign_spec \<Rightarrow> unit result" where
  "validate_scored_ledger_outcome file expected ledger stage slot spec =
     bind (read_regular_file METADATA_FILE_MAX_BYTES file) (\<lambda>bs. bind (unique_loads bs) (\<lambda>v. case v of
         JObj d \<Rightarrow>
           (if expected = JStr (bytes_sha256 bs) \<and> scored_ledger_outcome d ledger stage slot spec then Inr ()
            else Inl (ValueError ''runtime outcome''))
       | _ \<Rightarrow> Inl (ValueError ''runtime outcome'')))"

definition policy_benefit_rows ::
  "bytes option \<Rightarrow> bytes option \<Rightarrow> json \<Rightarrow> string \<Rightarrow> campaign_slot \<Rightarrow> campaign_spec \<Rightarrow> cohort result" where
  "policy_benefit_rows file outcome expected stage slot spec =
     bind (read_regular_file METADATA_FILE_MAX_BYTES file) (\<lambda>bs.
     bind (validate_scored_ledger_outcome outcome expected bs stage slot spec) (\<lambda>_.
     bind (decode_text bs) (\<lambda>text.
     bind (run_steps (benefit_row spec) ([], []) (text_lines [] text)) (\<lambda>(ids, rows).
       if int (length ids) \<noteq> cg_scenarios spec \<or> dumps_sha256 (JArr (map JStr ids)) \<noteq> cg_order spec
       then Inl (ValueError ''scored ledger order'')
       else if int (length rows) \<noteq> cg_case_count spec
               \<or> dumps_sha256 (JArr (map JStr (sort (dkeys rows)))) \<noteq> cg_case_ids spec
       then Inl (ValueError ''cohort mismatch'')
       else Inr rows))))"

text \<open>
  The event of a slot and stage in the dictionary of the events: the last one entered. Every slot has
  its events when the campaign is complete; a missing one would be an unhandled \<open>KeyError\<close>, for which
  \<open>TypeError\<close> stands.
\<close>

definition event_at :: "event list \<Rightarrow> campaign_slot \<Rightarrow> string \<Rightarrow> jobject result" where
  "event_at es slot stage =
     (case find (\<lambda>e. py_eq (get (fst e) ''slot_ordinal'') (JInt (cs_ordinal slot)) \<and> get (fst e) ''stage'' = JStr stage)
             (rev es) of
        Some e \<Rightarrow> Inr (fst e) | None \<Rightarrow> Inl TypeError)"

definition slot_file :: "'w adapters \<Rightarrow> 'w \<Rightarrow> string \<Rightarrow> campaign_slot \<Rightarrow> string \<Rightarrow> bytes option" where
  "slot_file A w slots_dir slot name = ad_file A w (below (below slots_dir (slot_directory_name slot)) name)"

definition stage_outcome_name :: "string \<Rightarrow> string" where
  "stage_outcome_name stage = (case dget OUTCOME_NAMES stage of Some n \<Rightarrow> n | None \<Rightarrow> [])"

definition slot_samples ::
  "'w adapters \<Rightarrow> 'w \<Rightarrow> string \<Rightarrow> campaign_spec \<Rightarrow> event list \<Rightarrow> rat list \<times> rat list \<Rightarrow> campaign_slot
     \<Rightarrow> (rat list \<times> rat list) result" where
  "slot_samples A w slots_dir spec es st slot =
     (case st of (direct, proxy) \<Rightarrow>
       bind (event_at es slot ''score-direct'') (\<lambda>direct_event.
       bind (event_at es slot ''score-proxy'') (\<lambda>proxy_event.
       bind (policy_benefit_rows (slot_file A w slots_dir slot ''scored-direct.jsonl'')
               (slot_file A w slots_dir slot (stage_outcome_name ''score-direct''))
               (get direct_event ''runtime_outcome_sha256'') ''scored-direct'' slot spec) (\<lambda>ds.
       bind (policy_benefit_rows (slot_file A w slots_dir slot ''scored-proxy.jsonl'')
               (slot_file A w slots_dir slot (stage_outcome_name ''score-proxy''))
               (get proxy_event ''runtime_outcome_sha256'') ''scored-proxy'' slot spec) (\<lambda>ps.
         if set (dkeys ds) \<noteq> set (dkeys ps)
            \<or> list_ex (\<lambda>k. map_option fst (dget ds k) \<noteq> map_option fst (dget ps k)) (dkeys ds)
         then Inl (ValueError ''unmatched cohort'')
         else Inr (direct @ map (\<lambda>kv. snd (snd kv)) ds, proxy @ map (\<lambda>kv. snd (snd kv)) ps))))))"

definition benefit_samples ::
  "'w adapters \<Rightarrow> 'w \<Rightarrow> string \<Rightarrow> campaign_spec \<Rightarrow> event list \<Rightarrow> (rat list \<times> rat list) result" where
  "benefit_samples A w slots_dir spec es =
     bind (run_steps (slot_samples A w slots_dir spec es) ([], []) (cg_slots spec)) (\<lambda>(direct, proxy).
       let expected = int (length (cg_slots spec)) * cg_case_count spec in
       if int (length direct) \<noteq> expected \<or> int (length proxy) \<noteq> expected \<or> direct = [] \<or> proxy = []
       then Inl (ValueError ''incomplete cohort'') else Inr (direct, proxy))"

definition policy_benefit_gate_failure :: "campaign_spec \<Rightarrow> string \<Rightarrow> jobject" where
  "policy_benefit_gate_failure spec category =
     [(''status'', JStr ''failed''), (''failure_category'', JStr category),
      (''cohort_case_ids_sha256'', JStr (cg_case_ids spec)), (''cohort_case_count'', JInt (cg_case_count spec)),
      (''matched_slot_count'', JInt 0), (''matched_sample_count'', JInt 0), (''direct_p95_wall_us'', JNull),
      (''proxy_p95_wall_us'', JNull), (''proxy_to_direct_p95_ratio_ppm'', JNull)]"

text \<open>Decimal arithmetic of the default context, as in the evaluator.\<close>

definition ninety_fifth :: "rat list \<Rightarrow> rat" where
  "ninety_fifth samples = (case p95 samples of Some x \<Rightarrow> x | None \<Rightarrow> 0)"

definition benefit_reached :: "rat list \<Rightarrow> rat list \<Rightarrow> bool" where
  "benefit_reached direct proxy \<longleftrightarrow> \<not> dec28 (ninety_fifth direct * (80 / 100)) < ninety_fifth proxy"

definition policy_benefit_gate ::
  "'w adapters \<Rightarrow> 'w \<Rightarrow> string \<Rightarrow> campaign_spec \<Rightarrow> event list \<Rightarrow> breach + jobject" where
  "policy_benefit_gate A w slots_dir spec es =
     (case benefit_samples A w slots_dir spec es of
        Inl e \<Rightarrow> (if raises_value_error e then Inr (policy_benefit_gate_failure spec ''policy_benefit_evidence_invalid'')
                  else Inl (Leaves e))
      | Inr (direct, proxy) \<Rightarrow>
          (let reached = benefit_reached direct proxy in
           Inr [(''status'', JStr (if reached then ''passed'' else ''failed'')),
             (''failure_category'', if reached then JNull else JStr ''policy_benefit_gate_failed''),
             (''cohort_case_ids_sha256'', JStr (cg_case_ids spec)), (''cohort_case_count'', JInt (cg_case_count spec)),
             (''matched_slot_count'', JInt (int (length (cg_slots spec)))),
             (''matched_sample_count'', JInt (int (length direct))),
             (''direct_p95_wall_us'', opt_int (microseconds (p95 direct))),
             (''proxy_p95_wall_us'', opt_int (microseconds (p95 proxy))),
             (''proxy_to_direct_p95_ratio_ppm'', opt_int (ratio_ppm (p95 proxy) (p95 direct)))]))"

section \<open>Completion\<close>

definition OUTCOME_FILE :: string where "OUTCOME_FILE = ''qualification-campaign-outcome.json''"

text \<open>An outcome already on disk has to be the same document; the advance carries the hash of its bytes.\<close>

definition settle_outcome :: "disk \<Rightarrow> store \<Rightarrow> jobject \<Rightarrow> store \<times> (breach + string)" where
  "settle_outcome disk s document =
     (if OUTCOME_FILE \<in> set (dkeys (st_files s)) then
        (s, bind (caught_as ''campaign_outcome_invalid'' (bind (read_entry (st_files s) OUTCOME_FILE) (\<lambda>bs.
                bind (unique_loads bs) (\<lambda>v. Inr (bs, v))))) (\<lambda>(bs, existing).
              if py_eq existing (JObj document) then Inr (bytes_sha256 bs)
              else refuse_as ''campaign_outcome_invalid''))
      else (case atomic_write_no_clobber (disk Campaign_Outcome) (st_files s) OUTCOME_FILE document of
          (files, written) \<Rightarrow> (s\<lparr>st_files := files\<rparr>, bind written (\<lambda>bs. Inr (bytes_sha256 bs)))))"

definition head_of :: "event list \<Rightarrow> string" where
  "head_of es = snd (last es)"

definition final_advance :: "string \<Rightarrow> string option \<Rightarrow> event list \<Rightarrow> string \<Rightarrow> campaign_advance" where
  "final_advance kind failure es digest =
     \<lparr>av_kind = kind, av_sequence = None, av_slot = None, av_stage = None, av_status = None,
      av_failure = failure, av_event = Some (head_of es), av_outcome = Some digest\<rparr>"

definition campaign_outcome_v1 :: "campaign_spec \<Rightarrow> event list \<Rightarrow> jobject \<Rightarrow> jobject" where
  "campaign_outcome_v1 spec es gate =
     [(''schema_version'', JStr ''1.0''), (''record_type'', JStr ''qualification_campaign_outcome''),
      (''status'', JStr (if get gate ''status'' = JStr ''passed'' then ''passed'' else ''failed'')),
      (''campaign_manifest_sha256'', JStr (cg_manifest spec)), (''head_event_sha256'', JStr (head_of es)),
      (''event_count'', JInt 13), (''slot_count'', JInt 6), (''scored_stage_count'', JInt 12),
      (''scored_model_instance_count'', JInt 12),
      (''proxy_reconciliation_sha256s'', JArr (map (\<lambda>e. get (fst e) ''proxy_reconciliation_sha256'')
         (filter (\<lambda>e. get (fst e) ''stage'' = JStr ''score-proxy'') es))),
      (''policy_benefit_gate'', JObj gate)]"

definition complete_v1 ::
  "'w adapters \<Rightarrow> 'w \<Rightarrow> disk \<Rightarrow> string \<Rightarrow> campaign_spec \<Rightarrow> store \<Rightarrow> chain \<Rightarrow> store \<times> (breach + campaign_advance)" where
  "complete_v1 A w disk slots_dir spec s ch =
     (if length (ch_used ch) \<noteq> 13 then (s, refuse_as ''campaign_model_instance_invalid'')
      else (case policy_benefit_gate A w slots_dir spec (ch_events ch) of
          Inl e \<Rightarrow> (s, Inl e)
        | Inr gate \<Rightarrow>
            (let passed = get gate ''status'' = JStr ''passed'' in
             case settle_outcome disk s (campaign_outcome_v1 spec (ch_events ch) gate) of
               (s', settled) \<Rightarrow>
                 (s', bind settled (\<lambda>digest. Inr (final_advance
                    (if passed then ''campaign_passed'' else ''campaign_failed'')
                    (if passed then None else Some (text_of (get gate ''failure_category''))) (ch_events ch) digest))))))"

text \<open>The commitments of the recorded events for one slot; \<open>None\<close> where they are not all there.\<close>

definition slot_commitments ::
  "jobject \<Rightarrow> jobject \<Rightarrow> (string \<times> string \<times> string \<times> string \<times> string) option" where
  "slot_commitments direct_event proxy_event =
     (case (get direct_event ''model_identity_sha256'', get proxy_event ''model_identity_sha256'',
            get direct_event ''runtime_outcome_sha256'', get proxy_event ''runtime_outcome_sha256'',
            get proxy_event ''proxy_reconciliation_sha256'') of
        (JStr direct_identity, JStr proxy_identity, JStr direct_hash, JStr proxy_hash, JStr reconciliation) \<Rightarrow>
          (if get proxy_event ''direct_predecessor_runtime_outcome_sha256'' = JStr direct_hash
           then Some (direct_identity, proxy_identity, direct_hash, proxy_hash, reconciliation) else None)
      | _ \<Rightarrow> None)"

definition slot_evidence_spec :: "campaign_spec \<Rightarrow> campaign_slot \<Rightarrow> rat \<Rightarrow> string \<Rightarrow> evidence_spec" where
  "slot_evidence_spec spec slot deadline direct_hash =
     \<lparr>es_manifest = cg_manifest spec, es_campaign = cg_campaign spec, es_order = cg_order spec,
      es_critical = cg_critical spec, es_critical_hash = dumps_sha256 (JArr (map JInt (cg_critical spec))),
      es_lane = cs_lane slot, es_replicate = cs_pair slot, es_slot = cs_ordinal slot, es_pair = cs_pair slot,
      es_deadline = Finite deadline, es_direct = direct_hash\<rparr>"

definition slot_ledgers ::
  "'w adapters \<Rightarrow> 'w \<Rightarrow> string \<Rightarrow> campaign_spec \<Rightarrow> campaign_slot \<Rightarrow> string \<times> string \<times> string \<times> string \<times> string
     \<Rightarrow> scored_ledger list" where
  "slot_ledgers A w slots_dir spec slot = (\<lambda>(direct_identity, proxy_identity, direct_hash, proxy_hash, _).
     let file = slot_file A w slots_dir slot in
     [\<lparr>sl_arm = ''direct'', sl_ledger = file ''scored-direct.jsonl'',
       sl_outcome = file (stage_outcome_name ''score-direct''), sl_outcome_hash = direct_hash,
       sl_attestation = slot_file A w slots_dir (cg_preflight spec) ''preflight-runtime-attestation.json'',
       sl_evidence = file ''scored-direct-model-cache-evidence.json'', sl_identity = direct_identity,
       sl_reconciliation = None, sl_predecessor = None\<rparr>,
      \<lparr>sl_arm = ''proxy'', sl_ledger = file ''scored-proxy.jsonl'',
       sl_outcome = file (stage_outcome_name ''score-proxy''), sl_outcome_hash = proxy_hash,
       sl_attestation = file ''scored-proxy-runtime-attestation.json'',
       sl_evidence = file ''scored-proxy-model-cache-evidence.json'', sl_identity = proxy_identity,
       sl_reconciliation = Some (file ''scored-proxy-reconciliation.json''), sl_predecessor = Some direct_hash\<rparr>])"

definition slot_records ::
  "'w adapters \<Rightarrow> 'w \<Rightarrow> string \<Rightarrow> campaign_spec \<Rightarrow> rat \<Rightarrow> event list \<Rightarrow> outcome_record list \<times> string list
     \<Rightarrow> campaign_slot \<Rightarrow> breach + (outcome_record list \<times> string list)" where
  "slot_records A w slots_dir spec deadline es st slot =
     bind (leaving (event_at es slot ''score-direct'')) (\<lambda>direct_event.
     bind (leaving (event_at es slot ''score-proxy'')) (\<lambda>proxy_event.
       case slot_commitments direct_event proxy_event of
         None \<Rightarrow> invalid_evidence
       | Some c \<Rightarrow>
           bind (adapt_v2_scored_evidence (slot_evidence_spec spec slot deadline (fst (snd (snd c))))
                   (slot_ledgers A w slots_dir spec slot c)) (\<lambda>records.
             Inr (fst st @ records, snd st @ [snd (snd (snd (snd c)))]))))"

text \<open>The report and the reconciliation hashes; a failure of the evidence or of the evaluator is caught.\<close>

definition v2_report ::
  "'w adapters \<Rightarrow> 'w \<Rightarrow> string \<Rightarrow> campaign_spec \<Rightarrow> rat \<Rightarrow> event list \<Rightarrow> breach + (jobject option \<times> string list)" where
  "v2_report A w slots_dir spec deadline es =
     (case run_steps (slot_records A w slots_dir spec deadline es) ([], []) (cg_slots spec) of
        Inl (Breach category) \<Rightarrow> Inr (None, [])
      | Inl e \<Rightarrow> Inl e
      | Inr (records, hashes) \<Rightarrow>
          (case evaluate_qualification_v2 records of Inl category \<Rightarrow> Inr (None, []) | Inr report \<Rightarrow> Inr (Some report, hashes)))"

definition v2_passed :: "jobject option \<Rightarrow> bool" where
  "v2_passed report \<longleftrightarrow>
     (case report of None \<Rightarrow> False | Some d \<Rightarrow> member (get d ''gates'') ''promotion_passed'' = JBool True)"

definition v2_failure :: "jobject option \<Rightarrow> string option" where
  "v2_failure report =
     (if report = None then Some ''v2_evidence_invalid''
      else if v2_passed report then None else Some ''v2_scored_gate_failed'')"

definition campaign_outcome_v2 :: "campaign_spec \<Rightarrow> event list \<Rightarrow> jobject option \<Rightarrow> string list \<Rightarrow> jobject" where
  "campaign_outcome_v2 spec es report hashes =
     [(''schema_version'', JStr ''2.0''), (''record_type'', JStr ''qualification_campaign_outcome''),
      (''status'', JStr (if report \<noteq> None then ''scored_complete'' else ''failed'')),
      (''scored_decision'', JStr (if v2_passed report then ''scored_passed'' else ''scored_failed'')),
      (''failure_category'', str_or_null (v2_failure report)),
      (''campaign_manifest_sha256'', JStr (cg_manifest spec)), (''head_event_sha256'', JStr (head_of es)),
      (''event_count'', JInt 17), (''slot_count'', JInt 8), (''scored_stage_count'', JInt 16),
      (''scored_model_instance_count'', JInt 16),
      (''proxy_reconciliation_sha256s'', JArr (map JStr hashes)),
      (''evaluator'', case report of None \<Rightarrow> JNull | Some d \<Rightarrow> JObj d)]"

definition complete_v2 ::
  "'w adapters \<Rightarrow> 'w \<Rightarrow> disk \<Rightarrow> string \<Rightarrow> campaign_spec \<Rightarrow> store \<Rightarrow> chain \<Rightarrow> store \<times> (breach + campaign_advance)" where
  "complete_v2 A w disk slots_dir spec s ch =
     (case cg_deadline spec of
        None \<Rightarrow> (s, broken_chain)
      | Some deadline \<Rightarrow>
          (if length (ch_events ch) \<noteq> 17 \<or> length (ch_used ch) \<noteq> 17 then (s, broken_chain)
           else (case v2_report A w slots_dir spec deadline (ch_events ch) of
               Inl e \<Rightarrow> (s, Inl e)
             | Inr (report, hashes) \<Rightarrow>
                 (case settle_outcome disk s (campaign_outcome_v2 spec (ch_events ch) report hashes) of
                    (s', settled) \<Rightarrow>
                      (s', bind settled (\<lambda>digest. Inr (final_advance
                         (if report \<noteq> None then ''campaign_scored_complete'' else ''campaign_failed'')
                         (v2_failure report) (ch_events ch) digest)))))))"

definition complete_campaign ::
  "'w adapters \<Rightarrow> 'w \<Rightarrow> disk \<Rightarrow> string \<Rightarrow> campaign_spec \<Rightarrow> store \<Rightarrow> chain \<Rightarrow> store \<times> (breach + campaign_advance)" where
  "complete_campaign A w disk slots_dir spec s ch =
     (if cg_version spec = ''v2'' then complete_v2 A w disk slots_dir spec s ch
      else complete_v1 A w disk slots_dir spec s ch)"

section \<open>One advance\<close>

text \<open>A call leaves the private directory and the state of the adapters behind, and returns or raises.\<close>

type_synonym 'w reply = "store \<times> 'w \<times> (breach + campaign_advance)"

definition stage_advance ::
  "string \<Rightarrow> campaign_request \<Rightarrow> string option \<Rightarrow> string option \<Rightarrow> string option \<Rightarrow> campaign_advance" where
  "stage_advance kind q status failure digest =
     \<lparr>av_kind = kind, av_sequence = Some (sq_sequence q), av_slot = Some (public_position (sq_slot q)),
      av_stage = Some (sq_stage q), av_status = status, av_failure = failure, av_event = digest, av_outcome = None\<rparr>"

text \<open>A chain that ends in an event that did not pass is answered from that event alone.\<close>

definition terminal_advance :: "campaign_spec \<Rightarrow> string \<Rightarrow> string \<Rightarrow> event \<Rightarrow> breach + campaign_advance" where
  "terminal_advance spec manifest slots_dir e =
     (case get (fst e) ''sequence'' of
        JInt sequence \<Rightarrow>
          bind (stage_request spec manifest slots_dir (nat sequence)) (\<lambda>q.
            Inr (stage_advance ''campaign_failed'' q
              (Some (if get (fst e) ''status'' = JStr ''interrupted'' then ''interrupted'' else ''failed''))
              (string_or_none (get (fst e) ''failure_category'')) (Some (snd e))))
      | _ \<Rightarrow> broken_chain)"

text \<open>A fresh model instance for a scored stage: no answer, a restart, or the expected instance.\<close>

datatype readiness = Restart | Expect "string option"

definition readiness_for :: "'w adapters \<Rightarrow> 'w \<Rightarrow> campaign_request \<Rightarrow> string list \<Rightarrow> breach + readiness" where
  "readiness_for A w q used =
     (if sq_stage q = ''preflight'' then Inr (Expect None)
      else bind (probe_readiness A w q) (\<lambda>r.
        case (rr_state r, rr_instance r) of
          (state, None) \<Rightarrow>
            (if state = ''restart_required'' then Inr Restart else refuse_as ''campaign_model_instance_invalid'')
        | (state, Some i) \<Rightarrow>
            (if state = ''ready'' \<and> is_sha256 i \<and> i \<notin> set used then Inr (Expect (Some i))
             else refuse_as ''campaign_model_instance_invalid'')))"

text \<open>The run of a stage; the stages before it are only probed. \<open>None\<close> is a restart.\<close>

definition run_request ::
  "'w adapters \<Rightarrow> 'w \<Rightarrow> campaign_request \<Rightarrow> string list \<Rightarrow> 'w \<times> (breach + stage_result option)" where
  "run_request A w q used =
     (case readiness_for A w q used of
        Inl e \<Rightarrow> (w, Inl e)
      | Inr Restart \<Rightarrow> (w, Inr None)
      | Inr (Expect expected) \<Rightarrow>
          (case ad_prepare A w (sq_dir q) of
             None \<Rightarrow> (w, refuse_as ''campaign_private_dir_invalid'')
           | Some w1 \<Rightarrow>
               (case run_stage A w1 q of (w2, reply) \<Rightarrow>
                  (w2, bind reply (\<lambda>r. bind (validate_stage_result A w2 q r) (\<lambda>_.
                     if expected \<noteq> None \<and> sr_instance r \<noteq> None \<and> sr_instance r \<noteq> expected
                     then refuse_as ''campaign_model_instance_invalid'' else Inr (Some r)))))))"

definition fresh_instance :: "string list \<Rightarrow> stage_result \<Rightarrow> breach + unit" where
  "fresh_instance used r =
     (case sr_instance r of
        Some i \<Rightarrow> if i \<in> set used then refuse_as ''campaign_model_instance_reused'' else Inr ()
      | None \<Rightarrow> Inr ())"

definition record_stage ::
  "'w adapters \<Rightarrow> 'w \<Rightarrow> disk \<Rightarrow> string \<Rightarrow> campaign_spec \<Rightarrow> store \<Rightarrow> chain \<Rightarrow> campaign_request \<Rightarrow> stage_result
     \<Rightarrow> store \<times> (breach + campaign_advance)" where
  "record_stage A w disk slots_dir spec s ch q r =
     (case bind (fresh_instance (ch_used ch) r) (\<lambda>_. event_record spec q r (previous_event (ch_events ch))
             (predecessor_outcome spec q (ch_events ch))) of
        Inl e \<Rightarrow> (s, Inl e)
      | Inr event \<Rightarrow>
          (case write_event disk s (sq_sequence q) event of
             (s', Inl e) \<Rightarrow> (s', Inl e)
           | (s', Inr digest) \<Rightarrow>
               (if sq_sequence q = event_count spec \<and> sr_status r = ''passed'' then
                  (case sr_instance r of
                     None \<Rightarrow> (s', refuse_as ''campaign_model_instance_invalid'')
                   | Some i \<Rightarrow> complete_campaign A w disk slots_dir spec s'
                       \<lparr>ch_events = ch_events ch @ [(event, digest)], ch_used = ch_used ch @ [i]\<rparr>)
                else (s', Inr (stage_advance
                       (if sr_status r = ''passed'' then ''stage_completed'' else ''campaign_failed'') q
                       (Some (sr_status r)) (sr_failure r) (Some digest))))))"

definition record_partial ::
  "disk \<Rightarrow> campaign_spec \<Rightarrow> store \<Rightarrow> chain \<Rightarrow> campaign_request \<Rightarrow> store \<times> (breach + campaign_advance)" where
  "record_partial disk spec s ch q =
     (case write_event disk s (sq_sequence q) (partial_event_record spec q (previous_event (ch_events ch))) of
        (s', written) \<Rightarrow>
          (s', bind written (\<lambda>digest. Inr (stage_advance ''campaign_failed'' q (Some ''failed'')
                 (Some ''campaign_partial_stage'') (Some digest)))))"

text \<open>The sole next stage, as the runner finds it: partly done, done, or still to run.\<close>

definition next_stage ::
  "'w adapters \<Rightarrow> 'w \<Rightarrow> disk \<Rightarrow> string \<Rightarrow> campaign_spec \<Rightarrow> store \<Rightarrow> chain \<Rightarrow> campaign_request \<Rightarrow> 'w reply" where
  "next_stage A w disk slots_dir spec s ch q =
     (case inspect_stage A w q of
        Inl e \<Rightarrow> (s, w, Inl e)
      | Inr inspection \<Rightarrow>
          (case (si_state inspection, si_result inspection) of
             (state, None) \<Rightarrow>
               (if state = ''partial'' then
                  (case record_partial disk spec s ch q of (s', res) \<Rightarrow> (s', w, res))
                else if state = ''absent'' then
                  (case run_request A w q (ch_used ch) of
                     (w', Inl e) \<Rightarrow> (s, w', Inl e)
                   | (w', Inr None) \<Rightarrow> (s, w', Inr (stage_advance ''restart_required'' q None None None))
                   | (w', Inr (Some r)) \<Rightarrow>
                       (case record_stage A w' disk slots_dir spec s ch q r of (s', res) \<Rightarrow> (s', w', res)))
                else (s, w, refuse_as ''campaign_stage_state_invalid''))
           | (state, Some r) \<Rightarrow>
               (if state = ''complete'' then
                  (case validate_stage_result A w q r of
                     Inl e \<Rightarrow> (s, w, Inl e)
                   | Inr _ \<Rightarrow> (case record_stage A w disk slots_dir spec s ch q r of (s', res) \<Rightarrow> (s', w, res)))
                else (s, w, refuse_as ''campaign_stage_state_invalid''))))"

definition advance_locked ::
  "'w adapters \<Rightarrow> 'w \<Rightarrow> disk \<Rightarrow> string \<Rightarrow> string \<Rightarrow> campaign_spec \<Rightarrow> store \<Rightarrow> 'w reply" where
  "advance_locked A w disk manifest slots_dir spec s =
     (case load_events A w disk spec manifest slots_dir (contents (st_events s)) (contents (st_heads s)) of
        (heads, loaded) \<Rightarrow>
          (let s = s\<lparr>st_heads := Private_Folder heads\<rparr> in
           case loaded of
             Inl e \<Rightarrow> (s, w, Inl e)
           | Inr ch \<Rightarrow>
               (if ch_events ch \<noteq> [] \<and> get (fst (last (ch_events ch))) ''status'' \<noteq> JStr ''passed''
                then (s, w, terminal_advance spec manifest slots_dir (last (ch_events ch)))
                else if length (ch_events ch) = event_count spec
                then (case complete_campaign A w disk slots_dir spec s ch of (s', res) \<Rightarrow> (s', w, res))
                else (case stage_request spec manifest slots_dir (length (ch_events ch) + 1) of
                    Inl e \<Rightarrow> (s, w, Inl e)
                  | Inr q \<Rightarrow> next_stage A w disk slots_dir spec s ch q))))"

definition advance_qualification_campaign ::
  "'w adapters \<Rightarrow> disk \<Rightarrow> string \<Rightarrow> bytes option \<Rightarrow> string \<Rightarrow> store \<Rightarrow> 'w \<Rightarrow> 'w reply" where
  "advance_qualification_campaign A disk manifest manifest_file private_dir s w =
     (if \<not> st_private s then (s, w, refuse_as ''campaign_private_dir_invalid'')
      else (case load_campaign_spec manifest_file of
          Inl e \<Rightarrow> (s, w, Inl e)
        | Inr spec \<Rightarrow>
            (if \<not> st_lock s then (s, w, refuse_as ''campaign_lock_invalid'')
             else (case open_folders s of
                 (s', Inl e) \<Rightarrow> (s', w, Inl e)
               | (s', Inr _) \<Rightarrow> advance_locked A w disk manifest (below private_dir ''slots'') spec s'))))"

end
