(* ===== verification/Campaign_Laws.thy ===== *)
theory Campaign_Laws
  imports Campaign Reconciliation_Laws Campaign_V2_Laws
begin

text \<open>
  What holds of the campaign driver's data: the frozen order of its stages, the printed form of a record
  and what reading it back gives, and what an accepted chain of events says and commits to.
\<close>

section \<open>Elimination rules\<close>

named_theorems accepted_simps \<open>when a checked computation returns a value\<close>

lemma refuse_as_not_Inr [simp]: "refuse_as c \<noteq> Inr v" "Inr v \<noteq> refuse_as c"
  by (simp_all add: refuse_as_def)

lemma invalid_not_Inr [simp]:
  "invalid_manifest \<noteq> Inr v" "invalid_evidence \<noteq> Inr v" "broken_chain \<noteq> Inr v"
  by (simp_all add: invalid_manifest_def invalid_evidence_def broken_chain_def)

lemma caught_as_Inr [accepted_simps]: "caught_as c m = Inr v \<longleftrightarrow> m = Inr v"
  by (cases m) (simp_all add: caught_as_def)

lemma recaught_as_Inr [accepted_simps]: "recaught_as c m = Inr v \<longleftrightarrow> m = Inr v"
  by (auto simp: recaught_as_def split: sum.splits breach.splits)

lemma leaving_Inr [accepted_simps]: "leaving m = Inr v \<longleftrightarrow> m = Inr v"
  by (auto simp: leaving_def split: sum.splits)

lemma answered_Inr [accepted_simps]: "answered r f a = Inr v \<longleftrightarrow> a = Answers v"
  by (cases a) (simp_all add: answered_def)

lemma read_regular_file_Inr [accepted_simps]:
  "read_regular_file n file = Inr bs \<longleftrightarrow> file = Some bs \<and> length bs \<le> n"
  by (auto simp: read_regular_file_def split: option.splits)

declare bind_Inr_iff [accepted_simps]

section \<open>The frozen order of stages\<close>

definition well_formed_spec :: "campaign_spec \<Rightarrow> bool" where
  "well_formed_spec spec \<longleftrightarrow>
     cg_version spec \<in> {''v1'', ''v2''}
     \<and> event_count spec = Suc (2 * length (cg_slots spec))
     \<and> map cs_ordinal (cg_slots spec) = map int [1..<Suc (length (cg_slots spec))]
     \<and> map (\<lambda>s. (cs_lane s, cs_pair s)) (cg_slots spec) = expected_pairs (cg_version spec)
     \<and> distinct (map cs_run (cg_slots spec)) \<and> list_all (\<lambda>s. is_safe_id (cs_run s)) (cg_slots spec)
     \<and> public_position (cg_preflight spec) = (0, ''preflight'', 0)
     \<and> list_all is_sha256 [cg_manifest spec, cg_campaign spec, cg_order spec]
     \<and> (cg_version spec = ''v1'' \<longrightarrow> 0 < cg_case_count spec \<and> cg_case_count spec \<le> cg_scenarios spec
          \<and> cg_families spec \<noteq> [] \<and> distinct (cg_families spec))
     \<and> (cg_version spec = ''v2'' \<longrightarrow> cg_scenarios spec = 30 \<and> cg_deadline spec = Some 600)"

lemma load_slots_correct:
  assumes "load_slots k ids (zip raws pairs) = Some slots" "length raws = length pairs"
  shows "map cs_ordinal slots = map (\<lambda>i. k + int i) [0..<length pairs]
       \<and> map (\<lambda>s. (cs_lane s, cs_pair s)) slots = pairs
       \<and> distinct (map cs_run slots) \<and> set (map cs_run slots) \<inter> set ids = {}
       \<and> list_all (\<lambda>s. is_safe_id (cs_run s)) slots"
  using assms
proof (induction pairs arbitrary: k ids raws slots)
  case Nil
  then show ?case by simp
next
  case (Cons p ps)
  obtain lane pair where p: "p = (lane, pair)" by (cases p)
  from Cons.prems obtain raw rs where raws: "raws = raw # rs" "length rs = length ps" by (cases raws) auto
  from Cons.prems raws p obtain d run rest where
    run: "is_safe_id run" "run \<notin> set ids" and rest: "load_slots (k + 1) (run # ids) (zip rs ps) = Some rest"
    and slots: "slots = \<lparr>cs_ordinal = k, cs_lane = lane, cs_pair = pair, cs_run = run\<rparr> # rest"
    by (auto split: json.splits if_splits)
  have shift: "map (\<lambda>i. k + int i) [0..<Suc n] = k # map (\<lambda>i. k + 1 + int i) [0..<n]" for n
    by (simp only: upt_conv_Cons [OF zero_less_Suc] map_Suc_upt [symmetric]) (simp add: o_def ac_simps del: upt_Suc)
  from Cons.IH [OF rest raws(2)] run show ?case by (auto simp: slots p shift simp del: upt_Suc)
qed

lemma bytes_sha256_value [simp]: "is_sha256 (bytes_sha256 bs)"
  by (simp add: bytes_sha256_def hexdigest_value)

lemma length_expected_pairs: "length (expected_pairs version) = (if version = ''v1'' then 6 else 8)"
  by (simp add: expected_pairs_def Let_def)

lemma safe_id_valueE: "safe_id_value v \<Longrightarrow> (\<And>s. v = JStr s \<Longrightarrow> is_safe_id s \<Longrightarrow> P) \<Longrightarrow> P"
  by (auto simp: safe_id_value_def split: json.splits)

lemma sha256_valueE: "sha256_value v \<Longrightarrow> (\<And>s. v = JStr s \<Longrightarrow> is_sha256 s \<Longrightarrow> P) \<Longrightarrow> P"
  by (auto simp: sha256_value_def split: json.splits)

lemma load_campaign_specE:
  assumes "load_campaign_spec file = Inr spec"
  obtains bs document c version slots where "file = Some bs" "unique_loads bs = Inr document"
    "member (member document ''qualification_runtime'') ''campaign'' = JObj c" "campaign_version_of c = Some version"
    "common_manifest version c (member (member document ''qualification_runtime'') ''benchmark'')"
    "version = ''v1'' \<longrightarrow> cohort_manifest c" "version = ''v2'' \<longrightarrow> scenarios_manifest c"
    "load_slots 1 [] (zip (items_of (get c ''slots'')) (expected_pairs version)) = Some slots"
    "spec = spec_of bs version c (member (member document ''qualification_runtime'') ''benchmark'') slots"
proof -
  from assms obtain bs document where bs: "file = Some bs" "unique_loads bs = Inr document"
    by (auto simp: load_campaign_spec_def accepted_simps)
  let ?runtime = "member document ''qualification_runtime''"
  from assms bs obtain c where c: "member ?runtime ''campaign'' = JObj c"
    by (auto simp: load_campaign_spec_def Let_def accepted_simps split: json.splits)
  from assms bs c obtain version where version: "campaign_version_of c = Some version"
    by (auto simp: load_campaign_spec_def Let_def accepted_simps split: option.splits)
  from assms bs c version have common: "common_manifest version c (member ?runtime ''benchmark'')"
    and cohort: "version = ''v1'' \<longrightarrow> cohort_manifest c"
    by (auto simp: load_campaign_spec_def Let_def accepted_simps split: if_splits)
  with assms bs c version obtain slots where
    slots: "load_slots 1 [] (zip (items_of (get c ''slots'')) (expected_pairs version)) = Some slots"
    by (auto simp: load_campaign_spec_def Let_def accepted_simps split: option.splits if_splits)
  with assms bs c version common cohort have "version = ''v2'' \<longrightarrow> scenarios_manifest c"
    "spec = spec_of bs version c (member ?runtime ''benchmark'') slots"
    by (auto simp: load_campaign_spec_def Let_def accepted_simps split: if_splits)
  with bs c version common cohort slots that show thesis by blast
qed

lemma common_manifest_slots:
  "common_manifest version c benchmark \<Longrightarrow> length (items_of (get c ''slots'')) = length (expected_pairs version)"
  by (auto simp: common_manifest_def length_expected_pairs split: json.splits)

lemma cohort_manifest_families:
  assumes "cohort_manifest c"
  shows "map text_of (items_of (get c ''policy_benefit_families'')) \<noteq> []"
    and "distinct (map text_of (items_of (get c ''policy_benefit_families'')))"
    and "0 < int_of (get c ''policy_benefit_case_count'')"
proof -
  from assms obtain fs k where fs: "get c ''policy_benefit_families'' = JArr fs" "fs \<noteq> []"
    "list_all safe_id_value fs" "distinct fs" and k: "get c ''policy_benefit_case_count'' = JInt k" "0 < k"
    by (auto simp: cohort_manifest_def split: json.splits)
  have "inj_on text_of (set fs)"
    using fs(3) by (intro inj_onI) (metis list_all_iff safe_id_valueE text_of.simps(1))
  with fs k show "map text_of (items_of (get c ''policy_benefit_families'')) \<noteq> []"
    "distinct (map text_of (items_of (get c ''policy_benefit_families'')))"
    "0 < int_of (get c ''policy_benefit_case_count'')" by (simp_all add: distinct_map)
qed

lemma campaign_version_of_Some:
  "campaign_version_of c = Some version \<Longrightarrow> version = ''v1'' \<or> version = ''v2''"
  by (auto simp: campaign_version_of_def split: if_splits)

lemma common_manifest_counts:
  assumes "common_manifest version c benchmark"
  shows "get c ''policy_benefit_case_count'' = JInt k \<Longrightarrow> k \<le> int_of (member benchmark ''scenario_count'')"
    and "version = ''v2'' \<Longrightarrow> int_of (member benchmark ''scenario_count'') = 30"
    and "is_sha256 (text_of (member benchmark ''scenario_order_sha256''))"
  using assms by (auto simp: common_manifest_def elim!: sha256_valueE split: json.splits)

lemma load_campaign_spec_well_formed:
  assumes "load_campaign_spec file = Inr spec"
  shows "well_formed_spec spec"
proof -
  from assms obtain bs document c version slots where c: "campaign_version_of c = Some version"
    and common: "common_manifest version c (member (member document ''qualification_runtime'') ''benchmark'')"
    and cohort: "version = ''v1'' \<longrightarrow> cohort_manifest c"
    and slots: "load_slots 1 [] (zip (items_of (get c ''slots'')) (expected_pairs version)) = Some slots"
    and spec: "spec = spec_of bs version c (member (member document ''qualification_runtime'') ''benchmark'') slots"
    by (blast elim: load_campaign_specE)
  note slots_ok = load_slots_correct [OF slots common_manifest_slots [OF common]]
  have l: "length slots = length (expected_pairs version)" using slots_ok by (metis length_map)
  have shift: "map (\<lambda>i. 1 + int i) [0..<n] = map int [1..<Suc n]" for n
    by (simp only: One_nat_def map_Suc_upt [symmetric]) (simp add: o_def)
  have "cg_case_count spec \<le> cg_scenarios spec" "0 < cg_case_count spec" if "version = ''v1''"
    using common_manifest_counts(1) [OF common] cohort_manifest_families(3) [OF mp [OF cohort that]]
    by (cases "get c ''policy_benefit_case_count''"; simp add: spec spec_of_def Let_def)+
  with slots_ok l campaign_version_of_Some [OF c] common_manifest_counts(2,3) [OF common]
    cohort_manifest_families(1,2) [OF mp [OF cohort]]
  show ?thesis
    by (auto simp: well_formed_spec_def spec spec_of_def Let_def event_count_def length_expected_pairs shift
        public_position_def sha256_hex_value simp del: upt_Suc)
qed

section \<open>Printing and reading back\<close>

lemma unique_loads_serialize:
  assumes "json_ok True (JObj d)"
  shows "unique_loads (serialize d) = Inr (canon (JObj d))"
  unfolding unique_loads_def serialize_def
  by (subst unique_document_object [OF assms]) (simp_all add: no_constants_def del: canon.simps)

lemma canon_idem: "canon (canon v) = canon v"
proof (induction v)
  case (JObj kvs)
  let ?c = "\<lambda>kv. (fst kv, canon (snd kv))"
  have "sort_key fst (map ?c (sort_key fst (map ?c kvs))) = sort_key fst (map ?c (map ?c kvs))"
    by (simp only: sort_key_map sort_key_id_if_sorted sorted_sort_key)
  moreover have "map ?c (map ?c kvs) = map ?c kvs" using JObj by (auto simp: prod_set_simps)
  ultimately have "sort_key fst (map ?c (sort_key fst (map ?c kvs))) = sort_key fst (map ?c kvs)" by (simp only:)
  then show ?case by (simp add: case_prod_unfold)
qed auto

lemma serialize_canon: "canon (JObj d) = JObj e \<Longrightarrow> serialize e = serialize d"
  unfolding serialize_def dumps_sorted by (metis canon_idem)

text \<open>Python's equality of dictionaries, key by key.\<close>

lemma py_eq_get:
  assumes "py_eq (JObj d) (JObj e)" "distinct (dkeys d)" "distinct (dkeys e)"
  shows "py_eq (get d k) (get e k)"
proof -
  have l: "length d = length e"
    and m: "\<And>kv. kv \<in> set d \<Longrightarrow> \<exists>x. map_of e (fst kv) = Some x \<and> py_eq (snd kv) x"
    using assms(1) by (force split: option.splits)+
  have "set (dkeys d) \<subseteq> set (dkeys e)"
    using m by (force simp: dkeys_def dest: map_of_SomeD)
  moreover have "card (set (dkeys d)) = card (set (dkeys e))"
    unfolding distinct_card [OF assms(2)] distinct_card [OF assms(3)] using l by (simp add: dkeys_def)
  ultimately have keys: "set (dkeys d) = set (dkeys e)" by (simp add: card_subset_eq)
  show ?thesis
  proof (cases "map_of d k")
    case None
    then have "k \<notin> set (dkeys d)" by (simp add: dkeys_def map_of_eq_None_iff)
    with keys have "map_of e k = None" by (simp add: dkeys_def map_of_eq_None_iff)
    with None show ?thesis by (simp add: get_def get_or_def dget_def)
  next
    case (Some v)
    then obtain x where "map_of e k = Some x" "py_eq v x" using m [OF map_of_SomeD [OF Some]] by auto
    with Some show ?thesis by (simp add: get_def get_or_def dget_def)
  qed
qed

lemma py_eq_str [simp]: "py_eq v (JStr s) \<longleftrightarrow> v = JStr s"
  by (cases v) (auto split: option.splits simp: num_int.simps)

lemma py_eq_null [simp]: "py_eq v JNull \<longleftrightarrow> v = JNull"
  by (cases v) (auto split: option.splits)

lemma py_eq_str_or_null [simp]: "py_eq v (str_or_null s) \<longleftrightarrow> v = str_or_null s"
  by (cases s) simp_all

text \<open>A value without floats equals itself, and its canonical form equals it.\<close>

fun plain :: "json \<Rightarrow> bool" where
  "plain (JFloat f) = False"
| "plain (JArr vs) = list_all plain vs"
| "plain (JObj kvs) = (distinct (map fst kvs) \<and> list_all (\<lambda>kv. plain (snd kv)) kvs)"
| "plain v = True"

lemma py_eq_canon: "plain v \<Longrightarrow> py_eq (canon v) v"
proof (induction v)
  case (JArr vs)
  then show ?case by (simp add: list_all2_conv_all_nth list_all_length)
next
  case (JObj kvs)
  let ?m = "map (\<lambda>kv. (fst kv, canon (snd kv))) kvs"
  have "\<exists>x. map_of kvs (fst kv) = Some x \<and> py_eq (snd kv) x" if "kv \<in> set ?m" for kv
  proof -
    from that obtain k v where kv: "kv = (k, canon v)" "(k, v) \<in> set kvs" by force
    moreover have "map_of kvs k = Some v" using JObj.prems kv(2) by simp
    moreover have "plain v" using JObj.prems kv(2) by (force simp: list_all_iff)
    ultimately show ?thesis using JObj.IH [OF kv(2)] by (auto simp: prod_set_simps)
  qed
  then show ?case by (fastforce simp: case_prod_unfold split: option.splits)
qed simp_all

section \<open>Accepted events\<close>

lemma get_Cons: "get ((k, v) # d) k' = (if k = k' then v else get d k')"
  by (simp add: get_def get_or_def dget_def)

lemma get_Nil [simp]: "get [] k = JNull"
  by (simp add: get_def get_or_def dget_def)

lemma get_append: "k \<in> set (dkeys d) \<Longrightarrow> get (d @ e) k = get d k"
  by (induction d) (force simp: get_Cons dkeys_def)+

definition EVENT_KEYS :: "string list" where
  "EVENT_KEYS = dkeys (event_fields undefined undefined [] None None None None None)"

lemma event_field_keys: "dkeys (event_fields spec q st fl oc ins rc prev) = EVENT_KEYS"
  by (simp add: EVENT_KEYS_def event_fields_def dkeys_def)

lemma event_keys_distinct: "distinct (EVENT_KEYS @ dkeys (v2_fields p i))"
  by (simp add: EVENT_KEYS_def event_fields_def v2_fields_def dkeys_def)

text \<open>Every record of an event is a common part, followed by the two fields of version 2.\<close>

definition record_shape :: "campaign_spec \<Rightarrow> campaign_request \<Rightarrow> string option \<Rightarrow> jobject \<Rightarrow> bool" where
  "record_shape spec q prev d \<longleftrightarrow>
     (\<exists>st fl oc ins rc p i. d = event_fields spec q st fl oc ins rc prev
        \<or> d = event_fields spec q st fl oc ins rc prev @ v2_fields p i \<and> (p = JNull \<or> (\<exists>s. p = JStr s)))"

lemma record_shape_get:
  assumes "record_shape spec q prev d"
  shows "get d ''previous_event_sha256'' = str_or_null prev"
    and "get d ''sequence'' = JInt (int (sq_sequence q))"
    and "get d ''stage'' = JStr (sq_stage q)"
    and "get d ''slot_ordinal'' = JInt (cs_ordinal (sq_slot q))"
    and "get d ''campaign_manifest_sha256'' = JStr (cg_manifest spec)"
    and "distinct (dkeys d)" and "plain (JObj d)"
proof -
  have k: "\<And>k. k \<in> set EVENT_KEYS \<Longrightarrow> \<exists>st fl oc ins rc. get d k = get (event_fields spec q st fl oc ins rc prev) k"
    using assms unfolding record_shape_def by (metis get_append event_field_keys)
  show "get d ''previous_event_sha256'' = str_or_null prev"
    using k [of "''previous_event_sha256''"] by (auto simp: EVENT_KEYS_def event_fields_def dkeys_def get_Cons)
  show "get d ''sequence'' = JInt (int (sq_sequence q))"
    using k [of "''sequence''"] by (auto simp: EVENT_KEYS_def event_fields_def dkeys_def get_Cons)
  show "get d ''stage'' = JStr (sq_stage q)"
    using k [of "''stage''"] by (auto simp: EVENT_KEYS_def event_fields_def dkeys_def get_Cons)
  show "get d ''slot_ordinal'' = JInt (cs_ordinal (sq_slot q))"
    using k [of "''slot_ordinal''"] by (auto simp: EVENT_KEYS_def event_fields_def dkeys_def get_Cons)
  show "get d ''campaign_manifest_sha256'' = JStr (cg_manifest spec)"
    using k [of "''campaign_manifest_sha256''"] by (auto simp: EVENT_KEYS_def event_fields_def dkeys_def get_Cons)
  show "distinct (dkeys d)"
    using assms event_keys_distinct unfolding record_shape_def
    by (auto simp: event_field_keys) (simp_all add: dkeys_def EVENT_KEYS_def event_fields_def v2_fields_def)
  then have "distinct (map fst d)" by (simp add: dkeys_def)
  moreover have "plain (str_or_null s)" for s by (cases s) simp_all
  ultimately show "plain (JObj d)"
    using assms unfolding record_shape_def by (auto simp: event_fields_def v2_fields_def)
qed

lemma event_record_shape:
  assumes "event_record spec q r prev p = Inr d" "sq_stage q \<noteq> ''score-proxy'' \<Longrightarrow> p = JNull"
  shows "record_shape spec q prev d" "get d ''status'' = JStr (sr_status r)"
    "get d ''failure_category'' = str_or_null (sr_failure r)"
    "get d ''runtime_outcome_sha256'' = JStr (sr_outcome r)"
    "get d ''model_runtime_instance_sha256'' = str_or_null (sr_instance r)"
proof -
  let ?d = "event_fields spec q (sr_status r) (sr_failure r) (Some (sr_outcome r)) (sr_instance r)
              (sr_reconciliation r) prev"
  have d: "d = ?d \<or> d = ?d @ v2_fields p (sr_identity r) \<and> (p = JNull \<or> (\<exists>s. p = JStr s))"
    using assms by (auto simp: event_record_def Let_def elim!: sha256_valueE split: if_splits)
  then show "record_shape spec q prev d" unfolding record_shape_def by blast
  have "get d k = get ?d k" if "k \<in> set EVENT_KEYS" for k
    using d that by (metis get_append event_field_keys)
  then show "get d ''status'' = JStr (sr_status r)" "get d ''failure_category'' = str_or_null (sr_failure r)"
    "get d ''runtime_outcome_sha256'' = JStr (sr_outcome r)"
    "get d ''model_runtime_instance_sha256'' = str_or_null (sr_instance r)"
    by (simp_all add: EVENT_KEYS_def event_fields_def dkeys_def get_Cons)
qed

lemma partial_record_shape:
  "record_shape spec q prev (partial_event_record spec q prev)"
  "get (partial_event_record spec q prev) ''status'' = JStr ''failed''"
  "get (partial_event_record spec q prev) ''failure_category'' = JStr ''campaign_partial_stage''"
  "get (partial_event_record spec q prev) ''runtime_outcome_sha256'' = JNull"
proof -
  let ?d = "event_fields spec q ''failed'' (Some ''campaign_partial_stage'') None None None prev"
  have "partial_event_record spec q prev = ?d \<or> partial_event_record spec q prev = ?d @ v2_fields JNull None"
    by (simp add: partial_event_record_def)
  then show "record_shape spec q prev (partial_event_record spec q prev)" unfolding record_shape_def by blast
qed (simp_all add: partial_event_record_def event_fields_def get_Cons)

lemma predecessor_outcome_null: "sq_stage q \<noteq> ''score-proxy'' \<Longrightarrow> predecessor_outcome spec q es = JNull"
  by (simp add: predecessor_outcome_def)

lemma expected_eventE:
  assumes "expected_event A w spec q es event = Inr d"
  obtains "is_partial event" "d = partial_event_record spec q (previous_event es)"
  | r where "\<not> is_partial event" "ad_inspect A w q = Answers \<lparr>si_state = ''complete'', si_result = Some r\<rparr>"
      "validate_stage_result A w q r = Inr ()"
      "event_record spec q r (previous_event es) (predecessor_outcome spec q es) = Inr d"
proof (cases "is_partial event")
  case True
  with assms that(1) show thesis by (simp add: expected_event_def)
next
  case False
  with assms obtain i where i: "inspect_stage A w q = Inr i"
    by (auto simp: expected_event_def bind_Inr_iff)
  with assms False obtain r where r: "si_state i = ''complete''" "si_result i = Some r"
    by (auto simp: expected_event_def split: bool.splits option.splits)
  with assms False i that(2) [of r] show thesis
    by (cases i) (auto simp: expected_event_def inspect_stage_def accepted_simps)
qed

lemma expected_event_shape:
  assumes "expected_event A w spec q es event = Inr d"
  shows "record_shape spec q (previous_event es) d"
  using assms
proof (cases rule: expected_eventE)
  case 1
  then show ?thesis by (simp add: partial_record_shape(1))
next
  case (2 r)
  from 2(4) predecessor_outcome_null show ?thesis by (rule event_record_shape(1))
qed

lemma checked_eventE:
  assumes "checked_event A w spec manifest slots_dir events es n = Inr (event, digest)"
  obtains bs q d where "entry_bytes (dget events (event_name n)) = Some bs" "unique_loads bs = Inr (JObj event)"
    "stage_request spec manifest slots_dir n = Inr q" "expected_event A w spec q es event = Inr d"
    "py_eq (JObj event) (JObj d)" "bs = serialize event" "digest = bytes_sha256 bs"
proof -
  from assms obtain bs document q where bs: "entry_bytes (dget events (event_name n)) = Some bs"
    "unique_loads bs = Inr document" "stage_request spec manifest slots_dir n = Inr q"
    by (auto simp: checked_event_def read_entry_def accepted_simps)
  with assms obtain event' where e: "document = JObj event'"
    by (auto simp: checked_event_def read_entry_def accepted_simps split: json.splits)
  with assms bs obtain d where d: "expected_event A w spec q es event' = Inr d"
    by (auto simp: checked_event_def read_entry_def accepted_simps)
  with assms bs e have "event' = event" "py_eq (JObj event) (JObj d)" "bs = serialize event"
    "digest = bytes_sha256 bs"
    by (auto simp: checked_event_def read_entry_def accepted_simps simp del: py_eq.simps split: if_splits)
  with bs e d that show thesis by blast
qed

lemma unique_loads_ok: "unique_loads bs = Inr v \<Longrightarrow> json_ok True v"
  by (auto simp: unique_loads_def no_constants_def unique_document_def split: if_splits decoded.splits sum.splits exn.splits
      intro: loads_ok simp del: json_ok.simps)

text \<open>What an accepted event says of itself.\<close>

lemma checked_event_fields:
  assumes "checked_event A w spec manifest slots_dir events es n = Inr (event, digest)"
    and "stage_request spec manifest slots_dir n = Inr q"
  shows "get event ''previous_event_sha256'' = str_or_null (previous_event es)"
    and "py_eq (get event ''sequence'') (JInt (int n))"
    and "get event ''stage'' = JStr (sq_stage q)"
    and "py_eq (get event ''slot_ordinal'') (JInt (cs_ordinal (sq_slot q)))"
    and "get event ''campaign_manifest_sha256'' = JStr (cg_manifest spec)"
proof -
  from assms obtain bs d where bs: "unique_loads bs = Inr (JObj event)"
    and d: "expected_event A w spec q es event = Inr d" and eq: "py_eq (JObj event) (JObj d)"
    by (elim checked_eventE) auto
  from unique_loads_ok [OF bs] have dist: "distinct (dkeys event)" by (simp add: dkeys_def)
  note s = record_shape_get [OF expected_event_shape [OF d]]
  note eq = py_eq_get [OF eq dist s(6)]
  have "sq_sequence q = n" using assms(2) by (auto simp: stage_request_def Let_def bind_Inr_iff split: if_splits)
  then show "get event ''previous_event_sha256'' = str_or_null (previous_event es)"
    "py_eq (get event ''sequence'') (JInt (int n))" "get event ''stage'' = JStr (sq_stage q)"
    "py_eq (get event ''slot_ordinal'') (JInt (cs_ordinal (sq_slot q)))"
    "get event ''campaign_manifest_sha256'' = JStr (cg_manifest spec)"
    using eq [of "''previous_event_sha256''"] eq [of "''sequence''"] eq [of "''stage''"] eq [of "''slot_ordinal''"]
      eq [of "''campaign_manifest_sha256''"] s by simp_all
qed

section \<open>Accepted chains\<close>

definition instance_of :: "jobject \<Rightarrow> string option" where
  "instance_of event =
     (if is_partial event then None else string_or_none (get event ''model_runtime_instance_sha256''))"

definition instances_of :: "event list \<Rightarrow> string list" where
  "instances_of es = List.map_filter (instance_of \<circ> fst) es"

lemma instances_append: "instances_of (es @ fs) = instances_of es @ instances_of fs"
  by (simp add: instances_of_def map_filter_def)

lemma note_instance_Inr:
  assumes "note_instance used event = Inr used'" "distinct used"
  shows "used' = used @ instances_of [(event, digest)]" "distinct used'"
  using assms
  by (auto simp: note_instance_def instances_of_def instance_of_def map_filter_def split: if_splits json.splits)

lemma load_sequence_append:
  "load_sequence step heads ch (ms @ ns) =
     (case load_sequence step heads ch ms of (heads', Inl e) \<Rightarrow> (heads', Inl e)
      | (heads', Inr ch') \<Rightarrow> load_sequence step heads' ch' ns)"
  by (induction ms arbitrary: heads ch) (auto split: prod.splits sum.splits)

lemma load_eventE:
  assumes "load_event A w disk spec m d E n H ch k = (H', Inr ch')"
  obtains event digest used where "checked_event A w spec m d E (ch_events ch) k = Inr (event, digest)"
    "check_head disk n H k digest = (H', Inr ())" "note_instance (ch_used ch) event = Inr used"
    "ch' = \<lparr>ch_events = ch_events ch @ [(event, digest)], ch_used = used\<rparr>"
  using assms by (auto simp: load_event_def bind_Inr_iff split: prod.splits sum.splits)

lemma check_head_before:
  "check_head disk n H k digest = (H', Inr ()) \<Longrightarrow> k \<noteq> n \<Longrightarrow> H' = H"
  by (auto simp: check_head_def Let_def split: if_splits)

lemma load_prefix:
  assumes "load_sequence (load_event A w disk spec m d E n) H \<lparr>ch_events = [], ch_used = []\<rparr> [1..<Suc k] = (H', Inr ch)"
  shows "length (ch_events ch) = k
    \<and> (\<forall>i<k. checked_event A w spec m d E (take i (ch_events ch)) (Suc i) = Inr (ch_events ch ! i))
    \<and> ch_used ch = instances_of (ch_events ch) \<and> distinct (ch_used ch)"
  using assms
proof (induction k arbitrary: H' ch)
  case 0
  then show ?case by (auto simp: instances_of_def map_filter_def)
next
  case (Suc k)
  have "[1..<Suc (Suc k)] = [1..<Suc k] @ [Suc k]" by simp
  with Suc.prems obtain H1 ch1 where 1: "load_sequence (load_event A w disk spec m d E n) H
      \<lparr>ch_events = [], ch_used = []\<rparr> [1..<Suc k] = (H1, Inr ch1)"
    and 2: "load_event A w disk spec m d E n H1 ch1 (Suc k) = (H', Inr ch)"
    by (auto simp: load_sequence_append simp del: upt_Suc split: prod.splits sum.splits)
  from 2 obtain event digest used where c: "checked_event A w spec m d E (ch_events ch1) (Suc k) = Inr (event, digest)"
    and u: "note_instance (ch_used ch1) event = Inr used"
    and ch: "ch = \<lparr>ch_events = ch_events ch1 @ [(event, digest)], ch_used = used\<rparr>"
    by (rule load_eventE)
  from Suc.IH [OF 1] c note_instance_Inr(1) [OF u, where digest = digest] note_instance_Inr(2) [OF u] show ?case
    by (auto simp: ch nth_append instances_append less_Suc_eq)
qed

lemma load_eventsE:
  assumes "load_events A w disk spec m d E H = (H', Inr ch)"
  shows "names_in_order spec E H" "length (ch_events ch) = length E"
    "\<And>i. i < length E \<Longrightarrow> checked_event A w spec m d E (take i (ch_events ch)) (Suc i) = Inr (ch_events ch ! i)"
    "ch_used ch = instances_of (ch_events ch)" "distinct (ch_used ch)"
  using assms load_prefix [of A w disk spec m d E "length E" H "length E" H' ch]
  by (auto simp: load_events_def simp del: upt_Suc split: if_splits)

lemma previous_event_take:
  "i \<le> length es \<Longrightarrow> previous_event (take i es) = (if i = 0 then None else Some (snd (es ! (i - 1))))"
  by (cases i) (auto simp: previous_event_def last_conv_nth)

definition event_bytes :: "folder \<Rightarrow> nat \<Rightarrow> bytes option" where
  "event_bytes E n = entry_bytes (dget E (event_name n))"

text \<open>Position by position: the file, its hash, and the hash of the file before it.\<close>

lemma chain_link:
  assumes "load_events A w disk spec m d E H = (H', Inr ch)" "i < length E"
  shows "event_bytes E (Suc i) = Some (serialize (fst (ch_events ch ! i)))"
    and "unique_loads (serialize (fst (ch_events ch ! i))) = Inr (JObj (fst (ch_events ch ! i)))"
    and "snd (ch_events ch ! i) = bytes_sha256 (serialize (fst (ch_events ch ! i)))"
    and "get (fst (ch_events ch ! i)) ''previous_event_sha256''
           = str_or_null (if i = 0 then None else Some (snd (ch_events ch ! (i - 1))))"
proof -
  obtain event digest where e: "ch_events ch ! i = (event, digest)" by (cases "ch_events ch ! i")
  with load_eventsE(3) [OF assms] have c: "checked_event A w spec m d E (take i (ch_events ch)) (Suc i) = Inr (event, digest)"
    by simp
  then obtain q where q: "stage_request spec m d (Suc i) = Inr q" by (elim checked_eventE)
  show "event_bytes E (Suc i) = Some (serialize (fst (ch_events ch ! i)))"
    "unique_loads (serialize (fst (ch_events ch ! i))) = Inr (JObj (fst (ch_events ch ! i)))"
    "snd (ch_events ch ! i) = bytes_sha256 (serialize (fst (ch_events ch ! i)))"
    using c by (auto simp: e event_bytes_def elim!: checked_eventE)
  show "get (fst (ch_events ch ! i)) ''previous_event_sha256''
      = str_or_null (if i = 0 then None else Some (snd (ch_events ch ! (i - 1))))"
    using checked_event_fields(1) [OF c q] previous_event_take [of i "ch_events ch"] assms(2)
      load_eventsE(2) [OF assms(1)] by (simp add: e)
qed

text \<open>
  C38: The hash of the last event commits to the whole history: if two private directories are accepted with equally
  many events and the same hash of the last one, then every event file has the same bytes in both, unless there is a
  position at which the two files differ and still have the same SHA-256. The two directories may have been read with
  different adapters, manifests and disks.
\<close>

theorem chain_commits_to_history:
  assumes 1: "load_events A w disk spec m d E H = (H1, Inr ch)"
    and 2: "load_events B u disk' spec' m' d' F G = (G1, Inr ch')"
    and n: "length E = length F" and head: "previous_event (ch_events ch) = previous_event (ch_events ch')"
  shows "(\<forall>i<length E. event_bytes E (Suc i) = event_bytes F (Suc i))
       \<or> (\<exists>i<length E. \<exists>x y. event_bytes E (Suc i) = Some x \<and> event_bytes F (Suc i) = Some y
            \<and> x \<noteq> y \<and> bytes_sha256 x = bytes_sha256 y)"
proof (rule disjCI)
  assume safe: "\<not> (\<exists>i<length E. \<exists>x y. event_bytes E (Suc i) = Some x \<and> event_bytes F (Suc i) = Some y
            \<and> x \<noteq> y \<and> bytes_sha256 x = bytes_sha256 y)"
  note l = load_eventsE(2) [OF 1] load_eventsE(2) [OF 2]
  have same: "event_bytes E (Suc i) = event_bytes F (Suc i)"
    if i: "i < length E" and h: "snd (ch_events ch ! i) = snd (ch_events ch' ! i)" for i
  proof -
    let ?x = "serialize (fst (ch_events ch ! i))" and ?y = "serialize (fst (ch_events ch' ! i))"
    have x: "event_bytes E (Suc i) = Some ?x" by (rule chain_link(1) [OF 1 i])
    have y: "event_bytes F (Suc i) = Some ?y" using i n by (intro chain_link(1) [OF 2]) simp
    have "bytes_sha256 ?x = bytes_sha256 ?y" using h chain_link(3) [OF 1 i] chain_link(3) [OF 2, of i] i n by simp
    with safe i x y have "?x = ?y" by blast
    with x y show ?thesis by simp
  qed
  have "snd (ch_events ch ! i) = snd (ch_events ch' ! i)" if "i < length E" for i
    using that
  proof (induction "length E - i" arbitrary: i)
    case (Suc k)
    show ?case
    proof (cases "Suc i = length E")
      case True
      then have "ch_events ch \<noteq> []" "ch_events ch' \<noteq> []" using l n Suc.prems by auto
      moreover have "length (ch_events ch) - 1 = i" "length (ch_events ch') - 1 = i" using l n True by linarith+
      ultimately show ?thesis using head by (simp add: previous_event_def last_conv_nth)
    next
      case False
      with Suc.prems have i': "Suc i < length E" by simp
      then have h: "snd (ch_events ch ! Suc i) = snd (ch_events ch' ! Suc i)" using Suc.hyps(1) [of "Suc i"] Suc.hyps(2) by simp
      let ?e = "fst (ch_events ch ! Suc i)" and ?f = "fst (ch_events ch' ! Suc i)"
      have j: "Suc i < length F" using i' n by simp
      have "serialize ?e = serialize ?f"
        using same [OF i' h] chain_link(1) [OF 1 i'] chain_link(1) [OF 2 j] by (metis option.inject)
      then have e: "?e = ?f"
        using chain_link(2) [OF 1 i'] chain_link(2) [OF 2 j] by (metis sum.inject(2) json.inject(6))
      have "get (fst (ch_events ch ! Suc i)) ''previous_event_sha256'' = JStr (snd (ch_events ch ! i))"
        using chain_link(4) [OF 1 i'] by simp
      moreover have "get (fst (ch_events ch' ! Suc i)) ''previous_event_sha256'' = JStr (snd (ch_events ch' ! i))"
        using chain_link(4) [OF 2 j] by simp
      ultimately show ?thesis unfolding e by (metis json.inject(4))
    qed
  qed simp
  then show "\<forall>i<length E. event_bytes E (Suc i) = event_bytes F (Suc i)" using same by blast
qed

end
