(* ===== verification/Campaign_History.thy ===== *)
theory Campaign_History
  imports Campaign_Laws
begin

text \<open>
  Histories of calls of the campaign driver: what one call does to the directory and to the adapters,
  that no stage is run twice, that a failure is terminal, and what a passed campaign has behind it.
\<close>

section \<open>What one advance does\<close>

lemma dset_new: "k \<notin> set (dkeys d) \<Longrightarrow> dset d k v = d @ [(k, v)]"
  by (induction d) (auto simp: dkeys_def)

text \<open>A write adds at most its own file, with a prefix of the text.\<close>

lemma atomic_write_effect:
  assumes "atomic_write_no_clobber effect f name document = (f', res)"
  shows "f' = f \<or> name \<notin> set (dkeys f) \<and> (\<exists>n. f' = f @ [(name, Regular (take n (serialize document)))])"
    and "res = Inr bs \<Longrightarrow> bs = serialize document \<and> f' = f @ [(name, Regular bs)] \<and> name \<notin> set (dkeys f)"
proof -
  have "take (length bs) bs = bs" for bs :: bytes by simp
  then show "f' = f \<or> name \<notin> set (dkeys f) \<and> (\<exists>n. f' = f @ [(name, Regular (take n (serialize document)))])"
    using assms unfolding atomic_write_no_clobber_def Let_def
    by (auto simp: dset_new split: if_splits disk_effect.splits) (metis order_refl take_all)
  show "res = Inr bs \<Longrightarrow> bs = serialize document \<and> f' = f @ [(name, Regular bs)] \<and> name \<notin> set (dkeys f)"
    using assms unfolding atomic_write_no_clobber_def Let_def
    by (auto simp: dset_new split: if_splits disk_effect.splits)
qed

abbreviation events_of :: "store \<Rightarrow> folder" where
  "events_of s \<equiv> contents (st_events s)"

lemma write_event_effect:
  assumes "write_event disk s n event = (s', res)"
  shows "events_of s' = events_of s \<or> event_name n \<notin> set (dkeys (events_of s))
           \<and> (\<exists>k. events_of s' = events_of s @ [(event_name n, Regular (take k (serialize event)))])"
    and "res = Inr digest \<Longrightarrow> digest = bytes_sha256 (serialize event) \<and> event_name n \<notin> set (dkeys (events_of s))
           \<and> events_of s' = events_of s @ [(event_name n, Regular (serialize event))]"
  using assms atomic_write_effect [of "disk (Event n)" "events_of s" "event_name n" event]
    atomic_write_effect(2) [of "disk (Event n)" "events_of s" "event_name n" event _ "Inr _", OF _ refl]
  unfolding write_event_def Let_def
  by (auto simp: bind_Inr_iff split: prod.splits sum.splits)

lemma settle_outcome_events:
  "settle_outcome disk s document = (s', res) \<Longrightarrow> st_events s' = st_events s"
  by (auto simp: settle_outcome_def split: if_splits prod.splits)

lemma complete_campaign_events:
  "complete_campaign A w disk d spec s ch = (s', res) \<Longrightarrow> st_events s' = st_events s"
  by (auto simp: complete_campaign_def complete_v1_def complete_v2_def Let_def dest!: settle_outcome_events
      split: if_splits sum.splits prod.splits option.splits)

text \<open>
  The files a stage may add: the event of its number, in whole or in part, for a record of the right shape.
\<close>

definition adds_event :: "campaign_spec \<Rightarrow> campaign_request \<Rightarrow> chain \<Rightarrow> folder \<Rightarrow> folder \<Rightarrow> bool" where
  "adds_event spec q ch E E' \<longleftrightarrow>
     E' = E \<or> event_name (sq_sequence q) \<notin> set (dkeys E)
       \<and> (\<exists>event k. record_shape spec q (previous_event (ch_events ch)) event
            \<and> E' = E @ [(event_name (sq_sequence q), Regular (take k (serialize event)))])"

lemma record_partial_effect:
  assumes "record_partial disk spec s ch q = (s', res)"
  shows "adds_event spec q ch (events_of s) (events_of s')"
proof -
  from assms obtain r where w: "write_event disk s (sq_sequence q) (partial_event_record spec q (previous_event (ch_events ch))) = (s', r)"
    by (auto simp: record_partial_def split: prod.splits)
  show ?thesis
    using write_event_effect(1) [OF w] partial_record_shape(1) unfolding adds_event_def by blast
qed

lemma record_stage_effect:
  assumes "record_stage A w disk d spec s ch q r = (s', res)"
  shows "adds_event spec q ch (events_of s) (events_of s')"
proof (cases "bind (fresh_instance (ch_used ch) r) (\<lambda>_. event_record spec q r (previous_event (ch_events ch))
             (predecessor_outcome spec q (ch_events ch)))")
  case (Inl e)
  with assms show ?thesis by (simp add: record_stage_def adds_event_def)
next
  case (Inr event)
  then have shape: "record_shape spec q (previous_event (ch_events ch)) event"
    by (auto simp: bind_Inr_iff intro!: event_record_shape(1) predecessor_outcome_null)
  obtain s1 r1 where w: "write_event disk s (sq_sequence q) event = (s1, r1)" by fastforce
  have "st_events s' = st_events s1"
    using assms w Inr unfolding record_stage_def
    by (auto split: sum.splits if_splits option.splits dest: complete_campaign_events)
  with write_event_effect(1) [OF w] shape show ?thesis unfolding adds_event_def by auto
qed

definition stage_absent :: "'w adapters \<Rightarrow> 'w \<Rightarrow> campaign_request \<Rightarrow> bool" where
  "stage_absent A w q \<longleftrightarrow> ad_inspect A w q = Answers \<lparr>si_state = ''absent'', si_result = None\<rparr>"

definition last_passed :: "chain \<Rightarrow> bool" where
  "last_passed ch \<longleftrightarrow> ch_events ch = [] \<or> get (fst (last (ch_events ch))) ''status'' = JStr ''passed''"

text \<open>The state of the adapters changes only by running an absent stage whose directory was prepared.\<close>

definition runs_stage :: "'w adapters \<Rightarrow> 'w \<Rightarrow> campaign_request \<Rightarrow> 'w \<Rightarrow> bool" where
  "runs_stage A w q w' \<longleftrightarrow>
     stage_absent A w q \<and> (\<exists>w1 a. ad_prepare A w (sq_dir q) = Some w1 \<and> ad_run A w1 q = (w', a))"

lemma run_request_effect:
  assumes "run_request A w q used = (w', res)"
  shows "w' = w \<or> (\<exists>w1 a. ad_prepare A w (sq_dir q) = Some w1 \<and> ad_run A w1 q = (w', a))"
  using assms
  by (auto simp: run_request_def run_stage_def split: sum.splits readiness.splits option.splits prod.splits)

lemma next_stage_effect:
  assumes "next_stage A w disk d spec s ch q = (s', w', res)"
  shows "adds_event spec q ch (events_of s) (events_of s') \<and> (w' = w \<or> runs_stage A w q w')"
proof -
  have none: "adds_event spec q ch (events_of s) (events_of s)" by (simp add: adds_event_def)
  show ?thesis
  proof (cases "inspect_stage A w q")
    case (Inl e)
    with assms none show ?thesis by (simp add: next_stage_def)
  next
    case (Inr i)
    then have i: "ad_inspect A w q = Answers i" by (simp add: inspect_stage_def accepted_simps)
    show ?thesis
    proof (cases "si_result i")
      case (Some r)
      with assms Inr none show ?thesis
        by (auto simp: next_stage_def split: if_splits sum.splits prod.splits dest: record_stage_effect)
    next
      case None
      show ?thesis
      proof (cases "si_state i = ''absent''")
        case True
        with None i have absent: "stage_absent A w q" by (cases i) (simp add: stage_absent_def)
        obtain w1 r1 where run: "run_request A w q (ch_used ch) = (w1, r1)" by fastforce
        with run_request_effect [OF this] absent have w1: "w1 = w \<or> runs_stage A w q w1" by (auto simp: runs_stage_def)
        with assms Inr None True run none show ?thesis
          by (auto simp: next_stage_def split: sum.splits option.splits prod.splits dest: record_stage_effect)
      next
        case False
        with assms Inr None none show ?thesis
          by (auto simp: next_stage_def split: if_splits prod.splits dest: record_partial_effect)
      qed
    qed
  qed
qed

lemma open_folders_events:
  "open_folders s = (s', res) \<Longrightarrow> events_of s' = events_of s \<and> contents (st_heads s') = contents (st_heads s)"
  by (auto simp: open_folders_def private_subdirectory_def Let_def split: sum.splits location.splits)

text \<open>Every advance leaves the events and the adapters alone, or takes the sole next stage of an accepted chain.\<close>

lemma advance_locked_cases:
  assumes "advance_locked A w disk m d spec s = (s', w', res)"
  shows "(events_of s' = events_of s \<and> w' = w)
    \<or> (\<exists>H ch q. load_events A w disk spec m d (events_of s) (contents (st_heads s)) = (H, Inr ch) \<and> last_passed ch
         \<and> length (ch_events ch) < event_count spec
         \<and> stage_request spec m d (length (ch_events ch) + 1) = Inr q
         \<and> adds_event spec q ch (events_of s) (events_of s') \<and> (w' = w \<or> runs_stage A w q w'))"
proof -
  obtain H loaded where l: "load_events A w disk spec m d (events_of s) (contents (st_heads s)) = (H, loaded)" by fastforce
  let ?s = "s\<lparr>st_heads := Private_Folder H\<rparr>"
  show ?thesis
  proof (cases loaded)
    case (Inl e)
    with assms l show ?thesis by (auto simp: advance_locked_def Let_def)
  next
    case (Inr ch)
    note l = l [unfolded Inr]
    have len: "length (ch_events ch) \<le> event_count spec"
      using load_eventsE(1,2) [OF l] by (simp add: names_in_order_def Let_def)
    consider "\<not> last_passed ch" | "last_passed ch" "length (ch_events ch) = event_count spec"
      | "last_passed ch" "length (ch_events ch) < event_count spec" using len by fastforce
    then show ?thesis
    proof cases
      case 1
      with assms l show ?thesis by (auto simp: advance_locked_def last_passed_def Let_def)
    next
      case 2
      with assms l show ?thesis
        by (auto simp: advance_locked_def last_passed_def Let_def split: prod.splits dest!: complete_campaign_events)
    next
      case 3
      then show ?thesis
      proof (cases "stage_request spec m d (length (ch_events ch) + 1)")
        case (Inl e)
        with assms l 3 show ?thesis by (auto simp: advance_locked_def last_passed_def Let_def)
      next
        case (Inr q)
        with assms l 3 have "next_stage A w disk d spec ?s ch q = (s', w', res)"
          by (auto simp: advance_locked_def last_passed_def Let_def)
        from next_stage_effect [OF this] l 3 Inr show ?thesis by auto
      qed
    qed
  qed
qed

lemma advance_cases:
  assumes "advance_qualification_campaign A disk m file dir s w = (s', w', res)"
  obtains "events_of s' = events_of s" "w' = w"
  | spec H ch q where "load_campaign_spec file = Inr spec"
      "load_events A w disk spec m (below dir ''slots'') (events_of s) (contents (st_heads s)) = (H, Inr ch)"
      "last_passed ch" "length (ch_events ch) < event_count spec"
      "stage_request spec m (below dir ''slots'') (length (ch_events ch) + 1) = Inr q"
      "adds_event spec q ch (events_of s) (events_of s')" "w' = w \<or> runs_stage A w q w'"
proof (cases "st_private s \<and> st_lock s \<and> (\<exists>spec s1 u. load_campaign_spec file = Inr spec \<and> open_folders s = (s1, Inr u))")
  case False
  with assms that(1) open_folders_events show thesis
    by (auto simp: advance_qualification_campaign_def split: if_splits sum.splits prod.splits)
next
  case True
  then obtain spec s1 u where s1: "load_campaign_spec file = Inr spec" "open_folders s = (s1, Inr u)" "st_private s" "st_lock s"
    by blast
  with assms have "advance_locked A w disk m (below dir ''slots'') spec s1 = (s', w', res)"
    by (simp add: advance_qualification_campaign_def)
  from advance_locked_cases [OF this] open_folders_events [OF s1(2)] s1(1) that show thesis by metis
qed

section \<open>Histories\<close>

text \<open>
  A history of calls on one private directory. Each call may meet another disk, and what surrounds the
  campaign may act in between, as the operator does who restarts the model.
\<close>

inductive history ::
  "'w adapters \<Rightarrow> ('w \<Rightarrow> 'w \<Rightarrow> bool) \<Rightarrow> string \<Rightarrow> bytes option \<Rightarrow> string \<Rightarrow> store \<times> 'w \<Rightarrow> store \<times> 'w \<Rightarrow> bool"
  for A env m mf dir where
  Begin: "history A env m mf dir c c"
| Advance: "history A env m mf dir c (s, w) \<Longrightarrow>
    advance_qualification_campaign A disk m mf dir s w = (s', w', res) \<Longrightarrow> history A env m mf dir c (s', w')"
| Meanwhile: "history A env m mf dir c (s, w) \<Longrightarrow> env w w' \<Longrightarrow> history A env m mf dir c (s, w')"

text \<open>The adapters with a log of the runs.\<close>

definition logged :: "'w adapters \<Rightarrow> ('w \<times> campaign_request list) adapters" where
  "logged A =
     \<lparr>ad_inspect = \<lambda>x q. ad_inspect A (fst x) q, ad_probe = \<lambda>x q. ad_probe A (fst x) q,
      ad_prepare = \<lambda>x p. map_option (\<lambda>w. (w, snd x)) (ad_prepare A (fst x) p),
      ad_run = \<lambda>x q. (case ad_run A (fst x) q of (w, a) \<Rightarrow> ((w, snd x @ [q]), a)),
      ad_file = \<lambda>x p. ad_file A (fst x) p\<rparr>"

definition beside_log :: "('w \<Rightarrow> 'w \<Rightarrow> bool) \<Rightarrow> 'w \<times> 'l \<Rightarrow> 'w \<times> 'l \<Rightarrow> bool" where
  "beside_log env x y \<longleftrightarrow> env (fst x) (fst y) \<and> snd x = snd y"

text \<open>
  What the driver relies on: a stage that was run is not reported absent afterwards, whether the run
  returned or raised, and nothing that happens later makes it absent again.
\<close>

definition keeps_marks :: "'w adapters \<Rightarrow> ('w \<Rightarrow> 'w \<Rightarrow> bool) \<Rightarrow> bool" where
  "keeps_marks A env \<longleftrightarrow>
     (\<forall>w q. \<not> stage_absent A (fst (ad_run A w q)) q)
     \<and> (\<forall>w q q'. stage_absent A (fst (ad_run A w q')) q \<longrightarrow> stage_absent A w q)
     \<and> (\<forall>w p w' q. ad_prepare A w p = Some w' \<longrightarrow> stage_absent A w' q \<longrightarrow> stage_absent A w q)
     \<and> (\<forall>w w' q. env w w' \<longrightarrow> stage_absent A w' q \<longrightarrow> stage_absent A w q)"

lemma logged_absent [simp]: "stage_absent (logged A) x q = stage_absent A (fst x) q"
  by (simp add: stage_absent_def logged_def)

lemma logged_simps [simp]:
  "ad_prepare (logged A) x p = map_option (\<lambda>w. (w, snd x)) (ad_prepare A (fst x) p)"
  "ad_run (logged A) x q = (case ad_run A (fst x) q of (w, a) \<Rightarrow> ((w, snd x @ [q]), a))"
  by (simp_all add: logged_def)

lemma logged_runs:
  assumes "runs_stage (logged A) x q y"
  obtains w1 where "stage_absent A (fst x) q" "ad_prepare A (fst x) (sq_dir q) = Some w1"
    "fst y = fst (ad_run A w1 q)" "snd y = snd x @ [q]"
proof -
  from assms obtain w1 a where "stage_absent A (fst x) q" "ad_prepare A (fst x) (sq_dir q) = Some w1"
    "ad_run (logged A) (w1, snd x) q = (y, a)" by (auto simp: runs_stage_def)
  with that [of w1] show thesis by (cases "ad_run A w1 q") auto
qed

lemma stage_request_sequence:
  "stage_request spec m d n = Inr q \<Longrightarrow> sq_sequence q = n"
  by (auto simp: stage_request_def Let_def bind_Inr_iff split: if_splits)

text \<open>The log: every run is of the frozen request of its number, and the numbers only grow.\<close>

definition log_ok :: "'w adapters \<Rightarrow> campaign_spec \<Rightarrow> string \<Rightarrow> string \<Rightarrow> store \<Rightarrow> 'w \<times> campaign_request list \<Rightarrow> bool" where
  "log_ok A spec m d s x \<longleftrightarrow>
     (\<forall>q\<in>set (snd x). stage_request spec m d (sq_sequence q) = Inr q \<and> \<not> stage_absent A (fst x) q
        \<and> sq_sequence q \<le> Suc (length (events_of s)))
     \<and> sorted_wrt (<) (map sq_sequence (snd x))"

lemma adds_event_grows: "adds_event spec q ch E E' \<Longrightarrow> length E \<le> length E'"
  by (auto simp: adds_event_def)

lemma log_ok_run:
  assumes "log_ok A spec m d s x" "keeps_marks A env" "runs_stage (logged A) x q y"
    and "stage_request spec m d (Suc (length (events_of s))) = Inr q" "length (events_of s) \<le> length (events_of s')"
  shows "log_ok A spec m d s' y"
proof -
  from assms(3) obtain w1 where q: "stage_absent A (fst x) q" "ad_prepare A (fst x) (sq_dir q) = Some w1"
    "fst y = fst (ad_run A w1 q)" "snd y = snd x @ [q]" by (rule logged_runs)
  have n: "sq_sequence q = Suc (length (events_of s))" using assms(4) by (rule stage_request_sequence)
  have older: "sq_sequence p < sq_sequence q" if "p \<in> set (snd x)" for p
  proof -
    from assms(1) that have p: "stage_request spec m d (sq_sequence p) = Inr p" "\<not> stage_absent A (fst x) p"
      "sq_sequence p \<le> sq_sequence q" by (auto simp: log_ok_def n)
    have "sq_sequence p \<noteq> sq_sequence q"
    proof
      assume "sq_sequence p = sq_sequence q"
      with p(1) n have "stage_request spec m d (Suc (length (events_of s))) = Inr p" by (simp only:)
      with assms(4) have "p = q" by simp
      with p(2) q(1) show False by simp
    qed
    with p(3) show ?thesis by simp
  qed
  have "\<not> stage_absent A (fst y) p" if "p \<in> set (snd x)" for p
    using that assms(1,2) q(2,3) unfolding log_ok_def keeps_marks_def by metis
  moreover have "\<not> stage_absent A (fst y) q" using assms(2) q(3) by (simp add: keeps_marks_def)
  ultimately have present: "\<not> stage_absent A (fst y) p" if "p \<in> set (snd y)" for p
    using that q(4) by auto
  have frozen: "stage_request spec m d (sq_sequence p) = Inr p" if "p \<in> set (snd y)" for p
  proof (cases "p = q")
    case True
    with assms(4) n show ?thesis by (simp only:)
  next
    case False
    with that q(4) have "p \<in> set (snd x)" by auto
    with assms(1) show ?thesis unfolding log_ok_def by blast
  qed
  have bound: "sq_sequence p \<le> Suc (length (events_of s'))" if "p \<in> set (snd y)" for p
    using that assms(5) n q(4) older [of p] by auto
  have "sorted_wrt (<) (map sq_sequence (snd y))"
    using assms(1) older q(4) by (simp add: log_ok_def sorted_wrt_append)
  with present frozen bound show ?thesis by (simp add: log_ok_def)
qed

lemma history_log:
  assumes "history (logged A) (beside_log env) m mf dir c c'"
    and "load_campaign_spec mf = Inr spec" "keeps_marks A env" "snd (snd c) = []"
  shows "log_ok A spec m (below dir ''slots'') (fst c') (snd c')"
  using assms(1,4)
proof (induction rule: history.induct)
  case (Begin c)
  then show ?case by (simp add: log_ok_def)
next
  case (Advance c s w disk s' w' res)
  then have IH: "log_ok A spec m (below dir ''slots'') s w" by simp
  from Advance.hyps(2) show ?case
  proof (cases rule: advance_cases)
    case 1
    with IH show ?thesis by (simp add: log_ok_def)
  next
    case (2 spec' H ch q)
    then have spec: "spec' = spec" using assms(2) by simp
    have n: "length (ch_events ch) = length (events_of s)" using 2(2) by (rule load_eventsE(2))
    have le: "length (events_of s) \<le> length (events_of s')" using 2(6) by (rule adds_event_grows)
    from 2(7) show ?thesis
    proof
      assume "w' = w"
      with IH le show ?thesis by (fastforce simp: log_ok_def)
    next
      assume "runs_stage (logged A) w q w'"
      with IH le 2(5) n show ?thesis using assms(3) by (auto simp: spec intro: log_ok_run)
    qed
  qed
next
  case (Meanwhile c s w w')
  then have IH: "log_ok A spec m (below dir ''slots'') s w" by simp
  from Meanwhile.hyps(2) have "env (fst w) (fst w')" "snd w' = snd w" by (simp_all add: beside_log_def)
  moreover from this(1) assms(3) have "stage_absent A (fst w') q \<Longrightarrow> stage_absent A (fst w) q" for q
    by (auto simp: keeps_marks_def)
  ultimately show ?case using IH by (auto simp: log_ok_def)
qed

text \<open>
  C35: No stage is ever run twice. Over any history of calls on one campaign, with any disk failures, any calls cut
  off between two writes and any restarts in between, the runs are of frozen requests of the manifest, and their
  sequence numbers strictly increase; so each stage runs at most once and in order. This needs of the runner only
  that a stage it was asked to run is not reported absent afterwards.
\<close>

theorem no_stage_runs_twice:
  assumes "history (logged A) (beside_log env) m mf dir (s0, w0, []) (s, w, runs)"
    and "load_campaign_spec mf = Inr spec" and "keeps_marks A env"
  shows "sorted_wrt (<) (map sq_sequence runs)
    \<and> (\<forall>q\<in>set runs. stage_request spec m (below dir ''slots'') (sq_sequence q) = Inr q)"
  using history_log [OF assms] by (simp_all add: log_ok_def)

section \<open>Failures are terminal\<close>

text \<open>The record that an event file holds.\<close>

definition event_file :: "folder \<Rightarrow> nat \<Rightarrow> jobject option" where
  "event_file E n =
     (case event_bytes E n of
        None \<Rightarrow> None | Some bs \<Rightarrow> (case unique_loads bs of Inr (JObj e) \<Rightarrow> Some e | _ \<Rightarrow> None))"

definition file_status :: "folder \<Rightarrow> nat \<Rightarrow> json" where
  "file_status E n = (case event_file E n of None \<Rightarrow> JNull | Some e \<Rightarrow> get e ''status'')"

lemma event_file_bytes:
  "event_bytes E n = Some bs \<Longrightarrow> unique_loads bs = Inr (JObj e) \<Longrightarrow> event_file E n = Some e"
  by (simp add: event_file_def)

lemma chain_event_file:
  assumes "load_events A w disk spec m d E H = (H', Inr ch)" "i < length E"
  shows "event_file E (Suc i) = Some (fst (ch_events ch ! i))"
  using chain_link(1,2) [OF assms] by (rule event_file_bytes)

lemma last_event_file:
  assumes "load_events A w disk spec m d E H = (H', Inr ch)" "E \<noteq> []"
  shows "event_file E (length E) = Some (fst (last (ch_events ch)))" "ch_events ch \<noteq> []"
proof -
  have n: "length (ch_events ch) = length E" using assms(1) by (rule load_eventsE(2))
  then show ne: "ch_events ch \<noteq> []" using assms(2) by auto
  from assms(2) have "length E - 1 < length E" "Suc (length E - 1) = length E" by simp_all
  with chain_event_file [OF assms(1), of "length E - 1"] n ne
  show "event_file E (length E) = Some (fst (last (ch_events ch)))" by (simp add: last_conv_nth)
qed

lemma last_passed_file:
  assumes "load_events A w disk spec m d E H = (H', Inr ch)" "E \<noteq> []"
  shows "last_passed ch \<longleftrightarrow> file_status E (length E) = JStr ''passed''"
  using last_event_file [OF assms] by (simp add: last_passed_def file_status_def)

lemma terminal_advance_kind:
  assumes "terminal_advance spec m d e = Inr v"
  shows "av_kind v = ''campaign_failed''"
    and "py_eq (get (fst e) ''sequence'') (JInt (int n)) \<Longrightarrow> av_sequence v = Some n"
  using assms
  by (auto simp: terminal_advance_def stage_advance_def bind_Inr_iff dest: stage_request_sequence split: json.splits)

text \<open>
  C36: A failure is terminal. Once the last recorded event of a campaign is not a pass, no call runs a stage, no call
  adds an event, and a call that returns reports that campaign as failed at that event, whatever the adapters,
  the disk and the manifest do.
\<close>

theorem failure_is_terminal:
  assumes "advance_qualification_campaign A disk m mf dir s w = (s', w', res)"
    and "events_of s \<noteq> []" and "file_status (events_of s) (length (events_of s)) \<noteq> JStr ''passed''"
  shows "events_of s' = events_of s \<and> w' = w
    \<and> (\<forall>v. res = Inr v \<longrightarrow> av_kind v = ''campaign_failed'' \<and> av_sequence v = Some (length (events_of s)))"
proof (intro conjI)
  have "events_of s' = events_of s \<and> w' = w"
    using assms(1)
  proof (cases rule: advance_cases)
    case (2 spec H ch q)
    with last_passed_file [OF 2(2) assms(2)] assms(3) show ?thesis by simp
  qed simp
  then show "events_of s' = events_of s" "w' = w" by simp_all
  show "\<forall>v. res = Inr v \<longrightarrow> av_kind v = ''campaign_failed'' \<and> av_sequence v = Some (length (events_of s))"
  proof (intro allI impI)
    fix v
    assume v: "res = Inr v"
    with assms(1) obtain spec s1 where s1: "load_campaign_spec mf = Inr spec" "open_folders s = (s1, Inr ())"
      "advance_locked A w disk m (below dir ''slots'') spec s1 = (s', w', Inr v)"
      by (auto simp: advance_qualification_campaign_def split: if_splits sum.splits prod.splits)
    have E: "events_of s1 = events_of s" using open_folders_events [OF s1(2)] by simp
    obtain H loaded where l: "load_events A w disk spec m (below dir ''slots'') (events_of s) (contents (st_heads s1)) = (H, loaded)"
      by fastforce
    with s1(3) E obtain ch where ch: "loaded = Inr ch" by (cases loaded) (auto simp: advance_locked_def Let_def)
    note l = l [unfolded ch]
    from last_passed_file [OF l assms(2)] assms(3) have "\<not> last_passed ch" by simp
    with s1(3) E l have t: "terminal_advance spec m (below dir ''slots'') (last (ch_events ch)) = Inr v"
      by (auto simp: advance_locked_def last_passed_def Let_def)
    have n: "length (ch_events ch) = length (events_of s)" using l by (rule load_eventsE(2))
    define k where "k = length (events_of s) - 1"
    have k: "k < length (events_of s)" "Suc k = length (events_of s)" using assms(2) by (simp_all add: k_def)
    have last: "last (ch_events ch) = ch_events ch ! k" using n last_event_file(2) [OF l assms(2)] by (simp add: last_conv_nth k_def)
    obtain event digest where e: "ch_events ch ! k = (event, digest)" by fastforce
    from load_eventsE(3) [OF l k(1)] e have c: "checked_event A w spec m (below dir ''slots'') (events_of s)
        (take k (ch_events ch)) (Suc k) = Inr (event, digest)" by simp
    then obtain q where "stage_request spec m (below dir ''slots'') (Suc k) = Inr q" by (elim checked_eventE)
    with c have "py_eq (get event ''sequence'') (JInt (int (Suc k)))" by (rule checked_event_fields(2))
    with terminal_advance_kind [OF t] last e k(2)
    show "av_kind v = ''campaign_failed'' \<and> av_sequence v = Some (length (events_of s))" by simp
  qed
qed

section \<open>What a passed campaign has behind it\<close>

lemma map_of_append_old: "k \<in> set (dkeys E) \<Longrightarrow> dget (E @ F) k = dget E k"
proof -
  assume "k \<in> set (dkeys E)"
  then obtain v where "map_of E k = Some v" by (cases "map_of E k") (auto simp: dkeys_def map_of_eq_None_iff)
  then show ?thesis by (simp add: dget_def map_add_Some_iff)
qed

lemma event_file_append:
  assumes "names_in_order spec E H" "1 \<le> i" "i \<le> length E"
  shows "event_file (E @ F) i = event_file E i"
proof -
  have "set (dkeys E) = set (map event_name [1..<Suc (length E)])"
    using assms(1) by (metis expected_names_def names_in_order_def set_sort)
  then have "event_name i \<in> set (dkeys E)" using assms(2,3) by (auto simp del: upt_Suc)
  then show ?thesis by (simp add: event_file_def event_bytes_def map_of_append_old)
qed

text \<open>Only the last file of a campaign may hold anything but a pass.\<close>

lemma history_passed:
  assumes "history A env m mf dir c c'" "events_of (fst c) = []"
  shows "\<forall>i. 1 \<le> i \<and> i < length (events_of (fst c')) \<longrightarrow> file_status (events_of (fst c')) i = JStr ''passed''"
  using assms
proof (induction rule: history.induct)
  case (Begin c)
  then show ?case by simp
next
  case (Advance c s w disk s' w' res)
  then have IH: "\<forall>i. 1 \<le> i \<and> i < length (events_of s) \<longrightarrow> file_status (events_of s) i = JStr ''passed''" by simp
  from Advance.hyps(2) show ?case
  proof (cases rule: advance_cases)
    case 1
    with IH show ?thesis by simp
  next
    case (2 spec H ch q)
    note names = load_eventsE(1) [OF 2(2)]
    have all: "file_status (events_of s) i = JStr ''passed''" if "1 \<le> i" "i \<le> length (events_of s)" for i
    proof (cases "i = length (events_of s)")
      case True
      with that have "events_of s \<noteq> []" by auto
      with last_passed_file [OF 2(2)] 2(3) True show ?thesis by simp
    qed (use that IH in simp)
    from 2(6) consider "events_of s' = events_of s" | x where "events_of s' = events_of s @ [x]"
      by (auto simp: adds_event_def)
    then show ?thesis
    proof cases
      case 1
      with IH show ?thesis by simp
    next
      case (2 x)
      with all event_file_append [OF names, of _ "[x]"] show ?thesis by (simp add: file_status_def)
    qed
  qed
next
  case (Meanwhile c s w w')
  then show ?case by simp
qed

lemma instances_full:
  "length (instances_of es) = length es \<Longrightarrow> i < length es \<Longrightarrow>
     instance_of (fst (es ! i)) = Some (instances_of es ! i)"
proof (induction es arbitrary: i)
  case (Cons e es)
  have le: "length (instances_of xs) \<le> length xs" for xs
    by (simp add: instances_of_def map_filter_def)
  have cons: "instances_of (e # es) = (case instance_of (fst e) of None \<Rightarrow> [] | Some x \<Rightarrow> [x]) @ instances_of es"
    by (simp add: instances_of_def map_filter_def split: option.splits)
  with Cons.prems(1) le [of es] obtain x where x: "instance_of (fst e) = Some x"
    by (cases "instance_of (fst e)") auto
  with cons Cons.prems(1) have "length (instances_of es) = length es" by simp
  with Cons.IH Cons.prems(2) x cons show ?case by (cases i) auto
qed simp

lemma instance_of_Some:
  "instance_of event = Some x \<longleftrightarrow> \<not> is_partial event \<and> get event ''model_runtime_instance_sha256'' = JStr x"
  by (cases "get event ''model_runtime_instance_sha256''") (auto simp: instance_of_def)

text \<open>A passed campaign was completed from a chain of thirteen passed events.\<close>

definition completed_chain ::
  "'w adapters \<Rightarrow> 'w \<Rightarrow> string \<Rightarrow> campaign_spec \<Rightarrow> chain \<Rightarrow> bool" where
  "completed_chain A w d spec ch \<longleftrightarrow>
     cg_version spec \<noteq> ''v2'' \<and> length (ch_used ch) = 13
     \<and> (\<exists>direct proxy. benefit_samples A w d spec (ch_events ch) = Inr (direct, proxy) \<and> benefit_reached direct proxy)"

lemma final_advance_kind [simp]: "av_kind (final_advance k f es h) = k"
  by (simp add: final_advance_def)

lemma stage_advance_kind [simp]: "av_kind (stage_advance k q s f d) = k"
  by (simp add: stage_advance_def)

lemma policy_benefit_gate_passed:
  assumes "policy_benefit_gate A w d spec es = Inr gate" "get gate ''status'' = JStr ''passed''"
  shows "\<exists>direct proxy. benefit_samples A w d spec es = Inr (direct, proxy) \<and> benefit_reached direct proxy"
  using assms
  by (auto simp: policy_benefit_gate_def policy_benefit_gate_failure_def get_Cons Let_def split: sum.splits if_splits prod.splits)

lemma complete_campaign_passed:
  assumes "complete_campaign A w disk d spec s ch = (s', Inr v)" "av_kind v = ''campaign_passed''"
  shows "completed_chain A w d spec ch"
proof (cases "cg_version spec = ''v2''")
  case True
  with assms show ?thesis
    by (auto simp: complete_campaign_def complete_v2_def bind_Inr_iff split: if_splits sum.splits prod.splits option.splits)
next
  case False
  with assms have v1: "complete_v1 A w disk d spec s ch = (s', Inr v)" by (simp add: complete_campaign_def)
  then obtain gate where gate: "length (ch_used ch) = 13" "policy_benefit_gate A w d spec (ch_events ch) = Inr gate"
    by (auto simp: complete_v1_def split: if_splits sum.splits)
  with v1 assms(2) have "get gate ''status'' = JStr ''passed''"
    by (auto simp: complete_v1_def Let_def bind_Inr_iff split: prod.splits if_splits)
  with policy_benefit_gate_passed [OF gate(2)] gate(1) False show ?thesis by (simp add: completed_chain_def)
qed

lemma record_stage_passed:
  assumes "record_stage A w disk d spec s ch q r = (s', Inr v)" "av_kind v = ''campaign_passed''"
    and plausible: "plausible_result q r"
  obtains event i where "record_shape spec q (previous_event (ch_events ch)) event"
    "get event ''status'' = JStr ''passed''" "get event ''model_runtime_instance_sha256'' = JStr i" "\<not> is_partial event"
    "i \<notin> set (ch_used ch)" "event_name (sq_sequence q) \<notin> set (dkeys (events_of s))" "events_of s' = events_of s @ [(event_name (sq_sequence q), Regular (serialize event))]"
    "sq_sequence q = event_count spec"
    "completed_chain A w d spec
       \<lparr>ch_events = ch_events ch @ [(event, bytes_sha256 (serialize event))], ch_used = ch_used ch @ [i]\<rparr>"
proof -
  from assms(1) obtain event where fresh: "fresh_instance (ch_used ch) r = Inr ()"
    and event: "event_record spec q r (previous_event (ch_events ch)) (predecessor_outcome spec q (ch_events ch)) = Inr event"
    by (auto simp: record_stage_def bind_Inr_iff split: sum.splits)
  obtain s1 r1 where w1: "write_event disk s (sq_sequence q) event = (s1, r1)" by fastforce
  from assms(1) fresh event w1 obtain digest where r1: "r1 = Inr digest"
    by (cases r1) (auto simp: record_stage_def)
  note w1 = w1 [unfolded r1]
  have last: "sq_sequence q = event_count spec" "sr_status r = ''passed''"
    using assms fresh event w1 by (auto simp: record_stage_def split: if_splits)
  with assms(1) fresh event w1 obtain i where i: "sr_instance r = Some i"
    by (auto simp: record_stage_def split: option.splits)
  with assms(1) fresh event w1 last have complete: "complete_campaign A w disk d spec s1
       \<lparr>ch_events = ch_events ch @ [(event, digest)], ch_used = ch_used ch @ [i]\<rparr> = (s', Inr v)"
    by (auto simp: record_stage_def)
  note shape = event_record_shape [OF event predecessor_outcome_null]
  note written = write_event_effect(2) [OF w1 refl]
  have "sr_failure r = None" using plausible last(2) by (simp add: plausible_result_def)
  then have partial: "\<not> is_partial event" using shape(3) by (simp add: is_partial_def)
  have "st_events s' = st_events s1" using complete by (rule complete_campaign_events)
  with shape(1,2,5) partial fresh i last complete_campaign_passed [OF complete assms(2)] written
  show thesis by (intro that [of event i]) (auto simp: fresh_instance_def split: if_splits)
qed

lemma run_request_plausible: "run_request A w q used = (w', Inr (Some r)) \<Longrightarrow> plausible_result q r"
  by (auto simp: run_request_def validate_stage_result_def bind_Inr_iff split: sum.splits readiness.splits option.splits
      prod.splits if_splits)

lemma next_stage_passed:
  assumes "next_stage A w disk d spec s ch q = (s', w', Inr v)" "av_kind v = ''campaign_passed''"
  obtains r where "record_stage A w' disk d spec s ch q r = (s', Inr v)" "plausible_result q r"
proof -
  from assms(1) obtain i where i: "inspect_stage A w q = Inr i" by (auto simp: next_stage_def split: sum.splits)
  show thesis
  proof (cases "si_result i")
    case (Some r)
    with assms i have "w' = w" "validate_stage_result A w q r = Inr ()" "record_stage A w disk d spec s ch q r = (s', Inr v)"
      by (auto simp: next_stage_def split: if_splits sum.splits prod.splits)
    then show thesis by (intro that [of r]) (auto simp: validate_stage_result_def split: if_splits)
  next
    case None
    with assms i have "si_state i = ''absent''"
      by (auto simp: next_stage_def record_partial_def bind_Inr_iff split: if_splits prod.splits)
    with None assms i obtain r where "run_request A w q (ch_used ch) = (w', Inr (Some r))"
      "record_stage A w' disk d spec s ch q r = (s', Inr v)"
      by (auto simp: next_stage_def split: sum.splits option.splits prod.splits)
    from this(2) run_request_plausible [OF this(1)] show thesis by (rule that)
  qed
qed

text \<open>The records written for a loaded manifest read back.\<close>

lemma small_int_ok: "0 \<le> n \<Longrightarrow> n < 100 \<Longrightarrow> json_ok strict (JInt n)"
  using length_dec_digits [of "nat n" 2] by (simp add: int_digit_limit_def nat_less_iff)

lemma well_formed_positions:
  assumes "well_formed_spec spec" "cs \<in> set (cg_slots spec)"
  shows "0 \<le> cs_ordinal cs" "cs_ordinal cs < 100" "0 \<le> cs_pair cs" "cs_pair cs < 100"
proof -
  have "length (cg_slots spec) \<le> 8" using assms(1) by (simp add: well_formed_spec_def event_count_def split: if_splits)
  moreover have "cs_ordinal cs \<in> set (map int [1..<Suc (length (cg_slots spec))])"
    using assms by (metis image_eqI set_map well_formed_spec_def)
  ultimately show "0 \<le> cs_ordinal cs" "cs_ordinal cs < 100" by auto
  have "(cs_lane cs, cs_pair cs) \<in> set (expected_pairs (cg_version spec))"
    using assms by (metis (no_types, lifting) image_eqI set_map well_formed_spec_def)
  then show "0 \<le> cs_pair cs" "cs_pair cs < 100" by (auto simp: expected_pairs_def Let_def split: if_splits)
qed

lemma stage_request_slot:
  assumes "stage_request spec m d n = Inr q" "well_formed_spec spec"
  shows "sq_slot q = cg_preflight spec \<or> sq_slot q \<in> set (cg_slots spec)" "1 \<le> n" "n \<le> 17"
proof -
  have "(n - 2) div 2 < length (cg_slots spec)" if "2 \<le> n" "n \<le> event_count spec"
    using that assms(2) by (simp add: well_formed_spec_def)
  moreover have "event_count spec \<le> 17" by (simp add: event_count_def)
  ultimately show "sq_slot q = cg_preflight spec \<or> sq_slot q \<in> set (cg_slots spec)" "1 \<le> n" "n \<le> 17"
    using assms(1) by (auto simp: stage_request_def Let_def bind_Inr_iff split: if_splits)
qed

lemma record_ok:
  assumes "record_shape spec q prev d" "stage_request spec m dir n = Inr q" "well_formed_spec spec"
  shows "json_ok True (JObj d)" "dict_ok d"
proof -
  have strings: "json_ok True (str_or_null s)" for s by (cases s) simp_all
  have "0 \<le> cs_ordinal (sq_slot q) \<and> cs_ordinal (sq_slot q) < 100 \<and> 0 \<le> cs_pair (sq_slot q) \<and> cs_pair (sq_slot q) < 100"
    using stage_request_slot(1) [OF assms(2,3)] well_formed_positions [OF assms(3)] assms(3)
    by (auto simp: well_formed_spec_def public_position_def)
  moreover have "int (sq_sequence q) < 100"
    using stage_request_slot(3) [OF assms(2,3)] stage_request_sequence [OF assms(2)] by simp
  ultimately have ints: "json_ok True (JInt (int (sq_sequence q)))" "json_ok True (JInt (cs_ordinal (sq_slot q)))"
    "json_ok True (JInt (cs_pair (sq_slot q)))" by (simp_all only: small_int_ok of_nat_0_le_iff)
  show "dict_ok d" using record_shape_get(6) [OF assms(1)] by (simp add: dict_ok_def)
  then have "distinct (map fst d)" by (simp add: dict_ok_def dkeys_def)
  moreover have "\<forall>kv\<in>set d. json_ok True (snd kv)"
    using assms(1) strings ints unfolding record_shape_def
    by (auto simp: event_fields_def v2_fields_def simp del: json_ok.simps(1))
  ultimately show "json_ok True (JObj d)" by simp
qed

lemma loaded_event_canon:
  assumes "unique_loads (serialize e) = Inr (JObj e)"
  shows "canon (JObj e) = JObj e"
  using unique_loads_serialize [OF unique_loads_ok [OF assms]] assms by simp

definition earned_chain :: "'w adapters \<Rightarrow> 'w \<Rightarrow> string \<Rightarrow> campaign_spec \<Rightarrow> folder \<Rightarrow> chain \<Rightarrow> bool" where
  "earned_chain A w d spec E ch \<longleftrightarrow>
     completed_chain A w d spec ch \<and> ch_used ch = instances_of (ch_events ch) \<and> distinct (ch_used ch)
     \<and> length (ch_events ch) = 13 \<and> length E = 13 \<and> file_status E 13 = JStr ''passed''
     \<and> (\<forall>i<13. \<exists>e. event_file E (Suc i) = Some e \<and> canon (JObj (fst (ch_events ch ! i))) = JObj e)"

lemma loaded_chain_earned:
  assumes l: "load_events A w disk spec m d E H0 = (H, Inr ch)" and "last_passed ch" "length (ch_events ch) = 13"
    and "completed_chain A w' d spec ch"
  shows "earned_chain A w' d spec E ch"
proof -
  note n = load_eventsE(2) [OF l]
  have "E \<noteq> []" using n assms(3) by auto
  with last_passed_file [OF l] assms(2,3) n have "file_status E 13 = JStr ''passed''" by simp
  moreover have "\<exists>e. event_file E (Suc i) = Some e \<and> canon (JObj (fst (ch_events ch ! i))) = JObj e" if "i < 13" for i
    using that n assms(3) chain_event_file [OF l, of i] loaded_event_canon [OF chain_link(2) [OF l, of i]] by simp
  ultimately show ?thesis using assms(3,4) n load_eventsE(4,5) [OF l] by (simp add: earned_chain_def)
qed

lemma written_chain_earned:
  assumes l: "load_events A w disk spec m d E H0 = (H, Inr ch)" and wf: "well_formed_spec spec"
    and q: "stage_request spec m d (Suc (length (ch_events ch))) = Inr q"
    and event: "record_shape spec q prev event" "get event ''status'' = JStr ''passed''"
      "get event ''model_runtime_instance_sha256'' = JStr i" "\<not> is_partial event" "i \<notin> set (ch_used ch)"
    and n13: "Suc (length (ch_events ch)) = 13" and new: "event_name 13 \<notin> set (dkeys E)"
    and complete: "completed_chain A w' d spec
       \<lparr>ch_events = ch_events ch @ [(event, digest)], ch_used = ch_used ch @ [i]\<rparr>" (is "completed_chain _ _ _ _ ?ch")
  shows "earned_chain A w' d spec (E @ [(event_name 13, Regular (serialize event))]) ?ch"
proof -
  let ?E = "E @ [(event_name 13, Regular (serialize event))]"
  note n = load_eventsE(2) [OF l] and names = load_eventsE(1) [OF l]
  note ok = record_ok [OF event(1) q wf]
  obtain e where e: "canon (JObj event) = JObj e" by simp
  have "map_of E (event_name 13) = None" using new by (simp add: dkeys_def map_of_eq_None_iff)
  then have "event_bytes ?E 13 = Some (serialize event)"
    by (simp add: event_bytes_def entry_bytes_def dget_def map_add_def)
  with unique_loads_serialize [OF ok(1)] e have last: "event_file ?E 13 = Some e"
    by (simp add: event_file_bytes del: canon.simps)
  have "\<exists>e. event_file ?E (Suc k) = Some e \<and> canon (JObj (fst (ch_events ?ch ! k))) = JObj e" if k: "k < 13" for k
  proof (cases "k = 12")
    case True
    with last e n13 show ?thesis by (simp add: nth_append del: canon.simps)
  next
    case False
    with k n n13 have k': "k < length E" by simp
    have "event_file ?E (Suc k) = Some (fst (ch_events ch ! k))"
      using event_file_append [OF names] chain_event_file [OF l k'] k' by simp
    with loaded_event_canon [OF chain_link(2) [OF l k']] k' n show ?thesis by (simp add: nth_append del: canon.simps)
  qed
  moreover have "file_status ?E 13 = JStr ''passed''"
    using last get_canon(1) [OF ok(2) e, of "''status''"] event(2) by (simp add: file_status_def)
  moreover have "instance_of event = Some i" using event(3,4) by (simp add: instance_of_Some)
  then have "instances_of [(event, digest)] = [i]" by (simp add: instances_of_def map_filter_def)
  ultimately show ?thesis
    using complete n n13 load_eventsE(4,5) [OF l] event(5) by (simp add: earned_chain_def instances_append)
qed

lemma advance_locked_passed:
  assumes l: "load_events A w disk spec m d (events_of s) (contents (st_heads s)) = (H, Inr ch)" and "last_passed ch"
  defines "s2 \<equiv> s\<lparr>st_heads := Private_Folder H\<rparr>"
  shows "length (ch_events ch) = event_count spec \<Longrightarrow> advance_locked A w disk m d spec s
           = (case complete_campaign A w disk d spec s2 ch of (s', res) \<Rightarrow> (s', w, res))"
    and "length (ch_events ch) \<noteq> event_count spec \<Longrightarrow> advance_locked A w disk m d spec s
           = (case stage_request spec m d (Suc (length (ch_events ch))) of
                Inl e \<Rightarrow> (s2, w, Inl e) | Inr q \<Rightarrow> next_stage A w disk d spec s2 ch q)"
proof -
  have c: "\<not> (ch_events ch \<noteq> [] \<and> get (fst (last (ch_events ch))) ''status'' \<noteq> JStr ''passed'')"
    using assms(2) by (simp add: last_passed_def)
  show "length (ch_events ch) = event_count spec \<Longrightarrow> advance_locked A w disk m d spec s
           = (case complete_campaign A w disk d spec s2 ch of (s', res) \<Rightarrow> (s', w, res))"
    unfolding advance_locked_def l s2_def Let_def prod.case sum.case if_not_P [OF c] by (simp only: if_True simp_thms)
  show "length (ch_events ch) \<noteq> event_count spec \<Longrightarrow> advance_locked A w disk m d spec s
           = (case stage_request spec m d (Suc (length (ch_events ch))) of
                Inl e \<Rightarrow> (s2, w, Inl e) | Inr q \<Rightarrow> next_stage A w disk d spec s2 ch q)"
    unfolding advance_locked_def l s2_def Let_def prod.case sum.case if_not_P [OF c] by simp
qed

lemma advance_passed:
  assumes "advance_qualification_campaign A disk m mf dir s w = (s', w', Inr v)" "av_kind v = ''campaign_passed''"
  obtains spec ch where "load_campaign_spec mf = Inr spec" "cg_version spec \<noteq> ''v2''"
    "earned_chain A w' (below dir ''slots'') spec (events_of s') ch"
proof -
  let ?d = "below dir ''slots''"
  from assms(1) obtain spec s1 where s1: "load_campaign_spec mf = Inr spec" "open_folders s = (s1, Inr ())"
    "advance_locked A w disk m ?d spec s1 = (s', w', Inr v)"
    by (auto simp: advance_qualification_campaign_def split: if_splits sum.splits prod.splits)
  note wf = load_campaign_spec_well_formed [OF s1(1)]
  obtain H loaded where l: "load_events A w disk spec m ?d (events_of s1) (contents (st_heads s1)) = (H, loaded)"
    by fastforce
  with s1(3) obtain ch where ch: "loaded = Inr ch" by (cases loaded) (auto simp: advance_locked_def Let_def)
  note l = l [unfolded ch]
  have lp: "last_passed ch"
  proof (rule ccontr)
    assume "\<not> last_passed ch"
    with s1(3) l have "terminal_advance spec m ?d (last (ch_events ch)) = Inr v"
      by (auto simp: advance_locked_def last_passed_def Let_def)
    with terminal_advance_kind(1) [OF this] assms(2) show False by simp
  qed
  show thesis
  proof (cases "length (ch_events ch) = event_count spec")
    case True
    define s2 where "s2 = s1\<lparr>st_heads := Private_Folder H\<rparr>"
    have s2: "complete_campaign A w disk ?d spec s2 ch = (s', Inr v)" "w' = w" "events_of s2 = events_of s1"
      using s1(3) advance_locked_passed(1) [OF l lp True] by (simp_all add: s2_def split: prod.splits)
    note complete = complete_campaign_passed [OF s2(1) assms(2)]
    then have "cg_version spec \<noteq> ''v2''" by (simp add: completed_chain_def)
    moreover from this True have "length (ch_events ch) = 13" by (simp add: event_count_def)
    with loaded_chain_earned [OF l lp _ complete] complete_campaign_events [OF s2(1)] s2(2,3)
    have "earned_chain A w' ?d spec (events_of s') ch" by simp
    ultimately show thesis using s1(1) that by blast
  next
    case False
    define s2 where "s2 = s1\<lparr>st_heads := Private_Folder H\<rparr>"
    obtain q where q: "stage_request spec m ?d (Suc (length (ch_events ch))) = Inr q"
      "next_stage A w disk ?d spec s2 ch q = (s', w', Inr v)" "events_of s2 = events_of s1"
      using s1(3) advance_locked_passed(2) [OF l lp False] by (auto simp: s2_def split: sum.splits)
    from q(2) assms(2) obtain r where rec: "record_stage A w' disk ?d spec s2 ch q r = (s', Inr v)" "plausible_result q r"
      by (rule next_stage_passed)
    from record_stage_passed [OF rec(1) assms(2) rec(2)] obtain event i where
      event: "record_shape spec q (previous_event (ch_events ch)) event" "get event ''status'' = JStr ''passed''"
        "get event ''model_runtime_instance_sha256'' = JStr i" "\<not> is_partial event" "i \<notin> set (ch_used ch)"
      and E': "event_name (sq_sequence q) \<notin> set (dkeys (events_of s2))"
        "events_of s' = events_of s2 @ [(event_name (sq_sequence q), Regular (serialize event))]"
      and last: "sq_sequence q = event_count spec"
      and complete: "completed_chain A w' ?d spec
         \<lparr>ch_events = ch_events ch @ [(event, bytes_sha256 (serialize event))], ch_used = ch_used ch @ [i]\<rparr>" .
    have v1: "cg_version spec \<noteq> ''v2''" using complete by (simp add: completed_chain_def)
    have n13: "sq_sequence q = 13" "Suc (length (ch_events ch)) = 13"
      using last v1 stage_request_sequence [OF q(1)] by (simp_all add: event_count_def)
    from written_chain_earned [OF l wf q(1) event n13(2) _ complete] E' q(3)
    have "earned_chain A w' ?d spec (events_of s')
        \<lparr>ch_events = ch_events ch @ [(event, bytes_sha256 (serialize event))], ch_used = ch_used ch @ [i]\<rparr>"
      unfolding n13(1) by simp
    with s1(1) v1 that show thesis by blast
  qed
qed

text \<open>A call that reports a pass: the thirteen events behind it, and the samples its gate was computed from.\<close>

lemma passed_campaign_chain:
  assumes "history A env m mf dir (s0, w0) (s, w)" and "events_of s0 = []"
    and "advance_qualification_campaign A disk m mf dir s w = (s', w', Inr v)" and "av_kind v = ''campaign_passed''"
  shows "\<exists>spec es instances direct proxy. load_campaign_spec mf = Inr spec \<and> cg_version spec = ''v1''
    \<and> length (events_of s') = 13 \<and> length es = 13 \<and> length instances = 13
    \<and> (\<forall>n. 1 \<le> n \<and> n \<le> 13 \<longrightarrow> file_status (events_of s') n = JStr ''passed'')
    \<and> (\<forall>i<13. \<exists>e. event_file (events_of s') (Suc i) = Some e \<and> canon (JObj (fst (es ! i))) = JObj e)
    \<and> (\<forall>i<13. get (fst (es ! i)) ''model_runtime_instance_sha256'' = JStr (instances ! i)) \<and> distinct instances
    \<and> benefit_samples A w' (below dir ''slots'') spec es = Inr (direct, proxy) \<and> benefit_reached direct proxy"
proof -
  from advance_passed [OF assms(3,4)] obtain spec ch where spec: "load_campaign_spec mf = Inr spec" "cg_version spec \<noteq> ''v2''"
    and earned: "earned_chain A w' (below dir ''slots'') spec (events_of s') ch" .
  then obtain direct proxy where gate: "benefit_samples A w' (below dir ''slots'') spec (ch_events ch) = Inr (direct, proxy)"
    "benefit_reached direct proxy" and used: "length (ch_used ch) = 13"
    by (auto simp: earned_chain_def completed_chain_def)
  have "history A env m mf dir (s0, w0) (s', w')" using assms(1,3) by (rule history.Advance)
  with history_passed [OF this] assms(2) earned
  have "file_status (events_of s') n = JStr ''passed''" if "1 \<le> n" "n \<le> 13" for n
    using that by (cases "n = 13") (auto simp: earned_chain_def)
  moreover have "cg_version spec = ''v1''"
    using load_campaign_spec_well_formed [OF spec(1)] spec(2) by (simp add: well_formed_spec_def)
  moreover have "get (fst (ch_events ch ! i)) ''model_runtime_instance_sha256'' = JStr (ch_used ch ! i)" if "i < 13" for i
    using instances_full [of "ch_events ch" i] that earned used by (simp add: earned_chain_def instance_of_Some)
  ultimately show ?thesis using spec(1) earned gate used unfolding earned_chain_def by blast
qed

end
