(* ===== verification/Campaign_Progress.thy ===== *)
theory Campaign_Progress
  imports Campaign_History
begin

text \<open>
  What a call writes is accepted by the next one: the size of a record, reading back what was printed,
  the directory of a written chain. With adapters that cooperate one stage is therefore recorded per
  call until all are. An event that records a failure is read back as well, unless its category is the one
  that the driver itself uses.
\<close>

section \<open>The size of a record\<close>

lemma text_bound_entries:
  "\<forall>kv\<in>set d. text_bound (snd kv) \<le> b \<Longrightarrow>
     text_bound (JObj d) \<le> 2 + sum_list (map (\<lambda>k. 4 + 6 * length k) (dkeys d)) + length d * b"
proof (induction d)
  case (Cons kv d)
  then have "text_bound (JObj d) \<le> 2 + sum_list (map (\<lambda>k. 4 + 6 * length k) (dkeys d)) + length d * b"
    "text_bound (snd kv) \<le> b" by simp_all
  then show ?case by (cases kv) (simp add: dkeys_def)
qed (simp add: dkeys_def)

lemma length_serialize: "length (serialize d) \<le> 2 + 2 * text_bound (JObj d)"
proof -
  have "length (serialize d) \<le> 2 * length (dumps True True (JObj d) @ [CHR 0x0A])"
    unfolding serialize_def by (rule length_utf8)
  also have "\<dots> \<le> 2 * (text_bound (JObj d) + 1)"
    using length_dumps [of True "canon (JObj d)"] text_bound_canon [of "JObj d"]
    by (simp add: dumps_sorted del: canon.simps dumps.simps text_bound.simps)
  finally show ?thesis by simp
qed

text \<open>The strings of a record are hashes, labels and categories of at most 64 characters.\<close>

definition short :: "json \<Rightarrow> bool" where
  "short v \<longleftrightarrow> (case v of JStr s \<Rightarrow> length s \<le> 64 | JNull \<Rightarrow> True | _ \<Rightarrow> False)"

lemma short_bound: "short v \<Longrightarrow> text_bound v \<le> 400"
  by (cases v) (simp_all add: short_def)

lemma short_str_or_null: "short (str_or_null s) \<longleftrightarrow> optional (\<lambda>s. length s \<le> 64) s"
  by (cases s) (simp_all add: short_def optional_def)

lemma optional_sha_short: "optional is_sha256 s \<Longrightarrow> optional (\<lambda>s. length s \<le> 64) s"
  by (auto simp: optional_def is_sha256_def split: option.splits)

lemma is_sha256_length: "is_sha256 s \<Longrightarrow> length s = 64"
  by (simp add: is_sha256_def)

lemma small_int_bound: "0 \<le> n \<Longrightarrow> n < 100 \<Longrightarrow> text_bound (JInt n) \<le> 400"
  using length_dec_digits [of "nat n" 2] by (simp add: nat_less_iff)

lemma event_fields_size:
  assumes "well_formed_spec spec" "stage_request spec m dir n = Inr q"
    and "length st \<le> 64" "optional (\<lambda>s. length s \<le> 64) fl" "optional is_sha256 oc" "optional is_sha256 ins"
    "optional is_sha256 rc" "optional is_sha256 prev"
    and "extra = [] \<or> extra = v2_fields p i \<and> short p \<and> optional is_sha256 i"
  shows "length (serialize (event_fields spec q st fl oc ins rc prev @ extra)) \<le> METADATA_FILE_MAX_BYTES"
proof -
  let ?d = "event_fields spec q st fl oc ins rc prev @ extra"
  have slot: "0 \<le> cs_ordinal (sq_slot q)" "cs_ordinal (sq_slot q) < 100" "0 \<le> cs_pair (sq_slot q)"
      "cs_pair (sq_slot q) < 100" "length (cs_lane (sq_slot q)) \<le> 64"
  proof -
    have lane: "length (cs_lane cs) \<le> 64" if "cs \<in> set (cg_slots spec)" for cs
    proof -
      have "(cs_lane cs, cs_pair cs) \<in> set (expected_pairs (cg_version spec))"
        using that assms(1) by (metis (no_types, lifting) image_eqI set_map well_formed_spec_def)
      then show ?thesis by (auto simp: expected_pairs_def Let_def split: if_splits)
    qed
    show "0 \<le> cs_ordinal (sq_slot q)" "cs_ordinal (sq_slot q) < 100" "0 \<le> cs_pair (sq_slot q)"
      "cs_pair (sq_slot q) < 100" "length (cs_lane (sq_slot q)) \<le> 64"
      using stage_request_slot(1) [OF assms(2,1)] well_formed_positions [OF assms(1)] lane assms(1)
      by (auto simp: well_formed_spec_def public_position_def)
  qed
  have sequence: "int (sq_sequence q) < 100"
    using stage_request_slot(3) [OF assms(2,1)] stage_request_sequence [OF assms(2)] by simp
  have stage: "length (sq_stage q) \<le> 64"
    using assms(2) by (auto simp: stage_request_def Let_def bind_Inr_iff split: if_splits)
  have spec: "short (JStr (cg_manifest spec))" "short (JStr (cg_campaign spec))"
    using assms(1) by (simp_all add: well_formed_spec_def short_def is_sha256_length)
  have strings: "short (str_or_null fl)" "short (str_or_null oc)" "short (str_or_null ins)" "short (str_or_null rc)"
    "short (str_or_null prev)" "short (JStr st)" "short (JStr (sq_stage q))" "short (JStr (cs_lane (sq_slot q)))"
    using assms(3-8) slot(5) stage by (simp_all add: short_str_or_null optional_sha_short) (simp_all add: short_def)
  have ints: "text_bound (JInt (int (sq_sequence q))) \<le> 400" "text_bound (JInt (cs_ordinal (sq_slot q))) \<le> 400"
    "text_bound (JInt (cs_pair (sq_slot q))) \<le> 400"
    using sequence slot by (simp_all only: small_int_bound of_nat_0_le_iff)
  have "\<forall>kv\<in>set (event_fields spec q st fl oc ins rc prev). text_bound (snd kv) \<le> 400"
    using spec strings ints by (simp add: event_fields_def short_bound del: text_bound.simps) (simp add: short_def)
  moreover have "\<forall>kv\<in>set extra. text_bound (snd kv) \<le> 400"
    using assms(9) by (auto simp: v2_fields_def short_bound short_str_or_null optional_sha_short simp del: text_bound.simps)
  ultimately have entries: "\<forall>kv\<in>set ?d. text_bound (snd kv) \<le> 400" by auto
  have "length ?d \<le> 17" using assms(9) by (auto simp: event_fields_def v2_fields_def)
  moreover have "sum_list (map (\<lambda>k. 4 + 6 * length k) (dkeys ?d)) \<le> 5000"
    using assms(9) by (auto simp: event_fields_def v2_fields_def dkeys_def)
  ultimately have "text_bound (JObj ?d) \<le> 12000"
    using text_bound_entries [OF entries] by linarith
  then show ?thesis using length_serialize [of ?d] by (simp add: METADATA_FILE_MAX_BYTES_def)
qed

section \<open>What was written is accepted\<close>

text \<open>A record as the reader returns it: every dictionary in the order of its keys.\<close>

definition sorted_record :: "jobject \<Rightarrow> jobject" where
  "sorted_record d = sort_key fst (map (\<lambda>(k, v). (k, canon v)) d)"

lemma canon_sorted_record: "canon (JObj d) = JObj (sorted_record d)"
  by (simp add: sorted_record_def)

lemma get_sorted_record: "dict_ok d \<Longrightarrow> get (sorted_record d) k = canon (get d k)"
  using get_canon(1) [OF _ canon_sorted_record] by blast

lemma canon_str_or_null [simp]: "canon (str_or_null s) = str_or_null s"
  by (cases s) simp_all

text \<open>The record of the next event of a chain, and the conditions under which it can be written and read.\<close>

definition next_record ::
  "campaign_spec \<Rightarrow> campaign_request \<Rightarrow> stage_result \<Rightarrow> event list \<Rightarrow> breach + jobject" where
  "next_record spec q r es = event_record spec q r (previous_event es) (predecessor_outcome spec q es)"

definition readable :: "campaign_spec \<Rightarrow> string \<Rightarrow> string \<Rightarrow> nat \<Rightarrow> campaign_request \<Rightarrow> event list \<Rightarrow> bool" where
  "readable spec m d n q es \<longleftrightarrow>
     well_formed_spec spec \<and> stage_request spec m d n = Inr q
     \<and> optional is_sha256 (previous_event es) \<and> short (predecessor_outcome spec q es)"

lemma next_record_readable:
  assumes "next_record spec q r es = Inr e" "readable spec m d n q es" "plausible_result q r"
    and "optional is_sha256 (sr_identity r)"
  shows "length (serialize e) \<le> METADATA_FILE_MAX_BYTES" "json_ok True (JObj e)" "dict_ok e" "plain (JObj e)"
    "get e ''status'' = JStr (sr_status r)" "get e ''failure_category'' = str_or_null (sr_failure r)"
    "get e ''runtime_outcome_sha256'' = JStr (sr_outcome r)"
    "get e ''model_runtime_instance_sha256'' = str_or_null (sr_instance r)"
proof -
  note ev = event_record_shape [OF assms(1) [unfolded next_record_def] predecessor_outcome_null]
  then show "get e ''status'' = JStr (sr_status r)" "get e ''failure_category'' = str_or_null (sr_failure r)"
    "get e ''runtime_outcome_sha256'' = JStr (sr_outcome r)"
    "get e ''model_runtime_instance_sha256'' = str_or_null (sr_instance r)" by simp_all
  have wf: "well_formed_spec spec" "stage_request spec m d n = Inr q" using assms(2) by (simp_all add: readable_def)
  show "json_ok True (JObj e)" by (rule record_ok(1) [OF ev(1) wf(2,1)])
  show "dict_ok e" by (rule record_ok(2) [OF ev(1) wf(2,1)])
  show "plain (JObj e)" by (rule record_shape_get(7) [OF ev(1)])
  let ?x = "if cg_version spec = ''v2'' then v2_fields (predecessor_outcome spec q es) (sr_identity r) else []"
  have e: "e = event_fields spec q (sr_status r) (sr_failure r) (Some (sr_outcome r)) (sr_instance r)
      (sr_reconciliation r) (previous_event es) @ ?x"
    using assms(1) by (auto simp: next_record_def event_record_def Let_def split: if_splits)
  have status: "length (sr_status r) \<le> 64" using assms(3) by (auto simp: plausible_result_def)
  have failure: "optional (\<lambda>s. length s \<le> 64) (sr_failure r)"
    using assms(3) by (auto simp: plausible_result_def optional_def is_failure_category_def split: option.splits)
  have hashes: "optional is_sha256 (Some (sr_outcome r))" "optional is_sha256 (sr_instance r)"
    "optional is_sha256 (sr_reconciliation r)"
    using assms(3) by (simp_all add: plausible_result_def) (simp_all add: optional_def)
  have previous: "optional is_sha256 (previous_event es)" using assms(2) by (simp add: readable_def)
  have extra: "?x = [] \<or> ?x = v2_fields (predecessor_outcome spec q es) (sr_identity r)
      \<and> short (predecessor_outcome spec q es) \<and> optional is_sha256 (sr_identity r)"
    using assms(2,4) by (simp add: readable_def)
  show "length (serialize e) \<le> METADATA_FILE_MAX_BYTES"
    unfolding e by (rule event_fields_size [OF wf status failure hashes previous extra])
qed

text \<open>An event written for an inspected result is accepted, whatever names stand for the events before it.\<close>

lemma checked_event_written:
  assumes "next_record spec q r es = Inr e" "readable spec m d n q es" "plausible_result q r"
    and "optional is_sha256 (sr_identity r)" "sr_failure r \<noteq> Some ''campaign_partial_stage''"
    and "event_bytes E n = Some (serialize e)"
    and "ad_inspect A w q = Answers \<lparr>si_state = ''complete'', si_result = Some r\<rparr>"
    and "validate_stage_result A w q r = Inr ()"
    and "previous_event es' = previous_event es" "predecessor_outcome spec q es' = predecessor_outcome spec q es"
  shows "checked_event A w spec m d E es' n = Inr (sorted_record e, bytes_sha256 (serialize e))"
proof -
  note ok = next_record_readable [OF assms(1-4)]
  have load: "unique_loads (serialize e) = Inr (JObj (sorted_record e))"
    using unique_loads_serialize [OF ok(2)] by (simp only: canon_sorted_record)
  have partial: "\<not> is_partial (sorted_record e)"
    using assms(5) ok(6) by (cases "sr_failure r") (simp_all add: is_partial_def get_sorted_record [OF ok(3)])
  have same: "py_eq (JObj (sorted_record e)) (JObj e)"
    using py_eq_canon [OF ok(4)] by (simp only: canon_sorted_record)
  have print: "serialize (sorted_record e) = serialize e"
    by (rule serialize_canon) (rule canon_sorted_record)
  have read: "read_entry E (event_name n) = Inr (serialize e)"
    using assms(6) ok(1) by (simp add: read_entry_def event_bytes_def accepted_simps)
  have q: "stage_request spec m d n = Inr q" using assms(2) by (simp add: readable_def)
  have expected: "expected_event A w spec q es' (sorted_record e) = Inr e"
    using partial assms(1,7-10) by (simp add: expected_event_def inspect_stage_def answered_def next_record_def)
  show ?thesis
    by (simp add: checked_event_def read load caught_as_def q expected same print del: py_eq.simps)
qed

lemma head_readable:
  assumes "n < 100" "is_sha256 digest"
  shows "length (serialize (head_record n digest)) \<le> METADATA_FILE_MAX_BYTES"
    "json_ok True (JObj (head_record n digest))" "plain (JObj (head_record n digest))"
proof -
  have l: "length digest = 64" using assms(2) by (rule is_sha256_length)
  have "\<forall>kv\<in>set (head_record n digest). text_bound (snd kv) \<le> 400"
    using small_int_bound [of "int n"] assms(1) l by (simp add: head_record_def)
  from text_bound_entries [OF this] have "text_bound (JObj (head_record n digest)) \<le> 12000"
    by (simp add: head_record_def dkeys_def)
  then show "length (serialize (head_record n digest)) \<le> METADATA_FILE_MAX_BYTES"
    using length_serialize [of "head_record n digest"] by (simp add: METADATA_FILE_MAX_BYTES_def)
  show "json_ok True (JObj (head_record n digest))"
    using small_int_ok [of "int n" True] assms(1) by (simp add: head_record_def)
  show "plain (JObj (head_record n digest))" by (simp add: head_record_def)
qed

lemma check_head_written:
  assumes "dget H (event_name n) = Some (Regular (serialize (head_record n digest)))" "n < 100" "is_sha256 digest"
  shows "check_head disk k H n digest = (H, Inr ())"
proof -
  note h = head_readable [OF assms(2,3)]
  have "event_name n \<in> set (dkeys H)" using assms(1) by (simp add: dkeys_dget)
  moreover have "read_entry H (event_name n) = Inr (serialize (head_record n digest))"
    using assms(1) h(1) by (simp add: read_entry_def entry_bytes_def accepted_simps)
  moreover have "unique_loads (serialize (head_record n digest)) = Inr (JObj (sorted_record (head_record n digest)))"
    using unique_loads_serialize [OF h(2)] by (simp only: canon_sorted_record)
  moreover have "py_eq (JObj (sorted_record (head_record n digest))) (JObj (head_record n digest))"
    using py_eq_canon [OF h(3)] by (simp only: canon_sorted_record)
  ultimately show ?thesis by (simp add: check_head_def Let_def caught_as_def del: py_eq.simps)
qed

lemma event_names: "sorted (map event_name [1..<18])" "distinct (map event_name [1..<18])"
  by code_simp+

section \<open>A written chain is loaded\<close>

text \<open>
  The directory that holds a list of records: record \<open>k\<close> in event file \<open>k + 1\<close>, with its head.
\<close>

definition files_of :: "event list \<Rightarrow> folder" where
  "files_of es = map (\<lambda>(k, e). (event_name k, Regular (serialize (fst e)))) (enumerate 1 es)"

definition heads_of :: "event list \<Rightarrow> folder" where
  "heads_of es = map (\<lambda>(k, e). (event_name k, Regular (serialize (head_record k (snd e))))) (enumerate 1 es)"

definition loaded :: "event list \<Rightarrow> event list" where
  "loaded es = map (\<lambda>(e, h). (sorted_record e, h)) es"

text \<open>Each record is the next one of the records before it, for a pass that the runner still reports.\<close>

definition written_for ::
  "'w adapters \<Rightarrow> 'w \<Rightarrow> campaign_spec \<Rightarrow> string \<Rightarrow> string \<Rightarrow> event list \<Rightarrow> nat \<Rightarrow> campaign_request \<Rightarrow> stage_result \<Rightarrow> bool"
where
  "written_for A w spec m d es k q r \<longleftrightarrow>
     stage_request spec m d (Suc k) = Inr q \<and> next_record spec q r (take k es) = Inr (fst (es ! k))
     \<and> snd (es ! k) = bytes_sha256 (serialize (fst (es ! k)))
     \<and> ad_inspect A w q = Answers \<lparr>si_state = ''complete'', si_result = Some r\<rparr>
     \<and> validate_stage_result A w q r = Inr () \<and> sr_status r = ''passed'' \<and> optional is_sha256 (sr_identity r)"

definition written ::
  "'w adapters \<Rightarrow> 'w \<Rightarrow> campaign_spec \<Rightarrow> string \<Rightarrow> string \<Rightarrow> (nat \<Rightarrow> stage_result) \<Rightarrow> event list \<Rightarrow> bool" where
  "written A w spec m d script es \<longleftrightarrow> (\<forall>k<length es. \<exists>q. written_for A w spec m d es k q (script k))"

lemma written_forD:
  assumes "written_for A w spec m d es k q r"
  shows "stage_request spec m d (Suc k) = Inr q" "next_record spec q r (take k es) = Inr (fst (es ! k))"
    "snd (es ! k) = bytes_sha256 (serialize (fst (es ! k)))"
    "ad_inspect A w q = Answers \<lparr>si_state = ''complete'', si_result = Some r\<rparr>"
    "validate_stage_result A w q r = Inr ()" "sr_status r = ''passed''" "optional is_sha256 (sr_identity r)"
    "plausible_result q r" "sr_failure r = None" "sr_instance r \<noteq> None" "is_sha256 (sr_outcome r)"
proof -
  show a: "stage_request spec m d (Suc k) = Inr q" "next_record spec q r (take k es) = Inr (fst (es ! k))"
    "snd (es ! k) = bytes_sha256 (serialize (fst (es ! k)))"
    "ad_inspect A w q = Answers \<lparr>si_state = ''complete'', si_result = Some r\<rparr>"
    "validate_stage_result A w q r = Inr ()" "sr_status r = ''passed''" "optional is_sha256 (sr_identity r)"
    using assms unfolding written_for_def by blast+
  from a(5) show p: "plausible_result q r" by (simp add: validate_stage_result_def split: if_splits)
  with a(6) show "sr_failure r = None" "sr_instance r \<noteq> None" "is_sha256 (sr_outcome r)"
    unfolding plausible_result_def by blast+
qed

text \<open>The next record after one that was written is readable again.\<close>

lemma readable_Nil: "well_formed_spec spec \<Longrightarrow> stage_request spec m d n = Inr q \<Longrightarrow> readable spec m d n q []"
  by (simp add: readable_def previous_event_def predecessor_outcome_def short_def optional_def)

lemma readable_last:
  assumes "well_formed_spec spec" "stage_request spec m d n = Inr q" "es \<noteq> []" "is_sha256 (snd (last es))"
    and "get (fst (last es)) ''runtime_outcome_sha256'' = JStr h" "is_sha256 h"
  shows "readable spec m d n q es"
proof -
  have "optional is_sha256 (previous_event es)" using assms(3,4) by (simp add: previous_event_def optional_def)
  moreover have "short (predecessor_outcome spec q es)"
    using assms(5,6) by (auto simp: predecessor_outcome_def short_def is_sha256_length)
  ultimately show ?thesis using assms(1,2) unfolding readable_def by blast
qed

lemma written_readable:
  assumes "written A w spec m d script es" "k \<le> length es" "well_formed_spec spec" "stage_request spec m d (Suc k) = Inr q"
  shows "readable spec m d (Suc k) q (take k es)"
  using assms(2,4)
proof (induction k arbitrary: q)
  case 0
  with assms(3) show ?case by (simp add: readable_Nil)
next
  case (Suc k)
  then have k: "k < length es" by simp
  with assms(1) obtain p where w: "written_for A w spec m d es k p (script k)" unfolding written_def by blast
  note w = written_forD [OF w]
  have readable: "readable spec m d (Suc k) p (take k es)" using Suc.IH [OF _ w(1)] k by simp
  note ok = next_record_readable [OF w(2) readable w(8,7)]
  have last: "last (take (Suc k) es) = es ! k" "take (Suc k) es \<noteq> []" using k by (auto simp: take_Suc_conv_app_nth)
  show ?case
    using readable_last [OF assms(3) Suc.prems(2) last(2), unfolded last(1) w(3), OF bytes_sha256_value ok(7) w(11)] .
qed

lemma loaded_take: "loaded (take k es) = take k (loaded es)"
  by (simp add: loaded_def take_map)

lemma loaded_nth: "k < length es \<Longrightarrow> loaded es ! k = (sorted_record (fst (es ! k)), snd (es ! k))"
  by (simp add: loaded_def case_prod_unfold)

lemma length_loaded [simp]: "length (loaded es) = length es"
  by (simp add: loaded_def)

lemma loaded_Nil [simp]: "loaded es = [] \<longleftrightarrow> es = []"
  by (simp add: loaded_def)

lemma last_loaded: "es \<noteq> [] \<Longrightarrow> last (loaded es) = (sorted_record (fst (last es)), snd (last es))"
  by (simp add: loaded_def last_map case_prod_unfold)

lemma written_last:
  assumes "written A w spec m d script es" "well_formed_spec spec" "k < length es" "written_for A w spec m d es k q r"
  shows "length (serialize (fst (es ! k))) \<le> METADATA_FILE_MAX_BYTES" "json_ok True (JObj (fst (es ! k)))"
    "dict_ok (fst (es ! k))" "plain (JObj (fst (es ! k)))" "get (fst (es ! k)) ''status'' = JStr ''passed''"
    "get (fst (es ! k)) ''failure_category'' = JNull"
    "get (fst (es ! k)) ''runtime_outcome_sha256'' = JStr (sr_outcome r)"
    "get (fst (es ! k)) ''model_runtime_instance_sha256'' = str_or_null (sr_instance r)"
proof -
  note w = written_forD [OF assms(4)]
  have "readable spec m d (Suc k) q (take k es)" using written_readable [OF assms(1) _ assms(2) w(1)] assms(3) by simp
  note ok = next_record_readable [OF w(2) this w(8,7), unfolded w(6,9) str_or_null.simps]
  show "length (serialize (fst (es ! k))) \<le> METADATA_FILE_MAX_BYTES" "json_ok True (JObj (fst (es ! k)))"
    "dict_ok (fst (es ! k))" "plain (JObj (fst (es ! k)))" "get (fst (es ! k)) ''status'' = JStr ''passed''"
    "get (fst (es ! k)) ''failure_category'' = JNull"
    "get (fst (es ! k)) ''runtime_outcome_sha256'' = JStr (sr_outcome r)"
    "get (fst (es ! k)) ''model_runtime_instance_sha256'' = str_or_null (sr_instance r)"
    by (rule ok)+
qed

lemma loaded_same_names:
  assumes "written A w spec m d script es" "well_formed_spec spec" "k \<le> length es"
  shows "previous_event (take k (loaded es)) = previous_event (take k es)"
    and "predecessor_outcome spec q (take k (loaded es)) = predecessor_outcome spec q (take k es)"
proof -
  show "previous_event (take k (loaded es)) = previous_event (take k es)"
    by (simp add: previous_event_def last_loaded flip: loaded_take)
  show "predecessor_outcome spec q (take k (loaded es)) = predecessor_outcome spec q (take k es)"
  proof (cases "take k es = []")
    case True
    then show ?thesis by (simp add: predecessor_outcome_def flip: loaded_take)
  next
    case False
    with assms(3) obtain j where j: "k = Suc j" "j < length es" by (cases k) auto
    with assms(1) obtain p where w: "written_for A w spec m d es j p (script j)" unfolding written_def by blast
    from j have last: "last (take k es) = es ! j" by (simp add: take_Suc_conv_app_nth)
    with written_last(3,7) [OF assms(1,2) j(2) w] False show ?thesis
      by (simp add: predecessor_outcome_def last_loaded get_sorted_record flip: loaded_take)
  qed
qed

text \<open>The names of the files of a chain.\<close>

lemma dkeys_files [simp]: "dkeys (files_of es) = expected_names (length es)" "dkeys (heads_of es) = expected_names (length es)"
proof -
  have names: "map fst (map (\<lambda>(k, e). (event_name k, f k e)) (enumerate 1 es)) = expected_names (length es)" for f :: "nat \<Rightarrow> event \<Rightarrow> entry"
  proof -
    have "map fst (map (\<lambda>(k, e). (event_name k, f k e)) (enumerate 1 es)) = map event_name (map fst (enumerate 1 es))"
      by (simp only: map_map comp_def case_prod_unfold fst_conv)
    then show ?thesis by (simp add: expected_names_def del: upt_Suc)
  qed
  show "dkeys (files_of es) = expected_names (length es)" "dkeys (heads_of es) = expected_names (length es)"
    unfolding files_of_def heads_of_def dkeys_def by (rule names)+
qed

lemma length_files [simp]: "length (files_of es) = length es" "length (heads_of es) = length es"
  by (simp_all add: files_of_def heads_of_def)

lemma expected_names_ok:
  assumes "n \<le> 17"
  shows "sorted (expected_names n)" "distinct (expected_names n)"
proof -
  have "[1..<18] = [1..<Suc n] @ [Suc n..<18]"
    using assms upt_add_eq_append [of 1 "Suc n" "17 - n"] by simp
  with event_names show "sorted (expected_names n)" "distinct (expected_names n)"
    unfolding expected_names_def by (metis map_append sorted_append, metis map_append distinct_append)
qed

lemma expected_names_Suc: "expected_names (Suc n) = expected_names n @ [event_name (Suc n)]"
  by (simp add: expected_names_def)

lemma expected_names_take: "k \<le> n \<Longrightarrow> take k (expected_names n) = expected_names k"
  by (simp add: expected_names_def take_map del: upt_Suc)

lemma new_name: "Suc n \<le> 17 \<Longrightarrow> event_name (Suc n) \<notin> set (expected_names n)"
  using expected_names_ok(2) [of "Suc n"] by (simp add: expected_names_Suc)

lemma old_name: "1 \<le> k \<Longrightarrow> k \<le> n \<Longrightarrow> event_name k \<in> set (expected_names n)"
  by (auto simp: expected_names_def simp del: upt_Suc)

lemma files_append: "files_of (es @ [e]) = files_of es @ [(event_name (Suc (length es)), Regular (serialize (fst e)))]"
  "heads_of (es @ [e]) = heads_of es
     @ [(event_name (Suc (length es)), Regular (serialize (head_record (Suc (length es)) (snd e))))]"
  by (simp_all add: files_of_def heads_of_def enumerate_append_eq case_prod_unfold)

lemma dget_files:
  assumes "k < length es" "length es \<le> 17"
  shows "dget (files_of es) (event_name (Suc k)) = Some (Regular (serialize (fst (es ! k))))"
    "dget (heads_of es) (event_name (Suc k)) = Some (Regular (serialize (head_record (Suc k) (snd (es ! k)))))"
proof -
  have nth: "enumerate 1 es ! k = (Suc k, es ! k)" using assms(1) by (simp add: nth_enumerate_eq)
  have "k < length (enumerate 1 es)" using assms(1) by simp
  with nth have mem: "(Suc k, es ! k) \<in> set (enumerate 1 es)" by (metis nth_mem)
  have "distinct (map fst (files_of es))" "distinct (map fst (heads_of es))"
    using expected_names_ok(2) [OF assms(2)] by (simp_all flip: dkeys_def)
  then show "dget (files_of es) (event_name (Suc k)) = Some (Regular (serialize (fst (es ! k))))"
    "dget (heads_of es) (event_name (Suc k)) = Some (Regular (serialize (head_record (Suc k) (snd (es ! k)))))"
    using mem by (force simp: dget_def files_of_def heads_of_def intro: map_of_is_SomeI)+
qed

text \<open>The model instances of the first stages of a script.\<close>

definition instances :: "(nat \<Rightarrow> stage_result) \<Rightarrow> nat \<Rightarrow> string list" where
  "instances script n = map (\<lambda>k. the (sr_instance (script k))) [0..<n]"

lemma instances_Suc: "instances script (Suc n) = instances script n @ [the (sr_instance (script n))]"
  by (simp add: instances_def)

lemma length_instances [simp]: "length (instances script n) = n"
  by (simp add: instances_def)

lemma distinct_instances_less: "distinct (instances script n) \<Longrightarrow> k \<le> n \<Longrightarrow> distinct (instances script k)"
proof -
  assume "distinct (instances script n)" "k \<le> n"
  moreover from this(2) have "instances script k = take k (instances script n)" by (simp add: instances_def take_map)
  ultimately show ?thesis by simp
qed

text \<open>The state of the heads while a chain is loaded: the last one may still be missing.\<close>

definition heads_before :: "disk \<Rightarrow> event list \<Rightarrow> folder \<Rightarrow> bool" where
  "heads_before disk es H \<longleftrightarrow>
     H = heads_of es \<or> es \<noteq> [] \<and> H = heads_of (butlast es) \<and> disk (Head (length es)) = Completes"

lemma check_head_chain:
  assumes "heads_before disk es H" "k < length es" "length es \<le> 17" "is_sha256 (snd (es ! k))"
  shows "check_head disk (length es) H (Suc k) (snd (es ! k)) = (if Suc k = length es then heads_of es else H, Inr ())"
proof (cases "H = heads_of es \<or> Suc k < length es")
  case True
  have "dget H (event_name (Suc k)) = Some (Regular (serialize (head_record (Suc k) (snd (es ! k)))))"
  proof (cases "H = heads_of es")
    case True
    with dget_files(2) [OF assms(2,3)] show ?thesis by simp
  next
    case False
    with assms(1) True dget_files(2) [of k "butlast es"] assms(3) show ?thesis
      by (auto simp: heads_before_def nth_butlast)
  qed
  from check_head_written [OF this _ assms(4)] assms(2,3) True show ?thesis by auto
next
  case False
  with assms(1,2) have n: "length es = Suc k" and H: "es \<noteq> []" "H = heads_of (butlast es)" "disk (Head (length es)) = Completes"
    by (auto simp: heads_before_def)
  have es: "es = butlast es @ [es ! k]" using n H(1) by (metis append_butlast_last_id diff_Suc_1 last_conv_nth)
  have new: "event_name (Suc k) \<notin> set (dkeys H)" using new_name [of k] n assms(3) H(2) by simp
  have "H @ [(event_name (Suc k), Regular (serialize (head_record (Suc k) (snd (es ! k)))))] = heads_of es"
    by (subst (2) es) (simp add: files_append H(2) n)
  with new n H(3) show ?thesis
    by (simp add: check_head_def atomic_write_no_clobber_def dset_new Let_def)
qed

text \<open>What was written is loaded as it was, and a lost last head is written again.\<close>

lemma load_event_written:
  assumes wr: "written A w spec m d script es" and wf: "well_formed_spec spec" and k: "k < length es" and n: "length es \<le> 17"
    and heads: "heads_before disk es H" and dist: "distinct (instances script (length es))"
  shows "load_event A w disk spec m d (files_of es) (length es) H
           \<lparr>ch_events = take k (loaded es), ch_used = instances script k\<rparr> (Suc k)
         = (if Suc k = length es then heads_of es else H,
            Inr \<lparr>ch_events = take (Suc k) (loaded es), ch_used = instances script (Suc k)\<rparr>)"
proof -
  from wr k obtain q where w: "written_for A w spec m d es k q (script k)" unfolding written_def by blast
  note wd = written_forD [OF w] and ok = written_last [OF wr wf k w]
  have bytes: "event_bytes (files_of es) (Suc k) = Some (serialize (fst (es ! k)))"
    using dget_files(1) [OF k n] by (simp add: event_bytes_def entry_bytes_def)
  have k': "k \<le> length es" using k by simp
  have readable: "readable spec m d (Suc k) q (take k es)" by (rule written_readable [OF wr k' wf wd(1)])
  have failure: "sr_failure (script k) \<noteq> Some ''campaign_partial_stage''" using wd(9) by simp
  have checked: "checked_event A w spec m d (files_of es) (take k (loaded es)) (Suc k) = Inr (sorted_record (fst (es ! k)), snd (es ! k))"
    unfolding wd(3)
    by (rule checked_event_written [OF wd(2) readable wd(8,7) failure bytes wd(4,5) loaded_same_names [OF wr wf k']])
  have head: "check_head disk (length es) H (Suc k) (snd (es ! k)) = (if Suc k = length es then heads_of es else H, Inr ())"
    using check_head_chain [OF heads k n] wd(3) by simp
  obtain i where i: "sr_instance (script k) = Some i" using wd(10) by blast
  have "distinct (instances script (Suc k))" using distinct_instances_less [OF dist, of "Suc k"] k by simp
  then have fresh: "i \<notin> set (instances script k)" by (simp add: instances_Suc i)
  have noted: "note_instance (instances script k) (sorted_record (fst (es ! k))) = Inr (instances script (Suc k))"
    using fresh by (simp add: note_instance_def is_partial_def get_sorted_record [OF ok(3)] ok(6,8) i instances_Suc)
  have step: "take (Suc k) (loaded es) = take k (loaded es) @ [(sorted_record (fst (es ! k)), snd (es ! k))]"
    using k loaded_nth [OF k] by (simp add: take_Suc_conv_app_nth)
  show ?thesis
    unfolding load_event_def chain.select_convs checked sum.case prod.case head noted bind_simps step ..
qed

lemma load_written:
  assumes wr: "written A w spec m d script es" and wf: "well_formed_spec spec" and n: "length es \<le> event_count spec"
    and heads: "heads_before disk es H" and dist: "distinct (instances script (length es))"
  shows "load_events A w disk spec m d (files_of es) H
         = (heads_of es, Inr \<lparr>ch_events = loaded es, ch_used = instances script (length es)\<rparr>)"
proof -
  have n17: "length es \<le> 17" using n by (simp add: event_count_def split: if_splits)
  have "load_sequence (load_event A w disk spec m d (files_of es) (length es)) H \<lparr>ch_events = [], ch_used = []\<rparr> [1..<Suc k]
      = (if k = length es then heads_of es else H,
         Inr \<lparr>ch_events = take k (loaded es), ch_used = instances script k\<rparr>)" if "k \<le> length es" for k
    using that
  proof (induction k)
    case 0
    have "es = [] \<Longrightarrow> H = heads_of es" using heads by (simp add: heads_before_def)
    then show ?case by (auto simp: instances_def)
  next
    case (Suc k)
    then have k: "k < length es" and IH: "load_sequence (load_event A w disk spec m d (files_of es) (length es)) H
        \<lparr>ch_events = [], ch_used = []\<rparr> [1..<Suc k] = (H, Inr \<lparr>ch_events = take k (loaded es), ch_used = instances script k\<rparr>)"
      by simp_all
    have upto: "[1..<Suc (Suc k)] = [1..<Suc k] @ [Suc k]" by simp
    show ?case
      unfolding upto load_sequence_append IH prod.case sum.case load_sequence.simps load_event_written [OF wr wf k n17 heads dist]
      by simp
  qed
  from this [of "length es"] have sequence: "load_sequence (load_event A w disk spec m d (files_of es) (length es)) H
      \<lparr>ch_events = [], ch_used = []\<rparr> [1..<Suc (length es)]
      = (heads_of es, Inr \<lparr>ch_events = loaded es, ch_used = instances script (length es)\<rparr>)" by simp
  have "sort (expected_names j) = expected_names j" if "j \<le> 17" for j
    using that by (simp add: expected_names_ok sorted_sort_id)
  moreover have "butlast (expected_names (length es)) = expected_names (length es - 1)"
    by (cases "length es") (simp_all add: expected_names_def)
  ultimately have "names_in_order spec (files_of es) H"
    using heads n n17 by (auto simp: names_in_order_def Let_def heads_before_def)
  with sequence show ?thesis unfolding load_events_def by simp
qed

section \<open>Opening the directory\<close>

text \<open>
  A private directory that holds a chain of events; the head of the last event may be missing, as after a call
  that was cut off between the two writes of an event.
\<close>

definition folders_ok :: "store \<Rightarrow> bool" where
  "folders_ok s \<longleftrightarrow> st_private s \<and> st_lock s \<and> st_events s \<noteq> Other_Place \<and> st_heads s \<noteq> Other_Place
     \<and> st_slots s \<noteq> Other_Place"

definition opened :: "store \<Rightarrow> store" where
  "opened s = s\<lparr>st_events := Private_Folder (events_of s), st_heads := Private_Folder (contents (st_heads s)),
     st_slots := Private_Folder (contents (st_slots s))\<rparr>"

lemma private_subdirectory_ok: "p \<noteq> Other_Place \<Longrightarrow> private_subdirectory p = Inr (Private_Folder (contents p))"
  by (cases p) (simp_all add: private_subdirectory_def)

lemma open_folders_ok: "folders_ok s \<Longrightarrow> open_folders s = (opened s, Inr ())"
  by (simp add: open_folders_def folders_ok_def private_subdirectory_ok opened_def Let_def)

lemma advance_opened:
  assumes "folders_ok s" "load_campaign_spec mf = Inr spec"
  shows "advance_qualification_campaign A disk m mf dir s w
       = advance_locked A w disk m (below dir ''slots'') spec (opened s)"
  using assms open_folders_ok [OF assms(1)] by (simp add: advance_qualification_campaign_def folders_ok_def)

text \<open>The chain, as it is loaded, and the call that goes on from it.\<close>

abbreviation chain_of :: "(nat \<Rightarrow> stage_result) \<Rightarrow> event list \<Rightarrow> chain" where
  "chain_of script es \<equiv> \<lparr>ch_events = loaded es, ch_used = instances script (length es)\<rparr>"

definition goes_on ::
  "'w adapters \<Rightarrow> disk \<Rightarrow> string \<Rightarrow> string \<Rightarrow> campaign_spec \<Rightarrow> store \<Rightarrow> 'w \<Rightarrow> chain \<Rightarrow> 'w reply" where
  "goes_on A disk m d spec s w ch =
     (if length (ch_events ch) = event_count spec
      then (case complete_campaign A w disk d spec s ch of (s', res) \<Rightarrow> (s', w, res))
      else (case stage_request spec m d (Suc (length (ch_events ch))) of
          Inl e \<Rightarrow> (s, w, Inl e) | Inr q \<Rightarrow> next_stage A w disk d spec s ch q))"

lemma loaded_passed:
  assumes "written A w spec m d script es" "well_formed_spec spec"
  shows "last_passed \<lparr>ch_events = loaded es, ch_used = u\<rparr>"
proof (cases "es = []")
  case True
  then show ?thesis by (simp add: last_passed_def)
next
  case False
  define k where "k = length es - 1"
  with False have k: "k < length es" "last es = es ! k" by (simp_all add: last_conv_nth)
  with assms(1) obtain q where w: "written_for A w spec m d es k q (script k)" unfolding written_def by blast
  note ok = written_last [OF assms(1,2) k(1) w]
  show ?thesis
    using False k(2) ok(3,5) by (simp add: last_passed_def last_loaded get_sorted_record)
qed

lemma advance_written:
  assumes s: "folders_ok s" and mf: "load_campaign_spec mf = Inr spec"
    and wr: "written A w spec m (below dir ''slots'') script es" and n: "length es \<le> event_count spec"
    and events: "events_of s = files_of es" and heads: "heads_before disk es (contents (st_heads s))"
    and dist: "distinct (instances script (length es))"
  shows "advance_qualification_campaign A disk m mf dir s w
       = goes_on A disk m (below dir ''slots'') spec ((opened s)\<lparr>st_heads := Private_Folder (heads_of es)\<rparr>) w (chain_of script es)"
proof -
  let ?d = "below dir ''slots''"
  note wf = load_campaign_spec_well_formed [OF mf]
  have load: "load_events A w disk spec m ?d (events_of (opened s)) (contents (st_heads (opened s)))
      = (heads_of es, Inr (chain_of script es))"
    using load_written [OF wr wf n heads dist] events by (simp add: opened_def)
  note passed = loaded_passed [OF wr wf]
  show ?thesis
    unfolding advance_opened [OF s mf] goes_on_def
    using advance_locked_passed [OF load passed] by simp
qed

section \<open>Progress\<close>

text \<open>
  A script says what every stage returns when it is run. The runner cooperates from a sequence of states:
  the next stage is absent, its model is fresh, its run returns the passing result of the script, and from then
  on the stage is reported complete with that result. Between two calls the model is restarted.
\<close>

definition stage_answers ::
  "'w adapters \<Rightarrow> ('w \<Rightarrow> 'w) \<Rightarrow> (nat \<Rightarrow> stage_result) \<Rightarrow> (nat \<Rightarrow> 'w) \<Rightarrow> nat \<Rightarrow> campaign_request \<Rightarrow> bool" where
  "stage_answers A restart script W n q \<longleftrightarrow>
     ad_inspect A (W n) q = Answers \<lparr>si_state = ''absent'', si_result = None\<rparr>
     \<and> (sq_stage q \<noteq> ''preflight'' \<longrightarrow>
          ad_probe A (W n) q = Answers \<lparr>rr_state = ''ready'', rr_instance = sr_instance (script n)\<rparr>)
     \<and> (\<exists>w1 w2. ad_prepare A (W n) (sq_dir q) = Some w1 \<and> ad_run A w1 q = (w2, Answers (script n))
          \<and> validate_stage_result A w2 q (script n) = Inr () \<and> W (Suc n) = restart w2)
     \<and> sr_status (script n) = ''passed'' \<and> (\<exists>i. sr_identity (script n) = Some i \<and> is_sha256 i)
     \<and> (\<forall>k. n < k \<longrightarrow> ad_inspect A (W k) q = Answers \<lparr>si_state = ''complete'', si_result = Some (script n)\<rparr>
          \<and> validate_stage_result A (W k) q (script n) = Inr ())"

definition cooperates ::
  "'w adapters \<Rightarrow> ('w \<Rightarrow> 'w) \<Rightarrow> campaign_spec \<Rightarrow> string \<Rightarrow> string \<Rightarrow> (nat \<Rightarrow> stage_result) \<Rightarrow> (nat \<Rightarrow> 'w) \<Rightarrow> bool" where
  "cooperates A restart spec m d script W \<longleftrightarrow>
     distinct (instances script (event_count spec))
     \<and> (\<forall>n<event_count spec. \<forall>q. stage_request spec m d (Suc n) = Inr q \<longrightarrow> stage_answers A restart script W n q)"

text \<open>Calls on a disk that works, each followed by a restart of the model.\<close>

definition call ::
  "'w adapters \<Rightarrow> string \<Rightarrow> bytes option \<Rightarrow> string \<Rightarrow> store \<times> 'w \<Rightarrow> 'w reply" where
  "call A m mf dir c = advance_qualification_campaign A (\<lambda>_. Completes) m mf dir (fst c) (snd c)"

fun calls ::
  "'w adapters \<Rightarrow> ('w \<Rightarrow> 'w) \<Rightarrow> string \<Rightarrow> bytes option \<Rightarrow> string \<Rightarrow> store \<times> 'w \<Rightarrow> nat \<Rightarrow> store \<times> 'w" where
  "calls A restart m mf dir c 0 = c"
| "calls A restart m mf dir c (Suc n) =
     (case call A m mf dir (calls A restart m mf dir c n) of (s, w, _) \<Rightarrow> (s, restart w))"

lemma stage_request_exists:
  assumes "n < event_count spec"
  obtains q where "stage_request spec m d (Suc n) = Inr q"
  using assms by (cases n) (auto simp: stage_request_def Let_def)

lemma score_proxy_position:
  "stage_request spec m d (Suc n) = Inr q \<Longrightarrow> sq_stage q = ''score-proxy'' \<Longrightarrow> 0 < n"
  by (cases n) (auto simp: stage_request_def Let_def)

lemma event_record_exists:
  assumes "sr_identity r = Some i" "is_sha256 i" "cg_version spec = ''v2'' \<Longrightarrow> sq_stage q = ''score-proxy'' \<Longrightarrow> sha256_value p"
  shows "\<exists>e. event_record spec q r prev p = Inr e"
  using assms by (cases "cg_version spec = ''v2''") (simp_all add: event_record_def optional_def Let_def)

lemma written_next_record:
  assumes wr: "written A w spec m d script es" and wf: "well_formed_spec spec"
    and q: "stage_request spec m d (Suc (length es)) = Inr q" and id: "sr_identity r = Some i" "is_sha256 i"
  obtains e where "next_record spec q r es = Inr e"
proof (cases "cg_version spec = ''v2'' \<and> sq_stage q = ''score-proxy''")
  case False
  then have "\<exists>e. next_record spec q r es = Inr e" unfolding next_record_def by (intro event_record_exists [OF id]) simp
  then show thesis using that by blast
next
  case True
  then have ne: "es \<noteq> []" using score_proxy_position [OF q] by auto
  define k where "k = length es - 1"
  with ne have k: "k < length es" "last es = es ! k" by (simp_all add: last_conv_nth)
  with wr obtain p where w: "written_for A w spec m d es k p (script k)" unfolding written_def by blast
  have "sha256_value (predecessor_outcome spec q es)"
    using True ne k(2) written_last(7) [OF wr wf k(1) w] written_forD(11) [OF w]
    by (simp add: predecessor_outcome_def sha256_value_def)
  then have "\<exists>e. next_record spec q r es = Inr e" unfolding next_record_def by (rule event_record_exists [OF id])
  then show thesis using that by blast
qed

text \<open>The chain grows by the record of the next stage.\<close>

definition grown :: "campaign_spec \<Rightarrow> campaign_request \<Rightarrow> stage_result \<Rightarrow> event list \<Rightarrow> event list \<Rightarrow> bool" where
  "grown spec q r es es' \<longleftrightarrow> (\<exists>e. next_record spec q r es = Inr e \<and> es' = es @ [(e, bytes_sha256 (serialize e))])"

lemma written_grows:
  assumes "written A w spec m d script es" and "grown spec q (script (length es)) es es'"
    and q: "stage_request spec m d (Suc (length es)) = Inr q"
    and "ad_inspect A w q = Answers \<lparr>si_state = ''complete'', si_result = Some (script (length es))\<rparr>"
    and "validate_stage_result A w q (script (length es)) = Inr ()"
    and "sr_status (script (length es)) = ''passed''" "optional is_sha256 (sr_identity (script (length es)))"
  shows "written A w spec m d script es'"
proof -
  from assms(2) obtain e where e: "next_record spec q (script (length es)) es = Inr e"
    "es' = es @ [(e, bytes_sha256 (serialize e))]" unfolding grown_def by blast
  have "\<exists>q. written_for A w spec m d es' k q (script k)" if "k < length es'" for k
  proof (cases "k = length es")
    case True
    have "written_for A w spec m d es' k q (script k)" using assms e True by (simp add: written_for_def)
    then show ?thesis ..
  next
    case False
    with that e have k: "k < length es" by simp
    with assms(1) obtain p where "written_for A w spec m d es k p (script k)" unfolding written_def by blast
    then have "written_for A w spec m d es' k p (script k)" using k e(2) by (simp add: written_for_def nth_append)
    then show ?thesis ..
  qed
  then show ?thesis unfolding written_def by blast
qed

text \<open>The state of the adapters may move on, as long as the stages stay complete.\<close>

lemma written_moves:
  assumes "written A w spec m d script es" "cooperates A restart spec m d script W" "length es \<le> n" "length es \<le> event_count spec"
  shows "written A (W n) spec m d script es"
  unfolding written_def
proof (intro allI impI)
  fix k
  assume k: "k < length es"
  with assms(1) obtain q where w: "written_for A w spec m d es k q (script k)" unfolding written_def by blast
  note wd = written_forD [OF w]
  have "stage_answers A restart script W k q"
    using assms(2,4) k wd(1) unfolding cooperates_def by simp
  with w k assms(3) have "written_for A (W n) spec m d es k q (script k)"
    by (auto simp: written_for_def stage_answers_def)
  then show "\<exists>q. written_for A (W n) spec m d es k q (script k)" ..
qed

text \<open>One call on a chain whose next stage cooperates.\<close>

definition holds :: "store \<Rightarrow> event list \<Rightarrow> bool" where
  "holds s es \<longleftrightarrow> folders_ok s \<and> events_of s = files_of es \<and> contents (st_heads s) = heads_of es"

definition with_chain :: "store \<Rightarrow> event list \<Rightarrow> store" where
  "with_chain s es = (opened s)\<lparr>st_events := Private_Folder (files_of es), st_heads := Private_Folder (heads_of es)\<rparr>"

lemma opened_holds: "holds s es \<Longrightarrow> (opened s)\<lparr>st_heads := Private_Folder (heads_of es)\<rparr> = with_chain s es"
  by (simp add: holds_def with_chain_def opened_def)

lemma with_chain_holds: "holds s es \<Longrightarrow> holds (with_chain s es') es'"
  by (simp add: holds_def with_chain_def opened_def folders_ok_def)

lemma run_request_cooperates:
  assumes "stage_answers A restart script W n q" and "distinct (instances script (Suc n))"
  obtains w2 where "run_request A (W n) q (instances script n) = (w2, Inr (Some (script n)))"
    "validate_stage_result A w2 q (script n) = Inr ()" "W (Suc n) = restart w2"
proof -
  from assms(1) obtain w1 w2 where run: "ad_prepare A (W n) (sq_dir q) = Some w1" "ad_run A w1 q = (w2, Answers (script n))"
    "validate_stage_result A w2 q (script n) = Inr ()" "W (Suc n) = restart w2" "sr_status (script n) = ''passed''"
    unfolding stage_answers_def by blast
  from run(3) have "plausible_result q (script n)" by (simp add: validate_stage_result_def split: if_splits)
  with run(5) obtain i where i: "sr_instance (script n) = Some i" "is_sha256 i"
    by (auto simp: plausible_result_def optional_def)
  have "i \<notin> set (instances script n)" using assms(2) i by (simp add: instances_Suc)
  with assms(1) i have "readiness_for A (W n) q (instances script n)
      = Inr (Expect (if sq_stage q = ''preflight'' then None else sr_instance (script n)))"
    by (auto simp: readiness_for_def stage_answers_def probe_readiness_def answered_def)
  with run have "run_request A (W n) q (instances script n) = (w2, Inr (Some (script n)))"
    by (simp add: run_request_def run_stage_def answered_def)
  with run(3,4) that show thesis by blast
qed

lemma write_event_grows:
  assumes "holds s es" "Suc (length es) \<le> 17"
  shows "write_event (\<lambda>_. Completes) (with_chain s es) (Suc (length es)) e
       = (with_chain s (es @ [(e, bytes_sha256 (serialize e))]), Inr (bytes_sha256 (serialize e)))"
  using new_name [OF assms(2)]
  by (simp add: write_event_def with_chain_def atomic_write_no_clobber_def dset_new files_append Let_def)

definition finishes_stage ::
  "'w adapters \<Rightarrow> string \<Rightarrow> campaign_spec \<Rightarrow> store \<Rightarrow> 'w \<Rightarrow> campaign_request \<Rightarrow> chain \<Rightarrow> string \<Rightarrow> 'w reply" where
  "finishes_stage A d spec s w q ch digest =
     (if sq_sequence q = event_count spec
      then (case complete_campaign A w (\<lambda>_. Completes) d spec s ch of (s', res) \<Rightarrow> (s', w, res))
      else (s, w, Inr (stage_advance ''stage_completed'' q (Some ''passed'') None (Some digest))))"

lemma call_cooperates:
  fixes dir :: string
  defines "d \<equiv> below dir ''slots''"
  assumes mf: "load_campaign_spec mf = Inr spec" and s: "holds s es" and wr: "written A (W n) spec m d script es"
    and n: "length es = n" "n < event_count spec" and q: "stage_request spec m d (Suc n) = Inr q"
    and co: "cooperates A restart spec m d script W"
  obtains e w where "grown spec q (script n) es (es @ [(e, bytes_sha256 (serialize e))])"
    "written A (W (Suc n)) spec m d script (es @ [(e, bytes_sha256 (serialize e))])" "W (Suc n) = restart w"
    "call A m mf dir (s, W n)
       = finishes_stage A d spec (with_chain s (es @ [(e, bytes_sha256 (serialize e))])) w q
           \<lparr>ch_events = loaded es @ [(e, bytes_sha256 (serialize e))], ch_used = instances script (Suc n)\<rparr>
           (bytes_sha256 (serialize e))"
proof -
  note wf = load_campaign_spec_well_formed [OF mf]
  have answers: "stage_answers A restart script W n q" using co n(2) q unfolding cooperates_def by blast
  have dist: "distinct (instances script (Suc n))"
    using co n(2) distinct_instances_less [of script "event_count spec" "Suc n"] by (simp add: cooperates_def)
  obtain w where run: "run_request A (W n) q (instances script n) = (w, Inr (Some (script n)))"
    "validate_stage_result A w q (script n) = Inr ()" "W (Suc n) = restart w"
    by (rule run_request_cooperates [OF answers dist])
  from answers have passed: "sr_status (script n) = ''passed''"
    and absent: "inspect_stage A (W n) q = Inr \<lparr>si_state = ''absent'', si_result = None\<rparr>"
    and complete: "ad_inspect A (W (Suc n)) q = Answers \<lparr>si_state = ''complete'', si_result = Some (script n)\<rparr>"
      "validate_stage_result A (W (Suc n)) q (script n) = Inr ()"
    by (simp_all add: stage_answers_def inspect_stage_def answered_def)
  from answers obtain i where id: "sr_identity (script n) = Some i" "is_sha256 i" unfolding stage_answers_def by blast
  have q': "stage_request spec m d (Suc (length es)) = Inr q" using q n(1) by simp
  obtain e where e: "next_record spec q (script n) es = Inr e" by (rule written_next_record [OF wr wf q' id])
  let ?es = "es @ [(e, bytes_sha256 (serialize e))]"
  have grown: "grown spec q (script n) es ?es" using e by (simp add: grown_def)
  have moved: "written A (W (Suc n)) spec m d script es" by (rule written_moves [OF wr co]) (use n in simp_all)
  have wr': "written A (W (Suc n)) spec m d script ?es"
    using written_grows [OF moved _ q'] grown complete passed id n(1) by (simp add: optional_def)
  from run(2) have "plausible_result q (script n)" by (simp add: validate_stage_result_def split: if_splits)
  with passed obtain j where j: "sr_instance (script n) = Some j" "sr_failure (script n) = None"
    by (auto simp: plausible_result_def)
  have fresh: "fresh_instance (instances script n) (script n) = Inr ()"
    using dist j by (simp add: fresh_instance_def instances_Suc)
  have recorded: "event_record spec q (script n) (previous_event (loaded es)) (predecessor_outcome spec q (loaded es)) = Inr e"
    using e loaded_same_names [OF wr wf order_refl] by (simp add: next_record_def)
  have le: "Suc (length es) \<le> 17" using n by (simp add: event_count_def split: if_splits)
  note wrote = write_event_grows [OF s le, of e, unfolded n(1)]
  have seq: "sq_sequence q = Suc n" using q by (rule stage_request_sequence)
  have "call A m mf dir (s, W n) = goes_on A (\<lambda>_. Completes) m d spec (with_chain s es) (W n) (chain_of script es)"
    unfolding call_def fst_conv snd_conv d_def opened_holds [OF s, symmetric]
    using s n distinct_instances_less [OF dist, of n]
    by (intro advance_written [OF _ mf wr [unfolded d_def]]) (simp_all add: holds_def heads_before_def)
  also have "\<dots> = next_stage A (W n) (\<lambda>_. Completes) d spec (with_chain s es) (chain_of script es) q"
    using n q by (simp add: goes_on_def)
  also have "\<dots> = (case record_stage A w (\<lambda>_. Completes) d spec (with_chain s es) (chain_of script es) q (script n) of
      (s', res) \<Rightarrow> (s', w, res))"
    using absent run(1) n(1) by (simp add: next_stage_def)
  also have "\<dots> = finishes_stage A d spec (with_chain s ?es) w q
      \<lparr>ch_events = loaded es @ [(e, bytes_sha256 (serialize e))], ch_used = instances script (Suc n)\<rparr> (bytes_sha256 (serialize e))"
    using fresh recorded wrote seq passed j n(1)
    by (simp add: record_stage_def finishes_stage_def instances_Suc)
  finally show thesis using grown wr' run(3) that by blast
qed

lemma complete_campaign_folders:
  "complete_campaign A w disk d spec s ch = (s', res) \<Longrightarrow> \<exists>files. s' = s\<lparr>st_files := files\<rparr>"
proof -
  have settle: "settle_outcome disk s document = (s', res) \<Longrightarrow> \<exists>files. s' = s\<lparr>st_files := files\<rparr>" for document s' res
    by (auto simp: settle_outcome_def split: if_splits prod.splits) (metis store.surjective store.update_convs(6))
  have same: "\<exists>files. t = t\<lparr>st_files := files\<rparr>" for t :: store by (metis store.surjective store.update_convs(6))
  show "complete_campaign A w disk d spec s ch = (s', res) \<Longrightarrow> \<exists>files. s' = s\<lparr>st_files := files\<rparr>"
    by (auto simp: complete_campaign_def complete_v1_def complete_v2_def Let_def same dest!: settle
        split: if_splits sum.splits prod.splits option.splits)
qed

lemma holds_files: "holds s es \<Longrightarrow> holds (s\<lparr>st_files := files\<rparr>) es"
  by (simp add: holds_def folders_ok_def)

lemma call_finishes:
  assumes "finishes_stage A d spec s w q ch digest = (s', w', res)" "holds s es"
  shows "holds s' es" "w' = w" "sq_sequence q \<noteq> event_count spec \<Longrightarrow> s' = s"
proof -
  show "w' = w" "sq_sequence q \<noteq> event_count spec \<Longrightarrow> s' = s"
    using assms(1) by (auto simp: finishes_stage_def split: if_splits prod.splits)
  show "holds s' es"
    using assms by (auto simp: finishes_stage_def holds_files split: if_splits prod.splits dest!: complete_campaign_folders)
qed

lemma calls_written:
  fixes dir :: string
  defines "d \<equiv> below dir ''slots''"
  assumes mf: "load_campaign_spec mf = Inr spec" and s: "holds s []" and co: "cooperates A restart spec m d script W"
    and n: "n \<le> event_count spec"
  shows "\<exists>s' es. calls A restart m mf dir (s, W 0) n = (s', W n) \<and> holds s' es \<and> length es = n
           \<and> written A (W n) spec m d script es \<and> (n < event_count spec \<longrightarrow> st_files s' = st_files s)"
  using n
proof (induction n)
  case 0
  have "written A (W 0) spec m d script []" by (simp add: written_def)
  with s show ?case by (intro exI [of _ s] exI [of _ "[]"]) simp
next
  case (Suc n)
  then obtain s1 es where 1: "calls A restart m mf dir (s, W 0) n = (s1, W n)" "holds s1 es" "length es = n"
    "written A (W n) spec m d script es" "st_files s1 = st_files s" by auto
  obtain q where q: "stage_request spec m d (Suc n) = Inr q" using stage_request_exists Suc.prems by (metis Suc_le_lessD)
  from Suc.prems have less: "n < event_count spec" by simp
  obtain e w where e: "written A (W (Suc n)) spec m d script (es @ [(e, bytes_sha256 (serialize e))])" "W (Suc n) = restart w"
    and call: "call A m mf dir (s1, W n) = finishes_stage A d spec (with_chain s1 (es @ [(e, bytes_sha256 (serialize e))])) w q
           \<lparr>ch_events = loaded es @ [(e, bytes_sha256 (serialize e))], ch_used = instances script (Suc n)\<rparr>
           (bytes_sha256 (serialize e))"
    by (rule call_cooperates [OF mf 1(2) 1(4) [unfolded d_def] 1(3) less q [unfolded d_def] co [unfolded d_def], folded d_def]) blast
  obtain s2 w2 res where c: "call A m mf dir (s1, W n) = (s2, w2, res)" by (metis prod.exhaust)
  note f = call_finishes [OF c [unfolded call] with_chain_holds [OF 1(2)]]
  have "calls A restart m mf dir (s, W 0) (Suc n) = (s2, W (Suc n))" using 1(1) c f(2) e(2) by simp
  moreover have "Suc n < event_count spec \<longrightarrow> st_files s2 = st_files s"
    using f(3) stage_request_sequence [OF q] 1(5) by (simp add: with_chain_def opened_def)
  ultimately show ?case using f(1) e(1) 1(3) by (intro exI [of _ s2] exI [of _ "es @ [(e, bytes_sha256 (serialize e))]"]) simp
qed

lemma calls_history: "env = (\<lambda>w w'. w' = restart w) \<Longrightarrow> history A env m mf dir c (calls A restart m mf dir c n)"
proof (induction n)
  case 0
  then show ?case by (simp add: history.Begin)
next
  case (Suc n)
  obtain s w where c: "calls A restart m mf dir c n = (s, w)" by fastforce
  obtain s' w' res where a: "call A m mf dir (s, w) = (s', w', res)" by (metis prod.exhaust)
  with Suc c have "history A env m mf dir c (s', w')" by (auto simp: call_def intro: history.Advance)
  then show ?case using c a Suc.prems by (auto intro: history.Meanwhile)
qed

lemma written_status:
  assumes "written A w spec m d script es" "well_formed_spec spec" "length es \<le> event_count spec" "1 \<le> i" "i \<le> length es"
  shows "file_status (files_of es) i = JStr ''passed''"
proof -
  from assms(4,5) obtain k where k: "i = Suc k" "k < length es" by (cases i) auto
  with assms(1) obtain q where w: "written_for A w spec m d es k q (script k)" unfolding written_def by blast
  note ok = written_last [OF assms(1,2) k(2) w]
  have "length es \<le> 17" using assms(3) by (simp add: event_count_def split: if_splits)
  with k have "event_bytes (files_of es) i = Some (serialize (fst (es ! k)))"
    using dget_files(1) by (simp add: event_bytes_def entry_bytes_def)
  moreover have "unique_loads (serialize (fst (es ! k))) = Inr (JObj (sorted_record (fst (es ! k))))"
    using unique_loads_serialize [OF ok(2)] by (simp only: canon_sorted_record)
  ultimately have "event_file (files_of es) i = Some (sorted_record (fst (es ! k)))" by (rule event_file_bytes)
  then show ?thesis using ok(3,5) by (simp add: file_status_def get_sorted_record)
qed

text \<open>
  C39: A campaign comes to its end. If every stage cooperates and the disk works, then each call on a fresh directory
  completes exactly the next stage: after n calls there are n events and all of them are passes, up to all the
  stages of the campaign, and every call but the last returns that its stage was completed. In particular every
  call accepts what the calls before it have written.
\<close>

theorem cooperative_campaign_finishes:
  assumes "load_campaign_spec mf = Inr spec" and "holds s []"
    and "cooperates A restart spec m (below dir ''slots'') script W"
  shows "(\<forall>n\<le>event_count spec. \<exists>s'. calls A restart m mf dir (s, W 0) n = (s', W n) \<and> length (events_of s') = n
           \<and> (\<forall>i. 1 \<le> i \<and> i \<le> n \<longrightarrow> file_status (events_of s') i = JStr ''passed''))
    \<and> (\<forall>n. Suc n < event_count spec \<longrightarrow> (\<exists>s' w' v. call A m mf dir (calls A restart m mf dir (s, W 0) n) = (s', w', Inr v)
           \<and> av_kind v = ''stage_completed'' \<and> av_sequence v = Some (Suc n)))"
proof (intro conjI)
  let ?d = "below dir ''slots''"
  note wf = load_campaign_spec_well_formed [OF assms(1)]
  show "\<forall>n\<le>event_count spec. \<exists>s'. calls A restart m mf dir (s, W 0) n = (s', W n) \<and> length (events_of s') = n
           \<and> (\<forall>i. 1 \<le> i \<and> i \<le> n \<longrightarrow> file_status (events_of s') i = JStr ''passed'')"
  proof (intro allI impI)
    fix n
    assume n: "n \<le> event_count spec"
    with calls_written [OF assms] obtain s' es where c: "calls A restart m mf dir (s, W 0) n = (s', W n)" "holds s' es"
      "length es = n" "written A (W n) spec m ?d script es" by blast
    with n written_status [OF c(4) wf] show "\<exists>s'. calls A restart m mf dir (s, W 0) n = (s', W n) \<and> length (events_of s') = n
           \<and> (\<forall>i. 1 \<le> i \<and> i \<le> n \<longrightarrow> file_status (events_of s') i = JStr ''passed'')"
      by (intro exI [of _ s']) (simp add: holds_def)
  qed
  show "\<forall>n. Suc n < event_count spec \<longrightarrow> (\<exists>s' w' v. call A m mf dir (calls A restart m mf dir (s, W 0) n) = (s', w', Inr v)
           \<and> av_kind v = ''stage_completed'' \<and> av_sequence v = Some (Suc n))"
  proof (intro allI impI)
    fix n
    assume n: "Suc n < event_count spec"
    with calls_written [OF assms, of n] obtain s1 es where 1: "calls A restart m mf dir (s, W 0) n = (s1, W n)" "holds s1 es"
      "length es = n" "written A (W n) spec m ?d script es" by auto
    have less: "n < event_count spec" using n by simp
    then obtain q where q: "stage_request spec m ?d (Suc n) = Inr q" by (rule stage_request_exists)
    obtain e w where "call A m mf dir (s1, W n) = finishes_stage A ?d spec (with_chain s1 (es @ [(e, bytes_sha256 (serialize e))])) w q
           \<lparr>ch_events = loaded es @ [(e, bytes_sha256 (serialize e))], ch_used = instances script (Suc n)\<rparr>
           (bytes_sha256 (serialize e))"
      by (rule call_cooperates [OF assms(1) 1(2,4,3) less q assms(3)]) blast
    with 1(1) n stage_request_sequence [OF q]
    show "\<exists>s' w' v. call A m mf dir (calls A restart m mf dir (s, W 0) n) = (s', w', Inr v)
           \<and> av_kind v = ''stage_completed'' \<and> av_sequence v = Some (Suc n)"
      by (simp add: finishes_stage_def stage_advance_def)
  qed
qed

section \<open>A recorded failure\<close>

text \<open>The event of a partial stage is accepted as well, whatever the runner says of it.\<close>

lemma checked_event_partial:
  fixes spec q es
  defines "e \<equiv> partial_event_record spec q (previous_event es)"
  assumes wf: "well_formed_spec spec" and q: "stage_request spec m d n = Inr q" and prev: "optional is_sha256 (previous_event es)"
    and bytes: "event_bytes E n = Some (serialize e)"
  shows "checked_event A w spec m d E es n = Inr (sorted_record e, bytes_sha256 (serialize e))"
    and "is_partial (sorted_record e)" and "get (sorted_record e) ''status'' = JStr ''failed''"
    and "get (sorted_record e) ''sequence'' = JInt (int n)"
    and "unique_loads (serialize e) = Inr (JObj (sorted_record e))"
proof -
  note shape = partial_record_shape [of spec q "previous_event es", folded e_def]
  note ok = record_ok [OF shape(1) q wf]
  note get = get_sorted_record [OF ok(2)]
  show load: "unique_loads (serialize e) = Inr (JObj (sorted_record e))"
    using unique_loads_serialize [OF ok(1)] by (simp only: canon_sorted_record)
  show partial: "is_partial (sorted_record e)" using shape(3) get by (simp add: is_partial_def)
  show "get (sorted_record e) ''status'' = JStr ''failed''" using shape(2) get by simp
  show "get (sorted_record e) ''sequence'' = JInt (int n)"
    using record_shape_get(2) [OF shape(1)] get stage_request_sequence [OF q] by simp
  have same: "py_eq (JObj (sorted_record e)) (JObj e)"
    using py_eq_canon [OF record_shape_get(7) [OF shape(1)]] by (simp only: canon_sorted_record)
  have print: "serialize (sorted_record e) = serialize e"
    by (rule serialize_canon) (rule canon_sorted_record)
  have "length (serialize e) \<le> METADATA_FILE_MAX_BYTES"
    unfolding e_def partial_event_record_def
    by (rule event_fields_size [OF wf q _ _ _ _ _ prev, where p = JNull and i = None]) (simp_all add: optional_def short_def)
  then have read: "read_entry E (event_name n) = Inr (serialize e)"
    using bytes by (simp add: read_entry_def event_bytes_def accepted_simps)
  have "expected_event A w spec q es (sorted_record e) = Inr e" using partial by (simp add: expected_event_def e_def)
  then show "checked_event A w spec m d E es n = Inr (sorted_record e, bytes_sha256 (serialize e))"
    by (simp add: checked_event_def read load caught_as_def q same print del: py_eq.simps)
qed

text \<open>
  The category of a partial stage is not reserved: a runner may return it with a failing result. The event that is
  written for that result is then taken for the event of a partial stage and refused by every later call.
\<close>

lemma reserved_category_breaks_chain:
  assumes "next_record spec q r es = Inr e" and "readable spec m d n q es" and "plausible_result q r"
    and "optional is_sha256 (sr_identity r)" and "sr_failure r = Some ''campaign_partial_stage''"
    and "event_bytes E n = Some (serialize e)"
  shows "checked_event A w spec m d E es n = broken_chain"
proof -
  note ok = next_record_readable [OF assms(1-4)]
  let ?p = "partial_event_record spec q (previous_event es)"
  have load: "unique_loads (serialize e) = Inr (JObj (sorted_record e))"
    using unique_loads_serialize [OF ok(2)] by (simp only: canon_sorted_record)
  have partial: "is_partial (sorted_record e)"
    using assms(5) ok(6) by (simp add: is_partial_def get_sorted_record [OF ok(3)])
  have read: "read_entry E (event_name n) = Inr (serialize e)"
    using assms(6) ok(1) by (simp add: read_entry_def event_bytes_def accepted_simps)
  have q: "stage_request spec m d n = Inr q" using assms(2) by (simp add: readable_def)
  have "dict_ok (sorted_record e)" using unique_loads_ok [OF load] by (simp add: dict_ok_def dkeys_def)
  then have "distinct (dkeys (sorted_record e))" by (simp add: dict_ok_def)
  moreover have "distinct (dkeys ?p)" by (rule record_shape_get(6) [OF partial_record_shape(1)])
  ultimately have "\<not> py_eq (JObj (sorted_record e)) (JObj ?p)"
    using py_eq_get [of "sorted_record e" ?p "''runtime_outcome_sha256''"] ok(7) partial_record_shape(4) [of spec q "previous_event es"]
    by (auto simp: get_sorted_record [OF ok(3)] simp del: py_eq.simps(4))
  then show ?thesis
    using partial by (simp add: checked_event_def read load caught_as_def q expected_event_def del: py_eq.simps)
qed

end
