(* ===== verification/Campaign_Heads.thy ===== *)
theory Campaign_Heads
  imports Campaign_Progress
begin

text \<open>
  A call that is cut off after it wrote an event and before it wrote its head: the next call writes the
  head and goes on as if nothing had happened, whatever the last event says.
\<close>

section \<open>The heads without the last one\<close>

lemma append_old: "dget (H @ [(k, v)]) k' = (if k = k' \<and> k' \<notin> set (dkeys H) then Some v else dget H k')"
  by (cases "map_of H k'") (auto simp: dget_def dkeys_def map_add_def dest: map_of_SomeD simp flip: map_of_eq_None_iff)

lemma check_head_old:
  assumes "event_name k \<noteq> event_name n" "check_head disk n (H @ [(event_name n, head)]) k digest = (F, Inr ())"
  shows "check_head disk n H k digest = (H, Inr ())"
proof -
  from assms have "k \<noteq> n" by auto
  with assms(2) have "event_name k \<in> set (dkeys (H @ [(event_name n, head)]))"
    by (auto simp: check_head_def Let_def split: if_splits)
  with assms(1) have k: "event_name k \<in> set (dkeys H)" by (auto simp: dkeys_def)
  then have "read_entry (H @ [(event_name n, head)]) (event_name k) = read_entry H (event_name k)"
    using assms(1) by (simp add: read_entry_def append_old)
  with assms(2) k show ?thesis by (auto simp: check_head_def Let_def dkeys_def bind_Inr_iff split: if_splits)
qed

lemma names_without_last:
  assumes "names_in_order spec E (H @ [(event_name (length E), head)])" "E \<noteq> []"
  shows "sort (dkeys H) = butlast (expected_names (length E))" "event_name (length E) \<notin> set (dkeys H)"
    "length E \<le> event_count spec"
proof -
  let ?names = "expected_names (length E)" and ?F = "H @ [(event_name (length E), head)]"
  obtain n where n: "length E = Suc n" using assms(2) by (cases E) auto
  show le: "length E \<le> event_count spec" using assms(1) by (simp add: names_in_order_def Let_def)
  then have "length E \<le> 17" by (simp add: event_count_def split: if_splits)
  note ok = expected_names_ok [OF this]
  have names: "?names = butlast ?names @ [event_name (length E)]" unfolding n expected_names_Suc by simp
  have new: "event_name (length E) \<notin> set (butlast ?names)"
    using ok(2) by (subst (asm) names) simp
  have keys: "dkeys ?F = dkeys H @ [event_name (length E)]" by (simp add: dkeys_def)
  have "sort (dkeys ?F) = ?names \<or> sort (dkeys ?F) = butlast ?names"
    using assms(1) by (simp add: names_in_order_def Let_def)
  then have "sort (dkeys ?F) = ?names"
  proof
    assume "sort (dkeys ?F) = butlast ?names"
    then have "set (dkeys ?F) = set (butlast ?names)" by (metis set_sort)
    with new keys show ?thesis by auto
  qed
  then have m: "mset (dkeys ?F) = mset ?names" by (metis mset_sort)
  then have "mset (dkeys H) = mset (butlast ?names)"
    unfolding keys by (subst (asm) names) (simp only: mset_append add_right_cancel mset.simps)
  moreover have "sorted (butlast ?names)" using ok(1) by (simp add: sorted_butlast)
  ultimately show "sort (dkeys H) = butlast ?names" by (metis properties_for_sort mset_sort)
  then have "set (dkeys H) = set (butlast ?names)" by (metis set_sort)
  with new show "event_name (length E) \<notin> set (dkeys H)" by simp
qed

lemma old_event_name:
  assumes "1 \<le> k" "k < n" "n \<le> 17"
  shows "event_name k \<noteq> event_name n"
proof -
  obtain j where j: "n = Suc j" using assms by (cases n) auto
  with assms show ?thesis using new_name [of j] old_name [of k j] by auto
qed

lemma load_event_old:
  assumes "event_name k \<noteq> event_name n"
    and "load_event A w disk spec m d E n (H @ [(event_name n, head)]) ch k = (F, Inr ch')"
  shows "F = H @ [(event_name n, head)] \<and> load_event A w disk spec m d E n H ch k = (H, Inr ch')"
  using assms(2)
proof (rule load_eventE)
  fix event digest used
  assume c: "checked_event A w spec m d E (ch_events ch) k = Inr (event, digest)"
    and h: "check_head disk n (H @ [(event_name n, head)]) k digest = (F, Inr ())"
    and u: "note_instance (ch_used ch) event = Inr used"
    and ch': "ch' = \<lparr>ch_events = ch_events ch @ [(event, digest)], ch_used = used\<rparr>"
  from assms(1) have "k \<noteq> n" by auto
  with check_head_before [OF h] check_head_old [OF assms(1) h] c u ch' show ?thesis by (simp add: load_event_def)
qed

text \<open>The chain is loaded without its last head as with it, and the head is there afterwards.\<close>

lemma load_lost_head:
  fixes E H n head digest
  defines "F \<equiv> H @ [(event_name n, Regular (serialize (head_record n digest)))]"
  assumes l: "load_events A w disk spec m d E F = (F', Inr ch)"
    and n: "n = length E" "E \<noteq> []" and digest: "digest = head_of (ch_events ch)" and disk: "disk (Head n) = Completes"
  shows "F' = F" "load_events A w disk spec m d E H = (F, Inr ch)"
proof -
  have names: "names_in_order spec E F" using l by (rule load_eventsE(1))
  note old = names_without_last [OF names [unfolded F_def n(1)] n(2)]
  have n17: "n \<le> 17" using old(3) n(1) by (simp add: event_count_def split: if_splits)
  obtain j where j: "n = Suc j" using n by (cases E) auto
  have len: "length (ch_events ch) = n" using load_eventsE(2) [OF l] n(1) by simp
  let ?run = "\<lambda>H k. load_sequence (load_event A w disk spec m d E n) H \<lparr>ch_events = [], ch_used = []\<rparr> [1..<Suc k]"
  have prefix: "?run F k = (G, Inr c) \<Longrightarrow> G = F \<and> ?run H k = (H, Inr c)" if "k \<le> j" for k G c
    using that
  proof (induction k arbitrary: G c)
    case 0
    then show ?case by simp
  next
    case (Suc k)
    have upto: "[1..<Suc (Suc k)] = [1..<Suc k] @ [Suc k]" by simp
    from Suc.prems(1) obtain G1 c1 where 1: "?run F k = (G1, Inr c1)"
      "load_event A w disk spec m d E n G1 c1 (Suc k) = (G, Inr c)"
      unfolding upto load_sequence_append by (auto simp del: upt_Suc split: prod.splits sum.splits)
    have IH: "G1 = F" "?run H k = (H, Inr c1)" using Suc.IH [OF 1(1)] Suc.prems(2) by simp_all
    have "event_name (Suc k) \<noteq> event_name n" using Suc.prems(2) j n17 by (intro old_event_name) simp_all
    from load_event_old [OF this 1(2) [unfolded IH(1) F_def]] IH(2) show ?case
      unfolding upto load_sequence_append by (simp add: F_def del: upt_Suc)
  qed
  have "?run F (Suc j) = (F', Inr ch)"
    using l names unfolding load_events_def n(1) [symmetric] j by (simp del: upt_Suc)
  moreover have upto: "[1..<Suc (Suc j)] = [1..<Suc j] @ [Suc j]" by simp
  ultimately obtain G c where 1: "?run F j = (G, Inr c)" and 2: "load_event A w disk spec m d E n G c n = (F', Inr ch)"
    unfolding upto load_sequence_append j by (auto simp del: upt_Suc split: prod.splits sum.splits)
  note 1 = 1 prefix [OF order_refl 1]
  from 2 [unfolded conjunct1 [OF 1(2)]] obtain event dg used where
    c: "checked_event A w spec m d E (ch_events c) n = Inr (event, dg)"
      "check_head disk n F n dg = (F', Inr ())" "note_instance (ch_used c) event = Inr used"
    and ch: "ch = \<lparr>ch_events = ch_events c @ [(event, dg)], ch_used = used\<rparr>"
    by (rule load_eventE)
  have dg: "dg = digest" by (simp add: digest head_of_def ch)
  have "event_name n \<in> set (dkeys F)" by (simp add: F_def dkeys_def)
  with c(2) show F': "F' = F" by (auto simp: check_head_def Let_def)
  have "check_head disk n H n dg = (F, Inr ())"
    using old(2) n(1) disk by (simp add: check_head_def atomic_write_no_clobber_def dset_new Let_def F_def dg)
  with c(1,3) ch have "load_event A w disk spec m d E n H c n = (F, Inr ch)" by (simp add: load_event_def)
  with 1(2) have run: "?run H n = (F, Inr ch)"
    unfolding j upto load_sequence_append by (simp del: upt_Suc)
  have "names_in_order spec E H" using names old(1) by (simp add: names_in_order_def Let_def)
  with run show "load_events A w disk spec m d E H = (F, Inr ch)"
    unfolding load_events_def n(1) [symmetric] by simp
qed

text \<open>
  C40: A head that was lost is restored. Take any directory whose chain the driver accepts, whether its last event is
  a pass, a failure, an interruption or a partial stage, and take away the head of the last event, as it is when a
  call is cut off between the two writes of an event. Then the next call does exactly what it does with both files in
  place: it leaves the same directory, with the head, and the same adapters behind and returns the same result.
\<close>

theorem lost_head_is_restored:
  assumes "folders_ok s" and "load_campaign_spec mf = Inr spec" and "events_of s \<noteq> []"
    and "contents (st_heads s)
       = H @ [(event_name n, Regular (serialize (head_record n (head_of (ch_events ch)))))]"
    and "n = length (events_of s)"
    and "load_events A w disk spec m (below dir ''slots'') (events_of s) (contents (st_heads s)) = (F, Inr ch)"
    and "disk (Head n) = Completes"
  shows "advance_qualification_campaign A disk m mf dir (s\<lparr>st_heads := Private_Folder H\<rparr>) w
       = advance_qualification_campaign A disk m mf dir s w"
proof -
  let ?d = "below dir ''slots''" and ?s = "s\<lparr>st_heads := Private_Folder H\<rparr>"
  have ok: "folders_ok ?s" using assms(1) by (simp add: folders_ok_def)
  note l = load_lost_head [OF assms(6) [unfolded assms(4)] assms(5,3) refl assms(7)]
  have "(opened ?s)\<lparr>st_heads := F'\<rparr> = (opened s)\<lparr>st_heads := F'\<rparr>" for F' by (simp add: opened_def)
  moreover have "load_events A w disk spec m ?d (contents (st_events (opened ?s))) (contents (st_heads (opened ?s)))
      = load_events A w disk spec m ?d (contents (st_events (opened s))) (contents (st_heads (opened s)))"
    using l assms(4,6) by (simp add: opened_def)
  ultimately show ?thesis
    unfolding advance_opened [OF ok assms(2)] advance_opened [OF assms(1,2)] advance_locked_def
    by (simp only:)
qed

end
