(* ===== verification/Decimal_Laws.thy ===== *)
theory Decimal_Laws
  imports Campaign_V2_Laws
begin

text \<open>
  The arithmetic of the gates: how far a rounded product is from the exact one, and what the 95th
  percentile of the driver is, by counting.
\<close>

section \<open>Rounding\<close>

lemma round_half_even_le: "of_int (round_half_even y) \<le> y + 1 / 2"
proof -
  have "of_int \<lfloor>y\<rfloor> \<le> y" by simp
  then show ?thesis
    unfolding round_half_even_def Let_def by (simp only: of_int_add of_int_1 split: if_split) linarith
qed

lemma ten_le_dec_digits: "0 < n \<Longrightarrow> 10 ^ (length (dec_digits n) - 1) \<le> n"
proof (induction n rule: dec_digits.induct)
  case (1 n)
  show ?case
  proof (cases "n < 10")
    case True
    with 1 show ?thesis by (simp add: dec_digits.simps)
  next
    case False
    then have "0 < n div 10" by simp
    with 1 False have IH: "10 ^ (length (dec_digits (n div 10)) - 1) \<le> n div 10" by simp
    have ne: "0 < length (dec_digits (n div 10))" by (subst dec_digits.simps) simp
    have "10 ^ length (dec_digits (n div 10)) = 10 * 10 ^ (length (dec_digits (n div 10)) - (1::nat))"
      using ne by (simp add: power_eq_if)
    also have "\<dots> \<le> 10 * (n div 10)" using IH by simp
    also have "\<dots> \<le> n" by simp
    finally show ?thesis using False by (subst dec_digits.simps) simp
  qed
qed

lemma dec_digits_less: "n < 10 ^ length (dec_digits n)"
proof (induction n rule: dec_digits.induct)
  case (1 n)
  show ?case
  proof (cases "n < 10")
    case False
    with 1 have "n div 10 < 10 ^ length (dec_digits (n div 10))" by simp
    then have "n < 10 * 10 ^ length (dec_digits (n div 10))" by linarith
    with False show ?thesis by (subst dec_digits.simps) simp
  qed (simp add: dec_digits_small)
qed

lemma first_place_le:
  assumes "0 < x"
  shows "power_int 10 (first_place x) \<le> x"
proof -
  obtain n d where q: "quotient_of x = (n, d)" by fastforce
  then have d: "0 < d" and x: "x = of_int n / of_int d"
    by (simp_all add: quotient_of_denom_pos quotient_of_div)
  with assms have n: "0 < n" by (simp add: zero_less_divide_iff)
  let ?a = "length (dec_digits (nat n))" and ?b = "length (dec_digits (nat d))"
  have a: "0 < ?a" by (subst dec_digits.simps) simp
  have "int (10 ^ (?a - 1)) \<le> n" using ten_le_dec_digits [of "nat n"] n by linarith
  then have "of_int (int (10 ^ (?a - 1))) \<le> (of_int n :: rat)" by (simp only: of_int_le_iff)
  then have top: "10 ^ (?a - 1) \<le> (of_int n :: rat)" by simp
  have "d \<le> int (10 ^ ?b)" using dec_digits_less [of "nat d"] d by linarith
  then have "of_int d \<le> (of_int (int (10 ^ ?b)) :: rat)" by (simp only: of_int_le_iff)
  then have bot: "of_int d \<le> (10 :: rat) ^ ?b" by simp
  have e: "int ?a - int ?b - 1 = int (?a - 1) - int ?b" using a by linarith
  have "power_int 10 (int ?a - int ?b - 1) = (10 :: rat) ^ (?a - 1) / 10 ^ ?b"
    unfolding e by (simp add: power_int_diff)
  also have "\<dots> \<le> of_int n / of_int d"
    using top bot d n by (intro frac_le) simp_all
  finally have low: "power_int 10 (int ?a - int ?b - 1) \<le> x" by (simp add: x)
  then show ?thesis by (simp add: first_place_def q Let_def)
qed

text \<open>Rounding to 28 places moves a positive number by at most one part in ten to the power of 27.\<close>

lemma dec28_le:
  assumes "0 < x"
  shows "dec28 x \<le> x * (1 + 1 / 10 ^ 27)"
proof -
  define e where "e = first_place x - 27"
  have pos: "0 < power_int (10 :: rat) e" by simp
  have "power_int (10 :: rat) e = power_int 10 (first_place x) / 10 ^ 27"
    by (simp add: e_def power_int_diff)
  then have small: "power_int 10 e \<le> x / 10 ^ 27" using first_place_le [OF assms] by (simp add: divide_right_mono)
  have "dec28 x = of_int (round_half_even (x / power_int 10 e)) * power_int 10 e"
    using assms by (simp add: dec28_def e_def Let_def)
  also have "\<dots> \<le> (x / power_int 10 e + 1 / 2) * power_int 10 e"
    using round_half_even_le pos by (intro mult_right_mono) simp_all
  also have "\<dots> = x + power_int 10 e / 2" using pos by (simp add: distrib_right)
  also have "\<dots> \<le> x + x / 10 ^ 27" using small pos by linarith
  finally show ?thesis by (simp add: distrib_left)
qed

section \<open>The percentile\<close>

text \<open>
  A value of the list is its 95th percentile when no more than 95 percent of the other places hold less, and
  more than that hold at most it.
\<close>

definition ranked95 :: "rat \<Rightarrow> rat list \<Rightarrow> bool" where
  "ranked95 x xs \<longleftrightarrow>
     x \<in> set xs \<and> 100 * length (filter (\<lambda>y. y < x) xs) \<le> 95 * (length xs - 1)
     \<and> 95 * (length xs - 1) < 100 * length (filter (\<lambda>y. y \<le> x) xs)"

lemma sorted_counts:
  assumes "sorted ys" "i < length ys"
  shows "length (filter (\<lambda>y. y < ys ! i) ys) \<le> i" "i < length (filter (\<lambda>y. y \<le> ys ! i) ys)"
proof -
  have ys: "ys = take i ys @ drop i ys" by simp
  have "filter (\<lambda>y. y < ys ! i) (drop i ys) = []"
    using assms by (auto simp: filter_empty_conv in_set_conv_nth sorted_iff_nth_mono not_less)
  then have "filter (\<lambda>y. y < ys ! i) ys = filter (\<lambda>y. y < ys ! i) (take i ys)"
    by (subst (2) ys) (simp only: filter_append append_Nil2)
  then show "length (filter (\<lambda>y. y < ys ! i) ys) \<le> i"
    using length_filter_le [of _ "take i ys"] assms(2) by (metis length_take min.absorb4 order_trans le_refl)
  have ys': "ys = take (Suc i) ys @ drop (Suc i) ys" by simp
  have "filter (\<lambda>y. y \<le> ys ! i) (take (Suc i) ys) = take (Suc i) ys"
    using assms by (auto simp: filter_id_conv in_set_conv_nth sorted_iff_nth_mono less_Suc_eq_le)
  then have "filter (\<lambda>y. y \<le> ys ! i) ys = take (Suc i) ys @ filter (\<lambda>y. y \<le> ys ! i) (drop (Suc i) ys)"
    by (subst (2) ys') (simp only: filter_append)
  then show "i < length (filter (\<lambda>y. y \<le> ys ! i) ys)" using assms(2) by simp
qed

lemma p95_ranked:
  assumes "p95 xs = Some x"
  shows "ranked95 x xs"
proof -
  define i where "i = (length xs - 1) * 95 div 100"
  from assms have ne: "xs \<noteq> []" and x: "x = sort xs ! i" by (auto simp: p95_def i_def split: if_splits)
  have i: "i < length (sort xs)" using ne by (cases xs) (simp_all add: i_def)
  have c: "length (filter P (sort xs)) = length (filter P xs)" for P
    by (metis mset_filter mset_sort size_mset)
  note counts = sorted_counts [OF sorted_sort i, folded x, unfolded c]
  have "100 * i \<le> 95 * (length xs - 1)" "95 * (length xs - 1) < 100 * Suc i"
    unfolding i_def by (simp_all add: mult.commute)
  moreover have "100 * length (filter (\<lambda>y. y < x) xs) \<le> 100 * i" using counts(1) by simp
  moreover have "100 * Suc i \<le> 100 * length (filter (\<lambda>y. y \<le> x) xs)" using counts(2) by simp
  moreover have "x \<in> set xs" using i x by (metis nth_mem set_sort)
  ultimately show ?thesis unfolding ranked95_def by (meson order_trans less_le_trans)
qed

end
