(* ===== verification/Campaign_Benefit.thy ===== *)
theory Campaign_Benefit
  imports Campaign_History Decimal_Laws
begin

text \<open>
  What a passed campaign has behind it: the ledgers that its events commit to by hash, the rows of the
  cohort in them, and the comparison of their wall times.
\<close>

section \<open>The cohort of one ledger\<close>

text \<open>A row joins the cohort by its family; what it has to say of its case.\<close>

definition counted :: "campaign_spec \<Rightarrow> jobject \<Rightarrow> bool" where
  "counted spec row \<longleftrightarrow> (\<exists>f\<in>set (cg_families spec). member (get row ''metadata'') ''agentic_family'' = JStr f)"

definition row_says :: "jobject \<Rightarrow> string \<times> string \<times> rat \<Rightarrow> bool" where
  "row_says row = (\<lambda>(case_id, family, wall).
     get row ''case_id'' = JStr case_id \<and> member (get row ''metadata'') ''agentic_family'' = JStr family
     \<and> get row ''passed'' = JBool True \<and> number_of (member (get row ''telemetry'') ''wall_s'') = Some wall \<and> 0 < wall)"

lemma benefit_row_step:
  assumes "benefit_row spec (ids, rows) line = Inr (ids', rows')"
  obtains row c where "unique_loads_text line = Inr (JObj row)" "c \<notin> set ids" "ids' = ids @ [c]"
    "if counted spec row then \<exists>f x. rows' = rows @ [(c, f, x)] \<and> row_says row (c, f, x) else rows' = rows"
proof -
  from assms obtain v where v: "line \<noteq> []" "unique_loads_text line = Inr v"
    by (auto simp: benefit_row_def bind_Inr_iff split: if_splits)
  with assms obtain row where row: "v = JObj row" by (cases v) (auto simp: benefit_row_def)
  with assms v obtain c f b x where f: "get row ''case_id'' = JStr c"
    "member (get row ''metadata'') ''agentic_family'' = JStr f" "get row ''passed'' = JBool b"
    "number_of (member (get row ''telemetry'') ''wall_s'') = Some x"
    by (auto simp: benefit_row_def split: json.splits option.splits)
  have step: "benefit_row spec (ids, rows) line =
      (if \<not> is_safe_id c \<or> c \<in> set ids \<or> \<not> is_safe_id f \<or> x \<le> 0 then Inl (ValueError ''scored row'')
       else if f \<notin> set (cg_families spec) then Inr (ids @ [c], rows)
       else if \<not> b then Inl (ValueError ''invalid policy outcome'')
       else Inr (ids @ [c], rows @ [(c, f, x)]))"
    using v by (simp add: benefit_row_def row f)
  have "counted spec row \<longleftrightarrow> f \<in> set (cg_families spec)" by (auto simp: counted_def f(2))
  with assms step f v row that [of row c] show thesis by (auto simp: row_says_def split: if_splits)
qed

lemma benefit_rows_read:
  assumes "run_steps (benefit_row spec) (ids, rows) lines = Inr (ids', rows')"
  shows "\<exists>read new. list_all2 (\<lambda>line row. unique_loads_text line = Inr (JObj row)) lines read
    \<and> rows' = rows @ new \<and> list_all2 row_says (filter (counted spec) read) new
    \<and> length ids' = length ids + length read
    \<and> (distinct ids \<longrightarrow> distinct (map fst new)) \<and> set ids \<inter> set (map fst new) = {}"
  using assms
proof (induction lines arbitrary: ids rows)
  case Nil
  then show ?case by (intro exI [of _ "[]"]) simp
next
  case (Cons line lines)
  then obtain ids1 rows1 where 1: "benefit_row spec (ids, rows) line = Inr (ids1, rows1)"
    "run_steps (benefit_row spec) (ids1, rows1) lines = Inr (ids', rows')"
    by (auto split: sum.splits)
  from 1(1) obtain row c where row: "unique_loads_text line = Inr (JObj row)" "c \<notin> set ids" "ids1 = ids @ [c]"
    "if counted spec row then \<exists>f x. rows1 = rows @ [(c, f, x)] \<and> row_says row (c, f, x) else rows1 = rows"
    by (rule benefit_row_step)
  from Cons.IH [OF 1(2)] obtain read new where IH:
    "list_all2 (\<lambda>line row. unique_loads_text line = Inr (JObj row)) lines read"
    "rows' = rows1 @ new" "list_all2 row_says (filter (counted spec) read) new"
    "length ids' = length ids1 + length read"
    "distinct ids1 \<longrightarrow> distinct (map fst new)" "set ids1 \<inter> set (map fst new) = {}" by blast
  show ?case
  proof (cases "counted spec row")
    case False
    with row IH show ?thesis by (intro exI [of _ "row # read"] exI [of _ new]) auto
  next
    case True
    with row(4) obtain f x where fx: "rows1 = rows @ [(c, f, x)]" "row_says row (c, f, x)" by auto
    with True row IH show ?thesis
      by (intro exI [of _ "row # read"] exI [of _ "(c, f, x) # new"]) auto
  qed
qed

text \<open>
  The cohort of a slot and an arm as an event backs it: the event commits to the outcome file by its hash, the
  outcome reports a pass and commits to the ledger by its hash, and the cohort is what the rows of the cohort's
  families say, each of them passed and timed, with the case identifiers of the manifest.
\<close>

definition backed_cohort ::
  "'w adapters \<Rightarrow> 'w \<Rightarrow> string \<Rightarrow> campaign_spec \<Rightarrow> event list \<Rightarrow> string \<Rightarrow> campaign_slot \<Rightarrow> cohort \<Rightarrow> bool" where
  "backed_cohort A w d spec es arm cs rows \<longleftrightarrow>
     (\<exists>event outcome ledger report text read.
        event \<in> set (map fst es) \<and> get event ''stage'' = JStr (''score-'' @ arm)
        \<and> py_eq (get event ''slot_ordinal'') (JInt (cs_ordinal cs))
        \<and> slot_file A w d cs (''scored-'' @ arm @ ''-runtime-outcome.json'') = Some outcome
        \<and> get event ''runtime_outcome_sha256'' = JStr (bytes_sha256 outcome)
        \<and> unique_loads outcome = Inr (JObj report)
        \<and> get report ''stage'' = JStr (''scored-'' @ arm) \<and> get report ''status'' = JStr ''passed''
        \<and> slot_file A w d cs (''scored-'' @ arm @ ''.jsonl'') = Some ledger
        \<and> get report ''output_ledger_sha256'' = JStr (bytes_sha256 ledger)
        \<and> decode_text ledger = Inr text
        \<and> list_all2 (\<lambda>line row. unique_loads_text line = Inr (JObj row)) (text_lines [] text) read
        \<and> list_all2 row_says (filter (counted spec) read) rows
        \<and> int (length read) = cg_scenarios spec \<and> int (length rows) = cg_case_count spec \<and> distinct (map fst rows)
        \<and> dumps_sha256 (JArr (map JStr (sort (map fst rows)))) = cg_case_ids spec)"

lemma event_at_Inr:
  assumes "event_at es cs stage = Inr event"
  shows "event \<in> set (map fst es)" "get event ''stage'' = JStr stage"
    "py_eq (get event ''slot_ordinal'') (JInt (cs_ordinal cs))"
proof -
  from assms obtain e where e: "find (\<lambda>e. py_eq (get (fst e) ''slot_ordinal'') (JInt (cs_ordinal cs))
      \<and> get (fst e) ''stage'' = JStr stage) (rev es) = Some e" "event = fst e"
    by (auto simp: event_at_def simp del: py_eq.simps split: option.splits)
  from e(1) show "event \<in> set (map fst es)" "get event ''stage'' = JStr stage"
    "py_eq (get event ''slot_ordinal'') (JInt (cs_ordinal cs))"
    by (auto simp: e(2) find_Some_iff simp del: py_eq.simps) (metis length_rev nth_mem set_rev image_eqI)
qed

lemma validate_outcome_Inr:
  assumes "validate_scored_ledger_outcome file expected ledger stage cs spec = Inr ()"
  obtains outcome report where "file = Some outcome" "expected = JStr (bytes_sha256 outcome)"
    "unique_loads outcome = Inr (JObj report)" "get report ''stage'' = JStr stage" "get report ''status'' = JStr ''passed''"
    "get report ''output_ledger_sha256'' = JStr (bytes_sha256 ledger)"
proof -
  from assms obtain outcome v where 1: "file = Some outcome" "unique_loads outcome = Inr v"
    by (auto simp: validate_scored_ledger_outcome_def accepted_simps)
  with assms obtain report where "v = JObj report"
    by (cases v) (auto simp: validate_scored_ledger_outcome_def accepted_simps)
  with 1 assms that [of outcome report] show thesis
    by (auto simp: validate_scored_ledger_outcome_def scored_ledger_outcome_def accepted_simps split: if_splits)
qed

lemma policy_benefit_rows_backed:
  assumes "event_at es cs (''score-'' @ arm) = Inr event"
    and "policy_benefit_rows (slot_file A w d cs (''scored-'' @ arm @ ''.jsonl''))
       (slot_file A w d cs (''scored-'' @ arm @ ''-runtime-outcome.json'')) (get event ''runtime_outcome_sha256'')
       (''scored-'' @ arm) cs spec = Inr rows"
  shows "backed_cohort A w d spec es arm cs rows"
proof -
  from assms(2) obtain ledger chars ids where 1: "slot_file A w d cs (''scored-'' @ arm @ ''.jsonl'') = Some ledger"
    "validate_scored_ledger_outcome (slot_file A w d cs (''scored-'' @ arm @ ''-runtime-outcome.json''))
       (get event ''runtime_outcome_sha256'') ledger (''scored-'' @ arm) cs spec = Inr ()"
    "decode_text ledger = Inr chars" "run_steps (benefit_row spec) ([], []) (text_lines [] chars) = Inr (ids, rows)"
    "int (length ids) = cg_scenarios spec" "int (length rows) = cg_case_count spec"
    "dumps_sha256 (JArr (map JStr (sort (dkeys rows)))) = cg_case_ids spec"
    by (auto simp: policy_benefit_rows_def accepted_simps split: if_splits)
  from 1(2) obtain outcome report where 2: "slot_file A w d cs (''scored-'' @ arm @ ''-runtime-outcome.json'') = Some outcome"
    "get event ''runtime_outcome_sha256'' = JStr (bytes_sha256 outcome)" "unique_loads outcome = Inr (JObj report)"
    "get report ''stage'' = JStr (''scored-'' @ arm)" "get report ''status'' = JStr ''passed''"
    "get report ''output_ledger_sha256'' = JStr (bytes_sha256 ledger)" by (rule validate_outcome_Inr)
  from benefit_rows_read [OF 1(4)] obtain read where 3:
    "list_all2 (\<lambda>line row. unique_loads_text line = Inr (JObj row)) (text_lines [] chars) read"
    "list_all2 row_says (filter (counted spec) read) rows" "length ids = length read" "distinct (map fst rows)"
    by auto
  show ?thesis
    unfolding backed_cohort_def
    using event_at_Inr [OF assms(1)] 1(1,3,5-7) 2 3 unfolding dkeys_def by metis
qed

section \<open>The cohorts of all slots\<close>

text \<open>The wall times of a list of cohorts, and that two cohorts are of the same cases and families.\<close>

definition walls :: "cohort list \<Rightarrow> rat list" where
  "walls cohorts = map (\<lambda>(c, f, x). x) (concat cohorts)"

definition matched :: "cohort \<Rightarrow> cohort \<Rightarrow> bool" where
  "matched ds ps \<longleftrightarrow> set (map (\<lambda>(c, f, x). (c, f)) ds) = set (map (\<lambda>(c, f, x). (c, f)) ps)"

lemma matchedI:
  fixes ds ps :: cohort
  assumes "set (dkeys ds) = set (dkeys ps)" "\<not> list_ex (\<lambda>k. map_option fst (dget ds k) \<noteq> map_option fst (dget ps k)) (dkeys ds)"
    and "distinct (map fst ds)" "distinct (map fst ps)"
  shows "matched ds ps"
proof -
  have get: "(c, f) \<in> set (map (\<lambda>(c, f, x). (c, f)) xs) \<longleftrightarrow> map_option fst (dget xs c) = Some f"
    if "distinct (map fst xs)" for xs :: cohort and c f
    using that by (force simp: dget_def)
  have same: "map_option fst (dget ds c) = map_option fst (dget ps c)" for c
  proof (cases "c \<in> set (dkeys ds)")
    case True
    with assms(2) show ?thesis by (auto simp: list_ex_iff)
  next
    case False
    moreover from False have "c \<notin> set (dkeys ps)" using assms(1) by simp
    ultimately show ?thesis by (simp add: dget_def dkeys_def flip: map_of_eq_None_iff)
  qed
  show ?thesis unfolding matched_def using get [OF assms(3)] get [OF assms(4)] same by (auto simp del: set_map)
qed

lemma slot_samples_backed:
  assumes "slot_samples A w d spec es (direct, proxy) cs = Inr (direct', proxy')"
  obtains ds ps where "direct' = direct @ walls [ds]" "proxy' = proxy @ walls [ps]"
    "backed_cohort A w d spec es ''direct'' cs ds" "backed_cohort A w d spec es ''proxy'' cs ps" "matched ds ps"
proof -
  have names: "stage_outcome_name ''score-direct'' = ''scored-'' @ ''direct'' @ ''-runtime-outcome.json''"
    "stage_outcome_name ''score-proxy'' = ''scored-'' @ ''proxy'' @ ''-runtime-outcome.json''"
    "''scored-direct.jsonl'' = ''scored-'' @ ''direct'' @ ''.jsonl''" "''scored-proxy.jsonl'' = ''scored-'' @ ''proxy'' @ ''.jsonl''"
    "''scored-direct'' = ''scored-'' @ ''direct''" "''scored-proxy'' = ''scored-'' @ ''proxy''"
    "''score-direct'' = ''score-'' @ ''direct''" "''score-proxy'' = ''score-'' @ ''proxy''"
    by code_simp+

  from assms obtain de pe ds ps where 1: "event_at es cs ''score-direct'' = Inr de" "event_at es cs ''score-proxy'' = Inr pe"
    "policy_benefit_rows (slot_file A w d cs ''scored-direct.jsonl'')
               (slot_file A w d cs (stage_outcome_name ''score-direct''))
               (get de ''runtime_outcome_sha256'') ''scored-direct'' cs spec = Inr ds"
    "policy_benefit_rows (slot_file A w d cs ''scored-proxy.jsonl'')
               (slot_file A w d cs (stage_outcome_name ''score-proxy''))
               (get pe ''runtime_outcome_sha256'') ''scored-proxy'' cs spec = Inr ps"
    unfolding slot_samples_def prod.case bind_Inr_iff by blast
  with assms have 2: "set (dkeys ds) = set (dkeys ps)"
    "\<not> list_ex (\<lambda>k. map_option fst (dget ds k) \<noteq> map_option fst (dget ps k)) (dkeys ds)"
    "direct' = direct @ map (\<lambda>kv. snd (snd kv)) ds" "proxy' = proxy @ map (\<lambda>kv. snd (snd kv)) ps"
    by (simp_all add: slot_samples_def split: if_splits)
  have b: "backed_cohort A w d spec es ''direct'' cs ds"
    by (rule policy_benefit_rows_backed [where arm = "''direct''", folded names(1,3,5,7), OF 1(1,3)])
  have p: "backed_cohort A w d spec es ''proxy'' cs ps"
    by (rule policy_benefit_rows_backed [where arm = "''proxy''", folded names(2,4,6,8), OF 1(2,4)])
  from b p have "distinct (map fst ds)" "distinct (map fst ps)" unfolding backed_cohort_def by blast+
  with b p 2 that [of ds ps] matchedI [OF 2(1,2)] show thesis by (simp add: walls_def case_prod_unfold)
qed

lemma walls_Nil: "walls [] = []"
  by (simp add: walls_def)

lemma walls_Cons: "walls (rows # cohorts) = walls [rows] @ walls cohorts"
  by (simp add: walls_def)

lemma in_walls: "x \<in> set (walls cohorts) \<Longrightarrow> \<exists>rows\<in>set cohorts. x \<in> set (walls [rows])"
proof (induction cohorts)
  case (Cons rows cohorts)
  then have "x \<in> set (walls [rows]) \<or> x \<in> set (walls cohorts)" by (metis UnE set_append walls_Cons)
  with Cons.IH show ?case by auto
qed (simp add: walls_Nil)

lemma all_samples_backed:
  assumes "run_steps (slot_samples A w d spec es) (direct, proxy) slots = Inr (direct', proxy')"
  shows "\<exists>dss pss. direct' = direct @ walls dss \<and> proxy' = proxy @ walls pss
    \<and> list_all2 (backed_cohort A w d spec es ''direct'') slots dss
    \<and> list_all2 (backed_cohort A w d spec es ''proxy'') slots pss \<and> list_all2 matched dss pss"
  using assms
proof (induction slots arbitrary: direct proxy)
  case Nil
  then show ?case by (intro exI [of _ "[]"]) (simp add: walls_Nil)
next
  case (Cons cs slots)
  then obtain direct1 proxy1 where 1: "slot_samples A w d spec es (direct, proxy) cs = Inr (direct1, proxy1)"
    "run_steps (slot_samples A w d spec es) (direct1, proxy1) slots = Inr (direct', proxy')"
    by (auto split: sum.splits)
  from 1(1) obtain ds ps where s: "direct1 = direct @ walls [ds]" "proxy1 = proxy @ walls [ps]"
    "backed_cohort A w d spec es ''direct'' cs ds" "backed_cohort A w d spec es ''proxy'' cs ps" "matched ds ps"
    by (rule slot_samples_backed)
  from Cons.IH [OF 1(2)] obtain dss pss where IH: "direct' = direct1 @ walls dss" "proxy' = proxy1 @ walls pss"
    "list_all2 (backed_cohort A w d spec es ''direct'') slots dss"
    "list_all2 (backed_cohort A w d spec es ''proxy'') slots pss" "list_all2 matched dss pss" by blast
  with s show ?case using walls_Cons [of ds dss] walls_Cons [of ps pss] by (intro exI [of _ "ds # dss"] exI [of _ "ps # pss"]) simp
qed

text \<open>The gate: the percentiles of both arms and how they compare.\<close>

lemma backed_positive:
  assumes "backed_cohort A w d spec es arm cs rows" "x \<in> set (walls [rows])"
  shows "0 < x"
proof -
  from assms(1) obtain read where "list_all2 row_says (filter (counted spec) read) rows"
    unfolding backed_cohort_def by blast
  then have "\<forall>r\<in>set rows. \<exists>row. row_says row r"
    by (metis in_set_conv_nth list_all2_conv_all_nth)
  with assms(2) show ?thesis by (fastforce simp: walls_def row_says_def)
qed

lemma benefit_gate_ranked:
  assumes "benefit_samples A w d spec es = Inr (direct, proxy)" "benefit_reached direct proxy"
  obtains dss pss x y where "list_all2 (backed_cohort A w d spec es ''direct'') (cg_slots spec) dss"
    "list_all2 (backed_cohort A w d spec es ''proxy'') (cg_slots spec) pss" "list_all2 matched dss pss"
    "ranked95 x (walls dss)" "ranked95 y (walls pss)" "y \<le> 80 / 100 * x * (1 + 1 / 10 ^ 27)"
proof -
  from assms(1) have run: "run_steps (slot_samples A w d spec es) ([], []) (cg_slots spec) = Inr (direct, proxy)"
    and ne: "direct \<noteq> []" "proxy \<noteq> []"
    by (auto simp: benefit_samples_def bind_Inr_iff Let_def split: if_splits)
  from all_samples_backed [OF run] obtain dss pss where b: "direct = walls dss" "proxy = walls pss"
    "list_all2 (backed_cohort A w d spec es ''direct'') (cg_slots spec) dss"
    "list_all2 (backed_cohort A w d spec es ''proxy'') (cg_slots spec) pss" "list_all2 matched dss pss" by auto
  from ne obtain x y where xy: "p95 direct = Some x" "p95 proxy = Some y" by (auto simp: p95_def)
  note r = p95_ranked [OF xy(1)] p95_ranked [OF xy(2)]
  have "0 < x"
  proof -
    from r(1) obtain rows where rows: "rows \<in> set dss" "x \<in> set (walls [rows])"
      unfolding ranked95_def b(1) using in_walls by blast
    from rows(1) b(3) obtain cs where "backed_cohort A w d spec es ''direct'' cs rows"
      by (metis in_set_conv_nth list_all2_conv_all_nth)
    from backed_positive [OF this rows(2)] show ?thesis .
  qed
  then have "0 < x * (80 / 100)" by simp
  from dec28_le [OF this] assms(2) xy have "y \<le> 80 / 100 * x * (1 + 1 / 10 ^ 27)"
    by (simp add: benefit_reached_def ninety_fifth_def ac_simps)
  with b r that show thesis by blast
qed

text \<open>
  C37: A campaign is reported passed only when it is earned. If a call on a campaign that began in an empty directory
  reports a pass, then the directory holds exactly thirteen events, every one of them records a pass, and their model
  instances are pairwise distinct. For each of the six slots and each arm, an event of that slot and stage carries the
  SHA-256 of the outcome file, the outcome reports a pass and carries the SHA-256 of the ledger, and every row of the
  cohort in the ledger passed; both arms have the same cases. And the gate holds of the wall times in those rows,
  counted: the 95th percentile of the proxy is at most 80 percent of the direct one, up to the rounding of the decimal
  arithmetic to 28 digits.
\<close>

theorem passed_campaign_is_earned:
  assumes "history A env m mf dir (s0, w0) (s, w)" and "events_of s0 = []"
    and "advance_qualification_campaign A disk m mf dir s w = (s', w', Inr v)" and "av_kind v = ''campaign_passed''"
  shows "\<exists>spec es instances direct proxy x y. load_campaign_spec mf = Inr spec \<and> cg_version spec = ''v1''
    \<and> length (cg_slots spec) = 6 \<and> length (events_of s') = 13 \<and> length es = 13 \<and> length instances = 13
    \<and> (\<forall>n. 1 \<le> n \<and> n \<le> 13 \<longrightarrow> file_status (events_of s') n = JStr ''passed'')
    \<and> (\<forall>i<13. \<exists>e. event_file (events_of s') (Suc i) = Some e \<and> canon (JObj (fst (es ! i))) = JObj e)
    \<and> (\<forall>i<13. get (fst (es ! i)) ''model_runtime_instance_sha256'' = JStr (instances ! i)) \<and> distinct instances
    \<and> list_all2 (backed_cohort A w' (below dir ''slots'') spec es ''direct'') (cg_slots spec) direct
    \<and> list_all2 (backed_cohort A w' (below dir ''slots'') spec es ''proxy'') (cg_slots spec) proxy
    \<and> list_all2 matched direct proxy
    \<and> ranked95 x (walls direct) \<and> ranked95 y (walls proxy) \<and> y \<le> 80 / 100 * x * (1 + 1 / 10 ^ 27)"
proof -
  from passed_campaign_chain [OF assms] obtain spec es instances direct proxy where
    c: "load_campaign_spec mf = Inr spec" "cg_version spec = ''v1''"
      "length (events_of s') = 13" "length es = 13" "length instances = 13"
      "\<forall>n. 1 \<le> n \<and> n \<le> 13 \<longrightarrow> file_status (events_of s') n = JStr ''passed''"
      "\<forall>i<13. \<exists>e. event_file (events_of s') (Suc i) = Some e \<and> canon (JObj (fst (es ! i))) = JObj e"
      "\<forall>i<13. get (fst (es ! i)) ''model_runtime_instance_sha256'' = JStr (instances ! i)" "distinct instances"
    and gate: "benefit_samples A w' (below dir ''slots'') spec es = Inr (direct, proxy)" "benefit_reached direct proxy"
    by blast
  have "event_count spec = Suc (2 * length (cg_slots spec))"
    using load_campaign_spec_well_formed [OF c(1)] unfolding well_formed_spec_def by blast
  with c(2) have "length (cg_slots spec) = 6" by (simp add: event_count_def)
  moreover obtain dss pss x y where "list_all2 (backed_cohort A w' (below dir ''slots'') spec es ''direct'') (cg_slots spec) dss"
    "list_all2 (backed_cohort A w' (below dir ''slots'') spec es ''proxy'') (cg_slots spec) pss" "list_all2 matched dss pss"
    "ranked95 x (walls dss)" "ranked95 y (walls pss)" "y \<le> 80 / 100 * x * (1 + 1 / 10 ^ 27)"
    by (rule benefit_gate_ranked [OF gate])
  ultimately show ?thesis using c by blast
qed

end
