(* ===== verification/Campaign_Manifest.thy ===== *)
theory Campaign_Manifest
  imports Campaign_Laws
begin

text \<open>
  What a manifest that loads promises, written out: the slots of each version, the stages of every slot, the
  commitments and the cohort.
\<close>

section \<open>The frozen order\<close>

definition frozen_slots :: "string \<Rightarrow> position list" where
  "frozen_slots version =
     (if version = ''v1''
      then [(1, ''cold'', 1), (2, ''cold'', 2), (3, ''cold'', 3),
            (4, ''warm-prefix'', 1), (5, ''warm-prefix'', 2), (6, ''warm-prefix'', 3)]
      else [(1, ''cold'', 1), (2, ''cold'', 2), (3, ''cold'', 3), (4, ''cold'', 4),
            (5, ''warm-prefix'', 1), (6, ''warm-prefix'', 2), (7, ''warm-prefix'', 3), (8, ''warm-prefix'', 4)])"

text \<open>The slot and the stage that the driver takes at a number, if it takes any.\<close>

definition planned :: "campaign_spec \<Rightarrow> string \<Rightarrow> string \<Rightarrow> nat \<Rightarrow> (position \<times> string) option" where
  "planned spec m d n =
     (case stage_request spec m d n of
        Inl e \<Rightarrow> None | Inr q \<Rightarrow> Some (public_position (sq_slot q), sq_stage q))"

lemma planned_stages:
  "planned spec m d 1 = Some (public_position (cg_preflight spec), ''preflight'')"
  "2 * k + 3 \<le> event_count spec \<Longrightarrow> planned spec m d (2 * k + 2) = Some (public_position (cg_slots spec ! k), ''score-direct'')"
  "2 * k + 3 \<le> event_count spec \<Longrightarrow> planned spec m d (2 * k + 3) = Some (public_position (cg_slots spec ! k), ''score-proxy'')"
  "n = 0 \<or> event_count spec < n \<Longrightarrow> planned spec m d n = None"
proof -
  have many: "2 < event_count spec" by (simp add: event_count_def)
  show "planned spec m d 1 = Some (public_position (cg_preflight spec), ''preflight'')"
    by (simp add: planned_def stage_request_def Let_def)
  have k: "(2 * k + 2 - 2) div 2 = k" "(2 * k + 3 - 2) div 2 = k" "(2 * k + 2 - 2) mod 2 = 0" "(2 * k + 3 - 2) mod 2 = 1"
    by simp_all
  show "2 * k + 3 \<le> event_count spec \<Longrightarrow> planned spec m d (2 * k + 2) = Some (public_position (cg_slots spec ! k), ''score-direct'')"
    unfolding planned_def stage_request_def Let_def k by simp
  show "2 * k + 3 \<le> event_count spec \<Longrightarrow> planned spec m d (2 * k + 3) = Some (public_position (cg_slots spec ! k), ''score-proxy'')"
    unfolding planned_def stage_request_def Let_def k by simp
  show "n = 0 \<or> event_count spec < n \<Longrightarrow> planned spec m d n = None"
    using many by (auto simp: planned_def stage_request_def refuse_as_def)
qed

lemma zipped_positions: "map public_position ss = zip (map cs_ordinal ss) (map (\<lambda>s. (cs_lane s, cs_pair s)) ss)"
  by (induction ss) (simp_all add: public_position_def)

lemma frozen_zip:
  "zip (map int [1..<Suc 6]) (expected_pairs ''v1'') = frozen_slots ''v1''"
  "zip (map int [1..<Suc 8]) (expected_pairs ''v2'') = frozen_slots ''v2''"
  by code_simp+

lemma slots_in_order:
  assumes "well_formed_spec spec"
  shows "map public_position (cg_slots spec) = frozen_slots (cg_version spec)"
proof -
  have "cg_version spec = ''v1'' \<or> cg_version spec = ''v2''"
    and ord: "map cs_ordinal (cg_slots spec) = map int [1..<Suc (length (cg_slots spec))]"
    and pairs: "map (\<lambda>s. (cs_lane s, cs_pair s)) (cg_slots spec) = expected_pairs (cg_version spec)"
    and n: "event_count spec = Suc (2 * length (cg_slots spec))"
    using assms unfolding well_formed_spec_def by blast+
  then show ?thesis
  proof (elim disjE)
    assume v: "cg_version spec = ''v1''"
    with n have "length (cg_slots spec) = 6" by (simp add: event_count_def)
    then show ?thesis unfolding zipped_positions ord pairs v by (simp only: frozen_zip)
  next
    assume v: "cg_version spec = ''v2''"
    with n have "length (cg_slots spec) = 8" by (simp add: event_count_def)
    then show ?thesis unfolding zipped_positions ord pairs v by (simp only: frozen_zip)
  qed
qed

text \<open>The hash of the case identifiers and the families of the cohort.\<close>

lemma cohort_families:
  assumes "cohort_manifest c"
  shows "sha256_value (get c ''policy_benefit_case_ids_sha256'')"
    "\<exists>fs. get c ''policy_benefit_families'' = JArr fs \<and> list_all safe_id_value fs"
proof -
  show "sha256_value (get c ''policy_benefit_case_ids_sha256'')"
    using assms unfolding cohort_manifest_def by (rule conjunct2 [THEN conjunct2])
  have "case get c ''policy_benefit_families'' of
      JArr families \<Rightarrow> families \<noteq> [] \<and> list_all safe_id_value families \<and> distinct families | _ \<Rightarrow> False"
    using assms unfolding cohort_manifest_def by (rule conjunct1)
  then show "\<exists>fs. get c ''policy_benefit_families'' = JArr fs \<and> list_all safe_id_value fs"
    by (cases "get c ''policy_benefit_families''") simp_all
qed

lemma loaded_cohort:
  assumes "load_campaign_spec file = Inr spec" "cg_version spec = ''v1''"
  shows "is_sha256 (cg_case_ids spec) \<and> list_all is_safe_id (cg_families spec)"
proof (rule load_campaign_specE [OF assms(1)])
  fix bs document c version slots
  assume c: "version = ''v1'' \<longrightarrow> cohort_manifest c"
    and spec: "spec = spec_of bs version c (member (member document ''qualification_runtime'') ''benchmark'') slots"
  have "cg_version spec = version" by (simp add: spec spec_of_def Let_def)
  with c assms(2) have cohort: "cohort_manifest c" by blast
  note h = cohort_families [OF this]
  from h(2) obtain fs where fs: "get c ''policy_benefit_families'' = JArr fs" "list_all safe_id_value fs" by blast
  have "is_sha256 (cg_case_ids spec)"
    using h(1) by (elim sha256_valueE) (simp add: spec spec_of_def Let_def)
  moreover have "\<forall>v\<in>set fs. is_safe_id (text_of v)"
    using fs(2) by (metis list_all_iff safe_id_valueE text_of.simps(1))
  then have "list_all is_safe_id (cg_families spec)"
    by (simp add: spec spec_of_def Let_def fs(1) list_all_iff)
  ultimately show ?thesis by blast
qed

lemma loaded_ordinals:
  assumes "load_campaign_spec file = Inr spec" "cg_version spec = ''v2''"
  shows "cg_critical spec = [29, 30]"
proof (rule load_campaign_specE [OF assms(1)])
  fix bs document c version slots
  assume spec: "spec = spec_of bs version c (member (member document ''qualification_runtime'') ''benchmark'') slots"
  with assms(2) show ?thesis by (simp add: spec_of_def Let_def CRITICAL_SCENARIO_ORDINALS_def)
qed


end
