(* ===== verification/Campaign_Sample.thy ===== *)
theory Campaign_Sample
  imports Campaign_Heads Campaign_Benefit Campaign_Manifest
begin

text \<open>
  A concrete campaign of version 1 that runs to its end and passes, and what the properties of the
  campaign driver say of it.
\<close>

section \<open>A manifest\<close>

text \<open>The smallest campaign of version 1: one scenario, which is the whole cohort.\<close>

definition sample_cases :: string where
  "sample_cases = dumps_sha256 (JArr [JStr ''case-1''])"

definition sample_slot :: "string \<Rightarrow> int \<Rightarrow> string \<Rightarrow> json" where
  "sample_slot lane pair run = JObj [(''cache_lane'', JStr lane), (''pair_index'', JInt pair), (''run_id'', JStr run)]"

definition sample_campaign :: "string \<Rightarrow> jobject" where
  "sample_campaign h =
     [(''campaign_id'', JStr ''sample''), (''failure_policy'', JStr ''terminal-no-rerun''),
      (''model_instance_policy'', JStr ''fresh-per-scored-treatment''),
      (''policy_benefit_case_count'', JInt 1), (''policy_benefit_case_ids_sha256'', JStr h),
      (''policy_benefit_families'', JArr [JStr ''tools'']),
      (''slots'', JArr [sample_slot ''cold'' 1 ''run-1'', sample_slot ''cold'' 2 ''run-2'', sample_slot ''cold'' 3 ''run-3'',
         sample_slot ''warm-prefix'' 1 ''run-4'', sample_slot ''warm-prefix'' 2 ''run-5'', sample_slot ''warm-prefix'' 3 ''run-6'']),
      (''stage_order'', JArr (map JStr STAGES)), (''treatment_order'', JArr [JStr ''direct'', JStr ''proxy''])]"

definition sample_manifest :: "string \<Rightarrow> jobject" where
  "sample_manifest h =
     [(''qualification_runtime'', JObj
        [(''benchmark'', JObj [(''scenario_count'', JInt 1), (''scenario_order_sha256'', JStr h)]),
         (''campaign'', JObj (sample_campaign h))])]"

definition sample_bytes :: bytes where
  "sample_bytes = serialize (sample_manifest sample_cases)"

definition sample_slots :: "campaign_slot list" where
  "sample_slots = map (\<lambda>(k, lane, pair, run). \<lparr>cs_ordinal = k, cs_lane = lane, cs_pair = pair, cs_run = run\<rparr>)
     [(1, ''cold'', 1, ''run-1''), (2, ''cold'', 2, ''run-2''), (3, ''cold'', 3, ''run-3''),
      (4, ''warm-prefix'', 1, ''run-4''), (5, ''warm-prefix'', 2, ''run-5''), (6, ''warm-prefix'', 3, ''run-6'')]"

definition sample_preflight :: campaign_slot where
  "sample_preflight = \<lparr>cs_ordinal = 0, cs_lane = ''preflight'', cs_pair = 0, cs_run = ''sample-preflight''\<rparr>"

definition sample_spec :: campaign_spec where
  "sample_spec =
     \<lparr>cg_manifest = bytes_sha256 sample_bytes, cg_campaign = sha256_hex ''sample'', cg_preflight = sample_preflight,
      cg_slots = sample_slots, cg_families = [''tools''], cg_case_count = 1, cg_case_ids = sample_cases,
      cg_scenarios = 1, cg_order = sample_cases, cg_version = ''v1'', cg_critical = [], cg_deadline = None\<rparr>"

lemma sample_cases_hash: "is_sha256 sample_cases"
  by (simp add: sample_cases_def dumps_sha256_def sha256_hex_value)

lemma small_digits: "dec_digits (Suc 0) = ''1''" "dec_digits 2 = ''2''" "dec_digits 3 = ''3''"
  by code_simp+

lemma sample_manifest_ok:
  "json_ok True (JObj (sample_manifest h))" "canon (JObj (sample_manifest h)) = JObj (sample_manifest h)"
  by (simp_all add: sample_manifest_def sample_campaign_def sample_slot_def STAGES_def int_digit_limit_def small_digits)

lemma sample_manifest_size:
  assumes "is_sha256 h"
  shows "length (serialize (sample_manifest h)) \<le> METADATA_FILE_MAX_BYTES"
proof -
  from assms have "text_bound (JObj (sample_manifest h)) \<le> 100000"
    by (simp add: sample_manifest_def sample_campaign_def sample_slot_def STAGES_def is_sha256_length small_digits)
  with length_serialize [of "sample_manifest h"] show ?thesis by (simp add: METADATA_FILE_MAX_BYTES_def)
qed

lemma sample_loads: "unique_loads sample_bytes = Inr (JObj (sample_manifest sample_cases))"
  unfolding sample_bytes_def unique_loads_serialize [OF sample_manifest_ok(1)] sample_manifest_ok(2) ..

lemma sample_gets:
  "get (sample_campaign h) ''campaign_id'' = JStr ''sample''"
  "get (sample_campaign h) ''failure_policy'' = JStr ''terminal-no-rerun''"
  "get (sample_campaign h) ''model_instance_policy'' = JStr ''fresh-per-scored-treatment''"
  "get (sample_campaign h) ''policy_benefit_case_count'' = JInt 1"
  "get (sample_campaign h) ''policy_benefit_case_ids_sha256'' = JStr h"
  "get (sample_campaign h) ''policy_benefit_families'' = JArr [JStr ''tools'']"
  "get (sample_campaign h) ''stage_order'' = JArr (map JStr STAGES)"
  "get (sample_campaign h) ''treatment_order'' = JArr [JStr ''direct'', JStr ''proxy'']"
  "get (sample_campaign h) ''slots'' = JArr [sample_slot ''cold'' 1 ''run-1'', sample_slot ''cold'' 2 ''run-2'',
     sample_slot ''cold'' 3 ''run-3'', sample_slot ''warm-prefix'' 1 ''run-4'', sample_slot ''warm-prefix'' 2 ''run-5'',
     sample_slot ''warm-prefix'' 3 ''run-6'']"
  unfolding sample_campaign_def by (simp_all only: get_Cons list.inject char.inject simp_thms if_True if_False list.distinct)

lemma sample_names:
  "is_safe_id ''sample''" "is_safe_id ''tools''" "is_safe_id ''case-1''" "list_all is_safe_id
     [''run-1'', ''run-2'', ''run-3'', ''run-4'', ''run-5'', ''run-6'']"
  by code_simp+

lemma sample_slots_load:
  "load_slots 1 [] (zip (items_of (get (sample_campaign h) ''slots'')) (expected_pairs ''v1'')) = Some sample_slots"
  using sample_names(4)
  by (simp add: sample_gets expected_pairs_def sample_slot_def sample_slots_def get_Cons keys_are_def dkeys_def Let_def)

abbreviation sample_benchmark :: json where
  "sample_benchmark \<equiv> JObj [(''scenario_count'', JInt 1), (''scenario_order_sha256'', JStr sample_cases)]"

lemma sample_benchmark_gets:
  "member sample_benchmark ''scenario_count'' = JInt 1" "member sample_benchmark ''scenario_order_sha256'' = JStr sample_cases"
  by (simp_all add: member_def get_Cons)

lemma sample_members:
  "member (member (JObj (sample_manifest sample_cases)) ''qualification_runtime'') ''campaign'' = JObj (sample_campaign sample_cases)"
  "member (member (JObj (sample_manifest sample_cases)) ''qualification_runtime'') ''benchmark'' = sample_benchmark"
  by (simp_all add: sample_manifest_def member_def get_Cons)

lemma sample_common: "common_manifest ''v1'' (sample_campaign sample_cases) sample_benchmark"
  unfolding common_manifest_def sample_gets sample_benchmark_gets
  using sample_names sample_cases_hash by (simp add: safe_id_value_def sha256_value_def)

lemma sample_cohort: "cohort_manifest (sample_campaign sample_cases)"
  unfolding cohort_manifest_def sample_gets
  using sample_names sample_cases_hash by (simp add: safe_id_value_def sha256_value_def)

lemma sample_version: "campaign_version_of (sample_campaign h) = Some ''v1''"
proof -
  have "dkeys (sample_campaign h) = [''campaign_id'', ''failure_policy'', ''model_instance_policy'', ''policy_benefit_case_count'',
      ''policy_benefit_case_ids_sha256'', ''policy_benefit_families'', ''slots'', ''stage_order'', ''treatment_order'']"
    by (simp add: sample_campaign_def dkeys_def)
  moreover have "set \<dots> = set V1_KEYS" by code_simp
  ultimately show ?thesis by (simp only: campaign_version_of_def keys_are_def simp_thms if_True)
qed

lemma sample_spec_of: "spec_of sample_bytes ''v1'' (sample_campaign sample_cases) sample_benchmark sample_slots = sample_spec"
  by (simp add: sample_spec_def spec_of_def sample_gets sample_benchmark_gets sample_preflight_def Let_def)

lemma sample_spec_loads: "load_campaign_spec (Some sample_bytes) = Inr sample_spec"
proof -
  have size: "length sample_bytes \<le> METADATA_FILE_MAX_BYTES"
    unfolding sample_bytes_def by (rule sample_manifest_size [OF sample_cases_hash])
  then have read: "read_regular_file METADATA_FILE_MAX_BYTES (Some sample_bytes) = Inr sample_bytes"
    by (simp add: read_regular_file_def)
  show ?thesis
    by (simp only: load_campaign_spec_def read sample_loads sum.case caught_as_def bind_simps prod.case Let_def sample_members
        sample_version sample_common sample_cohort sample_slots_load sample_spec_of json.case option.case simp_thms if_True if_False) simp
qed


section \<open>Stages and files\<close>

text \<open>The slot and the name of a stage, counted from 0.\<close>

definition sample_stage :: "nat \<Rightarrow> campaign_slot \<times> string" where
  "sample_stage n =
     (if n = 0 then (sample_preflight, ''preflight'')
      else (sample_slots ! ((n - 1) div 2), if (n - 1) mod 2 = 0 then ''score-direct'' else ''score-proxy''))"

abbreviation sample_dir :: string where "sample_dir \<equiv> below ''campaign'' ''slots''"

definition sample_path :: "nat \<Rightarrow> string \<Rightarrow> string" where
  "sample_path n name = below (below sample_dir (slot_directory_name (fst (sample_stage n)))) name"

definition ledger_name :: "string \<Rightarrow> string" where
  "ledger_name stage = (if stage = ''score-direct'' then ''scored-direct.jsonl'' else ''scored-proxy.jsonl'')"

definition sample_request :: "nat \<Rightarrow> campaign_request" where
  "sample_request n =
     \<lparr>sq_manifest = ''manifest'', sq_manifest_hash = cg_manifest sample_spec, sq_sequence = Suc n,
      sq_slot = fst (sample_stage n), sq_stage = snd (sample_stage n),
      sq_dir = below sample_dir (slot_directory_name (fst (sample_stage n))),
      sq_outcome = sample_path n (stage_outcome_name (snd (sample_stage n)))\<rparr>"

text \<open>The ledgers: in every slot the one case takes two seconds directly and one through the proxy.\<close>

definition sample_row :: "string \<Rightarrow> string" where
  "sample_row wall = ''{\"case_id\":\"case-1\",\"metadata\":{\"agentic_family\":\"tools\"},\"passed\":true,\"telemetry\":{\"wall_s\":''
     @ wall @ ''}}''"

definition sample_ledger :: "string \<Rightarrow> bytes" where
  "sample_ledger stage = utf8 (sample_row (if stage = ''score-direct'' then ''2'' else ''1'') @ [CHR 0x0A])"

definition scored_name :: "string \<Rightarrow> string" where
  "scored_name stage = (if stage = ''score-direct'' then ''scored-direct'' else ''scored-proxy'')"

definition sample_outcome :: "nat \<Rightarrow> jobject" where
  "sample_outcome n = (let slot = fst (sample_stage n); stage = snd (sample_stage n) in
     [(''action_exit_code'', JInt 0), (''attestation_sha256'', JNull), (''cache_lane'', JStr (cs_lane slot)),
      (''campaign_id_sha256'', JStr (cg_campaign sample_spec)), (''failure_category'', JNull),
      (''model_evidence_sha256'', JNull), (''output_ledger_sha256'', JStr (bytes_sha256 (sample_ledger stage))),
      (''output_record_count'', JInt 1), (''pair_index'', JInt (cs_pair slot)), (''proxy_reconciliation_sha256'', JNull),
      (''record_type'', JStr ''qualification_runtime_outcome''), (''run_manifest_sha256'', JNull),
      (''schema_version'', JStr ''1.0''), (''slot_ordinal'', JInt (cs_ordinal slot)),
      (''stage'', JStr (scored_name stage)), (''status'', JStr ''passed'')])"

definition sample_paths :: "(string \<times> nat \<times> bool) list" where
  "sample_paths =
     map (\<lambda>n. (sample_path n (stage_outcome_name (snd (sample_stage n))), n, True)) [0..<13]
     @ map (\<lambda>n. (sample_path n (ledger_name (snd (sample_stage n))), n, False)) [1..<13]"

definition sample_content :: "nat \<times> bool \<Rightarrow> bytes" where
  "sample_content = (\<lambda>(n, is_outcome). if is_outcome then serialize (sample_outcome n) else sample_ledger (snd (sample_stage n)))"

definition sample_file :: "string \<Rightarrow> bytes option" where
  "sample_file path = map_option sample_content (map_of sample_paths path)"

section \<open>The runner\<close>

text \<open>The state of the runner is the number of stages it has run.\<close>

definition sample_hash :: "nat \<Rightarrow> string" where
  "sample_hash n = replicate 63 (CHR ''0'') @ [''0123456789abc'' ! n]"

definition sample_result :: "nat \<Rightarrow> stage_result" where
  "sample_result n =
     \<lparr>sr_status = ''passed'', sr_failure = None, sr_path = sq_outcome (sample_request n),
      sr_outcome = bytes_sha256 (serialize (sample_outcome n)), sr_instance = Some (sample_hash n),
      sr_reconciliation = (if snd (sample_stage n) = ''score-proxy'' then Some (sample_hash 0) else None),
      sr_identity = Some (sample_hash 0)\<rparr>"

definition sample_adapters :: "nat adapters" where
  "sample_adapters =
     \<lparr>ad_inspect = \<lambda>w q. Answers (if sq_sequence q \<le> w
         then \<lparr>si_state = ''complete'', si_result = Some (sample_result (sq_sequence q - 1))\<rparr>
         else \<lparr>si_state = ''absent'', si_result = None\<rparr>),
      ad_probe = \<lambda>w q. Answers \<lparr>rr_state = ''ready'', rr_instance = Some (sample_hash w)\<rparr>,
      ad_prepare = \<lambda>w d. Some w,
      ad_run = \<lambda>w q. (max w (sq_sequence q), Answers (sample_result (sq_sequence q - 1))),
      ad_file = \<lambda>w. sample_file\<rparr>"

definition sample_store :: store where
  "sample_store = \<lparr>st_private = True, st_lock = True, st_events = No_Place, st_heads = No_Place, st_slots = No_Place,
     st_files = []\<rparr>"

lemma sample_stage_request:
  "n < 13 \<Longrightarrow> stage_request sample_spec ''manifest'' sample_dir (Suc n) = Inr (sample_request n)"
  by (cases n) (simp_all add: stage_request_def sample_request_def sample_stage_def sample_path_def sample_spec_def
      event_count_def stage_outcome_name_def Let_def)

lemma sample_paths_distinct: "distinct (map fst sample_paths)"
  by code_simp

lemma sample_files:
  "n < 13 \<Longrightarrow> sample_file (sq_outcome (sample_request n)) = Some (serialize (sample_outcome n))"
  "1 \<le> n \<Longrightarrow> n < 13 \<Longrightarrow> sample_file (sample_path n (ledger_name (snd (sample_stage n)))) = Some (sample_ledger (snd (sample_stage n)))"
proof -
  assume n: "n < 13"
  have "(sample_path n (stage_outcome_name (snd (sample_stage n))), n, True) \<in> set sample_paths"
    using n by (simp add: sample_paths_def image_iff del: upt_Suc)
  from map_of_is_SomeI [OF sample_paths_distinct this]
  show "sample_file (sq_outcome (sample_request n)) = Some (serialize (sample_outcome n))"
    by (simp add: sample_file_def sample_content_def sample_request_def)
next
  assume n: "1 \<le> n" "n < 13"
  then have "(sample_path n (ledger_name (snd (sample_stage n))), n, False) \<in> set sample_paths"
    unfolding sample_paths_def set_append by (intro UnI2) (simp add: image_iff del: upt_Suc)
  from map_of_is_SomeI [OF sample_paths_distinct this]
  show "sample_file (sample_path n (ledger_name (snd (sample_stage n)))) = Some (sample_ledger (snd (sample_stage n)))"
    by (simp add: sample_file_def sample_content_def)
qed

lemma sample_instances: "distinct (instances sample_result 13)"
proof -
  have "instances sample_result 13 = map sample_hash [0..<13]" by (simp add: instances_def sample_result_def)
  moreover have "distinct (map sample_hash [0..<13])" by code_simp
  ultimately show ?thesis by simp
qed

lemma sample_hash_ok: "n < 13 \<Longrightarrow> is_sha256 (sample_hash n)"
proof -
  have "list_all is_sha256 (map sample_hash [0..<13])" by code_simp
  then show "n < 13 \<Longrightarrow> is_sha256 (sample_hash n)" by (simp add: list_all_iff del: upt_Suc)
qed

text \<open>Every outcome is a small JSON document in canonical order.\<close>

lemma sample_stage_bounds:
  assumes "n < 13"
  shows "length (cs_lane (fst (sample_stage n))) \<le> 64" "0 \<le> cs_ordinal (fst (sample_stage n))"
    "cs_ordinal (fst (sample_stage n)) < 100" "0 \<le> cs_pair (fst (sample_stage n))" "cs_pair (fst (sample_stage n)) < 100"
proof -
  have "list_all (\<lambda>n. length (cs_lane (fst (sample_stage n))) \<le> 64 \<and> 0 \<le> cs_ordinal (fst (sample_stage n))
      \<and> cs_ordinal (fst (sample_stage n)) < 100 \<and> 0 \<le> cs_pair (fst (sample_stage n)) \<and> cs_pair (fst (sample_stage n)) < 100)
      [0..<13]" by code_simp
  with assms show "length (cs_lane (fst (sample_stage n))) \<le> 64" "0 \<le> cs_ordinal (fst (sample_stage n))"
    "cs_ordinal (fst (sample_stage n)) < 100" "0 \<le> cs_pair (fst (sample_stage n))" "cs_pair (fst (sample_stage n)) < 100"
    by (simp_all add: list_all_iff del: upt_Suc)
qed

lemma sample_outcome_ok:
  assumes "n < 13"
  shows "json_ok True (JObj (sample_outcome n))" "length (serialize (sample_outcome n)) \<le> METADATA_FILE_MAX_BYTES"
    "canon (JObj (sample_outcome n)) = JObj (sample_outcome n)"
proof -
  note b = sample_stage_bounds [OF assms]
  have ints: "json_ok True (JInt 0)" "json_ok True (JInt 1)" "json_ok True (JInt (cs_ordinal (fst (sample_stage n))))"
    "json_ok True (JInt (cs_pair (fst (sample_stage n))))" using b by (simp_all only: small_int_ok)
  then show "json_ok True (JObj (sample_outcome n))"
    by (simp add: sample_outcome_def Let_def del: json_ok.simps(1))
  show "canon (JObj (sample_outcome n)) = JObj (sample_outcome n)"
    by (simp add: sample_outcome_def Let_def)
  have sizes: "text_bound (JInt 0) \<le> 400" "text_bound (JInt 1) \<le> 400"
    "text_bound (JInt (cs_ordinal (fst (sample_stage n)))) \<le> 400" "text_bound (JInt (cs_pair (fst (sample_stage n)))) \<le> 400"
    using b by (simp_all only: small_int_bound)
  have hashes: "length (cg_campaign sample_spec) = 64" "length (bytes_sha256 x) = 64" for x
    by (simp_all add: sample_spec_def is_sha256_length sha256_hex_value)
  have "\<forall>kv\<in>set (sample_outcome n). text_bound (snd kv) \<le> 400"
    using sizes b(1) hashes by (simp add: sample_outcome_def Let_def scored_name_def)
  from text_bound_entries [OF this] have "text_bound (JObj (sample_outcome n)) \<le> 100000"
    by (simp add: sample_outcome_def Let_def dkeys_def del: text_bound.simps)
  then show "length (serialize (sample_outcome n)) \<le> METADATA_FILE_MAX_BYTES"
    using length_serialize [of "sample_outcome n"] by (simp add: METADATA_FILE_MAX_BYTES_def)
qed

section \<open>The campaign runs\<close>

lemma sample_plausible: "n < 13 \<Longrightarrow> plausible_result (sample_request n) (sample_result n)"
  by (simp add: plausible_result_def sample_result_def sample_hash_ok optional_def sample_request_def)

lemma sample_valid:
  "n < 13 \<Longrightarrow> validate_stage_result sample_adapters w (sample_request n) (sample_result n) = Inr ()"
  using sample_plausible [of n] sample_files(1) [of n] sample_outcome_ok(2) [of n]
  by (simp add: validate_stage_result_def read_regular_file_def caught_as_def sample_adapters_def)
    (simp add: sample_result_def sample_files(1) read_regular_file_def)

lemma sample_answers:
  assumes "n < 13"
  shows "stage_answers sample_adapters (\<lambda>w. w) sample_result (\<lambda>n. n) n (sample_request n)"
  using sample_valid [OF assms] sample_hash_ok [of 0]
  by (simp add: stage_answers_def sample_adapters_def sample_request_def)
    (simp add: sample_result_def sample_request_def)

lemma sample_cooperates:
  "cooperates sample_adapters (\<lambda>w. w) sample_spec ''manifest'' sample_dir sample_result (\<lambda>n. n)"
proof -
  have "event_count sample_spec = 13" by (simp add: event_count_def sample_spec_def)
  then show ?thesis
    using sample_instances sample_answers sample_stage_request by (simp add: cooperates_def)
qed

lemma sample_holds: "holds sample_store []"
  by (simp add: holds_def folders_ok_def sample_store_def files_of_def heads_of_def)

lemma cooperative_campaign_finishes_witness:
  "(\<exists>s. calls sample_adapters (\<lambda>w. w) ''manifest'' (Some sample_bytes) ''campaign'' (sample_store, 0) 13 = (s, 13)
      \<and> length (events_of s) = 13 \<and> file_status (events_of s) 13 = JStr ''passed'')
   \<and> (\<exists>s w v. call sample_adapters ''manifest'' (Some sample_bytes) ''campaign''
          (calls sample_adapters (\<lambda>w. w) ''manifest'' (Some sample_bytes) ''campaign'' (sample_store, 0) 11) = (s, w, Inr v)
        \<and> av_sequence v = Some 12)"
proof -
  have 13: "event_count sample_spec = 13" by (simp add: event_count_def sample_spec_def)
  note finishes = cooperative_campaign_finishes [OF sample_spec_loads sample_holds sample_cooperates, unfolded 13]
  show ?thesis using finishes [THEN conjunct1, rule_format, of 13] finishes [THEN conjunct2, rule_format, of 11] by auto
qed

section \<open>The campaign as a history\<close>

lemma sample_count: "event_count sample_spec = 13"
  by (simp add: event_count_def sample_spec_def)

lemma sample_calls:
  assumes "n \<le> 13"
  obtains s es where "calls sample_adapters (\<lambda>w. w) ''manifest'' (Some sample_bytes) ''campaign'' (sample_store, 0) n = (s, n)"
    "holds s es" "length es = n" "written sample_adapters n sample_spec ''manifest'' sample_dir sample_result es"
    "n < 13 \<Longrightarrow> st_files s = []"
proof -
  have files: "st_files sample_store = []" by (simp add: sample_store_def)
  from calls_written [OF sample_spec_loads sample_holds sample_cooperates, unfolded sample_count, OF assms] that
  show thesis unfolding files by blast
qed

lemma sample_distinct: "n \<le> 13 \<Longrightarrow> distinct (instances sample_result n)"
  using distinct_instances_less [OF sample_instances] .

lemma sample_loads_chain:
  assumes "n \<le> 13" "holds s es" "length es = n" "written sample_adapters n sample_spec ''manifest'' sample_dir sample_result es"
  shows "load_events sample_adapters n disk sample_spec ''manifest'' sample_dir (events_of s) (contents (st_heads s))
       = (heads_of es, Inr (chain_of sample_result es))"
  using load_written [OF assms(4) load_campaign_spec_well_formed [OF sample_spec_loads],
      where H = "contents (st_heads s)" and disk = disk] assms
    sample_distinct [of n] by (simp add: sample_count holds_def heads_before_def)

lemma chain_commits_to_history_witness:
  "\<exists>s. length (events_of s) = 13
     \<and> (event_bytes (events_of s) 13 = event_bytes (events_of s) 13
        \<or> (\<exists>i x y. event_bytes (events_of s) (Suc i) = Some x \<and> event_bytes (events_of s) (Suc i) = Some y
            \<and> x \<noteq> y \<and> bytes_sha256 x = bytes_sha256 y))"
proof -
  obtain s es where s: "holds s es" "length es = 13" "written sample_adapters 13 sample_spec ''manifest'' sample_dir sample_result es"
    by (rule sample_calls [of 13], simp) blast
  note l = sample_loads_chain [OF order_refl s]
  have n: "length (events_of s) = 13" using s by (simp add: holds_def)
  from chain_commits_to_history [OF l l refl refl] show ?thesis
  proof
    assume "\<forall>i<length (events_of s). event_bytes (events_of s) (Suc i) = event_bytes (events_of s) (Suc i)"
    from this [rule_format, of 12] n have "event_bytes (events_of s) 13 = event_bytes (events_of s) 13" by simp
    with n show ?thesis by blast
  next
    assume "\<exists>i<length (events_of s). \<exists>x y. event_bytes (events_of s) (Suc i) = Some x
      \<and> event_bytes (events_of s) (Suc i) = Some y \<and> x \<noteq> y \<and> bytes_sha256 x = bytes_sha256 y"
    with n show ?thesis by blast
  qed
qed

text \<open>The same campaign with a log of its runs.\<close>

lemma sample_keeps_marks: "keeps_marks sample_adapters (\<lambda>w w'. w' = w)"
  by (auto simp: keeps_marks_def stage_absent_def sample_adapters_def)

definition sample_log :: "nat \<Rightarrow> nat \<times> campaign_request list" where
  "sample_log n = (n, map sample_request [0..<n])"

lemma logged_validate: "validate_stage_result (logged A) x q r = validate_stage_result A (fst x) q r"
  by (simp add: validate_stage_result_def logged_def)

lemma logged_answers:
  assumes "n < 13"
  shows "stage_answers (logged sample_adapters) (\<lambda>w. w) sample_result sample_log n (sample_request n)"
  using sample_answers [OF assms]
  by (auto simp: stage_answers_def logged_validate sample_log_def) (auto simp: logged_def sample_adapters_def)

lemma sample_logged_cooperates:
  "cooperates (logged sample_adapters) (\<lambda>w. w) sample_spec ''manifest'' sample_dir sample_result sample_log"
  using sample_count sample_instances logged_answers sample_stage_request by (simp add: cooperates_def)

lemma no_stage_runs_twice_witness:
  "\<exists>s. history (logged sample_adapters) (beside_log (\<lambda>w w'. w' = w)) ''manifest'' (Some sample_bytes) ''campaign''
       (sample_store, 0, []) (s, 13, map sample_request [0..<13])
     \<and> sorted_wrt (<) (map sq_sequence (map sample_request [0..<13]))"
proof -
  obtain s where c: "calls (logged sample_adapters) (\<lambda>w. w) ''manifest'' (Some sample_bytes) ''campaign'' (sample_store, sample_log 0) 13
      = (s, sample_log 13)"
    using calls_written [OF sample_spec_loads sample_holds sample_logged_cooperates, unfolded sample_count, of 13] by auto
  have beside: "beside_log (\<lambda>w w'. w' = w) = (\<lambda>x y. y = (x :: nat \<times> campaign_request list))"
    by (auto simp: beside_log_def fun_eq_iff prod_eq_iff)
  have "history (logged sample_adapters) (beside_log (\<lambda>w w'. w' = w)) ''manifest'' (Some sample_bytes) ''campaign''
       (sample_store, sample_log 0) (s, sample_log 13)"
    unfolding c [symmetric] by (rule calls_history [OF beside])
  then have h: "history (logged sample_adapters) (beside_log (\<lambda>w w'. w' = w)) ''manifest'' (Some sample_bytes) ''campaign''
       (sample_store, 0, []) (s, 13, map sample_request [0..<13])" by (simp add: sample_log_def)
  from h no_stage_runs_twice [OF h sample_spec_loads sample_keeps_marks] show ?thesis by blast
qed

section \<open>The campaign fails at its first stage\<close>

definition failed_record :: jobject where
  "failed_record = partial_event_record sample_spec (sample_request 0) None"

definition failed_store :: store where
  "failed_store = sample_store\<lparr>st_events := Private_Folder [(event_name 1, Regular (serialize failed_record))]\<rparr>"

lemma failed_checked:
  "checked_event A w sample_spec ''manifest'' sample_dir (events_of failed_store) [] 1
     = Inr (sorted_record failed_record, bytes_sha256 (serialize failed_record))"
  "is_partial (sorted_record failed_record)" "get (sorted_record failed_record) ''status'' = JStr ''failed''"
  "get (sorted_record failed_record) ''sequence'' = JInt 1"
  "unique_loads (serialize failed_record) = Inr (JObj (sorted_record failed_record))"
proof -
  have q: "stage_request sample_spec ''manifest'' sample_dir 1 = Inr (sample_request 0)"
    using sample_stage_request [of 0] by simp
  have bytes: "event_bytes (events_of failed_store) 1 = Some (serialize (partial_event_record sample_spec (sample_request 0) (previous_event [])))"
    by (simp add: event_bytes_def entry_bytes_def dget_def failed_store_def failed_record_def previous_event_def)
  have prev: "optional is_sha256 (previous_event [])" by (simp add: previous_event_def optional_def)
  have e: "partial_event_record sample_spec (sample_request 0) (previous_event []) = failed_record"
    by (simp add: failed_record_def previous_event_def)
  note c = checked_event_partial [OF load_campaign_spec_well_formed [OF sample_spec_loads] q prev bytes, unfolded e]
  show "checked_event A w sample_spec ''manifest'' sample_dir (events_of failed_store) [] 1
     = Inr (sorted_record failed_record, bytes_sha256 (serialize failed_record))" by (rule c(1))
  show "is_partial (sorted_record failed_record)" "get (sorted_record failed_record) ''status'' = JStr ''failed''"
    "get (sorted_record failed_record) ''sequence'' = JInt 1"
    "unique_loads (serialize failed_record) = Inr (JObj (sorted_record failed_record))"
    using c(2-5) by simp_all
qed

lemma failed_loads:
  "load_events A w (\<lambda>_. Completes) sample_spec ''manifest'' sample_dir (events_of failed_store) []
     = ([(event_name 1, Regular (serialize (head_record 1 (bytes_sha256 (serialize failed_record)))))],
        Inr \<lparr>ch_events = [(sorted_record failed_record, bytes_sha256 (serialize failed_record))], ch_used = []\<rparr>)"
proof -
  have length: "length (events_of failed_store) = 1" and keys: "dkeys (events_of failed_store) = [event_name 1]"
    by (simp_all add: failed_store_def dkeys_def)
  have names: "names_in_order sample_spec (events_of failed_store) []"
    using length keys by (simp add: names_in_order_def expected_names_def sample_count dkeys_def Let_def)
  have head: "check_head (\<lambda>_. Completes) 1 [] 1 h = ([(event_name 1, Regular (serialize (head_record 1 h)))], Inr ())" for h
    by (simp add: check_head_def atomic_write_no_clobber_def dkeys_def dset_new Let_def)
  have noted: "note_instance [] (sorted_record failed_record) = Inr []"
    using failed_checked(2) by (simp add: note_instance_def)
  have upto: "[1..<Suc 1] = [1 :: nat]" by simp
  show ?thesis
    unfolding load_events_def length upto load_sequence.simps load_event_def chain.select_convs failed_checked(1)
    using names by (simp add: head [simplified] noted)
qed

text \<open>The same directory with the head of its only event.\<close>

definition failed_head :: "string \<times> entry" where
  "failed_head = (event_name 1, Regular (serialize (head_record 1 (bytes_sha256 (serialize failed_record)))))"

lemma failed_loads_head:
  "load_events A w disk sample_spec ''manifest'' sample_dir (events_of failed_store) [failed_head]
     = ([failed_head],
        Inr \<lparr>ch_events = [(sorted_record failed_record, bytes_sha256 (serialize failed_record))], ch_used = []\<rparr>)"
proof -
  have length: "length (events_of failed_store) = 1" and keys: "dkeys (events_of failed_store) = [event_name 1]"
    by (simp_all add: failed_store_def dkeys_def)
  have names: "names_in_order sample_spec (events_of failed_store) [failed_head]"
    using length keys by (simp add: names_in_order_def expected_names_def sample_count dkeys_def failed_head_def Let_def)
  have "dget [failed_head] (event_name 1)
      = Some (Regular (serialize (head_record 1 (bytes_sha256 (serialize failed_record)))))"
    by (simp add: failed_head_def dget_def)
  then have head: "check_head disk 1 [failed_head] 1 (bytes_sha256 (serialize failed_record)) = ([failed_head], Inr ())"
    by (rule check_head_written) simp_all
  have noted: "note_instance [] (sorted_record failed_record) = Inr []"
    using failed_checked(2) by (simp add: note_instance_def)
  have upto: "[1..<Suc 1] = [1 :: nat]" by simp
  show ?thesis
    unfolding load_events_def length upto load_sequence.simps load_event_def chain.select_convs failed_checked(1)
    using names by (simp add: head [simplified] noted)
qed

lemma failed_status: "file_status (events_of failed_store) 1 = JStr ''failed''"
proof -
  have "event_bytes (events_of failed_store) 1 = Some (serialize failed_record)"
    by (simp add: failed_store_def event_bytes_def entry_bytes_def dget_def)
  from event_file_bytes [OF this failed_checked(5)] failed_checked(3) show ?thesis by (simp add: file_status_def)
qed

lemma lost_head_is_restored_witness:
  "file_status (events_of failed_store) 1 = JStr ''failed''
   \<and> advance_qualification_campaign sample_adapters (\<lambda>_. Completes) ''manifest'' (Some sample_bytes) ''campaign''
          (failed_store\<lparr>st_heads := Private_Folder []\<rparr>) 0
       = advance_qualification_campaign sample_adapters (\<lambda>_. Completes) ''manifest'' (Some sample_bytes) ''campaign''
          (failed_store\<lparr>st_heads := Private_Folder [failed_head]\<rparr>) 0"
proof -
  let ?s = "failed_store\<lparr>st_heads := Private_Folder [failed_head]\<rparr>"
  let ?ch = "\<lparr>ch_events = [(sorted_record failed_record, bytes_sha256 (serialize failed_record))], ch_used = []\<rparr>"
  have ok: "folders_ok ?s" by (simp add: folders_ok_def failed_store_def sample_store_def)
  have ne: "events_of ?s \<noteq> []" and n: "1 = length (events_of ?s)" by (simp_all add: failed_store_def)
  have heads: "contents (st_heads ?s)
      = [] @ [(event_name 1, Regular (serialize (head_record 1 (head_of (ch_events ?ch)))))]"
    by (simp add: failed_head_def head_of_def)
  have load: "load_events sample_adapters 0 (\<lambda>_. Completes) sample_spec ''manifest'' sample_dir (events_of ?s)
      (contents (st_heads ?s)) = ([failed_head], Inr ?ch)"
    using failed_loads_head by simp
  from lost_head_is_restored [OF ok sample_spec_loads ne heads n load refl] failed_status show ?thesis by simp
qed

lemma failure_is_terminal_witness:
  "\<exists>s v. advance_qualification_campaign sample_adapters (\<lambda>_. Completes) ''manifest'' (Some sample_bytes) ''campaign''
       failed_store 0 = (s, 0, Inr v)
     \<and> events_of s = events_of failed_store \<and> av_kind v = ''campaign_failed'' \<and> av_sequence v = Some 1"
proof -
  have ok: "folders_ok failed_store" by (simp add: folders_ok_def failed_store_def sample_store_def)
  have opened: "events_of (opened failed_store) = events_of failed_store" "contents (st_heads (opened failed_store)) = []"
    by (simp_all add: opened_def failed_store_def sample_store_def)
  have q: "stage_request sample_spec ''manifest'' sample_dir (Suc 0) = Inr (sample_request 0)"
    using sample_stage_request [of 0] by simp
  have "advance_locked sample_adapters 0 (\<lambda>_. Completes) ''manifest'' sample_dir sample_spec (opened failed_store)
      = (fst (advance_locked sample_adapters 0 (\<lambda>_. Completes) ''manifest'' sample_dir sample_spec (opened failed_store)), 0,
         terminal_advance sample_spec ''manifest'' sample_dir (sorted_record failed_record, bytes_sha256 (serialize failed_record)))"
    unfolding advance_locked_def opened failed_loads by (simp add: failed_checked(3) Let_def)
  moreover obtain v where "terminal_advance sample_spec ''manifest'' sample_dir
      (sorted_record failed_record, bytes_sha256 (serialize failed_record)) = Inr v"
    using failed_checked(4) q by (simp add: terminal_advance_def)
  ultimately obtain s where call: "advance_qualification_campaign sample_adapters (\<lambda>_. Completes) ''manifest'' (Some sample_bytes)
      ''campaign'' failed_store 0 = (s, 0, Inr v)"
    using advance_opened [OF ok sample_spec_loads] by metis
  have E: "events_of failed_store = [(event_name 1, Regular (serialize failed_record))]" by (simp add: failed_store_def)
  have "event_bytes (events_of failed_store) 1 = Some (serialize failed_record)"
    by (simp add: E event_bytes_def entry_bytes_def dget_def)
  from event_file_bytes [OF this failed_checked(5)] failed_checked(3)
  have "file_status (events_of failed_store) (length (events_of failed_store)) \<noteq> JStr ''passed''"
    by (simp add: E file_status_def)
  from failure_is_terminal [OF call _ this] call show ?thesis by (auto simp: E)
qed

section \<open>The campaign passes\<close>

lemma written_position:
  assumes "written_for A w spec m d es k q r"
  shows "get (fst (es ! k)) ''stage'' = JStr (sq_stage q)" "get (fst (es ! k)) ''slot_ordinal'' = JInt (cs_ordinal (sq_slot q))"
  using record_shape_get(3,4) [OF event_record_shape(1) [OF written_forD(2) [OF assms, unfolded next_record_def]
    predecessor_outcome_null]] by simp_all

text \<open>The events as they are when the last stage is recorded: loaded, but for the last one.\<close>

definition sample_events :: "event list \<Rightarrow> bool" where
  "sample_events es \<longleftrightarrow> length es = 13 \<and> (\<forall>k<13. get (fst (es ! k)) ''stage'' = JStr (snd (sample_stage k))
     \<and> get (fst (es ! k)) ''slot_ordinal'' = JInt (cs_ordinal (fst (sample_stage k)))
     \<and> get (fst (es ! k)) ''runtime_outcome_sha256'' = JStr (bytes_sha256 (serialize (sample_outcome k))))"

lemma written_sample_events:
  assumes "written sample_adapters w sample_spec ''manifest'' sample_dir sample_result (es @ [x])" "length es = 12"
  shows "sample_events (loaded es @ [x])"
proof -
  note wf = load_campaign_spec_well_formed [OF sample_spec_loads]
  let ?es = "es @ [x]"
  have "get (fst ((loaded es @ [x]) ! k)) ''stage'' = JStr (snd (sample_stage k))
     \<and> get (fst ((loaded es @ [x]) ! k)) ''slot_ordinal'' = JInt (cs_ordinal (fst (sample_stage k)))
     \<and> get (fst ((loaded es @ [x]) ! k)) ''runtime_outcome_sha256'' = JStr (bytes_sha256 (serialize (sample_outcome k)))"
    if k: "k < 13" for k
  proof -
    have l: "k < length ?es" using k assms(2) by simp
    with assms(1) obtain q where w: "written_for sample_adapters w sample_spec ''manifest'' sample_dir ?es k q (sample_result k)"
      unfolding written_def by blast
    have q: "q = sample_request k" using written_forD(1) [OF w] sample_stage_request [OF k] by simp
    note ok = written_last [OF assms(1) wf l w] and pos = written_position [OF w]
    have nth: "fst ((loaded es @ [x]) ! k) = (if k < 12 then sorted_record (fst (?es ! k)) else fst (?es ! k))"
      using assms(2) by (simp add: nth_append loaded_nth)
    show ?thesis
      using pos ok(7) get_sorted_record [OF ok(3)] unfolding nth q
      by (simp add: sample_request_def sample_result_def)
  qed
  then show ?thesis using assms(2) by (simp add: sample_events_def)
qed

lemma sample_positions: "distinct (map (\<lambda>k. (cs_ordinal (fst (sample_stage k)), snd (sample_stage k))) [0..<13])"
  by code_simp

lemma sample_event_at:
  assumes "sample_events es" "k < 13"
  shows "event_at es (fst (sample_stage k)) (snd (sample_stage k)) = Inr (fst (es ! k))"
proof -
  let ?P = "\<lambda>e. py_eq (get (fst e) ''slot_ordinal'') (JInt (cs_ordinal (fst (sample_stage k))))
     \<and> get (fst e) ''stage'' = JStr (snd (sample_stage k))"
  have len: "length es = 13" using assms(1) by (simp add: sample_events_def)
  have here: "?P (es ! k)" using assms by (simp add: sample_events_def)
  have only: "e = es ! k" if "e \<in> set es" "?P e" for e
  proof -
    from that(1) obtain j where j: "j < 13" "e = es ! j" using len by (metis in_set_conv_nth)
    with that(2) assms(1) have "(cs_ordinal (fst (sample_stage j)), snd (sample_stage j))
        = (cs_ordinal (fst (sample_stage k)), snd (sample_stage k))" by (simp add: sample_events_def)
    with sample_positions j(1) assms(2) have "j = k"
      by (simp only: distinct_map inj_on_def) auto
    with j show ?thesis by simp
  qed
  have "\<exists>e. find ?P (rev es) = Some e"
  proof (cases "find ?P (rev es)")
    case None
    moreover have "es ! k \<in> set (rev es)" using assms(2) len by simp
    ultimately show ?thesis using here unfolding find_None_iff by blast
  qed simp
  then obtain e where e: "find ?P (rev es) = Some e" by blast
  then obtain i where i: "i < length (rev es)" "?P (rev es ! i)" "e = rev es ! i" unfolding find_Some_iff by blast
  then have "e \<in> set es \<and> ?P e" using nth_mem [OF i(1)] by simp
  with only have "e = es ! k" by blast
  with e show ?thesis by (simp add: event_at_def)
qed

text \<open>The rows of a ledger, and the gate over all slots.\<close>

definition sample_wall :: "string \<Rightarrow> rat" where
  "sample_wall stage = (if stage = ''score-direct'' then 2 else 1)"

lemma sample_rows:
  "length (sample_ledger stage) \<le> METADATA_FILE_MAX_BYTES"
  "\<exists>line. decode_text (sample_ledger stage) = Inr (line @ [CHR 0x0A]) \<and> text_lines [] (line @ [CHR 0x0A]) = [line] \<and> line \<noteq> []
     \<and> unique_loads_text line = Inr (JObj [(''case_id'', JStr ''case-1''), (''metadata'', JObj [(''agentic_family'', JStr ''tools'')]),
          (''passed'', JBool True), (''telemetry'', JObj [(''wall_s'', JInt (if stage = ''score-direct'' then 2 else 1))])])"
proof -
  have same: "sample_ledger stage = sample_ledger (if stage = ''score-direct'' then ''score-direct'' else ''score-proxy'')"
    by (simp add: sample_ledger_def)
  let ?text = "sample_row (if stage = ''score-direct'' then ''2'' else ''1'') @ [CHR 0x0A]"
  have "length ?text \<le> 200" by (simp add: sample_row_def)
  then show "length (sample_ledger stage) \<le> METADATA_FILE_MAX_BYTES"
    using length_utf8 [of ?text] by (simp add: sample_ledger_def METADATA_FILE_MAX_BYTES_def)
  have a: "decode_text (sample_ledger ''score-direct'') = Inr (sample_row ''2'' @ [CHR 0x0A])"
    "decode_text (sample_ledger ''score-proxy'') = Inr (sample_row ''1'' @ [CHR 0x0A])" by code_simp+
  have b: "text_lines [] (sample_row ''2'' @ [CHR 0x0A]) = [sample_row ''2'']"
    "text_lines [] (sample_row ''1'' @ [CHR 0x0A]) = [sample_row ''1'']" by code_simp+
  have c: "unique_loads_text (sample_row ''2'') = Inr (JObj [(''case_id'', JStr ''case-1''),
       (''metadata'', JObj [(''agentic_family'', JStr ''tools'')]), (''passed'', JBool True), (''telemetry'', JObj [(''wall_s'', JInt 2)])])"
    "unique_loads_text (sample_row ''1'') = Inr (JObj [(''case_id'', JStr ''case-1''),
       (''metadata'', JObj [(''agentic_family'', JStr ''tools'')]), (''passed'', JBool True), (''telemetry'', JObj [(''wall_s'', JInt 1)])])"
    by code_simp+
  have "sample_row w \<noteq> []" for w by (simp add: sample_row_def)
  with a b c show "\<exists>line. decode_text (sample_ledger stage) = Inr (line @ [CHR 0x0A]) \<and> text_lines [] (line @ [CHR 0x0A]) = [line] \<and> line \<noteq> []
     \<and> unique_loads_text line = Inr (JObj [(''case_id'', JStr ''case-1''), (''metadata'', JObj [(''agentic_family'', JStr ''tools'')]),
          (''passed'', JBool True), (''telemetry'', JObj [(''wall_s'', JInt (if stage = ''score-direct'' then 2 else 1))])])"
    unfolding same by (cases "stage = ''score-direct''") (fastforce simp del: unique_loads_text_def)+
qed

lemma sample_benefit_row:
  "benefit_row sample_spec ([], []) line = Inr ([''case-1''], [(''case-1'', ''tools'', of_int w)])"
  if "unique_loads_text line = Inr (JObj [(''case_id'', JStr ''case-1''), (''metadata'', JObj [(''agentic_family'', JStr ''tools'')]),
          (''passed'', JBool True), (''telemetry'', JObj [(''wall_s'', JInt w)])])" "line \<noteq> []" "0 < w"
  using that sample_names
  by (simp add: benefit_row_def get_Cons member_def sample_spec_def)

lemma sample_outcome_accepted:
  assumes "1 \<le> k" "k < 13"
  shows "scored_ledger_outcome (sample_outcome k) (sample_ledger (snd (sample_stage k))) (scored_name (snd (sample_stage k)))
           (fst (sample_stage k)) sample_spec"
proof -
  have keys: "keys_are OUTCOME_KEYS (sample_outcome k)"
    by (auto simp: keys_are_def OUTCOME_KEYS_def sample_outcome_def dkeys_def Let_def)
  show ?thesis
    using keys unfolding scored_ledger_outcome_def sample_outcome_def Let_def
    by (simp add: get_Cons sample_spec_def)
qed

lemma sample_benefit_rows:
  assumes "1 \<le> k" "k < 13"
  shows "policy_benefit_rows (Some (sample_ledger (snd (sample_stage k)))) (Some (serialize (sample_outcome k)))
           (JStr (bytes_sha256 (serialize (sample_outcome k)))) (scored_name (snd (sample_stage k))) (fst (sample_stage k)) sample_spec
         = Inr [(''case-1'', ''tools'', sample_wall (snd (sample_stage k)))]"
proof -
  note o = sample_outcome_ok [OF assms(2)]
  have load: "unique_loads (serialize (sample_outcome k)) = Inr (JObj (sample_outcome k))"
    using unique_loads_serialize [OF o(1)] o(3) by simp
  have outcome: "validate_scored_ledger_outcome (Some (serialize (sample_outcome k))) (JStr (bytes_sha256 (serialize (sample_outcome k))))
      (sample_ledger (snd (sample_stage k))) (scored_name (snd (sample_stage k))) (fst (sample_stage k)) sample_spec = Inr ()"
    using o(2) load sample_outcome_accepted [OF assms] by (simp add: validate_scored_ledger_outcome_def read_regular_file_def)
  obtain line where line: "decode_text (sample_ledger (snd (sample_stage k))) = Inr (line @ [CHR 0x0A])"
    "text_lines [] (line @ [CHR 0x0A]) = [line]" "line \<noteq> []"
    "unique_loads_text line = Inr (JObj [(''case_id'', JStr ''case-1''), (''metadata'', JObj [(''agentic_family'', JStr ''tools'')]),
          (''passed'', JBool True),
          (''telemetry'', JObj [(''wall_s'', JInt (if snd (sample_stage k) = ''score-direct'' then 2 else 1))])])"
    using sample_rows(2) by blast
  have row: "benefit_row sample_spec ([], []) line = Inr ([''case-1''], [(''case-1'', ''tools'', sample_wall (snd (sample_stage k)))])"
    using sample_benefit_row [OF line(4,3)] by (simp add: sample_wall_def split: if_splits)
  have "cg_order sample_spec = dumps_sha256 (JArr [JStr ''case-1''])" "cg_case_ids sample_spec = dumps_sha256 (JArr [JStr ''case-1''])"
    "cg_scenarios sample_spec = 1" "cg_case_count sample_spec = 1" by (simp_all add: sample_spec_def sample_cases_def)
  moreover have "\<not> METADATA_FILE_MAX_BYTES < length (sample_ledger (snd (sample_stage k)))"
    using sample_rows(1) [of "snd (sample_stage k)"] by simp
  ultimately show ?thesis
    using outcome line(1,2) row
    by (simp add: policy_benefit_rows_def read_regular_file_def dkeys_def)
qed

lemma sample_slot_samples:
  assumes "sample_events es" "j < 6"
  shows "slot_samples sample_adapters w sample_dir sample_spec es (direct, proxy) (sample_slots ! j) = Inr (direct @ [2], proxy @ [1])"
proof -
  let ?d = "2 * j + 1" and ?p = "2 * j + 2"
  have k: "1 \<le> ?d" "?d < 13" "1 \<le> ?p" "?p < 13" using assms(2) by simp_all
  have d: "sample_stage ?d = (sample_slots ! j, ''score-direct'')" by (simp add: sample_stage_def)
  have p: "sample_stage ?p = (sample_slots ! j, ''score-proxy'')" by (simp add: sample_stage_def)
  have files: "slot_file sample_adapters w sample_dir (sample_slots ! j) ''scored-direct.jsonl'' = Some (sample_ledger ''score-direct'')"
    "slot_file sample_adapters w sample_dir (sample_slots ! j) ''scored-proxy.jsonl'' = Some (sample_ledger ''score-proxy'')"
    "slot_file sample_adapters w sample_dir (sample_slots ! j) (stage_outcome_name ''score-direct'') = Some (serialize (sample_outcome ?d))"
    "slot_file sample_adapters w sample_dir (sample_slots ! j) (stage_outcome_name ''score-proxy'') = Some (serialize (sample_outcome ?p))"
    using sample_files(2) [OF k(1,2), unfolded d] sample_files(2) [OF k(3,4), unfolded p]
      sample_files(1) [OF k(2)] sample_files(1) [OF k(4)]
    unfolding sample_request_def sample_path_def d p
    by (simp_all add: slot_file_def sample_adapters_def ledger_name_def)
  have "event_at es (sample_slots ! j) ''score-direct'' = Inr (fst (es ! ?d))" "event_at es (sample_slots ! j) ''score-proxy'' = Inr (fst (es ! ?p))"
    using sample_event_at [OF assms(1) k(2)] sample_event_at [OF assms(1) k(4)] unfolding d p by simp_all
  moreover have "get (fst (es ! ?d)) ''runtime_outcome_sha256'' = JStr (bytes_sha256 (serialize (sample_outcome ?d)))"
    "get (fst (es ! ?p)) ''runtime_outcome_sha256'' = JStr (bytes_sha256 (serialize (sample_outcome ?p)))"
    using assms(1) k unfolding sample_events_def by blast+
  ultimately show ?thesis
    using files sample_benefit_rows [OF k(1,2)] sample_benefit_rows [OF k(3,4)] unfolding d p
    by (simp add: slot_samples_def scored_name_def sample_wall_def dkeys_def dget_def)
qed

lemma sample_benefit_samples:
  assumes "sample_events es"
  shows "benefit_samples sample_adapters w sample_dir sample_spec es = Inr ([2, 2, 2, 2, 2, 2], [1, 1, 1, 1, 1, 1])"
proof -
  have slots: "cg_slots sample_spec = map (\<lambda>j. sample_slots ! j) [0, 1, 2, 3, 4, 5]"
    by (simp add: sample_spec_def sample_slots_def)
  have "cg_case_count sample_spec = 1" by (simp add: sample_spec_def)
  then show ?thesis
    using sample_slot_samples [OF assms, of 0] sample_slot_samples [OF assms, of 1] sample_slot_samples [OF assms, of 2]
      sample_slot_samples [OF assms, of 3] sample_slot_samples [OF assms, of 4] sample_slot_samples [OF assms, of 5]
    unfolding benefit_samples_def slots by simp
qed

lemma sample_benefit_reached: "benefit_reached [2, 2, 2, 2, 2, 2] [1, 1, 1, 1, 1, 1]"
  by code_simp

lemma sample_benefit_gate:
  assumes "sample_events es"
  obtains gate where "policy_benefit_gate sample_adapters w sample_dir sample_spec es = Inr gate" "get gate ''status'' = JStr ''passed''"
  using sample_benefit_samples [OF assms, of w] sample_benefit_reached
  by (simp add: policy_benefit_gate_def Let_def get_Cons)

lemma sample_campaign_completes:
  assumes "sample_events es" "length used = 13" "st_files s = []"
  obtains s' v where "complete_campaign sample_adapters w (\<lambda>_. Completes) sample_dir sample_spec s \<lparr>ch_events = es, ch_used = used\<rparr>
      = (s', Inr v)" "av_kind v = ''campaign_passed''"
proof -
  obtain gate where gate: "policy_benefit_gate sample_adapters w sample_dir sample_spec es = Inr gate" "get gate ''status'' = JStr ''passed''"
    by (rule sample_benefit_gate [OF assms(1)])
  have v1: "cg_version sample_spec \<noteq> ''v2''" by (simp add: sample_spec_def)
  have new: "OUTCOME_FILE \<notin> set (dkeys (st_files s))" by (simp add: assms(3) dkeys_def)
  show thesis
    using that gate v1 new assms(2)
    by (simp add: complete_campaign_def complete_v1_def settle_outcome_def atomic_write_no_clobber_def Let_def final_advance_def)
qed

lemma sample_campaign_passes:
  obtains s s' v where "history sample_adapters (\<lambda>w w'. w' = w) ''manifest'' (Some sample_bytes) ''campaign'' (sample_store, 0) (s, 12)"
    "advance_qualification_campaign sample_adapters (\<lambda>_. Completes) ''manifest'' (Some sample_bytes) ''campaign'' s 12 = (s', 13, Inr v)"
    "av_kind v = ''campaign_passed''"
proof -
  obtain s es where s: "calls sample_adapters (\<lambda>w. w) ''manifest'' (Some sample_bytes) ''campaign'' (sample_store, 0) 12 = (s, 12)"
    "holds s es" "length es = 12" "written sample_adapters 12 sample_spec ''manifest'' sample_dir sample_result es" "st_files s = []"
    by (rule sample_calls [of 12], simp) simp
  have less: "12 < event_count sample_spec" by (simp add: sample_count)
  have q: "stage_request sample_spec ''manifest'' sample_dir (Suc 12) = Inr (sample_request 12)"
    by (rule sample_stage_request) simp
  obtain e w where e: "written sample_adapters (Suc 12) sample_spec ''manifest'' sample_dir sample_result (es @ [(e, bytes_sha256 (serialize e))])"
    "Suc 12 = w" and call: "call sample_adapters ''manifest'' (Some sample_bytes) ''campaign'' (s, 12)
       = finishes_stage sample_adapters sample_dir sample_spec (with_chain s (es @ [(e, bytes_sha256 (serialize e))])) w (sample_request 12)
           \<lparr>ch_events = loaded es @ [(e, bytes_sha256 (serialize e))], ch_used = instances sample_result (Suc 12)\<rparr>
           (bytes_sha256 (serialize e))"
    by (rule call_cooperates [OF sample_spec_loads s(2,4,3) less q sample_cooperates]) blast
  have files: "st_files (with_chain s (es @ [(e, bytes_sha256 (serialize e))])) = []"
    using s(5) by (simp add: with_chain_def opened_def)
  have used: "length (instances sample_result (Suc 12)) = 13" by simp
  obtain s' v where finished: "complete_campaign sample_adapters w (\<lambda>_. Completes) sample_dir sample_spec
      (with_chain s (es @ [(e, bytes_sha256 (serialize e))]))
      \<lparr>ch_events = loaded es @ [(e, bytes_sha256 (serialize e))], ch_used = instances sample_result (Suc 12)\<rparr> = (s', Inr v)"
    "av_kind v = ''campaign_passed''"
    by (rule sample_campaign_completes [OF written_sample_events [OF e(1) s(3)] used files])
  have "sq_sequence (sample_request 12) = event_count sample_spec" by (simp add: sample_request_def sample_count)
  with call finished(1) e(2) have "call sample_adapters ''manifest'' (Some sample_bytes) ''campaign'' (s, 12) = (s', 13, Inr v)"
    by (simp add: finishes_stage_def)
  then have "advance_qualification_campaign sample_adapters (\<lambda>_. Completes) ''manifest'' (Some sample_bytes) ''campaign'' s 12 = (s', 13, Inr v)"
    by (simp add: call_def)
  moreover have "history sample_adapters (\<lambda>w w'. w' = w) ''manifest'' (Some sample_bytes) ''campaign'' (sample_store, 0) (s, 12)"
    unfolding s(1) [symmetric] by (rule calls_history [OF refl])
  ultimately show thesis using finished(2) that by blast
qed

lemma passed_campaign_is_earned_witness:
  "\<exists>s s' v spec es direct proxy x y.
     history sample_adapters (\<lambda>w w'. w' = w) ''manifest'' (Some sample_bytes) ''campaign'' (sample_store, 0) (s, 12)
     \<and> advance_qualification_campaign sample_adapters (\<lambda>_. Completes) ''manifest'' (Some sample_bytes) ''campaign'' s 12 = (s', 13, Inr v)
     \<and> av_kind v = ''campaign_passed'' \<and> load_campaign_spec (Some sample_bytes) = Inr spec \<and> length (events_of s') = 13
     \<and> list_all2 (backed_cohort sample_adapters 13 sample_dir spec es ''direct'') (cg_slots spec) direct
     \<and> list_all2 (backed_cohort sample_adapters 13 sample_dir spec es ''proxy'') (cg_slots spec) proxy
     \<and> ranked95 x (walls direct) \<and> ranked95 y (walls proxy) \<and> y \<le> 80 / 100 * x * (1 + 1 / 10 ^ 27)"
proof -
  obtain s s' v where h: "history sample_adapters (\<lambda>w w'. w' = w) ''manifest'' (Some sample_bytes) ''campaign'' (sample_store, 0) (s, 12)"
    "advance_qualification_campaign sample_adapters (\<lambda>_. Completes) ''manifest'' (Some sample_bytes) ''campaign'' s 12 = (s', 13, Inr v)"
    "av_kind v = ''campaign_passed''" by (rule sample_campaign_passes)
  have "events_of sample_store = []" by (simp add: sample_store_def)
  from passed_campaign_is_earned [OF h(1) this h(2,3)] h show ?thesis by blast
qed

end
