(* ===== verification/Spec2Isabelle.thy ===== *)
theory Spec2Isabelle
  imports Harness_History Projection Accounting Capabilities Config Transcript_Pairing Chat_Properties Admission_Laws
    Api_Properties Campaign_V2_Laws Reconciliation_Laws Campaign_Sample
begin

text \<open>
  Verification development of the ShiftedX agent harness proxy
  (\<open>src/src/shiftedx_harness_proxy/\<close>), an OpenAI-compatible HTTP proxy that stands between agent
  clients and a model server and holds the model's tool use to a policy: no repeated call, no answer
  without evidence, no answer while a verification is owed, and no policy decision in the hands of
  the client.

  \<^bold>\<open>The program and its model.\<close> A request enters \<open>api.py\<close>, which authenticates it, reads its body within
  bounds, admits it through \<open>admission.py\<close> and hands it to \<open>service.py\<close>. The service validates the
  payload, rebuilds the state of an \<open>AgentHarness\<close> (\<open>core.py\<close>) from the visible transcript
  (\<open>transcript.py\<close>), and then alternates calls of the upstream (\<open>transport.py\<close>) with the decisions of
  the harness until an answer or tool call can be released, sometimes without any upstream call
  (\<open>projection.py\<close>). The released completion is sent as JSON or replayed as events (\<open>streaming.py\<close>).
  The qualification code evaluates recorded runs of the proxy: \<open>qualification_reconciliation.py\<close>
  compares the counters of one run with its ledgers, the loaders of \<open>qualification_contract.py\<close> and
  \<open>qualification_campaign_v2_evidence.py\<close> authenticate what a stage left behind, and
  \<open>qualification_campaign_v2.py\<close> decides from the outcomes of all runs whether the proxy is promoted.
  \<open>qualification_campaign.py\<close> drives a whole campaign, one stage per call, and keeps an append-only
  chain of events in a private directory.

  \<^item> \<open>Prelude\<close>, \<open>Json\<close>, \<open>Sha256\<close>, \<open>Wire\<close>: what the code uses of Python's standard library. Text and its
    character classes, dictionaries as association lists in insertion order (\<open>dget\<close>, \<open>dset\<close>, \<open>dpop\<close>,
    an interpretation of the locale \<open>dictionary\<close>), exceptions as the left side of a sum (\<open>bind\<close>,
    \<open>run_steps\<close>), the JSON scanner and printer, SHA-256 and HMAC on words of 32 bits, UTF-8.
    \<open>Json_Laws\<close> has the round trip of the JSON codec (locale \<open>codec\<close>), the canonical form, and that
    printed text holds no control character.
  \<^item> \<open>Core\<close>, \<open>Core_Laws\<close>: \<open>core.py\<close>. The harness is a record with the fields of \<open>AgentHarness\<close>; \<open>duplicate\<close>,
    \<open>stalled_result\<close>, \<open>record_result\<close>, \<open>terminal_issue\<close> are its methods. The abstract state is the ledger of
    receipts, of which every other field is a function, and the other laws are read off the ledger.
    \<open>Harness_History\<close> states the terminal gate over whole histories of executed, repeated and stalled calls,
    with no reference to the fields of the harness, and what two equal signatures say of two calls.
  \<^item> \<open>Projection\<close>, \<open>Accounting\<close>: \<open>projection.py\<close> and \<open>projection_accounting.py\<close>, the release of an exact
    tool result as the final answer and the marker that accounts for it.
  \<^item> \<open>Capabilities\<close>, \<open>Config\<close>: \<open>provider_capabilities.py\<close>, \<open>errors.py\<close>, \<open>cache_policy.py\<close> and \<open>config.py\<close>.
  \<^item> \<open>Transcript\<close>, \<open>Transcript_Laws\<close>: \<open>transcript.py\<close>. Preparation of tools and schemas, and the pairing
    of visible calls and results, refined to the harness that recorded them. \<open>Transcript_Pairing\<close> reads a
    transcript as one sequence of calls and results, which alternate for every identifier if it is intact.
  \<^item> \<open>Service\<close>, \<open>Chat_Loop\<close>, \<open>Attempts\<close>, \<open>Chat_Laws\<close>, \<open>Chat_Properties\<close>, \<open>Interventions\<close>: \<open>service.py\<close>.
    \<open>Service\<close> validates a request and makes its plan; \<open>Chat_Loop\<close> has one definition per decision of an attempt and the
    two loops. \<open>Attempts\<close> states a loop of counted attempts once, as a locale, and both loops are
    interpretations of it. \<open>Chat_Properties\<close> speaks of whole requests (\<open>complete\<close>). \<open>Interventions\<close> counts
    what the policy did to a request from the responses alone, and shows that the service counts the same.
  \<^item> \<open>Streaming\<close>, \<open>Transport\<close>: \<open>streaming.py\<close> and \<open>transport.py\<close>.
  \<^item> \<open>Admission\<close>, \<open>Admission_Laws\<close>: \<open>admission.py\<close> as a step relation over interleaved requests, its
    invariants by induction over reachable states, and progress.
  \<^item> \<open>Api\<close>, \<open>Api_Properties\<close>: the handlers of \<open>api.py\<close>.
  \<^item> \<open>Campaign_V2\<close>, \<open>Campaign_V2_Laws\<close>: \<open>qualification_campaign_v2.py\<close>. \<open>validate_and_pair_iff\<close> characterises
    the evidence that is evaluated; the summaries are then counted over the records themselves.
  \<^item> \<open>Reconciliation\<close>, \<open>Reconciliation_Laws\<close>: \<open>qualification_reconciliation.py\<close>. The partition of the
    observed attempts, the agreement of the counters, the ledger and the artifact as bytes.

  \<^item> \<open>Outcome\<close>, \<open>Evidence_V2\<close>: the loaders of \<open>qualification_contract.py\<close> (model evidence, runtime outcome,
    runtime attestation) and the evidence adapter of version 2.
  \<^item> \<open>Campaign\<close>: \<open>qualification_campaign.py\<close>, the manifest, the chain of events and heads, the policy
    benefit gate, the completion and the advance. The private directory is the record \<open>store\<close>.
    \<open>Campaign_Laws\<close>: the frozen order of the stages, records as bytes, what an accepted chain commits
    to. \<open>Campaign_Manifest\<close>: what a manifest that loads promises, written out slot by slot and stage by
    stage. \<open>Campaign_History\<close>: the inductive relation \<open>history\<close> of calls, with failures of the disk and
    restarts of the model in between, and what holds of every history. \<open>Decimal_Laws\<close>,
    \<open>Campaign_Benefit\<close>: the error of a product rounded to 28 digits, the percentile by counting, and the
    ledgers, outcomes and events behind a passed campaign. \<open>Campaign_Progress\<close>: what a call writes is
    accepted by the next, so that a cooperating campaign comes to its end. \<open>Campaign_Heads\<close>: a head that
    was lost is restored, whatever the last event says. \<open>Campaign_Sample\<close>: a concrete campaign of thirteen
    stages that passes, and one that fails at its first stage.

  \<^bold>\<open>State and errors.\<close> State is passed explicitly in records named after the classes. A call that may
  raise has a sum type: \<open>exn\<close> for the exceptions of Python, \<open>failure\<close> (a public \<open>ProxyError\<close>, or an
  exception nobody handles) for the service, \<open>refusal\<close> for the reconciliation, a category text for the
  evaluator. The loops of the service return a run that also logs every payload sent upstream with
  its phase, so that theorems can speak of what left the proxy.

  \<^bold>\<open>Parameters.\<close> What is outside the repository is an argument: the upstream (\<open>nat \<Rightarrow> jobject \<Rightarrow> jobject
  outcome\<close>, which answers the n-th payload), the HTTP exchange of the transport (\<open>exchange\<close>, \<open>network\<close>),
  the YAML parser of the configuration (\<open>load\<close>), fresh identifiers and the time of a completion, the
  clock readings of the admission steps, the chunks of a request body and the point at which a client
  or the deadline interrupts (the environment record of \<open>Api\<close>), the content of a private file and the
  refusal of its writer. For the campaign these are the stage runner, the readiness probe and the
  files they leave (the record \<open>adapters\<close>, over a state of their own) and the effect of the disk on each
  write (\<open>disk\<close>: done, failed, or torn after a prefix). No theorem assumes anything of the upstream.
  \<open>no_stage_runs_twice\<close> assumes that a stage that was run is not reported absent afterwards
  (\<open>keeps_marks\<close>), \<open>cooperative_campaign_finishes\<close> that the runner answers (\<open>cooperates\<close>); the sample
  campaign satisfies both.

  \<^bold>\<open>Bounds and fuel.\<close> The JSON scanners count their calls; \<open>scan_fuel_enough\<close> shows that twice the length
  of the text is always enough. The loops of the service are bounded by \<open>max_upstream_calls\<close>, as in the
  code: \<open>loop_unfold\<close> shows that the recursion of the model is the \<open>while\<close> loop, which therefore ends.
  All other recursion is structural or has a termination proof. An integer literal of more than 4300
  digits raises \<open>ValueError\<close>, and one that long cannot be printed, as in Python.

  \<^bold>\<open>What the groups of lemmas show.\<close> \<open>Core_Laws\<close>: the harness is a function of its ledger, the terminal
  gate (\<open>Harness_History\<close>) accepts exactly the answers its rules allow. \<open>Transcript_Laws\<close> and
  \<open>Transcript_Pairing\<close>: nothing is recorded that the transcript does not show, nothing that it shows is
  lost from an intact one, and protected roles survive. \<open>Chat_Laws\<close> and \<open>Chat_Properties\<close>: what is
  released is the harness's decision about the last response, within the bounds of the settings.
  \<open>Api_Properties\<close> composes admission of the request, trust and service: an ordinary client cannot
  weaken the policy. \<open>Transport\<close>, \<open>Config\<close>, \<open>Admission_Laws\<close>: bounds, safe errors and progress.
  \<open>Campaign_V2_Laws\<close> and \<open>Reconciliation_Laws\<close>: a promotion or a passed run says what it claims of the
  records behind it. The theories of the campaign: no stage runs twice, a failure is terminal, a passed
  campaign is earned, a campaign whose stages succeed ends, and a lost head does not stop it.

  \<^bold>\<open>Where the model is coarser.\<close> Strings are code points up to U+00FF; an input that needs more is
  \<open>OutsideModel\<close>, and so is JSON in another encoding than UTF-8. A float is a decimal with at most 15
  significant digits. Code between two suspension points is one step of the admission relation, its
  locks are never contended, and the order in which semaphores wake their waiters is left open. A
  \<open>Decimal\<close> of the evaluator is a rational rounded to 28 digits, half to even; the exponent range of
  the context is not modelled.

  \<^bold>\<open>Not modelled.\<close> The timing capture of the qualification runs wherever it is threaded through the
  proxy (\<open>qualification_timing.py\<close>), CORS, logging, the rendering of responses by the web framework and
  \<open>main.py\<close>. Of the qualification code the runtime supervisor, the probes of the model server, the
  observer, and the fingerprints and gates of the contract, and the scripts: nearly everywhere calls
  of the operating system around files, processes and sockets. Of the campaign driver the permission
  bits of files and the file lock are flags of the store, and two calls never overlap.
\<close>

end
